(* ===== verification/Prelude.thy ===== *)
theory Prelude
  imports
    Main
    "HOL-Library.AList"
    "HOL-Library.Multiset"
    "HOL-Library.Char_ord"
    "HOL-Library.List_Lexorder"
    "HOL-Library.Product_Lexorder"
begin

text \<open>
  Shared vocabulary of the development: Python exceptions as values, the sequencing of
  computations that may raise, loops over sequences, dictionaries as association lists in
  insertion order, identifiers, zero-padded ordinals, and the generic lemmas the
  component theories share.

  Conventions. Python integers are \<open>int\<close>; loop counters and list positions that start at
  zero and only grow are \<open>nat\<close>. A Python \<open>str\<close> is a \<open>string\<close> (code points below 256). The
  \<open>isinstance\<close> guards of the source hold by typing, so their error branches have no
  counterpart. \<open>Product_Lexorder\<close>, \<open>List_Lexorder\<close> and \<open>Char_ord\<close> give tuples and strings
  the order that Python's \<open>sorted\<close> uses.
\<close>

section \<open>Exceptions and sequencing\<close>

datatype py_exc =
    ValueError string
  | TypeError string
  | AssertionError string
  | RuntimeError string
  | KeyError
  | IndexError
  | ZeroDivisionError
  | OverflowError string
  | OutputPlanError string
  | CloudExecutionPlanError string
  | QueryCompilerError string
  | DuplicateMaskBindingError string
  | PreparedF1MCommitmentError string
  | ConsumedPreparedF1MCommitmentError string
  | OrdinaryQueryLifecycleError string
  | StrongExecutionError string

type_synonym 'a res = "py_exc + 'a"

named_theorems res_simps \<open>Rewriting of computations that may raise.\<close>

definition rbind :: "'a res \<Rightarrow> ('a \<Rightarrow> 'b res) \<Rightarrow> 'b res" where
  "rbind m f = (case m of Inl e \<Rightarrow> Inl e | Inr x \<Rightarrow> f x)"

definition require :: "bool \<Rightarrow> py_exc \<Rightarrow> unit res" where
  "require b e = (if b then Inr () else Inl e)"

text \<open>A \<open>for\<close> loop whose body may raise: the first exception ends it.\<close>

fun rfold :: "('s \<Rightarrow> 'a \<Rightarrow> 's res) \<Rightarrow> 's \<Rightarrow> 'a list \<Rightarrow> 's res" where
  "rfold f s [] = Inr s"
| "rfold f s (x # xs) = rbind (f s x) (\<lambda>s'. rfold f s' xs)"

text \<open>A comprehension whose element expression may raise.\<close>

fun rmap :: "('a \<Rightarrow> 'b res) \<Rightarrow> 'a list \<Rightarrow> 'b list res" where
  "rmap f [] = Inr []"
| "rmap f (x # xs) = rbind (f x) (\<lambda>y. rbind (rmap f xs) (\<lambda>ys. Inr (y # ys)))"

lemma rbind_Inl [simp, res_simps]: "rbind (Inl e) f = Inl e"
  by (simp add: rbind_def)

lemma rbind_Inr [simp, res_simps]: "rbind (Inr x) f = f x"
  by (simp add: rbind_def)

lemma rbind_eq_Inr [res_simps]:
  "rbind m f = Inr y \<longleftrightarrow> (\<exists>x. m = Inr x \<and> f x = Inr y)"
  by (cases m) auto

lemma rbind_assoc: "rbind (rbind m f) g = rbind m (\<lambda>x. rbind (f x) g)"
  by (cases m) auto

lemma rbind_cong [fundef_cong]:
  assumes "m = m'" and "\<And>x. m' = Inr x \<Longrightarrow> f x = f' x"
  shows "rbind m f = rbind m' f'"
  using assms by (cases m') auto

lemma require_eq_Inr [simp, res_simps]: "require b e = Inr u \<longleftrightarrow> b"
  by (simp add: require_def)

lemma require_True [simp]: "b \<Longrightarrow> require b e = Inr ()"
  by (simp add: require_def)

lemma require_False [simp]: "\<not> b \<Longrightarrow> require b e = Inl e"
  by (simp add: require_def)

lemma rfold_append: "rfold f s (xs @ ys) = rbind (rfold f s xs) (\<lambda>s'. rfold f s' ys)"
  by (induction xs arbitrary: s) (auto simp: rbind_assoc)

lemma rfold_invariant:
  assumes "rfold f s xs = Inr s'" and "P s"
    and "\<And>s x t. x \<in> set xs \<Longrightarrow> P s \<Longrightarrow> f s x = Inr t \<Longrightarrow> P t"
  shows "P s'"
  using assms by (induction xs arbitrary: s) (auto simp: res_simps)

lemma rfold_Inr_total:
  assumes "P s" and "\<And>s x. x \<in> set xs \<Longrightarrow> P s \<Longrightarrow> \<exists>t. f s x = Inr t \<and> P t"
  shows "\<exists>s'. rfold f s xs = Inr s' \<and> P s'"
  using assms
proof (induction xs arbitrary: s)
  case Nil
  then show ?case by simp
next
  case (Cons x xs)
  from Cons.prems obtain t where t: "f s x = Inr t" "P t" by auto
  then have "\<exists>s'. rfold f t xs = Inr s' \<and> P s'"
    using Cons.prems(2) by (intro Cons.IH) auto
  with t show ?case by simp
qed

text \<open>Invariants that speak of the part of the sequence already visited.\<close>

lemma rfold_prefix_invariant:
  assumes "rfold f s xs = Inr s'" and "P [] s"
    and "\<And>ys x zs s t. xs = ys @ x # zs \<Longrightarrow> P ys s \<Longrightarrow> f s x = Inr t \<Longrightarrow> P (ys @ [x]) t"
  shows "P xs s'"
  using assms
proof (induction xs arbitrary: s' rule: rev_induct)
  case Nil
  then show ?case by simp
next
  case (snoc x xs)
  from snoc.prems(1) obtain t where t: "rfold f s xs = Inr t" "f t x = Inr s'"
    by (auto simp: rfold_append rbind_eq_Inr)
  have "P xs t" using t(1) snoc.prems(2) by (rule snoc.IH) (use snoc.prems(3) in auto)
  then show ?case using t(2) snoc.prems(3) [of xs x "[]" t s'] by simp
qed

lemma foldl_prefix_invariant:
  assumes "P [] s"
    and "\<And>ys x zs s. xs = ys @ x # zs \<Longrightarrow> P ys s \<Longrightarrow> P (ys @ [x]) (f s x)"
  shows "P xs (foldl f s xs)"
  using assms
proof (induction xs rule: rev_induct)
  case Nil
  then show ?case by simp
next
  case (snoc x xs)
  have "P xs (foldl f s xs)" using snoc.prems by (intro snoc.IH) auto
  then show ?case using snoc.prems(2) [of xs x "[]"] by simp
qed

text \<open>A loop whose body only checks: it succeeds exactly when every check does.\<close>

lemma rfold_unit_iff:
  "rfold (\<lambda>u x. f x) () xs = Inr () \<longleftrightarrow> (\<forall>x \<in> set xs. f x = Inr ())"
  by (induction xs) (auto simp: res_simps)

lemma rfold_pure: "rfold (\<lambda>s x. Inr (f s x)) s xs = Inr (foldl f s xs)"
  by (induction xs arbitrary: s) auto

lemma rmap_eq_Inr_length: "rmap f xs = Inr ys \<Longrightarrow> length ys = length xs"
  by (induction xs arbitrary: ys) (auto simp: res_simps)

lemma rmap_eq_Inr_nth:
  "rmap f xs = Inr ys \<Longrightarrow> i < length xs \<Longrightarrow> f (xs ! i) = Inr (ys ! i)"
proof (induction xs arbitrary: ys i)
  case Nil
  then show ?case by simp
next
  case (Cons x xs)
  then show ?case by (cases i) (auto simp: res_simps)
qed

lemma rmap_pure: "rmap (\<lambda>x. Inr (f x)) xs = Inr (map f xs)"
  by (induction xs) auto

lemma rmap_cong [fundef_cong]:
  "xs = ys \<Longrightarrow> (\<And>x. x \<in> set ys \<Longrightarrow> f x = g x) \<Longrightarrow> rmap f xs = rmap g ys"
  by (induction ys arbitrary: xs) auto

lemma rfold_cong [fundef_cong]:
  "s = t \<Longrightarrow> xs = ys \<Longrightarrow> (\<And>u x. x \<in> set ys \<Longrightarrow> f u x = g u x) \<Longrightarrow> rfold f s xs = rfold g t ys"
proof (induction ys arbitrary: xs s t)
  case Nil
  then show ?case by simp
next
  case (Cons y ys)
  then show ?case by (cases "g t y") auto
qed

section \<open>Effects on a store\<close>

text \<open>
  A computation on a store that may raise returns its outcome together with the store it
  leaves, so that an effect made before an exception is not lost. An operation that is one
  transaction (\<open>transact\<close>) leaves the store as it was when it raises.
\<close>

type_synonym ('l, 'a) action = "'l \<Rightarrow> 'a res \<times> 'l"

definition sbind :: "('l, 'a) action \<Rightarrow> ('a \<Rightarrow> ('l, 'b) action) \<Rightarrow> ('l, 'b) action" where
  "sbind m f l = (case m l of (Inl e, l') \<Rightarrow> (Inl e, l') | (Inr x, l') \<Rightarrow> f x l')"

definition slift :: "'a res \<Rightarrow> ('l, 'a) action" where
  "slift r l = (r, l)"

definition transact :: "('l \<Rightarrow> ('a \<times> 'l) res) \<Rightarrow> ('l, 'a) action" where
  "transact f l = (case f l of Inl e \<Rightarrow> (Inl e, l) | Inr (x, l') \<Rightarrow> (Inr x, l'))"

definition transact_unit :: "('l \<Rightarrow> 'l res) \<Rightarrow> ('l, unit) action" where
  "transact_unit f l = (case f l of Inl e \<Rightarrow> (Inl e, l) | Inr l' \<Rightarrow> (Inr (), l'))"

lemma sbind_Inr:
  "sbind m f l = (Inr y, l2) \<longleftrightarrow> (\<exists>x l1. m l = (Inr x, l1) \<and> f x l1 = (Inr y, l2))"
  by (auto simp: sbind_def split: prod.splits sum.splits)

lemma sbind_Inl:
  "sbind m f l = (Inl e, l2) \<longleftrightarrow>
     m l = (Inl e, l2) \<or> (\<exists>x l1. m l = (Inr x, l1) \<and> f x l1 = (Inl e, l2))"
  by (auto simp: sbind_def split: prod.splits sum.splits)

lemma slift_eq [simp]: "slift r l = (r', l') \<longleftrightarrow> r = r' \<and> l = l'"
  by (simp add: slift_def)

lemma transact_Inr [simp]: "transact f l = (Inr x, l') \<longleftrightarrow> f l = Inr (x, l')"
  by (auto simp: transact_def split: sum.splits)

lemma transact_Inl [simp]: "transact f l = (Inl e, l') \<longleftrightarrow> f l = Inl e \<and> l' = l"
  by (auto simp: transact_def split: sum.splits)

lemma transact_unit_Inr [simp]: "transact_unit f l = (Inr u, l') \<longleftrightarrow> f l = Inr l'"
  by (auto simp: transact_unit_def split: sum.splits)

lemma transact_unit_Inl [simp]: "transact_unit f l = (Inl e, l') \<longleftrightarrow> f l = Inl e \<and> l' = l"
  by (auto simp: transact_unit_def split: sum.splits)

text \<open>\<open>except (A, B) as error: raise E from error\<close>, with the exception classes as a predicate.\<close>

fun is_value_error :: "py_exc \<Rightarrow> bool" where
  "is_value_error (ValueError _) = True"
| "is_value_error (OutputPlanError _) = True"
| "is_value_error (CloudExecutionPlanError _) = True"
| "is_value_error (QueryCompilerError _) = True"
| "is_value_error (OrdinaryQueryLifecycleError _) = True"
| "is_value_error (StrongExecutionError _) = True"
| "is_value_error _ = False"

fun is_type_error :: "py_exc \<Rightarrow> bool" where
  "is_type_error (TypeError _) = True"
| "is_type_error _ = False"

fun is_runtime_error :: "py_exc \<Rightarrow> bool" where
  "is_runtime_error (RuntimeError _) = True"
| "is_runtime_error (DuplicateMaskBindingError _) = True"
| "is_runtime_error (PreparedF1MCommitmentError _) = True"
| "is_runtime_error (ConsumedPreparedF1MCommitmentError _) = True"
| "is_runtime_error _ = False"

definition rewrap :: "(py_exc \<Rightarrow> bool) \<Rightarrow> py_exc \<Rightarrow> 'a res \<Rightarrow> 'a res" where
  "rewrap p err r = (case r of Inl e \<Rightarrow> Inl (if p e then err else e) | Inr x \<Rightarrow> Inr x)"

definition srewrap :: "(py_exc \<Rightarrow> bool) \<Rightarrow> py_exc \<Rightarrow> ('l, 'a) action \<Rightarrow> ('l, 'a) action" where
  "srewrap p err m l = (case m l of (r, l') \<Rightarrow> (rewrap p err r, l'))"

lemma rewrap_Inr [simp]: "rewrap p err r = Inr x \<longleftrightarrow> r = Inr x"
  by (auto simp: rewrap_def split: sum.splits)

lemma srewrap_Inr [simp]: "srewrap p err m l = (Inr x, l') \<longleftrightarrow> m l = (Inr x, l')"
  by (auto simp: srewrap_def split: prod.splits)

section \<open>Sequences\<close>

text \<open>\<open>enumerate(xs)\<close> with the counter as a Python integer.\<close>

definition py_enumerate :: "'a list \<Rightarrow> (int \<times> 'a) list" where
  "py_enumerate xs = zip (map int [0..<length xs]) xs"

lemma length_py_enumerate [simp]: "length (py_enumerate xs) = length xs"
  by (simp add: py_enumerate_def)

lemma nth_py_enumerate [simp]: "i < length xs \<Longrightarrow> py_enumerate xs ! i = (int i, xs ! i)"
  by (simp add: py_enumerate_def)

lemma set_py_enumerate: "set (py_enumerate xs) = {(int i, xs ! i) |i. i < length xs}"
proof -
  have "set (py_enumerate xs) = {py_enumerate xs ! i |i. i < length xs}"
    by (subst set_conv_nth) simp
  also have "\<dots> = {(int i, xs ! i) |i. i < length xs}"
    by (rule Collect_cong) (metis nth_py_enumerate)
  finally show ?thesis .
qed

lemma map_fst_py_enumerate [simp]: "map fst (py_enumerate xs) = map int [0..<length xs]"
  by (simp add: py_enumerate_def)

lemma map_snd_py_enumerate [simp]: "map snd (py_enumerate xs) = xs"
  by (simp add: py_enumerate_def)

lemma distinct_fst_py_enumerate: "distinct (map fst (py_enumerate xs))"
  by (simp add: distinct_map inj_on_def)

text \<open>\<open>range(n)\<close> and \<open>range(a, b)\<close> over Python integers.\<close>

definition py_range :: "int \<Rightarrow> int \<Rightarrow> int list" where
  "py_range a b = map (\<lambda>k. a + int k) [0..<nat (b - a)]"

lemma length_py_range [simp]: "length (py_range a b) = nat (b - a)"
  by (simp add: py_range_def)

lemma nth_py_range [simp]: "i < nat (b - a) \<Longrightarrow> py_range a b ! i = a + int i"
  by (simp add: py_range_def)

lemma set_py_range [simp]: "set (py_range a b) = {a..<b}"
proof -
  have "x \<in> (\<lambda>k. a + int k) ` {0..<nat (b - a)}" if "a \<le> x" "x < b" for x
    using that by (intro image_eqI [where x = "nat (x - a)"]) auto
  then show ?thesis by (auto simp: py_range_def)
qed

lemma distinct_py_range [simp]: "distinct (py_range a b)"
  by (simp add: py_range_def distinct_map inj_on_def)

lemma py_range_from_0: "py_range 0 (int n) = map int [0..<n]"
  by (simp add: py_range_def)

section \<open>Dictionaries in insertion order\<close>

text \<open>
  A Python \<open>dict\<close> is an association list with distinct keys: \<open>AList.update\<close> overwrites in
  place or appends, as Python does, and \<open>AList.delete\<close> removes the key.
\<close>

type_synonym ('k, 'v) dict = "('k \<times> 'v) list"

definition dict_ok :: "('k, 'v) dict \<Rightarrow> bool" where
  "dict_ok d \<longleftrightarrow> distinct (map fst d)"

definition dict_get :: "('k, 'v) dict \<Rightarrow> 'k \<Rightarrow> 'v \<Rightarrow> 'v" where
  "dict_get d k v = (case map_of d k of None \<Rightarrow> v | Some w \<Rightarrow> w)"

text \<open>\<open>{k: v for ...}\<close>, where a repeated key keeps its place and takes the last value.\<close>

definition dict_of :: "('k \<times> 'v) list \<Rightarrow> ('k, 'v) dict" where
  "dict_of items = foldl (\<lambda>d (k, v). AList.update k v d) [] items"

text \<open>\<open>==\<close> on dictionaries ignores insertion order.\<close>

definition dict_eq :: "('k, 'v) dict \<Rightarrow> ('k, 'v) dict \<Rightarrow> bool" where
  "dict_eq d e \<longleftrightarrow> set d = set e"

lemma dict_ok_Nil [simp]: "dict_ok []"
  by (simp add: dict_ok_def)

lemma dict_ok_update [simp]: "dict_ok d \<Longrightarrow> dict_ok (AList.update k v d)"
  by (simp add: dict_ok_def distinct_update)

lemma dict_ok_delete [simp]: "dict_ok d \<Longrightarrow> dict_ok (AList.delete k d)"
  by (simp add: dict_ok_def distinct_delete)

lemma map_of_update: "map_of (AList.update k v d) = (map_of d)(k \<mapsto> v)"
  by (rule update_conv')

lemma map_of_delete: "map_of (AList.delete k d) = (map_of d)(k := None)"
  by (rule delete_conv')

lemma foldl_update_keys:
  "fst ` set (foldl (\<lambda>d (k, v). AList.update k v d) d items) = fst ` set d \<union> fst ` set items"
  by (induction items arbitrary: d)
    (simp_all add: split_beta map_of_update flip: dom_map_of_conv_image_fst)

lemma foldl_update_ok:
  "dict_ok d \<Longrightarrow> dict_ok (foldl (\<lambda>d (k, v). AList.update k v d) d items)"
  by (induction items arbitrary: d) (simp_all add: split_beta)

lemma foldl_update_map_of:
  "distinct (map fst items) \<Longrightarrow>
     map_of (foldl (\<lambda>d (k, v). AList.update k v d) d items) = map_of d ++ map_of items"
proof (induction items arbitrary: d)
  case Nil
  then show ?case by simp
next
  case (Cons item items)
  obtain k v where item: "item = (k, v)" by (cases item)
  have "map_of items k = None" using Cons.prems by (simp add: item map_of_eq_None_iff)
  then show ?case
    using Cons by (auto simp: item map_of_update map_add_def fun_eq_iff split: option.splits)
qed

lemma dict_of_keys [simp]: "fst ` set (dict_of items) = fst ` set items"
  by (simp add: dict_of_def foldl_update_keys)

lemma dict_of_ok [simp]: "dict_ok (dict_of items)"
  by (simp add: dict_of_def foldl_update_ok)

lemma map_of_dict_of: "distinct (map fst items) \<Longrightarrow> map_of (dict_of items) = map_of items"
  by (simp add: dict_of_def foldl_update_map_of)

lemma dict_eq_map_of:
  assumes "dict_ok d" and "dict_ok e"
  shows "dict_eq d e \<longleftrightarrow> map_of d = map_of e"
proof
  assume eq: "dict_eq d e"
  have "map_of d k = Some v \<longleftrightarrow> map_of e k = Some v" for k v
    using assms eq by (simp add: dict_ok_def dict_eq_def)
  then have "map_of d k = map_of e k" for k
    by (metis not_None_eq)
  then show "map_of d = map_of e" by (rule ext)
next
  assume "map_of d = map_of e"
  then have "(k, v) \<in> set d \<longleftrightarrow> (k, v) \<in> set e" for k v
    using assms by (metis dict_ok_def map_of_eq_Some_iff)
  then show "dict_eq d e" by (auto simp: dict_eq_def)
qed

text \<open>
  \<open>collections.Counter\<close> with integer counts, \<open>dict.setdefault(k, []).append(v)\<close>, and
  \<open>sorted(set(xs))\<close>.
\<close>

definition counter_add :: "('k, int) dict \<Rightarrow> 'k \<Rightarrow> ('k, int) dict" where
  "counter_add d k = AList.update k (dict_get d k 0 + 1) d"

definition counter_of :: "'k list \<Rightarrow> ('k, int) dict" where
  "counter_of xs = foldl counter_add [] xs"

definition dict_append :: "('k, 'v list) dict \<Rightarrow> 'k \<Rightarrow> 'v \<Rightarrow> ('k, 'v list) dict" where
  "dict_append d k v = AList.update k (dict_get d k [] @ [v]) d"

definition sorted_set :: "'a::linorder list \<Rightarrow> 'a list" where
  "sorted_set xs = sort (remdups xs)"

lemma dict_get_update [simp]:
  "dict_get (AList.update k v d) k' w = (if k' = k then v else dict_get d k' w)"
  by (simp add: dict_get_def map_of_update)

lemma dict_get_Nil [simp]: "dict_get [] k v = v"
  by (simp add: dict_get_def)

lemma dict_keys_update: "fst ` set (AList.update k v d) = insert k (fst ` set d)"
  by (simp add: map_of_update flip: dom_map_of_conv_image_fst)

lemma dict_get_foldl_counter:
  "dict_get (foldl counter_add d xs) k 0 = dict_get d k 0 + int (count_list xs k)"
  by (induction xs arbitrary: d) (simp_all add: counter_add_def)

lemma dict_get_counter [simp]: "dict_get (counter_of xs) k 0 = int (count_list xs k)"
  by (simp add: counter_of_def dict_get_foldl_counter)

lemma dict_ok_foldl_counter: "dict_ok d \<Longrightarrow> dict_ok (foldl counter_add d xs)"
  by (induction xs arbitrary: d) (simp_all add: counter_add_def)

lemma dict_ok_counter [simp]: "dict_ok (counter_of xs)"
  by (simp add: counter_of_def dict_ok_foldl_counter)

lemma dict_keys_foldl_counter:
  "fst ` set (foldl counter_add d xs) = fst ` set d \<union> set xs"
  by (induction xs arbitrary: d) (auto simp: counter_add_def dict_keys_update)

lemma dict_keys_counter [simp]: "fst ` set (counter_of xs) = set xs"
  by (simp add: counter_of_def dict_keys_foldl_counter)

lemma counter_item:
  assumes "(k, c) \<in> set (counter_of xs)"
  shows "c = int (count_list xs k)" and "k \<in> set xs"
proof -
  have "map_of (counter_of xs) k = Some c"
    using assms dict_ok_counter [of xs] by (simp add: dict_ok_def)
  then have "dict_get (counter_of xs) k 0 = c" by (simp add: dict_get_def)
  then show "c = int (count_list xs k)" by simp
  have "k \<in> fst ` set (counter_of xs)" by (rule image_eqI [OF _ assms]) simp
  then show "k \<in> set xs" by simp
qed

lemma length_counter: "length (counter_of xs) = card (set xs)"
proof -
  have "length (counter_of xs) = card (fst ` set (counter_of xs))"
    using dict_ok_counter [of xs] by (metis dict_ok_def distinct_card length_map set_map)
  then show ?thesis by simp
qed

lemma sum_counter:
  "sum_list (map (\<lambda>(k, c). f k c) (counter_of xs)) = (\<Sum>k \<in> set xs. f k (int (count_list xs k)))"
proof -
  have "map (\<lambda>(k, c). f k c) (counter_of xs) =
      map (\<lambda>k. f k (int (count_list xs k))) (map fst (counter_of xs))"
    using counter_item by force
  also have "sum_list \<dots> = (\<Sum>k \<in> set (map fst (counter_of xs)). f k (int (count_list xs k)))"
    using dict_ok_counter [of xs] by (intro sum_list_distinct_conv_sum_set) (simp add: dict_ok_def)
  finally show ?thesis by simp
qed

lemma dict_get_append [simp]:
  "dict_get (dict_append d k v) k' [] = (if k' = k then dict_get d k [] @ [v] else dict_get d k' [])"
  by (simp add: dict_append_def)

lemma dict_ok_append [simp]: "dict_ok d \<Longrightarrow> dict_ok (dict_append d k v)"
  by (simp add: dict_append_def)

lemma dict_get_foldl_append:
  "dict_get (foldl (\<lambda>d (k, v). dict_append d k v) d xs) k [] =
     dict_get d k [] @ map snd (filter (\<lambda>x. fst x = k) xs)"
  by (induction xs arbitrary: d) auto

lemma dict_keys_append: "fst ` set (dict_append d k v) = insert k (fst ` set d)"
  by (simp add: dict_append_def dict_keys_update)

lemma dict_keys_foldl_append:
  "fst ` set (foldl (\<lambda>d (k, v). dict_append d k v) d xs) = fst ` set d \<union> fst ` set xs"
  by (induction xs arbitrary: d) (simp_all add: dict_keys_append split_beta)

lemma dict_ok_foldl_append:
  "dict_ok d \<Longrightarrow> dict_ok (foldl (\<lambda>d (k, v). dict_append d k v) d xs)"
  by (induction xs arbitrary: d) (auto simp: split_beta)

lemma dict_get_item: "dict_ok d \<Longrightarrow> (k, v) \<in> set d \<Longrightarrow> dict_get d k w = v"
  by (simp add: dict_get_def dict_ok_def)

lemma dict_item_key: "(k, v) \<in> set d \<Longrightarrow> k \<in> fst ` set d"
  by force

lemma set_sorted_set [simp]: "set (sorted_set xs) = set xs"
  by (simp add: sorted_set_def)

lemma distinct_sorted_set [simp]: "distinct (sorted_set xs)"
  by (simp add: sorted_set_def)

lemma sorted_sorted_set [simp]: "sorted (sorted_set xs)"
  by (simp add: sorted_set_def)

section \<open>Identifiers and zero-padded ordinals\<close>

text \<open>Non-empty printable ASCII without blanks: \<open>0x21 <= ord(c) <= 0x7E\<close> throughout.\<close>

definition id_char :: "char \<Rightarrow> bool" where
  "id_char c \<longleftrightarrow> (33::nat) \<le> of_char c \<and> of_char c \<le> (126::nat)"

definition valid_id :: "string \<Rightarrow> bool" where
  "valid_id s \<longleftrightarrow> s \<noteq> [] \<and> list_all id_char s"

definition hex_chars :: string where
  "hex_chars = ''0123456789abcdef''"

definition valid_sha256 :: "string \<Rightarrow> bool" where
  "valid_sha256 s \<longleftrightarrow> length s = 64 \<and> list_all (\<lambda>c. c \<in> set hex_chars) s"

text \<open>Decimal digits, and the format specifications \<open>:06d\<close> and \<open>:08d\<close>.\<close>

definition digit_char :: "nat \<Rightarrow> char" where
  "digit_char d = char_of (48 + d)"

fun decimal :: "nat \<Rightarrow> string" where
  "decimal n = (if n < 10 then [digit_char n] else decimal (n div 10) @ [digit_char (n mod 10)])"

declare decimal.simps [simp del]

definition pad_decimal :: "nat \<Rightarrow> nat \<Rightarrow> string" where
  "pad_decimal w n = replicate (w - length (decimal n)) (CHR ''0'') @ decimal n"

abbreviation fmt06 :: "nat \<Rightarrow> string" where
  "fmt06 n \<equiv> pad_decimal 6 n"

abbreviation fmt08 :: "nat \<Rightarrow> string" where
  "fmt08 n \<equiv> pad_decimal 8 n"

text \<open>Reading a padded ordinal back shows that the format is injective.\<close>

definition undecimal :: "string \<Rightarrow> nat" where
  "undecimal = foldl (\<lambda>a c. 10 * a + (of_char c - 48)) 0"

lemma of_char_digit [simp]: "d < 10 \<Longrightarrow> of_char (digit_char d) = 48 + d"
  by (simp add: digit_char_def)

lemma undecimal_decimal [simp]: "undecimal (decimal n) = n"
proof (induction n rule: decimal.induct)
  case (1 n)
  show ?case
  proof (cases "n < 10")
    case True
    then show ?thesis by (simp add: decimal.simps [of n] undecimal_def)
  next
    case False
    with 1 have "undecimal (decimal (n div 10)) = n div 10" by simp
    with False show ?thesis
      by (simp add: decimal.simps [of n] undecimal_def)
  qed
qed

lemma undecimal_zeros: "undecimal (replicate k (CHR ''0'') @ s) = undecimal s"
  by (induction k) (simp_all add: undecimal_def)

lemma undecimal_pad [simp]: "undecimal (pad_decimal w n) = n"
  by (simp add: pad_decimal_def undecimal_zeros)

lemma pad_decimal_inject [simp]: "pad_decimal w m = pad_decimal w n \<longleftrightarrow> m = n"
  by (metis undecimal_pad)

lemma id_char_digit: "d < 10 \<Longrightarrow> id_char (digit_char d)"
  by (simp add: id_char_def)

lemma id_char_decimal: "list_all id_char (decimal n)"
proof (induction n rule: decimal.induct)
  case (1 n)
  then show ?case
    by (cases "n < 10") (simp_all add: decimal.simps [of n] id_char_digit)
qed

lemma id_char_pad [simp]: "list_all id_char (pad_decimal w n)"
  using id_char_decimal [of n]
  by (auto simp: pad_decimal_def list_all_iff id_char_def)

lemma decimal_nonempty [simp]: "decimal n \<noteq> []"
  by (subst decimal.simps) simp

lemma pad_decimal_nonempty [simp]: "pad_decimal w n \<noteq> []"
  by (simp add: pad_decimal_def)

lemma valid_id_append:
  "list_all id_char s \<Longrightarrow> valid_id t \<Longrightarrow> valid_id (s @ t)"
  by (auto simp: valid_id_def)

end
