(* ===== verification/Canonical.thy ===== *)
theory Canonical
  imports Prelude "HOL-Library.Word"
begin

text \<open>
  What the source uses of the standard library to bind values: \<open>json.dumps\<close> with sorted
  keys and the separators \<open>(",", ":")\<close>, and \<open>hashlib.sha256(...).hexdigest()\<close>. Both are
  executable definitions, so that every digest of the model is the digest of the program.
  Properties use only that a digest has the shape of one (\<open>valid_sha256_hex\<close>) and that
  digests are functions of the value.
\<close>

section \<open>Canonical JSON\<close>

datatype json =
    JNull
  | JInt int
  | JStr string
  | JList "json list"
  | JObj "(string \<times> json) list"

definition json_int :: "int \<Rightarrow> string" where
  "json_int i = (if i < 0 then CHR ''-'' # decimal (nat (- i)) else decimal (nat i))"

definition hex_digit :: "nat \<Rightarrow> char" where
  "hex_digit d = hex_chars ! (d mod 16)"

text \<open>
  Character escapes: the first argument is \<open>ensure_ascii\<close>. The two settings the source uses
  differ only on code points above \<open>0x7E\<close>, which no validated identifier holds.
\<close>

definition json_char :: "bool \<Rightarrow> char \<Rightarrow> string" where
  "json_char ascii c =
     (let n = of_char c :: nat in
      if n = 34 then [char_of (92 :: nat), char_of (34 :: nat)]
      else if n = 92 then [char_of (92 :: nat), char_of (92 :: nat)]
      else if n = 10 then char_of (92 :: nat) # ''n''
      else if n = 13 then char_of (92 :: nat) # ''r''
      else if n = 9 then char_of (92 :: nat) # ''t''
      else if n = 8 then char_of (92 :: nat) # ''b''
      else if n = 12 then char_of (92 :: nat) # ''f''
      else if n < 32 \<or> (ascii \<and> 126 < n)
        then char_of (92 :: nat) # ''u00'' @ [hex_digit (n div 16), hex_digit n]
      else [c])"

definition json_str :: "bool \<Rightarrow> string \<Rightarrow> string" where
  "json_str ascii s =
     [char_of (34 :: nat)] @ concat (map (json_char ascii) s) @ [char_of (34 :: nat)]"

fun join :: "string \<Rightarrow> string list \<Rightarrow> string" where
  "join sep [] = []"
| "join sep [x] = x"
| "join sep (x # y # xs) = x @ sep @ join sep (y # xs)"

primrec dumps :: "bool \<Rightarrow> json \<Rightarrow> string" where
  "dumps ascii JNull = ''null''"
| "dumps ascii (JInt i) = json_int i"
| "dumps ascii (JStr s) = json_str ascii s"
| "dumps ascii (JList js) = ''['' @ join '','' (map (dumps ascii) js) @ '']''"
| "dumps ascii (JObj kvs) =
     ''{'' @ join '','' (map (\<lambda>(k, s). json_str ascii k @ '':'' @ s)
               (sort_key fst (map (map_prod id (dumps ascii)) kvs))) @ ''}''"

abbreviation jints :: "int list \<Rightarrow> json" where
  "jints xs \<equiv> JList (map JInt xs)"

section \<open>SHA-256\<close>

type_synonym w32 = "32 word"

text \<open>
  The constants are the first 32 bits of the fractions of square and cube roots of primes; they
  are computed here, one bit of the root at a time.
\<close>

fun root_bits :: "nat \<Rightarrow> nat \<Rightarrow> nat \<Rightarrow> nat \<Rightarrow> nat" where
  "root_bits k n 0 r = r"
| "root_bits k n (Suc b) r = root_bits k n b (if (r + 2 ^ b) ^ k \<le> n then r + 2 ^ b else r)"

definition root_fraction :: "nat \<Rightarrow> nat \<Rightarrow> w32" where
  "root_fraction k p = of_nat (root_bits k (p * 2 ^ (32 * k)) 40 0)"

definition primes_below :: "nat \<Rightarrow> nat list" where
  "primes_below m = filter (\<lambda>n. list_all (\<lambda>d. n mod d \<noteq> 0) [2..<n]) [2..<m]"

definition sha_k :: "w32 list" where
  "sha_k = map (root_fraction 3) (primes_below 312)"

definition sha_init :: "w32 list" where
  "sha_init = map (root_fraction 2) [2, 3, 5, 7, 11, 13, 17, 19]"

definition w32_of_bytes :: "nat list \<Rightarrow> w32" where
  "w32_of_bytes bs = of_nat (foldl (\<lambda>a b. 256 * a + b) 0 bs)"

definition sha_pad :: "nat list \<Rightarrow> nat list" where
  "sha_pad bs =
     (let n = length bs; z = (119 - n mod 64) mod 64; bits = 8 * n in
      bs @ [128] @ replicate z 0 @ map (\<lambda>i. bits div 256 ^ (7 - i) mod 256) [0..<8])"

fun chunks_of :: "nat \<Rightarrow> nat \<Rightarrow> 'a list \<Rightarrow> 'a list list" where
  "chunks_of k 0 xs = []"
| "chunks_of k (Suc n) xs = take k xs # chunks_of k n (drop k xs)"

definition sha_word :: "w32 list \<Rightarrow> w32" where
  "sha_word ws =
     (let t = length ws; a = ws ! (t - 15); b = ws ! (t - 2);
          s0 = xor (xor (word_rotr 7 a) (word_rotr 18 a)) (drop_bit 3 a);
          s1 = xor (xor (word_rotr 17 b) (word_rotr 19 b)) (drop_bit 10 b)
      in ws ! (t - 16) + s0 + ws ! (t - 7) + s1)"

fun sha_schedule :: "nat \<Rightarrow> w32 list \<Rightarrow> w32 list" where
  "sha_schedule 0 ws = ws"
| "sha_schedule (Suc n) ws = sha_schedule n (ws @ [sha_word ws])"

definition sha_round :: "w32 list \<Rightarrow> w32 \<times> w32 \<Rightarrow> w32 list" where
  "sha_round h kw =
     (let a = h ! 0; b = h ! 1; c = h ! 2; d = h ! 3; e = h ! 4; f = h ! 5; g = h ! 6;
          s1 = xor (xor (word_rotr 6 e) (word_rotr 11 e)) (word_rotr 25 e);
          ch = xor (and e f) (and (not e) g);
          t1 = h ! 7 + s1 + ch + fst kw + snd kw;
          s0 = xor (xor (word_rotr 2 a) (word_rotr 13 a)) (word_rotr 22 a);
          mj = xor (xor (and a b) (and a c)) (and b c)
      in [t1 + s0 + mj, a, b, c, d + t1, e, f, g])"

definition sha_block :: "w32 list \<Rightarrow> nat list \<Rightarrow> w32 list" where
  "sha_block h blk =
     (let ws = sha_schedule 48 (map w32_of_bytes (chunks_of 4 16 blk))
      in map2 (+) h (foldl sha_round h (zip sha_k ws)))"

definition sha256_words :: "nat list \<Rightarrow> w32 list" where
  "sha256_words bs =
     (let p = sha_pad bs in foldl sha_block sha_init (chunks_of 64 (length p div 64) p))"

definition hex_of_w32 :: "w32 \<Rightarrow> string" where
  "hex_of_w32 w = map (\<lambda>i. hex_digit (unat w div 16 ^ (7 - i))) [0..<8]"

text \<open>\<open>hashlib.sha256(s.encode("ascii")).hexdigest()\<close>.\<close>

definition sha256_hex :: "string \<Rightarrow> string" where
  "sha256_hex s = concat (map hex_of_w32 (sha256_words (map of_char s)))"

lemma length_sha_round: "length (sha_round h kw) = 8"
  by (simp add: sha_round_def Let_def)

lemma length_foldl_sha_round:
  "length h = 8 \<Longrightarrow> length (foldl sha_round h ks) = 8"
  by (induction ks arbitrary: h) (simp_all add: length_sha_round)

lemma length_sha_block: "length h = 8 \<Longrightarrow> length (sha_block h blk) = 8"
  by (simp add: sha_block_def Let_def length_foldl_sha_round)

lemma length_foldl_sha_block:
  "length h = 8 \<Longrightarrow> length (foldl sha_block h bs) = 8"
  by (induction bs arbitrary: h) (simp_all add: length_sha_block)

lemma length_sha256_words: "length (sha256_words bs) = 8"
  by (simp add: sha256_words_def Let_def length_foldl_sha_block sha_init_def)

lemma hex_digit_in: "hex_digit d \<in> set hex_chars"
  unfolding hex_digit_def by (rule nth_mem) (simp add: hex_chars_def)

lemma length_concat_const:
  "(\<And>x. x \<in> set xs \<Longrightarrow> length (f x) = k) \<Longrightarrow> length (concat (map f xs)) = k * length xs"
  by (induction xs) auto

lemma valid_sha256_hex [simp]: "valid_sha256 (sha256_hex s)"
proof -
  have "length (sha256_hex s) = 8 * length (sha256_words (map of_char s))"
    unfolding sha256_hex_def by (rule length_concat_const) (simp add: hex_of_w32_def)
  moreover have "list_all (\<lambda>c. c \<in> set hex_chars) (sha256_hex s)"
    by (auto simp: sha256_hex_def hex_of_w32_def list_all_iff hex_digit_in)
  ultimately show ?thesis by (simp add: valid_sha256_def length_sha256_words)
qed

end
