(* ===== verification/Output_Plan.thy ===== *)
theory Output_Plan
  imports Canonical
begin

text \<open>
  \<open>output_plan.py\<close>: the private reconstruction plan of a query. A share names a returned
  ciphertext by (component, output block) and maps some of its lanes to logical rows; rows
  reached by several lanes overlap and are blinded by zero-sum masks, rows reached by none
  are implicit zeros. The theory holds validation, the canonical payload, the analysis, and
  the preparation of the masks against a reservation ledger.
\<close>

section \<open>Data\<close>

record output_share =
  os_component_id :: string
  os_output_block_id :: string
  slot_to_logical :: "(int \<times> int) list"

record output_plan =
  logical_output_size :: int
  op_slot_count :: int
  shares :: "output_share list"

datatype reconstruction_mode = Concatenate | CoordinateSum

record output_plan_analysis =
  oa_output_plan_digest :: string
  reconstruction_mode :: reconstruction_mode
  result_ciphertexts :: int
  masked_result_ciphertexts :: int
  implicit_zero_coordinates :: int
  overlap_coordinates :: int
  mask_random_elements :: int
  mask_mapped_elements :: int
  client_reorder_elements :: int
  client_modular_additions :: int

type_synonym mask_binding = "string \<times> string \<times> string \<times> string \<times> string"

record prepared_mask =
  pm_query_id :: string
  pm_version_id :: string
  pm_output_plan_digest :: string
  pm_component_id :: string
  pm_output_block_id :: string
  pm_values :: "int list"

definition pm_binding :: "prepared_mask \<Rightarrow> mask_binding" where
  "pm_binding m = (pm_query_id m, pm_version_id m, pm_output_plan_digest m,
     pm_component_id m, pm_output_block_id m)"

abbreviation share_id :: "output_share \<Rightarrow> string \<times> string" where
  "share_id s \<equiv> (os_component_id s, os_output_block_id s)"

definition op_require_positive_int :: "int \<Rightarrow> string \<Rightarrow> int res" where
  "op_require_positive_int v field =
     (if v \<le> 0 then Inl (OutputPlanError (field @ '' must be a positive integer'')) else Inr v)"

definition op_require_id :: "string \<Rightarrow> string \<Rightarrow> string res" where
  "op_require_id s field =
     (if \<not> valid_id s
      then Inl (OutputPlanError (field @ '' must be a non-empty printable ASCII identifier''))
      else Inr s)"

section \<open>Validation\<close>

text \<open>
  The body of the inner loop of \<open>_validate\<close>: the state is the set of physical slots of the
  share seen so far and the multiplicity counter.
\<close>

definition validate_mapping ::
  "int \<Rightarrow> int \<Rightarrow> int list \<times> (int, int) dict \<Rightarrow> int \<times> int \<Rightarrow> (int list \<times> (int, int) dict) res"
where
  "validate_mapping n_out slots = (\<lambda>(seen, mults) (slot, logical).
     if \<not> (0 \<le> slot \<and> slot < slots) then
       Inl (OutputPlanError ''physical slot is outside the output share'')
     else if slot \<in> set seen then
       Inl (OutputPlanError ''physical slots must be unique within an output share'')
     else if \<not> (0 \<le> logical \<and> logical < n_out) then
       Inl (OutputPlanError ''logical coordinate is outside the output vector'')
     else Inr (slot # seen, counter_add mults logical))"

definition validate_share ::
  "int \<Rightarrow> int \<Rightarrow> (string \<times> string) list \<times> (int, int) dict \<Rightarrow> output_share \<Rightarrow>
     ((string \<times> string) list \<times> (int, int) dict) res"
where
  "validate_share n_out slots = (\<lambda>(ids, mults) s.
     rbind (op_require_id (os_component_id s) ''component_id'') (\<lambda>c.
     rbind (op_require_id (os_output_block_id s) ''output_block_id'') (\<lambda>b.
     if (c, b) \<in> set ids then
       Inl (OutputPlanError ''component_id/output_block_id pairs must be unique'')
     else if slot_to_logical s = [] then
       Inl (OutputPlanError ''each output share must map at least one physical slot'')
     else
       rbind (rfold (validate_mapping n_out slots) ([], mults) (slot_to_logical s)) (\<lambda>(_, mults').
       Inr ((c, b) # ids, mults')))))"

definition validate_output_plan :: "output_plan \<Rightarrow> (int, int) dict res" where
  "validate_output_plan plan =
     rbind (op_require_positive_int (logical_output_size plan) ''logical_output_size'') (\<lambda>n_out.
     rbind (op_require_positive_int (op_slot_count plan) ''slot_count'') (\<lambda>slots.
     rbind (rfold (validate_share n_out slots) ([], []) (shares plan)) (\<lambda>(_, mults). Inr mults)))"

section \<open>Canonical payload and analysis\<close>

definition share_payload :: "output_share \<Rightarrow> json" where
  "share_payload s = JObj [
     (''component_id'', JStr (os_component_id s)),
     (''output_block_id'', JStr (os_output_block_id s)),
     (''slot_to_logical'',
        JList (map (\<lambda>(p, l). JList [JInt p, JInt l]) (sort (slot_to_logical s))))]"

definition canonical_output_plan_payload :: "output_plan \<Rightarrow> json res" where
  "canonical_output_plan_payload plan =
     rbind (validate_output_plan plan) (\<lambda>_.
     Inr (JObj [
       (''format'', JStr ''dynamic-cssc-output-plan-v1''),
       (''logical_output_size'', JInt (logical_output_size plan)),
       (''slot_count'', JInt (op_slot_count plan)),
       (''shares'', JList (map share_payload (sort_key share_id (shares plan))))]))"

text \<open>The keys of a counter whose count exceeds one.\<close>

definition overlapping :: "(int, int) dict \<Rightarrow> int list" where
  "overlapping mults = map fst (filter (\<lambda>(_, c). c > 1) mults)"

definition analyze_output_plan :: "output_plan \<Rightarrow> output_plan_analysis res" where
  "analyze_output_plan plan =
     rbind (validate_output_plan plan) (\<lambda>mults.
     rbind (canonical_output_plan_payload plan) (\<lambda>payload.
     let implicit_zero = logical_output_size plan - int (length mults);
         overlap = overlapping mults;
         masked_share_ids = remdups (map share_id
           (filter (\<lambda>s. \<exists>(_, l) \<in> set (slot_to_logical s). l \<in> set overlap) (shares plan)));
         canonical = dumps False payload
     in Inr \<lparr>
       oa_output_plan_digest = sha256_hex canonical,
       reconstruction_mode = (if overlap \<noteq> [] then CoordinateSum else Concatenate),
       result_ciphertexts = int (length (shares plan)),
       masked_result_ciphertexts = int (length masked_share_ids),
       implicit_zero_coordinates = implicit_zero,
       overlap_coordinates = int (length overlap),
       mask_random_elements = sum_list (map (\<lambda>c. dict_get mults c 0 - 1) overlap),
       mask_mapped_elements = sum_list (map (\<lambda>c. dict_get mults c 0) overlap),
       client_reorder_elements = sum_list (map (\<lambda>(_, c). c) mults),
       client_modular_additions = sum_list (map (\<lambda>(_, c). c - 1) mults)\<rparr>))"

section \<open>Preparation of the F1-M masks\<close>

text \<open>
  \<open>secrets.randbelow\<close> is the environment's stream of samples, indexed by the number of the
  call; \<open>reserve_all\<close> is the reservation operation of the ledger, on its state.
\<close>

type_synonym lane = "string \<times> string \<times> int"

definition contributors_of :: "output_plan \<Rightarrow> (int, lane list) dict" where
  "contributors_of plan =
     foldl (\<lambda>d (l, lane). dict_append d l lane) []
       (concat (map (\<lambda>s. map (\<lambda>(p, l). (l, os_component_id s, os_output_block_id s, p))
          (slot_to_logical s)) (shares plan)))"

definition masked_share_ids_of :: "(int, lane list) dict \<Rightarrow> (string \<times> string) list" where
  "masked_share_ids_of contributors = sorted_set (concat
     (map (\<lambda>(_, lanes). if 1 < length lanes then map (\<lambda>(c, b, _). (c, b)) lanes else [])
        contributors))"

text \<open>The samples of one coordinate: one per lane but the last, each checked.\<close>

fun draw_samples :: "(nat \<Rightarrow> int) \<Rightarrow> int \<Rightarrow> nat \<Rightarrow> nat \<Rightarrow> (int list \<times> nat) res" where
  "draw_samples rng modulus 0 i = Inr ([], i)"
| "draw_samples rng modulus (Suc n) i =
     (if \<not> (0 \<le> rng i \<and> rng i < modulus) then
        Inl (OutputPlanError ''randbelow returned a value outside Z_t'')
      else rbind (draw_samples rng modulus n (Suc i)) (\<lambda>(vs, j). Inr (rng i # vs, j)))"

definition store_lane ::
  "int \<Rightarrow> (string \<times> string, int list) dict \<Rightarrow> lane \<times> int \<Rightarrow> (string \<times> string, int list) dict"
where
  "store_lane slots = (\<lambda>d ((c, b, p), v).
     AList.update (c, b)
       ((dict_get d (c, b) (replicate (nat slots) 0))[nat p := v]) d)"

definition mask_coordinate ::
  "(nat \<Rightarrow> int) \<Rightarrow> int \<Rightarrow> int \<Rightarrow> (int, lane list) dict \<Rightarrow>
     (string \<times> string, int list) dict \<times> nat \<Rightarrow> int \<Rightarrow>
     ((string \<times> string, int list) dict \<times> nat) res"
where
  "mask_coordinate rng modulus slots contributors = (\<lambda>(vals, i) logical.
     let lanes = sort (dict_get contributors logical []) in
     if length lanes = 1 then Inr (vals, i)
     else rbind (draw_samples rng modulus (length lanes - 1) i) (\<lambda>(rs, j).
       let lane_values = rs @ [(- sum_list rs) mod modulus]
       in Inr (foldl (store_lane slots) vals (zip lanes lane_values), j)))"

text \<open>The reservation happens before the samples are drawn and stays when the drawing fails.\<close>

definition prepare_f1m_masks ::
  "(nat \<Rightarrow> int) \<Rightarrow> (mask_binding list \<Rightarrow> 'l \<Rightarrow> 'l res) \<Rightarrow> output_plan \<Rightarrow> string \<Rightarrow> string \<Rightarrow> int \<Rightarrow>
     ('l, prepared_mask list) action"
where
  "prepare_f1m_masks rng reserve_all plan query_id version_id modulus =
     sbind (slift (op_require_id query_id ''query_id'')) (\<lambda>q.
     sbind (slift (op_require_id version_id ''version_id'')) (\<lambda>v.
     if modulus < 2 then
       slift (Inl (OutputPlanError ''modulus must be an integer of at least two''))
     else
     sbind (slift (analyze_output_plan plan)) (\<lambda>analysis.
     let contributors = contributors_of plan;
         digest = oa_output_plan_digest analysis;
         bindings = map (\<lambda>(c, b). (q, v, digest, c, b)) (masked_share_ids_of contributors)
     in sbind (transact_unit (reserve_all bindings)) (\<lambda>_.
     slift (rbind (rfold (mask_coordinate rng modulus (op_slot_count plan) contributors) ([], 0)
              (sort (map fst contributors))) (\<lambda>(vals, _).
     Inr (map (\<lambda>(c, b). \<lparr>
            pm_query_id = q, pm_version_id = v, pm_output_plan_digest = digest,
            pm_component_id = c, pm_output_block_id = b,
            pm_values = dict_get vals (c, b) []\<rparr>)
          (sort (map fst vals)))))))))"

end
