(* ===== verification/Cssc_Layout.thy ===== *)
theory Cssc_Layout
  imports Output_Plan
begin

text \<open>
  \<open>cssc.py\<close>: the chunked layout of a sparse matrix. \<open>publish_component\<close> partitions the rows
  horizontally, sorts each partition by capacity, and cuts its left-aligned columns into
  rectangles that fit one ciphertext; every lane of a rectangle is an entry, a reserved slot
  or natural padding, and the lanes past the rectangle are a tail. \<open>output_plan_for\<close> derives
  the plan of the returned lanes, and \<open>build_cssc_layout\<close> is the counting model of the same
  rectangles.
\<close>

section \<open>Data\<close>

type_synonym coord = "int \<times> int"
type_synonym slot_location = "string \<times> string \<times> int"

datatype lane_kind = Actual | Tombstone | NaturalPadding | Reserved | Tail

record layout_spec =
  ls_rows :: int
  ls_cols :: int
  ls_effective_slots :: int
  ls_partition_rows :: int

record value_chunk =
  chunk_id :: string
  start_column :: int
  width :: int
  height :: int
  used_slots :: int
  reserved_slots :: int
  rectangular_slots :: int
  vc_values :: "int list"
  column_indices :: "int list"
  slot_coordinates :: "coord option list"
  slot_owner_rows :: "int option list"
  slot_kinds :: "lane_kind list"

record output_block_layout =
  output_block_id :: string
  logical_row_start :: int
  logical_row_stop :: int
  row_map :: "int list"
  physical_row_capacities :: "int list"
  chunks :: "value_chunk list"

record published_component =
  component_id :: string
  version_id :: string
  layout_spec :: layout_spec
  blocks :: "output_block_layout list"
  coordinate_slots :: "(coord \<times> slot_location) list"
  available_slots :: "(int \<times> lane_kind \<times> slot_location) list"

fun bit_length :: "nat \<Rightarrow> nat" where
  "bit_length n = (if n = 0 then 0 else Suc (bit_length (n div 2)))"

fun bit_count :: "nat \<Rightarrow> nat" where
  "bit_count n = (if n = 0 then 0 else n mod 2 + bit_count (n div 2))"

declare bit_length.simps [simp del] bit_count.simps [simp del]

definition aggregation_rotations_proxy :: "int \<Rightarrow> int" where
  "aggregation_rotations_proxy w =
     (if w \<le> 1 then 0
      else int (bit_length (nat w)) - 1 + int (bit_count (nat w)) - 1)"

definition component_chunks :: "published_component \<Rightarrow> value_chunk list" where
  "component_chunks c = concat (map chunks (blocks c))"

definition ciphertext_count :: "published_component \<Rightarrow> int" where
  "ciphertext_count c = int (length (component_chunks c))"

definition coord_to_slot :: "published_component \<Rightarrow> (coord, slot_location) dict" where
  "coord_to_slot c = foldl (\<lambda>d (k, v). AList.update k v d) [] (coordinate_slots c)"

definition slots_by_row ::
  "published_component \<Rightarrow> lane_kind \<Rightarrow> (int, slot_location list) dict"
where
  "slots_by_row c kind =
     foldl (\<lambda>d (row, lane_kind, loc). if lane_kind = kind then dict_append d row loc else d) []
       (available_slots c)"

section \<open>Publication of a component\<close>

definition require_positive_int :: "int \<Rightarrow> string \<Rightarrow> int res" where
  "require_positive_int v field =
     (if v \<le> 0 then Inl (ValueError (field @ '' must be a positive integer'')) else Inr v)"

definition require_id :: "string \<Rightarrow> string \<Rightarrow> string res" where
  "require_id s field =
     (if \<not> valid_id s
      then Inl (ValueError (field @ '' must be a non-empty printable ASCII identifier''))
      else Inr s)"

definition check_state_entry :: "int \<Rightarrow> int \<Rightarrow> coord \<times> int \<Rightarrow> unit res" where
  "check_state_entry rows cols = (\<lambda>((row, global_col), value).
     if \<not> (0 \<le> row \<and> row < rows) then Inl (ValueError ''state row is outside the matrix'')
     else if \<not> (0 \<le> global_col \<and> global_col < cols) then
       Inl (ValueError ''state global column is outside the matrix'')
     else if value = 0 then Inl (ValueError ''state values must be nonzero integers'')
     else Inr ())"

definition validate_sparse_state ::
  "(coord, int) dict \<Rightarrow> int \<Rightarrow> int \<Rightarrow> (coord \<times> int) list res"
where
  "validate_sparse_state state rows cols =
     rbind (rfold (\<lambda>_ e. check_state_entry rows cols e) () state) (\<lambda>_. Inr (sort state))"

definition physical_capacities ::
  "(int \<times> int) list list \<Rightarrow> int list option \<Rightarrow> int \<Rightarrow> int \<Rightarrow> int list res"
where
  "physical_capacities entries_by_row caps rows cols =
     (let actual = map (\<lambda>es. int (length es)) entries_by_row in
      case caps of
        None \<Rightarrow> Inr actual
      | Some cs \<Rightarrow>
          if int (length cs) \<noteq> rows then
            Inl (ValueError ''physical_capacities must have exactly one entry per row'')
          else rmap (\<lambda>(row, capacity, used).
            if \<not> (used \<le> capacity \<and> capacity \<le> cols) then
              Inl (ValueError (''physical capacity for row '' @ json_int row @
                '' must be an integer in ['' @ json_int used @ '', '' @ json_int cols @ '']''))
            else Inr capacity) (py_enumerate (zip cs actual)))"

text \<open>\<open>entries_by_row[row].append((global_col, value))\<close> over the sorted entries.\<close>

definition entries_by_row_of :: "int \<Rightarrow> (coord \<times> int) list \<Rightarrow> (int \<times> int) list list" where
  "entries_by_row_of rows entries =
     foldl (\<lambda>acc ((row, global_col), value).
              acc[nat row := acc ! nat row @ [(global_col, value)]])
       (replicate (nat rows) []) entries"

text \<open>The lane arrays of the chunk under construction and the component's two indices.\<close>

record fill_state =
  f_values :: "int list"
  f_columns :: "int list"
  f_coordinates :: "coord option list"
  f_owner_rows :: "int option list"
  f_kinds :: "lane_kind list"
  f_used :: int
  f_reserved :: int
  f_placements :: "(coord \<times> slot_location) list"
  f_available :: "(int \<times> lane_kind \<times> slot_location) list"

definition empty_fill ::
  "int \<Rightarrow> (coord \<times> slot_location) list \<Rightarrow> (int \<times> lane_kind \<times> slot_location) list \<Rightarrow> fill_state"
where
  "empty_fill slots placements available =
     \<lparr>f_values = replicate (nat slots) 0, f_columns = replicate (nat slots) (-1),
      f_coordinates = replicate (nat slots) None, f_owner_rows = replicate (nat slots) None,
      f_kinds = replicate (nat slots) Tail, f_used = 0, f_reserved = 0,
      f_placements = placements, f_available = available\<rparr>"

text \<open>The body of the two innermost loops.\<close>

definition place_lane ::
  "string \<Rightarrow> string \<Rightarrow> (int \<times> int) list list \<Rightarrow> int list \<Rightarrow> int list \<Rightarrow> int \<Rightarrow> nat \<Rightarrow>
     fill_state \<Rightarrow> nat \<times> nat \<Rightarrow> fill_state"
where
  "place_lane cid chid entries_by_row capacities rowmap column h = (\<lambda>f (local_column, physical_row).
     let rank = column + int local_column;
         logical_row = rowmap ! physical_row;
         slot = local_column * h + physical_row;
         location = (cid, chid, int slot);
         f = f\<lparr>f_owner_rows := (f_owner_rows f)[slot := Some logical_row]\<rparr>
     in if rank \<ge> capacities ! nat logical_row then
          f\<lparr>f_kinds := (f_kinds f)[slot := NaturalPadding],
            f_available := f_available f @ [(logical_row, NaturalPadding, location)]\<rparr>
        else
          let row_entries = entries_by_row ! nat logical_row in
          if rank \<ge> int (length row_entries) then
            f\<lparr>f_kinds := (f_kinds f)[slot := Reserved],
              f_available := f_available f @ [(logical_row, Reserved, location)],
              f_reserved := f_reserved f + 1\<rparr>
          else
            let (global_col, v) = row_entries ! nat rank;
                coordinate = (logical_row, global_col)
            in f\<lparr>f_values := (f_values f)[slot := v],
                 f_columns := (f_columns f)[slot := global_col],
                 f_coordinates := (f_coordinates f)[slot := Some coordinate],
                 f_kinds := (f_kinds f)[slot := Actual],
                 f_placements := f_placements f @ [(coordinate, location)],
                 f_used := f_used f + 1\<rparr>)"

text \<open>\<open>for local_column in range(width): for physical_row in range(height)\<close>.\<close>

definition rectangle :: "nat \<Rightarrow> nat \<Rightarrow> (nat \<times> nat) list" where
  "rectangle w h = concat (map (\<lambda>c. map (\<lambda>r. (c, r)) [0..<h]) [0..<w])"

definition make_chunk ::
  "string \<Rightarrow> string \<Rightarrow> int \<Rightarrow> (int \<times> int) list list \<Rightarrow> int list \<Rightarrow> int list \<Rightarrow> int \<Rightarrow> int \<Rightarrow> int \<Rightarrow>
     (coord \<times> slot_location) list \<Rightarrow> (int \<times> lane_kind \<times> slot_location) list \<Rightarrow>
     value_chunk \<times> (coord \<times> slot_location) list \<times> (int \<times> lane_kind \<times> slot_location) list"
where
  "make_chunk cid chid slots entries_by_row capacities rowmap column w h placements available =
     (let f = foldl (place_lane cid chid entries_by_row capacities rowmap column (nat h))
                (empty_fill slots placements available) (rectangle (nat w) (nat h))
      in (\<lparr>chunk_id = chid, start_column = column, width = w, height = h,
           used_slots = f_used f, reserved_slots = f_reserved f, rectangular_slots = h * w,
           vc_values = f_values f, column_indices = f_columns f,
           slot_coordinates = f_coordinates f, slot_owner_rows = f_owner_rows f,
           slot_kinds = f_kinds f\<rparr>, f_placements f, f_available f))"

definition column_height :: "int list \<Rightarrow> int \<Rightarrow> int" where
  "column_height caps column = int (length (filter (\<lambda>c. c > column) caps))"

definition max_default :: "int \<Rightarrow> int list \<Rightarrow> int" where
  "max_default d xs = (case xs of [] \<Rightarrow> d | x # ys \<Rightarrow> foldl max x ys)"

text \<open>
  The \<open>while\<close> loop of one block. The second conjunct of its guard is not in the source: it
  makes the recursion total, and \<open>publish_chunk_width_pos\<close> in \<open>Fill_Facts\<close> shows that under the
  checks of \<open>publish_component\<close> it always holds.
\<close>

function publish_chunks ::
  "string \<Rightarrow> string \<Rightarrow> int \<Rightarrow> (int \<times> int) list list \<Rightarrow> int list \<Rightarrow> int list \<Rightarrow> int list \<Rightarrow> int \<Rightarrow> int \<Rightarrow>
     nat \<Rightarrow> value_chunk list \<Rightarrow> (coord \<times> slot_location) list \<Rightarrow>
     (int \<times> lane_kind \<times> slot_location) list \<Rightarrow>
     value_chunk list \<times> (coord \<times> slot_location) list \<times> (int \<times> lane_kind \<times> slot_location) list"
where
  "publish_chunks cid block_id slots entries_by_row capacities rowmap phys max_width column
       chunk_index acc placements available =
     (let h = column_height phys column;
          w = min (max_width - column) (slots div h)
      in if column < max_width \<and> 0 < w then
           let (ch, pl, av) = make_chunk cid (block_id @ ''-c'' @ fmt06 chunk_index) slots
                 entries_by_row capacities rowmap column w h placements available
           in publish_chunks cid block_id slots entries_by_row capacities rowmap phys max_width
                (column + w) (Suc chunk_index) (acc @ [ch]) pl av
         else (acc, placements, available))"
  by pat_completeness auto
termination
  by (relation "measure (\<lambda>(_, _, _, _, _, _, _, max_width, column, _). nat (max_width - column))")
    auto

declare publish_chunks.simps [simp del]

definition publish_block ::
  "string \<Rightarrow> int \<Rightarrow> int \<Rightarrow> int \<Rightarrow> (int \<times> int) list list \<Rightarrow> int list \<Rightarrow>
     output_block_layout list \<times> (coord \<times> slot_location) list \<times>
       (int \<times> lane_kind \<times> slot_location) list \<Rightarrow>
     int \<times> int \<Rightarrow>
     output_block_layout list \<times> (coord \<times> slot_location) list \<times>
       (int \<times> lane_kind \<times> slot_location) list"
where
  "publish_block cid rows slots part_rows entries_by_row capacities =
     (\<lambda>(bs, placements, available) (block_index, logical_start).
      let logical_stop = min rows (logical_start + part_rows);
          rowmap = sort_key (\<lambda>row. (- (capacities ! nat row), row))
                    (py_range logical_start logical_stop);
          phys = map (\<lambda>row. capacities ! nat row) rowmap;
          block_id = cid @ ''-h'' @ fmt06 (nat block_index);
          max_width = max_default 0 phys;
          (chs, pl, av) = publish_chunks cid block_id slots entries_by_row capacities rowmap phys
                            max_width 0 0 [] placements available
      in (bs @ [\<lparr>output_block_id = block_id, logical_row_start = logical_start,
                 logical_row_stop = logical_stop, row_map = rowmap,
                 physical_row_capacities = phys, chunks = chs\<rparr>], pl, av))"

definition range_step :: "int \<Rightarrow> int \<Rightarrow> int list" where
  "range_step rows part_rows =
     map (\<lambda>k. int k * part_rows) [0..<nat ((rows + part_rows - 1) div part_rows)]"

text \<open>The private capability argument: absent, the module's own token, or another object.\<close>

datatype validation_capability = NoCapability | ValidatedToken | ForeignCapability

definition publish_component ::
  "(coord, int) dict \<Rightarrow> int \<Rightarrow> int \<Rightarrow> int \<Rightarrow> string \<Rightarrow> string \<Rightarrow> int option \<Rightarrow> int list option \<Rightarrow>
     validation_capability \<Rightarrow> published_component res"
where
  "publish_component state rows cols effective_slots version component_prefix partition_rows
       caps capability =
     rbind (require_positive_int rows ''rows'') (\<lambda>rows.
     rbind (require_positive_int cols ''cols'') (\<lambda>cols.
     rbind (require_positive_int effective_slots ''effective_slots'') (\<lambda>slots.
     rbind (require_id version ''version_id'') (\<lambda>vid.
     rbind (require_id component_prefix ''component_prefix'') (\<lambda>cid.
     let part_rows = (case partition_rows of None \<Rightarrow> slots | Some p \<Rightarrow> p) in
     if part_rows \<le> 0 \<or> part_rows > slots then
       Inl (ValueError ''partition_rows must be in (0, effective_slots]'')
     else
     rbind (case capability of
              NoCapability \<Rightarrow> validate_sparse_state state rows cols
            | ValidatedToken \<Rightarrow> Inr (sort state)
            | ForeignCapability \<Rightarrow> Inl (TypeError
                ''validated sparse publication requires a repository-minted capability''))
       (\<lambda>entries.
     let entries_by_row = entries_by_row_of rows entries in
     rbind (physical_capacities entries_by_row caps rows cols) (\<lambda>capacities.
     let (bs, placements, available) =
           foldl (publish_block cid rows slots part_rows entries_by_row capacities)
             ([], [], []) (py_enumerate (range_step rows part_rows))
     in Inr \<lparr>component_id = cid, version_id = vid,
          layout_spec = \<lparr>ls_rows = rows, ls_cols = cols, ls_effective_slots = slots,
                         ls_partition_rows = part_rows\<rparr>,
          blocks = bs, coordinate_slots = sort placements, available_slots = available\<rparr>)))))))"

definition publish_validated_component ::
  "(coord, int) dict \<Rightarrow> int \<Rightarrow> int \<Rightarrow> int \<Rightarrow> string \<Rightarrow> string \<Rightarrow> int option \<Rightarrow> int list option \<Rightarrow>
     published_component res"
where
  "publish_validated_component state rows cols effective_slots version component_prefix
       partition_rows caps =
     publish_component state rows cols effective_slots version component_prefix partition_rows
       caps ValidatedToken"

section \<open>The output plan of a sequence of components\<close>

definition block_share :: "string \<Rightarrow> output_block_layout \<Rightarrow> output_share list" where
  "block_share cid b =
     (if chunks b = [] then []
      else let active_row_map = map fst
                 (filter (\<lambda>(_, capacity). capacity > 0) (zip (row_map b) (physical_row_capacities b)))
           in if active_row_map = [] then []
              else [\<lparr>os_component_id = cid, os_output_block_id = output_block_id b,
                     slot_to_logical = py_enumerate active_row_map\<rparr>])"

definition component_matrix :: "published_component \<Rightarrow> int \<times> int \<times> int" where
  "component_matrix c = (ls_rows (layout_spec c), ls_cols (layout_spec c),
     ls_effective_slots (layout_spec c))"

definition plan_component ::
  "published_component \<Rightarrow> string list \<times> output_share list \<Rightarrow> published_component \<Rightarrow>
     (string list \<times> output_share list) res"
where
  "plan_component reference = (\<lambda>(ids, ss) c.
     if component_id c \<in> set ids then
       Inl (ValueError ''component IDs must be unique within an OutputPlan'')
     else if version_id c \<noteq> version_id reference then
       Inl (ValueError ''all components must have the same version_id'')
     else if component_matrix c \<noteq> component_matrix reference then
       Inl (ValueError ''all components must have the same matrix and slot dimensions'')
     else Inr (component_id c # ids, ss @ concat (map (block_share (component_id c)) (blocks c))))"

definition output_plan_for :: "published_component list \<Rightarrow> output_plan res" where
  "output_plan_for components =
     (case components of
        [] \<Rightarrow> Inl (ValueError ''components must not be empty'')
      | reference # _ \<Rightarrow>
          rbind (rfold (plan_component reference) ([], []) components) (\<lambda>(_, ss).
          Inr \<lparr>logical_output_size = ls_rows (layout_spec reference),
               op_slot_count = ls_effective_slots (layout_spec reference), shares = ss\<rparr>))"

section \<open>The counting model\<close>

record cssc_chunk =
  cc_chunk_id :: nat
  cc_start_column :: int
  cc_width :: int
  cc_height :: int
  cc_used_slots :: int
  cc_rectangular_slots :: int
  cc_padding_by_physical_row :: "int list"

record cssc_layout =
  logical_row_order :: "int list"
  physical_row_lengths :: "int list"
  cl_chunks :: "cssc_chunk list"
  padding_chunk_ids_by_logical_row :: "nat list list"
  value_chunk_ids_by_coordinate_rank :: "nat list list"
  cl_effective_slots :: int

definition rotation_count_proxy :: "cssc_layout \<Rightarrow> int" where
  "rotation_count_proxy l =
     sum_list (map (\<lambda>c. aggregation_rotations_proxy (cc_width c)) (cl_chunks l))"

definition append_at :: "int \<Rightarrow> 'a \<Rightarrow> 'a list list \<Rightarrow> 'a list list" where
  "append_at row x xss = xss[nat row := xss ! nat row @ [x]]"

text \<open>The two inner loops: the state is (padding_counts, value ids, padding ids).\<close>

definition count_lane ::
  "int list \<Rightarrow> int list \<Rightarrow> int \<Rightarrow> nat \<Rightarrow> int list \<times> nat list list \<times> nat list list \<Rightarrow> nat \<times> nat \<Rightarrow>
     int list \<times> nat list list \<times> nat list list"
where
  "count_lane order lengths column cid = (\<lambda>(counts, vals, pads) (physical_row, local_column).
     let logical_row = order ! physical_row;
         row_length = lengths ! physical_row;
         absolute_column = column + int local_column
     in if absolute_column < row_length then (counts, append_at logical_row cid vals, pads)
        else (counts[physical_row := counts ! physical_row + 1], vals,
              append_at logical_row cid pads))"

function cssc_chunks ::
  "int list \<Rightarrow> int list \<Rightarrow> int list \<Rightarrow> int \<Rightarrow> int \<Rightarrow> int \<Rightarrow> nat \<Rightarrow>
     cssc_chunk list \<times> nat list list \<times> nat list list \<Rightarrow>
     (cssc_chunk list \<times> nat list list \<times> nat list list) res"
where
  "cssc_chunks order lengths heights slots max_width column cid (acc, vals, pads) =
     (if \<not> column < max_width then Inr (acc, vals, pads)
      else let h = heights ! nat column in
        if h \<le> 0 then Inr (acc, vals, pads)
        else let w = min (max_width - column) (slots div h) in
          if w \<le> 0 then
            Inl (ValueError (''column height '' @ json_int h @
              '' exceeds effective slot capacity '' @ json_int slots))
          else let used = sum_list (take (nat w) (drop (nat column) heights));
                   (counts, vals', pads') = foldl (count_lane order lengths column cid)
                     (replicate (nat h) 0, vals, pads) (rectangle (nat h) (nat w));
                   ch = \<lparr>cc_chunk_id = cid, cc_start_column = column, cc_width = w, cc_height = h,
                         cc_used_slots = used, cc_rectangular_slots = h * w,
                         cc_padding_by_physical_row = counts\<rparr>
               in cssc_chunks order lengths heights slots max_width (column + w) (Suc cid)
                    (acc @ [ch], vals', pads'))"
  by pat_completeness auto
termination
  by (relation "measure (\<lambda>(_, _, _, _, max_width, column, _). nat (max_width - column))") auto

declare cssc_chunks.simps [simp del]

definition build_cssc_layout :: "int list \<Rightarrow> int \<Rightarrow> cssc_layout res" where
  "build_cssc_layout row_lengths effective_slots =
     (if effective_slots \<le> 0 then Inl (ValueError ''effective_slots must be positive'')
      else if \<exists>l \<in> set row_lengths. l < 0 then
        Inl (ValueError ''row lengths must be nonnegative'')
      else
        let order = sort_key (\<lambda>row. (- (row_lengths ! nat row), row))
                      (py_range 0 (int (length row_lengths)));
            lengths = map (\<lambda>row. row_lengths ! nat row) order;
            max_width = max_default 0 lengths;
            heights = map (column_height lengths) (py_range 0 max_width);
            none = replicate (length row_lengths) []
        in rbind (cssc_chunks order lengths heights effective_slots max_width 0 0 ([], none, none))
             (\<lambda>(chs, vals, pads).
              Inr \<lparr>logical_row_order = order, physical_row_lengths = lengths, cl_chunks = chs,
                   padding_chunk_ids_by_logical_row = pads,
                   value_chunk_ids_by_coordinate_rank = vals,
                   cl_effective_slots = effective_slots\<rparr>))"

end
