(* ===== verification/Cloud_Plan.thy ===== *)
theory Cloud_Plan
  imports Canonical
begin

text \<open>
  \<open>cloud_execution_plan.py\<close>: the public program the Cloud runs, a straight-line list of
  single-assignment nodes over ciphertext identifiers; its validation (typed references,
  unique identifiers, the F1-M discipline, no dead node, no unused operand); the canonical
  payloads and digests that bind it to a version; the operation counts; and the fixed
  schedule built from a page shape alone.
\<close>

section \<open>Data\<close>

record ciphertext_input =
  ci_id :: string
  ci_role :: string
  ci_length :: int

record plaintext_mask =
  mask_id :: string
  mask_role :: string
  mask_length :: int
  mask_values :: "int list"

datatype cloud_node =
    MultiplyCiphertexts string string string
  | Relinearize string string
  | Rotate string string int int
  | MultiplyPlaintextMask string string string
  | AddCiphertexts string string string
  | AddF1MMask string string string string
  | ReturnResult string string

record cloud_program =
  cp_format :: string
  cp_slot_count :: int
  ciphertext_inputs :: "ciphertext_input list"
  plaintext_masks :: "plaintext_mask list"
  nodes :: "cloud_node list"
  result_ids :: "string list"
  rotation_catalog :: "(int \<times> int) list"

record execution_binding =
  eb_format :: string
  eb_version_id :: string
  eb_output_plan_digest :: string
  eb_cloud_program_digest :: string

record cloud_execution_plan =
  program :: cloud_program
  binding :: execution_binding

record cloud_plan_counts =
  n_ciphertext_inputs :: int
  n_ciphertext_inputs_by_role :: "(string \<times> int) list"
  n_plaintext_masks :: int
  n_multiply_ciphertexts :: int
  n_relinearizations :: int
  n_rotations :: int
  n_rotations_by_exact_index :: "(int \<times> int) list"
  n_multiply_plaintext_masks :: int
  n_add_ciphertexts :: int
  n_add_f1m_masks :: int
  n_returned_ciphertexts :: int

definition cloud_program_format :: string where
  "cloud_program_format = ''dynamic-cssc-cloud-program-v1''"

definition execution_binding_format :: string where
  "execution_binding_format = ''dynamic-cssc-execution-binding-v1''"

definition cloud_execution_plan_format :: string where
  "cloud_execution_plan_format = ''dynamic-cssc-cloud-execution-plan-v1''"

fun is_multiply :: "cloud_node \<Rightarrow> bool" where
  "is_multiply (MultiplyCiphertexts _ _ _) = True"
| "is_multiply _ = False"

fun is_relinearize :: "cloud_node \<Rightarrow> bool" where
  "is_relinearize (Relinearize _ _) = True"
| "is_relinearize _ = False"

fun is_rotate :: "cloud_node \<Rightarrow> bool" where
  "is_rotate (Rotate _ _ _ _) = True"
| "is_rotate _ = False"

fun is_select :: "cloud_node \<Rightarrow> bool" where
  "is_select (MultiplyPlaintextMask _ _ _) = True"
| "is_select _ = False"

fun is_add :: "cloud_node \<Rightarrow> bool" where
  "is_add (AddCiphertexts _ _ _) = True"
| "is_add _ = False"

fun is_f1m :: "cloud_node \<Rightarrow> bool" where
  "is_f1m (AddF1MMask _ _ _ _) = True"
| "is_f1m _ = False"

fun is_return :: "cloud_node \<Rightarrow> bool" where
  "is_return (ReturnResult _ _) = True"
| "is_return _ = False"

fun node_result_id :: "cloud_node \<Rightarrow> string" where
  "node_result_id (MultiplyCiphertexts r _ _) = r"
| "node_result_id (Relinearize r _) = r"
| "node_result_id (Rotate r _ _ _) = r"
| "node_result_id (MultiplyPlaintextMask r _ _) = r"
| "node_result_id (AddCiphertexts r _ _) = r"
| "node_result_id (AddF1MMask r _ _ _) = r"
| "node_result_id (ReturnResult r _) = r"

fun node_mask_ciphertext_id :: "cloud_node \<Rightarrow> string option" where
  "node_mask_ciphertext_id (AddF1MMask _ _ m _) = Some m"
| "node_mask_ciphertext_id _ = None"

section \<open>Checks of scalar fields\<close>

abbreviation cep_error :: "string \<Rightarrow> 'a res" where
  "cep_error m \<equiv> Inl (CloudExecutionPlanError m)"

definition cep_require_positive_int :: "int \<Rightarrow> string \<Rightarrow> int res" where
  "cep_require_positive_int v field =
     (if v \<le> 0 then cep_error (field @ '' must be a positive integer'') else Inr v)"

definition cep_require_id :: "string \<Rightarrow> string \<Rightarrow> string res" where
  "cep_require_id s field =
     (if \<not> valid_id s
      then cep_error (field @ '' must be a non-empty printable ASCII identifier'')
      else Inr s)"

definition validate_rotation_catalog :: "(int \<times> int) list \<Rightarrow> (int, int) dict res" where
  "validate_rotation_catalog entries =
     rfold (\<lambda>rotations (logical_shift, openfhe_index).
        if logical_shift = 0 then cep_error ''logical_shift must be a non-zero integer''
        else if openfhe_index = 0 then cep_error ''openfhe_index must be a non-zero integer''
        else if logical_shift \<in> fst ` set rotations then
          cep_error ''rotation catalog logical shifts must be unique''
        else Inr (AList.update logical_shift openfhe_index rotations)) [] entries"

section \<open>Validation of a program\<close>

text \<open>
  The local variables of \<open>_validate_cloud_program\<close>. Sets of identifiers are lists; the two
  dictionaries that are only looked up are maps, the two that are iterated are association
  lists.
\<close>

record validation =
  v_lengths :: "string \<Rightarrow> int option"
  v_roles :: "string \<Rightarrow> string option"
  v_mask_lengths :: "string \<Rightarrow> int option"
  v_declared :: "string list"
  v_node_by_result :: "(string, cloud_node) dict"
  v_dependencies :: "(string, string list) dict"
  v_returns :: "cloud_node list"
  v_f1m_returns :: "string list"

definition empty_validation :: validation where
  "empty_validation =
     \<lparr>v_lengths = Map.empty, v_roles = Map.empty, v_mask_lengths = Map.empty, v_declared = [],
      v_node_by_result = [], v_dependencies = [], v_returns = [], v_f1m_returns = []\<rparr>"

definition unique_error :: string where
  "unique_error = ''all operand and SSA identifiers must be unique''"

definition declare_input :: "int \<Rightarrow> validation \<Rightarrow> ciphertext_input \<Rightarrow> validation res" where
  "declare_input slots v c =
     rbind (cep_require_id (ci_id c) ''ciphertext_id'') (\<lambda>cid.
     if cid \<in> set (v_declared v) then cep_error unique_error
     else if ci_role c \<notin> {''value'', ''query'', ''f1m-mask''} then
       cep_error ''ciphertext input has an unsupported role''
     else rbind (cep_require_positive_int (ci_length c) ''ciphertext input length'') (\<lambda>len.
     if len \<noteq> slots then cep_error ''ciphertext input length must equal slot_count''
     else Inr (v\<lparr>v_declared := cid # v_declared v, v_lengths := (v_lengths v)(cid \<mapsto> len),
                 v_roles := (v_roles v)(cid \<mapsto> ci_role c)\<rparr>)))"

definition declare_mask :: "int \<Rightarrow> validation \<Rightarrow> plaintext_mask \<Rightarrow> validation res" where
  "declare_mask slots v m =
     rbind (cep_require_id (mask_id m) ''mask_id'') (\<lambda>mid.
     if mid \<in> set (v_declared v) then cep_error unique_error
     else if mask_role m \<noteq> ''selection'' then
       cep_error ''plaintext mask has an unsupported role''
     else rbind (cep_require_positive_int (mask_length m) ''plaintext mask length'') (\<lambda>len.
     if len \<noteq> slots then cep_error ''plaintext mask length must equal slot_count''
     else if int (length (mask_values m)) \<noteq> len then
       cep_error ''plaintext mask values length must equal length''
     else if \<exists>x \<in> set (mask_values m). x \<notin> {0, 1} then
       cep_error ''selection plaintext mask values must be strict 0/1''
     else Inr (v\<lparr>v_declared := mid # v_declared v,
                 v_mask_lengths := (v_mask_lengths v)(mid \<mapsto> len)\<rparr>)))"

definition require_ciphertext :: "validation \<Rightarrow> string \<Rightarrow> string \<Rightarrow> int res" where
  "require_ciphertext v cid field =
     rbind (cep_require_id cid field) (\<lambda>cid.
     case v_lengths v cid of
       None \<Rightarrow> cep_error (field @ '' must reference a previously defined ciphertext'')
     | Some len \<Rightarrow> Inr len)"

text \<open>
  \<open>define_result\<close>, followed by the assignment \<open>dependencies[result_id] = ...\<close> that every
  caller makes next.
\<close>

definition define_result ::
  "validation \<Rightarrow> string \<Rightarrow> int \<Rightarrow> cloud_node \<Rightarrow> string list \<Rightarrow> validation res"
where
  "define_result v rid len node deps =
     rbind (cep_require_id rid ''result_id'') (\<lambda>rid.
     if rid \<in> set (v_declared v) then cep_error unique_error
     else Inr (v\<lparr>v_declared := rid # v_declared v, v_lengths := (v_lengths v)(rid \<mapsto> len),
                 v_roles := (v_roles v)(rid \<mapsto> ''computed''),
                 v_node_by_result := AList.update rid node (v_node_by_result v),
                 v_dependencies := AList.update rid deps (v_dependencies v)\<rparr>))"

definition validate_return ::
  "string list option \<Rightarrow> validation \<Rightarrow> string \<Rightarrow> string \<Rightarrow> validation res"
where
  "validate_return required v rid cid =
     rbind (cep_require_id rid ''result_id'') (\<lambda>rid.
     rbind (require_ciphertext v cid ''ciphertext_id'') (\<lambda>_.
     if rid \<in> set (v_declared v) then cep_error unique_error
     else
       let producer = map_of (v_node_by_result v) cid;
           producer_is = (\<lambda>p. case producer of None \<Rightarrow> False | Some n \<Rightarrow> p n);
           requires_mask = (case required of None \<Rightarrow> True | Some ids \<Rightarrow> rid \<in> set ids)
       in if requires_mask \<and> \<not> producer_is is_f1m then
            cep_error (if required = None
              then ''each ReturnResult must directly return one AddF1MMask result''
              else ''each required result must directly return one AddF1MMask result'')
          else if \<not> requires_mask \<and> producer_is is_f1m then
            cep_error ''a nonrequired result must not add an F1M mask''
          else if \<not> requires_mask \<and>
              \<not> producer_is (\<lambda>n. is_relinearize n \<or> is_select n \<or> is_add n) then
            cep_error ''an unmasked result must return a final evaluated ciphertext''
          else Inr (v\<lparr>v_declared := rid # v_declared v,
                      v_returns := v_returns v @ [ReturnResult rid cid],
                      v_f1m_returns := (if producer_is is_f1m then cid # v_f1m_returns v
                                        else v_f1m_returns v)\<rparr>)))"

fun validate_node ::
  "(int, int) dict \<Rightarrow> string list option \<Rightarrow> validation \<Rightarrow> cloud_node \<Rightarrow> validation res"
where
  "validate_node rotations required v (MultiplyCiphertexts r a b) =
     rbind (require_ciphertext v a ''left_id'') (\<lambda>la.
     rbind (require_ciphertext v b ''right_id'') (\<lambda>lb.
     if la \<noteq> lb then cep_error ''ciphertext multiplication lengths must match''
     else if {v_roles v a, v_roles v b} \<noteq> {Some ''query'', Some ''value''} then
       cep_error ''MultiplyCiphertexts operands must have value and query roles''
     else define_result v r la (MultiplyCiphertexts r a b) [a, b]))"
| "validate_node rotations required v (Relinearize r a) =
     rbind (require_ciphertext v a ''ciphertext_id'') (\<lambda>la.
     if \<not> (case map_of (v_node_by_result v) a of None \<Rightarrow> False | Some n \<Rightarrow> is_multiply n) then
       cep_error ''Relinearize input must be a direct MultiplyCiphertexts result''
     else define_result v r la (Relinearize r a) [a])"
| "validate_node rotations required v (Rotate r a shift index) =
     rbind (require_ciphertext v a ''ciphertext_id'') (\<lambda>la.
     if shift = 0 then cep_error ''Rotate.logical_shift must be a non-zero integer''
     else if index = 0 then cep_error ''Rotate.openfhe_index must be a non-zero integer''
     else if map_of rotations shift \<noteq> Some index then
       cep_error ''Rotate must use the exact logical-shift/OpenFHE-index catalog entry''
     else define_result v r la (Rotate r a shift index) [a])"
| "validate_node rotations required v (MultiplyPlaintextMask r a m) =
     rbind (require_ciphertext v a ''ciphertext_id'') (\<lambda>la.
     rbind (cep_require_id m ''mask_id'') (\<lambda>m.
     case v_mask_lengths v m of
       None \<Rightarrow> cep_error ''mask_id must reference a declared plaintext mask''
     | Some lm \<Rightarrow>
         if lm \<noteq> la then cep_error ''ciphertext and plaintext mask lengths must match''
         else define_result v r la (MultiplyPlaintextMask r a m) [a, m]))"
| "validate_node rotations required v (AddCiphertexts r a b) =
     rbind (require_ciphertext v a ''left_id'') (\<lambda>la.
     rbind (require_ciphertext v b ''right_id'') (\<lambda>lb.
     if la \<noteq> lb then cep_error ''ciphertext addition lengths must match''
     else define_result v r la (AddCiphertexts r a b) [a, b]))"
| "validate_node rotations required v (AddF1MMask r a m role) =
     rbind (require_ciphertext v a ''ciphertext_id'') (\<lambda>la.
     rbind (require_ciphertext v m ''mask_ciphertext_id'') (\<lambda>lm.
     if v_roles v m \<noteq> Some ''f1m-mask'' then
       cep_error ''mask_ciphertext_id must reference an f1m-mask ciphertext input''
     else if role \<noteq> ''opaque-zero-sum'' then
       cep_error ''AddF1MMask has an unsupported mask role''
     else if la \<noteq> lm then cep_error ''result and F1M mask lengths must match''
     else define_result v r la (AddF1MMask r a m role) [a, m]))"
| "validate_node rotations required v (ReturnResult r a) = validate_return required v r a"

text \<open>The nodes that consume an identifier, in program order.\<close>

definition consumers_of :: "validation \<Rightarrow> string \<Rightarrow> cloud_node list" where
  "consumers_of v i = concat (map (\<lambda>(rid, deps).
     concat (map (\<lambda>d. if d = i then
       (case map_of (v_node_by_result v) rid of None \<Rightarrow> [] | Some n \<Rightarrow> [n]) else []) deps))
     (v_dependencies v))"

text \<open>The liveness worklist: a stack, with the set of live identifiers found so far.\<close>

definition live_step ::
  "(string, cloud_node) dict \<Rightarrow> string list \<times> string list \<Rightarrow> string \<Rightarrow> string list \<times> string list"
where
  "live_step nbr = (\<lambda>(live, stack) d.
     if d \<in> fst ` set nbr \<and> d \<notin> set live then (d # live, d # stack) else (live, stack))"

definition live_measure :: "(string, cloud_node) dict \<Rightarrow> string list \<times> string list \<Rightarrow> nat" where
  "live_measure nbr = (\<lambda>(live, stack).
     2 * length (filter (\<lambda>k. k \<notin> set live) (remdups (map fst nbr))) + length stack)"

lemma live_measure_step: "live_measure nbr (live_step nbr s d) \<le> live_measure nbr s"
proof (cases s)
  case (Pair live stack)
  let ?ks = "remdups (map fst nbr)"
  show ?thesis
  proof (cases "d \<in> fst ` set nbr \<and> d \<notin> set live")
    case True
    then have "d \<in> set (filter (\<lambda>k. k \<notin> set live) ?ks)" by auto
    moreover have "filter (\<lambda>k. k \<notin> set (d # live)) ?ks =
        remove1 d (filter (\<lambda>k. k \<notin> set live) ?ks)"
      by (subst distinct_remove1_removeAll) (auto simp: removeAll_filter_not_eq intro: filter_cong)
    ultimately have "Suc (length (filter (\<lambda>k. k \<notin> set (d # live)) ?ks)) =
        length (filter (\<lambda>k. k \<notin> set live) ?ks)"
      by (metis One_nat_def Suc_pred length_pos_if_in_set length_remove1)
    with True Pair show ?thesis by (simp add: live_measure_def live_step_def)
  next
    case False
    then show ?thesis using Pair by (auto simp: live_measure_def live_step_def)
  qed
qed

lemma live_measure_foldl: "live_measure nbr (foldl (live_step nbr) s ds) \<le> live_measure nbr s"
proof (induction ds arbitrary: s)
  case Nil
  then show ?case by simp
next
  case (Cons d ds)
  have "live_measure nbr (foldl (live_step nbr) (live_step nbr s d) ds)
      \<le> live_measure nbr (live_step nbr s d)" by (rule Cons.IH)
  also have "\<dots> \<le> live_measure nbr s" by (rule live_measure_step)
  finally show ?case by simp
qed

function live_closure ::
  "(string, cloud_node) dict \<Rightarrow> (string, string list) dict \<Rightarrow> string list \<times> string list \<Rightarrow> string list"
where
  "live_closure nbr deps (live, []) = live"
| "live_closure nbr deps (live, r # stack) =
     live_closure nbr deps (foldl (live_step nbr) (live, stack) (dict_get deps r []))"
  by pat_completeness auto
termination
proof (relation "measure (\<lambda>(nbr, _, s). live_measure nbr s)", goal_cases)
  case 1
  then show ?case by simp
next
  case (2 nbr deps live r stack)
  have "live_measure nbr (foldl (live_step nbr) (live, stack) (dict_get deps r []))
      \<le> live_measure nbr (live, stack)" by (rule live_measure_foldl)
  also have "\<dots> < live_measure nbr (live, r # stack)" by (simp add: live_measure_def)
  finally show ?case by simp
qed

definition validate_result_ids ::
  "string list option \<Rightarrow> cloud_program \<Rightarrow> validation \<Rightarrow> unit res"
where
  "validate_result_ids required p v =
     rbind (rfold (\<lambda>_ r. rbind (cep_require_id r ''result_ids entry'') (\<lambda>_. Inr ())) ()
              (result_ids p)) (\<lambda>_.
     if result_ids p \<noteq> map node_result_id (v_returns v) then
       cep_error ''result_ids must exactly match ReturnResult identifiers in program order''
     else case required of
       None \<Rightarrow> Inr ()
     | Some ids \<Rightarrow>
         rbind (rfold (\<lambda>_ r. rbind (cep_require_id r ''required masked result ID'') (\<lambda>_. Inr ())) ()
                  ids) (\<lambda>_.
         if \<not> set ids \<subseteq> set (result_ids p) then
           cep_error ''required masked result IDs must be a subset of returned result IDs''
         else Inr ()))"

definition validate_f1m_use :: "cloud_program \<Rightarrow> validation \<Rightarrow> unit res" where
  "validate_f1m_use p v =
     (let f1m = filter (\<lambda>(_, n). is_f1m n) (v_node_by_result v);
          uses = concat (map (\<lambda>(_, n). case node_mask_ciphertext_id n of None \<Rightarrow> [] | Some m \<Rightarrow> [m])
                   (v_node_by_result v));
          operand_ids = map ci_id (filter (\<lambda>c. ci_role c = ''f1m-mask'') (ciphertext_inputs p))
      in if \<exists>(r, _) \<in> set f1m. count_list (v_f1m_returns v) r \<noteq> 1 then
           cep_error ''each AddF1MMask result must be returned exactly once''
         else if \<exists>i \<in> set operand_ids. count_list uses i \<noteq> 1 then
           cep_error ''each F1M mask operand must be consumed exactly once''
         else Inr ())"

definition validate_consumers :: "cloud_program \<Rightarrow> validation \<Rightarrow> unit res" where
  "validate_consumers p v =
     rbind (rfold (\<lambda>_ c.
       let cs = consumers_of v (ci_id c) in
       if ci_role c \<in> {''value'', ''query''} \<and>
           (length cs \<noteq> 1 \<or> \<not> is_multiply (cs ! 0)) then
         cep_error ''value and query operands must each be consumed by one MultiplyCiphertexts node''
       else if ci_role c = ''f1m-mask'' \<and>
           (length cs \<noteq> 1 \<or> \<not> is_f1m (cs ! 0) \<or>
            node_mask_ciphertext_id (cs ! 0) \<noteq> Some (ci_id c)) then
         cep_error ''F1M mask operands may only be consumed as one AddF1MMask mask operand''
       else Inr ()) () (ciphertext_inputs p)) (\<lambda>_.
     rfold (\<lambda>_ (rid, n).
       let cs = consumers_of v rid in
       if is_multiply n \<and> (length cs \<noteq> 1 \<or> \<not> is_relinearize (cs ! 0)) then
         cep_error ''each MultiplyCiphertexts result must feed one direct Relinearize''
       else Inr ()) () (v_node_by_result v))"

definition validate_liveness :: "string list \<Rightarrow> validation \<Rightarrow> unit res" where
  "validate_liveness operand_ids v =
     (let returned = remdups (map (\<lambda>n. case n of ReturnResult _ c \<Rightarrow> c | _ \<Rightarrow> []) (v_returns v));
          live = live_closure (v_node_by_result v) (v_dependencies v) (returned, returned);
          used = filter (\<lambda>d. d \<in> set operand_ids) (concat (map snd (v_dependencies v)))
      in if \<not> fst ` set (v_node_by_result v) \<subseteq> set live then
           cep_error ''every computation node must contribute to a returned result''
         else if set used \<noteq> set operand_ids then
           cep_error ''every declared operand must contribute to a returned result''
         else Inr ())"

definition validate_program ::
  "cloud_program \<Rightarrow> string list option \<Rightarrow> unit res"
where
  "validate_program p required =
     (if cp_format p \<noteq> cloud_program_format then
        cep_error (''program format must be '' @ cloud_program_format)
      else
     rbind (cep_require_positive_int (cp_slot_count p) ''slot_count'') (\<lambda>slots.
     rbind (validate_rotation_catalog (rotation_catalog p)) (\<lambda>rotations.
     rbind (rfold (declare_input slots) empty_validation (ciphertext_inputs p)) (\<lambda>v1.
     rbind (rfold (declare_mask slots) v1 (plaintext_masks p)) (\<lambda>v2.
     rbind (rfold (validate_node rotations required) v2 (nodes p)) (\<lambda>v3.
     rbind (validate_result_ids required p v3) (\<lambda>_.
     rbind (validate_f1m_use p v3) (\<lambda>_.
     rbind (validate_consumers p v3) (\<lambda>_.
     validate_liveness (v_declared v2) v3)))))))))"

definition validate_cloud_program :: "cloud_program \<Rightarrow> unit res" where
  "validate_cloud_program p = validate_program p None"

section \<open>Canonical payloads and digests\<close>

fun node_payload :: "cloud_node \<Rightarrow> json" where
  "node_payload (MultiplyCiphertexts r a b) = JObj [(''left_id'', JStr a),
     (''op'', JStr ''multiply-ciphertexts''), (''result_id'', JStr r), (''right_id'', JStr b)]"
| "node_payload (Relinearize r a) = JObj [(''ciphertext_id'', JStr a),
     (''op'', JStr ''relinearize''), (''result_id'', JStr r)]"
| "node_payload (Rotate r a shift index) = JObj [(''ciphertext_id'', JStr a),
     (''logical_shift'', JInt shift), (''openfhe_index'', JInt index),
     (''op'', JStr ''rotate''), (''result_id'', JStr r)]"
| "node_payload (MultiplyPlaintextMask r a m) = JObj [(''ciphertext_id'', JStr a),
     (''mask_id'', JStr m), (''op'', JStr ''multiply-plaintext-mask''), (''result_id'', JStr r)]"
| "node_payload (AddCiphertexts r a b) = JObj [(''left_id'', JStr a),
     (''op'', JStr ''add-ciphertexts''), (''result_id'', JStr r), (''right_id'', JStr b)]"
| "node_payload (AddF1MMask r a m role) = JObj [(''ciphertext_id'', JStr a),
     (''mask_ciphertext_id'', JStr m), (''mask_role'', JStr role),
     (''op'', JStr ''add-f1m-mask''), (''result_id'', JStr r)]"
| "node_payload (ReturnResult r a) = JObj [(''ciphertext_id'', JStr a),
     (''op'', JStr ''return-result''), (''result_id'', JStr r)]"

definition masked_return_result_ids :: "cloud_program \<Rightarrow> string list" where
  "masked_return_result_ids p =
     (let f1m = map node_result_id (filter is_f1m (nodes p)) in
      concat (map (\<lambda>n. case n of ReturnResult r c \<Rightarrow> (if c \<in> set f1m then [r] else []) | _ \<Rightarrow> [])
        (nodes p)))"

definition canonical_cloud_program_payload :: "cloud_program \<Rightarrow> json res" where
  "canonical_cloud_program_payload p =
     rbind (validate_program p (Some (masked_return_result_ids p))) (\<lambda>_.
     Inr (JObj [
       (''ciphertext_inputs'', JList (map (\<lambda>c. JObj [(''ciphertext_id'', JStr (ci_id c)),
          (''length'', JInt (ci_length c)), (''role'', JStr (ci_role c))])
          (sort_key ci_id (ciphertext_inputs p)))),
       (''format'', JStr (cp_format p)),
       (''nodes'', JList (map node_payload (nodes p))),
       (''plaintext_masks'', JList (map (\<lambda>m. JObj [(''length'', JInt (mask_length m)),
          (''mask_id'', JStr (mask_id m)), (''role'', JStr (mask_role m)),
          (''values'', jints (mask_values m))]) (sort_key mask_id (plaintext_masks p)))),
       (''result_ids'', JList (map JStr (result_ids p))),
       (''rotation_catalog'', JList (map (\<lambda>(s, i). JObj [(''logical_shift'', JInt s),
          (''openfhe_index'', JInt i)]) (sort (rotation_catalog p)))),
       (''slot_count'', JInt (cp_slot_count p))]))"

definition canonical_cloud_program_bytes :: "cloud_program \<Rightarrow> string res" where
  "canonical_cloud_program_bytes p =
     rbind (canonical_cloud_program_payload p) (\<lambda>j. Inr (dumps True j))"

definition cloud_program_digest :: "cloud_program \<Rightarrow> string res" where
  "cloud_program_digest p = rbind (canonical_cloud_program_bytes p) (\<lambda>s. Inr (sha256_hex s))"

definition cep_require_sha256_digest :: "string \<Rightarrow> string \<Rightarrow> string res" where
  "cep_require_sha256_digest s field =
     (if \<not> valid_sha256 s then cep_error (field @ '' must be a lowercase SHA-256 hex digest'')
      else Inr s)"

definition validate_execution_binding :: "execution_binding \<Rightarrow> unit res" where
  "validate_execution_binding b =
     (if eb_format b \<noteq> execution_binding_format then
        cep_error (''binding format must be '' @ execution_binding_format)
      else
      rbind (cep_require_id (eb_version_id b) ''version_id'') (\<lambda>_.
      rbind (cep_require_sha256_digest (eb_output_plan_digest b) ''output_plan_digest'') (\<lambda>_.
      rbind (cep_require_sha256_digest (eb_cloud_program_digest b) ''cloud_program_digest'') (\<lambda>_.
      Inr ()))))"

definition canonical_execution_binding_payload :: "execution_binding \<Rightarrow> json res" where
  "canonical_execution_binding_payload b =
     rbind (validate_execution_binding b) (\<lambda>_.
     Inr (JObj [(''cloud_program_digest'', JStr (eb_cloud_program_digest b)),
       (''format'', JStr (eb_format b)), (''output_plan_digest'', JStr (eb_output_plan_digest b)),
       (''version_id'', JStr (eb_version_id b))]))"

definition canonical_execution_binding_bytes :: "execution_binding \<Rightarrow> string res" where
  "canonical_execution_binding_bytes b =
     rbind (canonical_execution_binding_payload b) (\<lambda>j. Inr (dumps True j))"

definition execution_binding_digest :: "execution_binding \<Rightarrow> string res" where
  "execution_binding_digest b =
     rbind (canonical_execution_binding_bytes b) (\<lambda>s. Inr (sha256_hex s))"

definition check_program_binding :: "cloud_execution_plan \<Rightarrow> unit res" where
  "check_program_binding plan =
     rbind (validate_execution_binding (binding plan)) (\<lambda>_.
     rbind (cloud_program_digest (program plan)) (\<lambda>d.
     if eb_cloud_program_digest (binding plan) \<noteq> d then
       cep_error ''binding cloud_program_digest does not match the canonical program''
     else Inr ()))"

definition validate_cloud_execution_plan :: "cloud_execution_plan \<Rightarrow> unit res" where
  "validate_cloud_execution_plan plan =
     rbind (validate_cloud_program (program plan)) (\<lambda>_. check_program_binding plan)"

definition validate_cloud_execution_plan_with_masked_results ::
  "cloud_execution_plan \<Rightarrow> string list \<Rightarrow> unit res"
where
  "validate_cloud_execution_plan_with_masked_results plan required =
     rbind (validate_program (program plan) (Some required)) (\<lambda>_. check_program_binding plan)"

definition validate_cloud_execution_plan_for_serialization ::
  "cloud_execution_plan \<Rightarrow> unit res"
where
  "validate_cloud_execution_plan_for_serialization plan =
     validate_cloud_execution_plan_with_masked_results plan
       (masked_return_result_ids (program plan))"

definition canonical_cloud_visible_payload :: "cloud_execution_plan \<Rightarrow> json res" where
  "canonical_cloud_visible_payload plan =
     rbind (validate_cloud_execution_plan_for_serialization plan) (\<lambda>_.
     rbind (canonical_execution_binding_payload (binding plan)) (\<lambda>b.
     rbind (canonical_cloud_program_payload (program plan)) (\<lambda>p.
     Inr (JObj [(''binding'', b), (''format'', JStr cloud_execution_plan_format),
       (''program'', p)]))))"

definition canonical_cloud_visible_bytes :: "cloud_execution_plan \<Rightarrow> string res" where
  "canonical_cloud_visible_bytes plan =
     rbind (canonical_cloud_visible_payload plan) (\<lambda>j. Inr (dumps True j))"

section \<open>Operation counts\<close>

definition count_nodes :: "(cloud_node \<Rightarrow> bool) \<Rightarrow> cloud_node list \<Rightarrow> int" where
  "count_nodes p ns = int (length (filter p ns))"

definition analyze_cloud_plan :: "cloud_execution_plan \<Rightarrow> cloud_plan_counts res" where
  "analyze_cloud_plan plan =
     rbind (validate_cloud_execution_plan_for_serialization plan) (\<lambda>_.
     let ns = nodes (program plan) in
     Inr \<lparr>
       n_ciphertext_inputs = int (length (ciphertext_inputs (program plan))),
       n_ciphertext_inputs_by_role =
         sort (counter_of (map ci_role (ciphertext_inputs (program plan)))),
       n_plaintext_masks = int (length (plaintext_masks (program plan))),
       n_multiply_ciphertexts = count_nodes is_multiply ns,
       n_relinearizations = count_nodes is_relinearize ns,
       n_rotations = count_nodes is_rotate ns,
       n_rotations_by_exact_index = sort (counter_of (concat (map
         (\<lambda>n. case n of Rotate _ _ _ i \<Rightarrow> [i] | _ \<Rightarrow> []) ns))),
       n_multiply_plaintext_masks = count_nodes is_select ns,
       n_add_ciphertexts = count_nodes is_add ns,
       n_add_f1m_masks = count_nodes is_f1m ns,
       n_returned_ciphertexts = count_nodes is_return ns\<rparr>)"

section \<open>The fixed-stride schedule\<close>

text \<open>\<open>segment_width & (segment_width - 1)\<close> is non-zero exactly off the powers of two.\<close>

definition bad_segment_width :: "int \<Rightarrow> int \<Rightarrow> bool" where
  "bad_segment_width segment_width effective_slots \<longleftrightarrow>
     segment_width < 2 \<or> segment_width > effective_slots \<or>
     and segment_width (segment_width - 1) \<noteq> 0"

text \<open>\<open>shift = 1; while shift < w: ...; shift *= 2\<close>; the first conjunct only makes it total.\<close>

function doubling_shifts :: "int \<Rightarrow> int \<Rightarrow> int list" where
  "doubling_shifts s w = (if 0 < s \<and> s < w then s # doubling_shifts (2 * s) w else [])"
  by pat_completeness auto
termination
  by (relation "measure (\<lambda>(s, w). nat (w - s))") auto

declare doubling_shifts.simps [simp del]

definition fixed_stride_selection :: "int \<Rightarrow> int \<Rightarrow> int list" where
  "fixed_stride_selection effective_slots segment_width =
     map (\<lambda>lane. if lane < effective_slots div segment_width * segment_width \<and>
                   lane mod segment_width = 0 then 1 else 0) (py_range 0 effective_slots)"

text \<open>The doubling reduction of one page: (accumulated identifier, emitted nodes).\<close>

definition page_reduction :: "string \<Rightarrow> string \<Rightarrow> int list \<Rightarrow> string \<times> cloud_node list" where
  "page_reduction ordinal start shifts =
     foldl (\<lambda>(acc, ns) shift.
        let rotated = ''ssa-rotate-'' @ ordinal @ ''-'' @ fmt06 (nat shift);
            total = ''ssa-sum-'' @ ordinal @ ''-'' @ fmt06 (nat (shift * 2))
        in (total, ns @ [Rotate rotated acc shift shift, AddCiphertexts total acc rotated]))
       (start, []) shifts"

definition fixed_stride_page :: "int \<Rightarrow> int \<Rightarrow> int list \<Rightarrow> cloud_program \<Rightarrow> nat \<Rightarrow> cloud_program" where
  "fixed_stride_page effective_slots segment_width shifts p page_ordinal =
     (let ordinal = fmt06 page_ordinal;
          value_id = ''ct-value-'' @ ordinal;
          query_id = ''ct-query-'' @ ordinal;
          f1m_id = ''ct-f1m-'' @ ordinal;
          selection_id = ''pt-selection-'' @ ordinal;
          product_id = ''ssa-product-'' @ ordinal;
          relinearized_id = ''ssa-relinearized-'' @ ordinal;
          (accumulated_id, ns) = page_reduction ordinal relinearized_id shifts;
          selected_id = ''ssa-selected-'' @ ordinal;
          masked_id = ''ssa-masked-'' @ ordinal;
          result_id = ''page-'' @ ordinal
      in p\<lparr>
        ciphertext_inputs := ciphertext_inputs p @
          [\<lparr>ci_id = value_id, ci_role = ''value'', ci_length = effective_slots\<rparr>,
           \<lparr>ci_id = query_id, ci_role = ''query'', ci_length = effective_slots\<rparr>,
           \<lparr>ci_id = f1m_id, ci_role = ''f1m-mask'', ci_length = effective_slots\<rparr>],
        plaintext_masks := plaintext_masks p @
          [\<lparr>mask_id = selection_id, mask_role = ''selection'', mask_length = effective_slots,
            mask_values = fixed_stride_selection effective_slots segment_width\<rparr>],
        nodes := nodes p @
          [MultiplyCiphertexts product_id value_id query_id,
           Relinearize relinearized_id product_id] @ ns @
          [MultiplyPlaintextMask selected_id accumulated_id selection_id,
           AddF1MMask masked_id selected_id f1m_id ''opaque-zero-sum'',
           ReturnResult result_id masked_id],
        result_ids := result_ids p @ [result_id]\<rparr>)"

definition build_fixed_stride_cloud_program :: "int \<Rightarrow> int \<Rightarrow> int \<Rightarrow> cloud_program res" where
  "build_fixed_stride_cloud_program page_count effective_slots segment_width =
     (if page_count < 0 then cep_error ''page_count must be a non-negative integer''
      else rbind (cep_require_positive_int effective_slots ''effective_slots'') (\<lambda>slots.
      if bad_segment_width segment_width slots then
        cep_error ''segment_width must be a power of two in [2, effective_slots]''
      else
        let shifts = doubling_shifts 1 segment_width;
            p = foldl (fixed_stride_page slots segment_width shifts)
              \<lparr>cp_format = cloud_program_format, cp_slot_count = slots, ciphertext_inputs = [],
               plaintext_masks = [], nodes = [], result_ids = [],
               rotation_catalog =
                 (if page_count \<noteq> 0 then map (\<lambda>s. (s, s)) shifts else [])\<rparr>
              [0..<nat page_count]
        in rbind (validate_cloud_program p) (\<lambda>_. Inr p)))"

definition validate_fixed_stride_cloud_program ::
  "cloud_program \<Rightarrow> int \<Rightarrow> int \<Rightarrow> int \<Rightarrow> unit res"
where
  "validate_fixed_stride_cloud_program p page_count effective_slots segment_width =
     rbind (build_fixed_stride_cloud_program page_count effective_slots segment_width) (\<lambda>expected.
     rbind (canonical_cloud_program_bytes p) (\<lambda>b.
     rbind (canonical_cloud_program_bytes expected) (\<lambda>e.
     if b \<noteq> e then cep_error ''program does not match the fixed-stride canonical program''
     else Inr ())))"

end
