(* ===== verification/Double.thy ===== *)
theory Double
  imports Prelude
begin

text \<open>
  Python's \<open>float\<close>, an IEEE 754 double, as far as times use it: comparison, addition and
  subtraction. Every finite double is an integer multiple of the smallest positive one, \<open>2 ^ -1074\<close>,
  so \<open>Finite n\<close> is the number \<open>n * 2 ^ -1074\<close>. Sums and differences of such multiples are multiples,
  and rounding keeps 53 significant bits, half to even; a result of \<open>2 ^ 1024\<close> or more is infinite.
  The two zeros are one value: no comparison, sum or difference with another value tells them apart.
\<close>

datatype double = Finite int | Infinity | MinusInfinity | NaN

section \<open>Rounding\<close>

text \<open>To a multiple of \<open>2 ^ k\<close>, half to even; \<open>bit_width\<close> counts the bits of a nonnegative number.\<close>

definition round_even :: "nat \<Rightarrow> int \<Rightarrow> int" where
  "round_even k n =
     (let q = n div 2 ^ k; r = 2 * (n mod 2 ^ k)
      in if r > 2 ^ k \<or> r = 2 ^ k \<and> odd q then (q + 1) * 2 ^ k else q * 2 ^ k)"

function bit_width :: "int \<Rightarrow> nat" where
  "bit_width n = (if n \<le> 0 then 0 else Suc (bit_width (n div 2)))"
  by auto
termination by (relation "measure nat") auto

declare bit_width.simps [simp del]

definition spare_bits :: "int \<Rightarrow> nat" where
  "spare_bits n = bit_width \<bar>n\<bar> - 53"

definition round53_bits :: "int \<Rightarrow> int" where
  "round53_bits n = round_even (spare_bits n) n"

definition to_double :: "int \<Rightarrow> double" where
  "to_double n =
     (let m = round53_bits n in
      if m \<ge> 2 ^ 2098 then Infinity else if m \<le> - (2 ^ 2098) then MinusInfinity else Finite m)"

definition double_add :: "double \<Rightarrow> double \<Rightarrow> double" where
  "double_add x y = (case (x, y) of
     (NaN, _) \<Rightarrow> NaN | (_, NaN) \<Rightarrow> NaN
   | (Infinity, MinusInfinity) \<Rightarrow> NaN | (MinusInfinity, Infinity) \<Rightarrow> NaN
   | (Infinity, _) \<Rightarrow> Infinity | (_, Infinity) \<Rightarrow> Infinity
   | (MinusInfinity, _) \<Rightarrow> MinusInfinity | (_, MinusInfinity) \<Rightarrow> MinusInfinity
   | (Finite m, Finite n) \<Rightarrow> to_double (m + n))"

definition double_neg :: "double \<Rightarrow> double" where
  "double_neg x = (case x of Finite n \<Rightarrow> Finite (- n) | Infinity \<Rightarrow> MinusInfinity
     | MinusInfinity \<Rightarrow> Infinity | NaN \<Rightarrow> NaN)"

definition double_sub :: "double \<Rightarrow> double \<Rightarrow> double" where
  "double_sub x y = double_add x (double_neg y)"

section \<open>Comparison\<close>

text \<open>Every comparison with a NaN is false, except \<open>!=\<close>.\<close>

definition double_le :: "double \<Rightarrow> double \<Rightarrow> bool" where
  "double_le x y = (case (x, y) of
     (NaN, _) \<Rightarrow> False | (_, NaN) \<Rightarrow> False
   | (MinusInfinity, _) \<Rightarrow> True | (_, Infinity) \<Rightarrow> True
   | (Finite m, Finite n) \<Rightarrow> m \<le> n | _ \<Rightarrow> False)"

definition double_less :: "double \<Rightarrow> double \<Rightarrow> bool" where
  "double_less x y \<longleftrightarrow> double_le x y \<and> \<not> double_le y x"

definition double_eq :: "double \<Rightarrow> double \<Rightarrow> bool" where
  "double_eq x y \<longleftrightarrow> double_le x y \<and> double_le y x"

definition is_finite :: "double \<Rightarrow> bool" where
  "is_finite x = (case x of Finite _ \<Rightarrow> True | _ \<Rightarrow> False)"

text \<open>The multiples of \<open>2 ^ -1074\<close> that are doubles: 53 significant bits and below \<open>2 ^ 1024\<close>.\<close>

definition finite_double :: "double \<Rightarrow> bool" where
  "finite_double x = (case x of Finite n \<Rightarrow> 2 ^ spare_bits n dvd n \<and> \<bar>n\<bar> < 2 ^ 2098 | _ \<Rightarrow> False)"

lemma double_le_Finite [simp]:
  "double_le (Finite m) (Finite n) \<longleftrightarrow> m \<le> n" "double_le (Finite m) Infinity"
  "double_le Infinity (Finite n) = False" "double_le NaN x = False"
  "double_le (Finite m) MinusInfinity = False" "double_le (Finite m) NaN = False"
  by (simp_all add: double_le_def)

lemma double_eq_Finite [simp]: "double_eq (Finite m) (Finite n) \<longleftrightarrow> m = n"
  by (auto simp: double_eq_def)

lemma double_less_Finite [simp]: "double_less (Finite m) (Finite n) \<longleftrightarrow> m < n"
  by (auto simp: double_less_def)

lemma double_add_Finite [simp]: "double_add (Finite m) (Finite n) = to_double (m + n)"
  by (simp add: double_add_def)

lemma double_sub_Finite [simp]: "double_sub (Finite m) (Finite n) = to_double (m - n)"
  by (simp add: double_sub_def double_neg_def)

lemma finite_doubleE:
  assumes "finite_double x"
  obtains n where "x = Finite n" "2 ^ spare_bits n dvd n" "\<bar>n\<bar> < 2 ^ 2098"
  using assms by (cases x) (auto simp: finite_double_def)

section \<open>Rounding is monotone, exact on doubles and close\<close>

lemma round_even_dvd [simp]: "2 ^ k dvd n \<Longrightarrow> round_even k n = n"
  by (auto simp: round_even_def Let_def)

lemma round_even_mono:
  assumes "m \<le> n"
  shows "round_even k m \<le> round_even k n"
proof -
  let ?p = "2 ^ k :: int"
  have le: "m div ?p \<le> n div ?p" using assms by (simp add: zdiv_mono1)
  show ?thesis
  proof (cases "m div ?p = n div ?p")
    case True
    have "m = m div ?p * ?p + m mod ?p" "n = n div ?p * ?p + n mod ?p"
      by (rule div_mult_mod_eq [symmetric])+
    then have "m mod ?p \<le> n mod ?p" using assms True by simp
    then show ?thesis by (auto simp: round_even_def Let_def True algebra_simps)
  next
    case False
    then have "(m div ?p + 1) * ?p \<le> n div ?p * ?p" using le by (intro mult_right_mono) auto
    moreover have "round_even k m \<le> (m div ?p + 1) * ?p" "n div ?p * ?p \<le> round_even k n"
      by (auto simp: round_even_def Let_def)
    ultimately show ?thesis by linarith
  qed
qed

lemma round_even_error: "2 * \<bar>round_even k n - n\<bar> \<le> 2 ^ k"
proof -
  let ?p = "2 ^ k :: int"
  have n: "n = n div ?p * ?p + n mod ?p" by (rule div_mult_mod_eq [symmetric])
  show ?thesis
  proof (cases "2 * (n mod ?p) > ?p \<or> 2 * (n mod ?p) = ?p \<and> odd (n div ?p)")
    case True
    then have "round_even k n = (n div ?p + 1) * ?p" by (simp add: round_even_def Let_def)
    then have "round_even k n - n = ?p - n mod ?p" using n by (simp add: algebra_simps)
    moreover have "?p \<le> 2 * (n mod ?p)" using True by auto
    moreover have "\<bar>?p - n mod ?p\<bar> = ?p - n mod ?p"
      by (rule abs_of_nonneg) (simp add: less_imp_le)
    ultimately show ?thesis by simp
  next
    case False
    then have "round_even k n = n div ?p * ?p" by (simp add: round_even_def Let_def)
    then have "round_even k n - n = - (n mod ?p)" using n by linarith
    moreover have "2 * (n mod ?p) \<le> ?p" using False by auto
    moreover have "\<bar>n mod ?p\<bar> = n mod ?p" by (rule abs_of_nonneg) simp
    ultimately show ?thesis by simp
  qed
qed

lemma round_even_neg: "round_even k (- n) = - round_even k n"
proof -
  let ?p = "2 ^ k :: int"
  define q s where "q = n div ?p" and "s = n mod ?p"
  have n: "n = q * ?p + s" unfolding q_def s_def by (rule div_mult_mod_eq [symmetric])
  have s: "0 \<le> s" "s < ?p" by (simp_all add: s_def)
  show ?thesis
  proof (cases "s = 0")
    case True
    then have "?p dvd n" using n by simp
    then show ?thesis by simp
  next
    case False
    have "- n = ?p * (- q - 1) + (?p - s)" using n by (simp add: algebra_simps)
    then have dm: "(- n) div ?p = - q - 1" "(- n) mod ?p = ?p - s"
      using False s int_div_pos_eq [of "- n" ?p "- q - 1" "?p - s"]
        int_mod_pos_eq [of "- n" ?p "- q - 1" "?p - s"] by auto
    show ?thesis unfolding round_even_def Let_def dm q_def [symmetric] s_def [symmetric]
      using s by (auto simp: algebra_simps)
  qed
qed

lemma round53_neg: "round53_bits (- n) = - round53_bits n"
  by (simp add: round53_bits_def spare_bits_def round_even_neg)

lemma bit_width_bounds: "0 < n \<Longrightarrow> 2 ^ (bit_width n - 1) \<le> n \<and> n < 2 ^ bit_width n"
proof (induction n rule: bit_width.induct)
  case (1 n)
  show ?case
  proof (cases "n = 1")
    case False
    then have IH: "2 ^ (bit_width (n div 2) - 1) \<le> n div 2" "n div 2 < 2 ^ bit_width (n div 2)" "0 < n div 2"
      using 1 by simp_all
    then have "bit_width (n div 2) \<noteq> 0" by (auto simp: bit_width.simps [of "n div 2"])
    then obtain k where k: "bit_width (n div 2) = Suc k" by (auto simp: gr0_conv_Suc)
    then have w: "bit_width n = Suc (Suc k)" using 1(2) by (simp add: bit_width.simps [of n])
    have "2 * (n div 2) \<le> n" "n < 2 * (n div 2) + 2" by linarith+
    then show ?thesis using IH(1,2) unfolding w k diff_Suc_1 power_Suc by linarith
  qed (simp add: bit_width.simps)
qed

lemma significant_bounds:
  assumes "n \<noteq> 0"
  shows "2 ^ (bit_width \<bar>n\<bar> - 1) \<le> \<bar>n\<bar> \<and> \<bar>n\<bar> < 2 ^ bit_width \<bar>n\<bar>"
  using assms by (intro bit_width_bounds) simp

lemma bit_width_mono:
  assumes "0 < m" and "m \<le> n"
  shows "bit_width m \<le> bit_width n"
proof (rule ccontr)
  assume "\<not> bit_width m \<le> bit_width n"
  then have "(2 :: int) ^ bit_width n \<le> 2 ^ (bit_width m - 1)" by (intro power_increasing) linarith+
  then show False using bit_width_bounds [of m] bit_width_bounds [of n] assms by linarith
qed

lemma round53_mono_nonneg:
  assumes "0 \<le> m" and "m \<le> n"
  shows "round53_bits m \<le> round53_bits n"
proof (cases "spare_bits m = spare_bits n \<or> m = 0")
  case True
  then show ?thesis using assms round_even_mono [of m n "spare_bits n"] round_even_mono [of 0 n "spare_bits n"]
    by (auto simp: round53_bits_def)
next
  case False
  let ?b = "\<lambda>n. bit_width \<bar>n\<bar>"
  have bounds: "m < 2 ^ ?b m" "2 ^ (?b n - 1) \<le> n"
    using significant_bounds [of m] significant_bounds [of n] False assms by auto
  have "?b m \<le> ?b n" using assms False by (intro bit_width_mono) auto
  moreover have "?b m - 53 \<noteq> ?b n - 53" using False by (simp add: spare_bits_def)
  ultimately have lt: "?b m < ?b n" "53 < ?b n" by linarith+
  have "round53_bits m \<le> round_even (spare_bits m) (2 ^ ?b m)"
    unfolding round53_bits_def using bounds(1) by (intro round_even_mono) simp
  also have "\<dots> = 2 ^ ?b m" by (intro round_even_dvd le_imp_power_dvd) (simp add: spare_bits_def)
  also have "\<dots> \<le> (2 :: int) ^ (?b n - 1)" using lt(1) by (intro power_increasing) linarith+
  also have "\<dots> = round_even (spare_bits n) (2 ^ (?b n - 1))"
    unfolding spare_bits_def by (intro round_even_dvd [symmetric] le_imp_power_dvd diff_le_mono2) simp
  also have "\<dots> \<le> round53_bits n" unfolding round53_bits_def using bounds(2) by (rule round_even_mono)
  finally show ?thesis .
qed

lemma round53_mono:
  assumes "m \<le> n"
  shows "round53_bits m \<le> round53_bits n"
proof -
  have pos: "0 \<le> round53_bits k" if "0 \<le> k" for k
    using round53_mono_nonneg [of 0 k] that by (simp add: round53_bits_def)
  consider "0 \<le> m" | "n \<le> 0" | "m \<le> 0" "0 \<le> n" using assms by linarith
  then show ?thesis
  proof cases
    case 1
    then show ?thesis using assms by (rule round53_mono_nonneg)
  next
    case 2
    then show ?thesis using round53_mono_nonneg [of "- n" "- m"] assms by (simp add: round53_neg)
  next
    case 3
    then show ?thesis using pos [of n] pos [of "- m"] by (simp add: round53_neg)
  qed
qed

lemma round53_error: "2 ^ 53 * \<bar>round53_bits n - n\<bar> \<le> \<bar>n\<bar>"
proof (cases "spare_bits n = 0")
  case True
  then have "round53_bits n = n" by (simp add: round53_bits_def)
  then show ?thesis by simp
next
  case False
  let ?b = "bit_width \<bar>n\<bar>"
  have b: "53 < ?b" "spare_bits n = ?b - 53" using False by (auto simp: spare_bits_def)
  then have "n \<noteq> 0" by (auto simp: bit_width.simps)
  have "2 ^ 53 * \<bar>round53_bits n - n\<bar> = 2 ^ 52 * (2 * \<bar>round_even (spare_bits n) n - n\<bar>)"
    by (simp add: round53_bits_def)
  also have "\<dots> \<le> 2 ^ 52 * 2 ^ spare_bits n" by (intro mult_left_mono round_even_error) simp
  also have "\<dots> = 2 ^ (?b - 1)" using b(1) unfolding b(2) power_add [symmetric] by simp
  also have "\<dots> \<le> \<bar>n\<bar>" using significant_bounds [OF \<open>n \<noteq> 0\<close>] by blast
  finally show ?thesis .
qed

lemma to_double_mono: "m \<le> n \<Longrightarrow> double_le (to_double m) (to_double n)"
  using round53_mono [of m n] by (auto simp: to_double_def Let_def double_le_def)

lemma to_double_exact: "finite_double (Finite n) \<Longrightarrow> to_double n = Finite n"
  by (auto simp: finite_double_def to_double_def round53_bits_def Let_def)

lemma to_double_close: "to_double n = Finite m \<Longrightarrow> 2 ^ 53 * \<bar>m - n\<bar> \<le> \<bar>n\<bar>"
  using round53_error [of n] by (auto simp: to_double_def Let_def split: if_splits)

lemma double_le_trans: "double_le x y \<Longrightarrow> double_le y z \<Longrightarrow> double_le x z"
  by (auto simp: double_le_def split: double.splits)

lemma to_double_0 [simp]: "to_double 0 = Finite 0"
  by (simp add: to_double_def round53_bits_def)

section \<open>Laws on finite doubles\<close>

lemma double_le_refl: "finite_double x \<Longrightarrow> double_le x x"
  by (auto elim: finite_doubleE)

lemma double_less_iff: "finite_double x \<Longrightarrow> finite_double y \<Longrightarrow> double_less x y \<longleftrightarrow> \<not> double_le y x"
  by (auto elim!: finite_doubleE)

lemma double_eq_iff: "finite_double x \<Longrightarrow> finite_double y \<Longrightarrow> double_eq x y \<longleftrightarrow> x = y"
  by (auto elim!: finite_doubleE)

lemma double_sub_self: "finite_double x \<Longrightarrow> double_sub x x = Finite 0"
  by (auto elim: finite_doubleE)

lemma double_sub_mono:
  assumes "finite_double x" "finite_double y" "finite_double t" and "double_le x y"
  shows "double_le (double_sub x t) (double_sub y t)"
proof -
  obtain k l n where "x = Finite k" "y = Finite l" "t = Finite n"
    using assms(1-3) by (auto elim!: finite_doubleE)
  then show ?thesis using assms(4) by (simp add: to_double_mono)
qed

lemma double_add_ge:
  assumes x: "finite_double x" and m: "\<not> double_le m (Finite 0)" "double_le m y"
  shows "double_le x (double_add x m)"
proof (cases m)
  case (Finite c)
  obtain n where n: "x = Finite n" using x by (rule finite_doubleE)
  have "double_le (to_double n) (to_double (n + c))" using m Finite by (intro to_double_mono) simp
  then show ?thesis using x by (simp add: n Finite to_double_exact)
next
  case Infinity
  then show ?thesis using x by (auto elim: finite_doubleE simp: double_add_def)
qed (use m in \<open>simp_all add: double_le_def\<close>)

text \<open>
  A difference below a double is below it exactly, and a sum misses the exact one by at most
  \<open>2 ^ -53\<close> of it.
\<close>

lemma double_sub_less:
  assumes "finite_double (Finite c)" and "\<not> double_le (Finite c) (to_double n)"
  shows "n < c"
  using assms to_double_mono [of c n] to_double_exact [of c] by (metis not_le)

lemma double_sub_at_least:
  assumes c: "finite_double (Finite c)" and le: "double_le (Finite c) (to_double n)"
  shows "2 ^ 53 * (c - n) \<le> \<bar>n\<bar>"
proof (cases "c \<le> n")
  case True
  then have "2 ^ 53 * (c - n) \<le> 0" by (simp add: mult_nonneg_nonpos)
  then show ?thesis by linarith
next
  case False
  then have "double_le (to_double n) (Finite c)" using to_double_mono [of n c] to_double_exact [OF c] by simp
  then obtain k where k: "to_double n = Finite k" "c \<le> k" using le by (cases "to_double n") (auto simp: double_le_def)
  have "2 ^ 53 * (c - n) \<le> 2 ^ 53 * \<bar>k - n\<bar>" using k(2) by (intro mult_left_mono) (linarith, simp)
  then show ?thesis using to_double_close [OF k(1)] by linarith
qed

end
