(* ===== verification/Events.thy ===== *)
theory Events
  imports Double
begin

text \<open>
  \<open>events.py\<close>: the event stream of a dynamic matrix and its division into publication
  windows. A window holds the net effect of the SET events since the last boundary; queries,
  version marks, the freshness limit and the microbatch limit are boundaries.

  Timestamps are doubles, compared, subtracted and added as the code does, infinities and NaN
  included.
\<close>

section \<open>Data\<close>

datatype event_kind = SET | TICK | QUERY | VERSION

record event =
  timestamp :: double
  kind :: event_kind
  ev_row :: "int option"
  ev_col :: "int option"
  ev_value :: "int option"

definition event_set :: "double \<Rightarrow> int \<Rightarrow> int \<Rightarrow> int \<Rightarrow> event" where
  "event_set t r c v =
     \<lparr>timestamp = t, kind = SET, ev_row = Some r, ev_col = Some c, ev_value = Some v\<rparr>"

definition event_tick :: "double \<Rightarrow> event" where
  "event_tick t = \<lparr>timestamp = t, kind = TICK, ev_row = None, ev_col = None, ev_value = None\<rparr>"

definition event_query :: "double \<Rightarrow> event" where
  "event_query t = \<lparr>timestamp = t, kind = QUERY, ev_row = None, ev_col = None, ev_value = None\<rparr>"

definition event_version :: "double \<Rightarrow> event" where
  "event_version t =
     \<lparr>timestamp = t, kind = VERSION, ev_row = None, ev_col = None, ev_value = None\<rparr>"

record net_update =
  nu_row :: int
  nu_col :: int
  nu_before :: int
  nu_after :: int

definition is_noop :: "net_update \<Rightarrow> bool" where
  "is_noop u \<longleftrightarrow> nu_before u = nu_after u"

record publication_window =
  pw_index :: int
  pw_start_time :: double
  pw_end_time :: double
  pw_updates :: "net_update list"
  pw_query_count :: int
  pw_reason :: string

section \<open>The windowing generator\<close>

text \<open>The local variables of the generator.\<close>

record window_state =
  matrix :: "(int \<times> int, int) dict"
  first_before :: "(int \<times> int, int) dict"
  touched :: "(int \<times> int) list"
  start_time :: "double option"
  last_time :: "double option"
  next_index :: int
  update_events :: int
  pending_microbatch :: bool
  pending_queries :: int
  pending_query_time :: "double option"

definition net_of ::
  "(int \<times> int, int) dict \<Rightarrow> (int \<times> int, int) dict \<Rightarrow> (int \<times> int) list \<Rightarrow> net_update list"
where
  "net_of first m cs = concat (map (\<lambda>(row, col).
     let before = dict_get first (row, col) 0; after = dict_get m (row, col) 0
     in if before \<noteq> after
        then [\<lparr>nu_row = row, nu_col = col, nu_before = before, nu_after = after\<rparr>] else [])
     (sorted_set cs))"

definition flush :: "double \<Rightarrow> string \<Rightarrow> window_state \<Rightarrow> publication_window list \<times> window_state" where
  "flush end_time reason s =
     (if touched s = [] \<and> pending_queries s = 0 then
        ([], s\<lparr>start_time := None, update_events := 0, pending_microbatch := False\<rparr>)
      else
        ([\<lparr>pw_index = next_index s,
           pw_start_time = (case start_time s of Some t \<Rightarrow> t | None \<Rightarrow> end_time),
           pw_end_time = end_time,
           pw_updates = net_of (first_before s) (matrix s) (touched s),
           pw_query_count = pending_queries s, pw_reason = reason\<rparr>],
         s\<lparr>next_index := next_index s + 1, touched := [], first_before := [],
           start_time := None, update_events := 0, pending_microbatch := False,
           pending_queries := 0, pending_query_time := None\<rparr>))"

definition flush_query ::
  "bool \<Rightarrow> event \<Rightarrow> window_state \<Rightarrow> publication_window list \<times> window_state"
where
  "flush_query query_requires_latest e s =
     (if query_requires_latest \<and> pending_queries s \<noteq> 0 \<and>
         (kind e \<noteq> QUERY \<or>
          (case pending_query_time s of Some t \<Rightarrow> \<not> double_eq (timestamp e) t | None \<Rightarrow> True))
      then flush (case pending_query_time s of Some t \<Rightarrow> t | None \<Rightarrow> timestamp e) ''query'' s
      else ([], s))"

definition flush_microbatch ::
  "double option \<Rightarrow> event \<Rightarrow> window_state \<Rightarrow> publication_window list \<times> window_state"
where
  "flush_microbatch previous_time e s =
     (case previous_time of
        Some p \<Rightarrow> if pending_microbatch s \<and> \<not> double_eq (timestamp e) p then flush p ''microbatch'' s
                   else ([], s)
      | None \<Rightarrow> ([], s))"

definition flush_freshness ::
  "double \<Rightarrow> event \<Rightarrow> window_state \<Rightarrow> publication_window list \<times> window_state"
where
  "flush_freshness max_seconds e s =
     (case start_time s of
        Some t \<Rightarrow> if double_le max_seconds (double_sub (timestamp e) t) \<and> touched s \<noteq> []
                   then flush (double_add t max_seconds) ''freshness'' s else ([], s)
      | None \<Rightarrow> ([], s))"

definition begin_window :: "event \<Rightarrow> window_state \<Rightarrow> window_state" where
  "begin_window e s = (if start_time s = None then s\<lparr>start_time := Some (timestamp e)\<rparr> else s)"

definition apply_set :: "int \<Rightarrow> int \<times> int \<Rightarrow> int \<Rightarrow> window_state \<Rightarrow> window_state" where
  "apply_set limit coord v s =
     (let s1 = (if coord \<notin> fst ` set (first_before s)
                then s\<lparr>first_before := AList.update coord (dict_get (matrix s) coord 0)
                        (first_before s)\<rparr> else s);
          s2 = s1\<lparr>touched := (if coord \<in> set (touched s1) then touched s1 else coord # touched s1)\<rparr>;
          s3 = s2\<lparr>matrix := (if v = 0 then AList.delete coord (matrix s2)
                           else AList.update coord v (matrix s2))\<rparr>;
          s4 = s3\<lparr>update_events := update_events s3 + 1\<rparr>
      in if update_events s4 \<ge> limit then s4\<lparr>pending_microbatch := True\<rparr> else s4)"

text \<open>The branch on the event's kind: the windows it yields, and the next state or the error.\<close>

definition handle_event ::
  "int \<Rightarrow> event \<Rightarrow> window_state \<Rightarrow> publication_window list \<times> window_state res"
where
  "handle_event limit e s =
     (case kind e of
        SET \<Rightarrow> (case (ev_row e, ev_col e, ev_value e) of
            (Some r, Some c, Some v) \<Rightarrow> ([], Inr (apply_set limit (r, c) v (begin_window e s)))
          | _ \<Rightarrow> ([], Inl (ValueError ''set event requires row, col, and value'')))
      | TICK \<Rightarrow>
          if ev_row e \<noteq> None \<or> ev_col e \<noteq> None \<or> ev_value e \<noteq> None
          then ([], Inl (ValueError ''tick event must not carry row, col, or value''))
          else ([], Inr s)
      | QUERY \<Rightarrow> (let s1 = begin_window e s in
          ([], Inr (s1\<lparr>pending_queries := pending_queries s1 + 1,
                       pending_query_time := Some (timestamp e)\<rparr>)))
      | VERSION \<Rightarrow> (let (ws, s1) = flush (timestamp e) ''version'' s in (ws, Inr s1)))"

definition window_step ::
  "double \<Rightarrow> int \<Rightarrow> bool \<Rightarrow> event \<Rightarrow> window_state \<Rightarrow> publication_window list \<times> window_state res"
where
  "window_step max_seconds limit query_requires_latest e s =
     (let previous_time = last_time s in
      if (case previous_time of Some p \<Rightarrow> double_less (timestamp e) p | None \<Rightarrow> False)
      then ([], Inl (ValueError ''events must be nondecreasing in timestamp''))
      else
        let s0 = s\<lparr>last_time := Some (timestamp e)\<rparr>;
            (w1, s1) = flush_query query_requires_latest e s0;
            (w2, s2) = flush_microbatch previous_time e s1;
            (w3, s3) = flush_freshness max_seconds e s2;
            (w4, r) = handle_event limit e s3
        in (w1 @ w2 @ w3 @ w4, r))"

text \<open>The last flush, after the stream has ended.\<close>

definition final_flush :: "bool \<Rightarrow> window_state \<Rightarrow> publication_window list" where
  "final_flush query_requires_latest s =
     (if touched s \<noteq> [] \<or> pending_queries s \<noteq> 0 then
        let final_time = (case last_time s of Some t \<Rightarrow> t | None \<Rightarrow> Finite 0);
            reason = (if query_requires_latest \<and> pending_queries s \<noteq> 0 then ''query''
                      else if pending_microbatch s then ''microbatch'' else ''end-of-stream'')
        in fst (flush final_time reason s)
      else [])"

fun run_windows ::
  "double \<Rightarrow> int \<Rightarrow> bool \<Rightarrow> window_state \<Rightarrow> event list \<Rightarrow> publication_window list \<times> py_exc option"
where
  "run_windows max_seconds limit latest s [] = (final_flush latest s, None)"
| "run_windows max_seconds limit latest s (e # es) =
     (case window_step max_seconds limit latest e s of
        (ws, Inl err) \<Rightarrow> (ws, Some err)
      | (ws, Inr s') \<Rightarrow>
          let (ws', err) = run_windows max_seconds limit latest s' es in (ws @ ws', err))"

definition initial_window_state :: "(int \<times> int, int) dict \<Rightarrow> window_state" where
  "initial_window_state m =
     \<lparr>matrix = m, first_before = [], touched = [], start_time = None, last_time = None,
      next_index = 0, update_events = 0, pending_microbatch = False, pending_queries = 0,
      pending_query_time = None\<rparr>"

text \<open>The windows a full iteration of the generator yields, and the exception that ends it.\<close>

definition publication_windows ::
  "event list \<Rightarrow> (int \<times> int, int) dict \<Rightarrow> double \<Rightarrow> int \<Rightarrow> bool \<Rightarrow>
     publication_window list \<times> py_exc option"
where
  "publication_windows events initial_state max_seconds limit latest =
     (if double_le max_seconds (Finite 0) then ([], Some (ValueError ''max_seconds must be positive''))
      else if limit \<le> 0 then ([], Some (ValueError ''microbatch_max_updates must be positive''))
      else run_windows max_seconds limit latest (initial_window_state initial_state) events)"

end
