(* ===== verification/Strong_Coo.thy ===== *)
theory Strong_Coo
  imports Output_Plan Cloud_Plan Events
begin

text \<open>
  \<open>strong_packed_coo.py\<close>: the segmented delta. Entries of one logical row live in fixed-width
  segments, segments fill pages of \<open>effective_slots // segment_width\<close>, and a segment's leader
  lane carries the row sum after the public doubling schedule. Deleted entries stay as
  zero-valued tombstones and are reused first.
\<close>

section \<open>Data\<close>

record strong_entry =
  se_row :: int
  se_col :: int
  se_value :: int

definition se_coordinate :: "strong_entry \<Rightarrow> int \<times> int" where
  "se_coordinate e = (se_row e, se_col e)"

record strong_segment =
  segment_id :: string
  segment_ordinal :: int
  page_ordinal :: int
  slot_start :: int
  owner_row :: int
  entries :: "strong_entry option list"

record segmented_delta_state =
  sd_rows :: int
  sd_cols :: int
  sd_effective_slots :: int
  segment_width :: int
  matrix_value_bound :: int
  sd_version_id :: string
  segments :: "strong_segment list"

record segmented_delta_transition =
  sdt_state :: segmented_delta_state
  changed_page_ids :: "string list"
  sdt_ci_patch_entries :: int
  sdt_ci_full_sync_entries :: int
  new_segment_count :: int
  new_page_count :: int

record cloud_page_shape =
  cps_page_id :: string
  cps_page_ordinal :: int
  cps_slot_count :: int
  cps_segment_width :: int
  cps_segment_count :: int

record client_b_page_metadata =
  cbm_page_id :: string
  cbm_version_id :: string
  global_column_indices :: "int list"

definition strong_component_id :: string where
  "strong_component_id = ''strong-packed-coo-delta''"

definition segments_per_page :: "segmented_delta_state \<Rightarrow> int" where
  "segments_per_page s = sd_effective_slots s div segment_width s"

definition page_id_of :: "int \<Rightarrow> string" where
  "page_id_of k = ''page-'' @ fmt06 (nat k)"

definition segment_id_of :: "int \<Rightarrow> string" where
  "segment_id_of k = ''segment-'' @ fmt06 (nat k)"

definition spc_positive_int :: "int \<Rightarrow> string \<Rightarrow> int res" where
  "spc_positive_int v field =
     (if v \<le> 0 then Inl (ValueError (field @ '' must be a positive strict integer'')) else Inr v)"

definition spc_require_id :: "string \<Rightarrow> string \<Rightarrow> string res" where
  "spc_require_id s field =
     (if \<not> valid_id s
      then Inl (ValueError (field @ '' must be a non-empty printable ASCII identifier''))
      else Inr s)"

section \<open>The invariant the module asserts\<close>

definition assert_entry :: "segmented_delta_state \<Rightarrow> int \<Rightarrow> (int \<times> int) list \<Rightarrow>
    strong_entry option \<Rightarrow> (int \<times> int) list res"
where
  "assert_entry s owner seen entry = (case entry of None \<Rightarrow> Inr seen | Some e \<Rightarrow>
     if \<not> (0 \<le> se_row e \<and> se_row e < sd_rows s) \<or> \<not> (0 \<le> se_col e \<and> se_col e < sd_cols s) \<or>
        \<bar>se_value e\<bar> > matrix_value_bound s then
       Inl (AssertionError ''segment entry is outside the state bounds'')
     else if se_row e \<noteq> owner then
       Inl (AssertionError ''one segment must belong to one logical row'')
     else Inr (if se_value e \<noteq> 0 then se_coordinate e # seen else seen))"

definition assert_segment ::
  "segmented_delta_state \<Rightarrow> (int \<times> int) list \<Rightarrow> int \<times> strong_segment \<Rightarrow> (int \<times> int) list res"
where
  "assert_segment s seen = (\<lambda>(ordinal, g).
     if segment_ordinal g \<noteq> ordinal \<or> segment_id g \<noteq> segment_id_of ordinal then
       Inl (AssertionError ''segment IDs must encode only the physical ordinal'')
     else if page_ordinal g \<noteq> ordinal div segments_per_page s then
       Inl (AssertionError ''segment page must match its physical ordinal'')
     else if slot_start g \<noteq> (ordinal mod segments_per_page s) * segment_width s then
       Inl (AssertionError ''segment leader lane must match its physical ordinal'')
     else if int (length (entries g)) \<noteq> segment_width s then
       Inl (AssertionError ''segments must have the frozen fixed width'')
     else if \<not> (0 \<le> owner_row g \<and> owner_row g < sd_rows s) then
       Inl (AssertionError ''segment owner is outside the matrix'')
     else rfold (assert_entry s (owner_row g)) seen (entries g))"

definition assert_state_invariants :: "segmented_delta_state \<Rightarrow> unit res" where
  "assert_state_invariants s =
     (if \<not> (0 < sd_rows s \<and> 0 < sd_cols s \<and> 0 < sd_effective_slots s \<and> 0 < matrix_value_bound s)
      then Inl (AssertionError ''state dimensions and value bound must be positive integers'')
      else if bad_segment_width (segment_width s) (sd_effective_slots s) then
        Inl (AssertionError ''state segment width must be a fitting power of two'')
      else if \<not> valid_id (sd_version_id s) then
        Inl (AssertionError ''state version ID is invalid'')
      else rbind (rfold (assert_segment s) [] (py_enumerate (segments s))) (\<lambda>seen.
        if \<not> distinct seen then
          Inl (AssertionError ''active delta coordinates must be unique'')
        else Inr ()))"

section \<open>Initial state, decoding and views\<close>

definition initialize_segmented_delta ::
  "int \<Rightarrow> int \<Rightarrow> int \<Rightarrow> int \<Rightarrow> int \<Rightarrow> string \<Rightarrow> segmented_delta_state res"
where
  "initialize_segmented_delta rows cols effective_slots width bound version =
     rbind (spc_positive_int rows ''rows'') (\<lambda>rows.
     rbind (spc_positive_int cols ''cols'') (\<lambda>cols.
     rbind (spc_positive_int effective_slots ''effective_slots'') (\<lambda>slots.
     rbind (spc_positive_int bound ''matrix_value_bound'') (\<lambda>bound.
     if bad_segment_width width slots then
       Inl (ValueError ''segment_width must be a power of two in [2, effective_slots]'')
     else rbind (spc_require_id version ''version_id'') (\<lambda>v.
       Inr \<lparr>sd_rows = rows, sd_cols = cols, sd_effective_slots = slots, segment_width = width,
            matrix_value_bound = bound, sd_version_id = v, segments = []\<rparr>)))))"

definition decode_entry ::
  "(int \<times> int, int) dict \<Rightarrow> strong_entry option \<Rightarrow> (int \<times> int, int) dict res"
where
  "decode_entry decoded entry = (case entry of None \<Rightarrow> Inr decoded | Some e \<Rightarrow>
     if se_value e = 0 then Inr decoded
     else if se_coordinate e \<in> fst ` set decoded then
       Inl (AssertionError ''active delta coordinates must be unique'')
     else Inr (AList.update (se_coordinate e) (se_value e) decoded))"

definition decode_segmented_delta :: "segmented_delta_state \<Rightarrow> (int \<times> int, int) dict res" where
  "decode_segmented_delta s =
     rbind (assert_state_invariants s) (\<lambda>_.
     rfold (\<lambda>d g. rfold decode_entry d (entries g)) [] (segments s))"

definition cloud_page_shapes :: "segmented_delta_state \<Rightarrow> cloud_page_shape list res" where
  "cloud_page_shapes s =
     rbind (assert_state_invariants s) (\<lambda>_.
     let spp = segments_per_page s;
         page_count = (int (length (segments s)) + spp - 1) div spp
     in Inr (map (\<lambda>k. \<lparr>cps_page_id = page_id_of k, cps_page_ordinal = k,
            cps_slot_count = sd_effective_slots s, cps_segment_width = segment_width s,
            cps_segment_count = spp\<rparr>) (py_range 0 page_count)))"

definition store_columns :: "int list list \<Rightarrow> strong_segment \<Rightarrow> int list list" where
  "store_columns pages g =
     foldl (\<lambda>pages (offset, entry). case entry of None \<Rightarrow> pages | Some e \<Rightarrow>
        pages[nat (page_ordinal g) :=
          (pages ! nat (page_ordinal g))[nat (slot_start g + offset) := se_col e]])
       pages (py_enumerate (entries g))"

definition client_b_page_metadata ::
  "segmented_delta_state \<Rightarrow> client_b_page_metadata list res"
where
  "client_b_page_metadata s =
     rbind (cloud_page_shapes s) (\<lambda>shapes.
     let blank = map (\<lambda>_. replicate (nat (sd_effective_slots s)) (-1)) shapes;
         pages = foldl store_columns blank (segments s)
     in Inr (map (\<lambda>(k, columns). \<lparr>cbm_page_id = page_id_of k, cbm_version_id = sd_version_id s,
            global_column_indices = columns\<rparr>) (py_enumerate pages)))"

definition post_aggregation_output_shares ::
  "segmented_delta_state \<Rightarrow> output_share list res"
where
  "post_aggregation_output_shares s =
     rbind (assert_state_invariants s) (\<lambda>_.
     let allocated = foldl (\<lambda>d g. dict_append d (page_ordinal g) (slot_start g, owner_row g)) []
           (segments s)
     in Inr (map (\<lambda>k. \<lparr>os_component_id = strong_component_id, os_output_block_id = page_id_of k,
            slot_to_logical = dict_get allocated k []\<rparr>) (sort (map fst allocated))))"

section \<open>Advancing by one window\<close>

text \<open>
  \<open>next((segment_index, slot) for ... if p, None)\<close>: the first physical lane, in segment
  order, whose segment index and resident satisfy the test.
\<close>

definition find_lane ::
  "(nat \<Rightarrow> strong_entry option \<Rightarrow> bool) \<Rightarrow> strong_entry option list list \<Rightarrow> (nat \<times> nat) option"
where
  "find_lane p mutable = List.find (\<lambda>(i, j). p i (mutable ! i ! j))
     (concat (map (\<lambda>i. map (\<lambda>j. (i, j)) [0..<length (mutable ! i)]) [0..<length mutable]))"

definition put_lane ::
  "strong_entry option list list \<Rightarrow> nat \<times> nat \<Rightarrow> strong_entry \<Rightarrow> strong_entry option list list"
where
  "put_lane mutable = (\<lambda>(i, j) e. mutable[i := (mutable ! i)[j := Some e]])"

text \<open>The loop variables: coordinates seen, the segments' entries, the changed segments.\<close>

type_synonym advance_state =
  "(int \<times> int) list \<times> strong_entry option list list \<times> nat list"

definition apply_delta_update ::
  "segmented_delta_state \<Rightarrow> (int \<times> int, int) dict \<Rightarrow> advance_state \<Rightarrow> net_update \<Rightarrow>
     advance_state res"
where
  "apply_delta_update s decoded = (\<lambda>(seen, mutable, changed) u.
     let coordinate = (nu_row u, nu_col u) in
     if coordinate \<in> set seen then
       Inl (ValueError ''updates and overflow entries must have unique coordinates'')
     else if \<not> (0 \<le> nu_row u \<and> nu_row u < sd_rows s) \<or> \<not> (0 \<le> nu_col u \<and> nu_col u < sd_cols s)
     then Inl (ValueError ''update coordinate is outside the matrix'')
     else if nu_before u = nu_after u then
       Inl (ValueError ''delta_updates must not contain no-op updates'')
     else if map_of decoded coordinate \<noteq> Some (nu_before u) then
       Inl (ValueError ''update.before does not match the active delta'')
     else if \<bar>nu_after u\<bar> > matrix_value_bound s then
       Inl (ValueError ''update.after violates the matrix value bound'')
     else case find_lane (\<lambda>_ r. case r of None \<Rightarrow> False
            | Some e \<Rightarrow> se_value e \<noteq> 0 \<and> se_coordinate e = coordinate) mutable of
       None \<Rightarrow> Inl (AssertionError ''active delta coordinate has no physical lane'')
     | Some loc \<Rightarrow> Inr (coordinate # seen,
         put_lane mutable loc \<lparr>se_row = nu_row u, se_col = nu_col u, se_value = nu_after u\<rparr>,
         fst loc # changed))"

definition validated_entry :: "segmented_delta_state \<Rightarrow> strong_entry \<Rightarrow> strong_entry res" where
  "validated_entry s e =
     (if \<not> (0 \<le> se_row e \<and> se_row e < sd_rows s) \<or> \<not> (0 \<le> se_col e \<and> se_col e < sd_cols s)
      then Inl (ValueError ''entry coordinate is outside the matrix'')
      else if se_value e = 0 \<or> \<bar>se_value e\<bar> > matrix_value_bound s then
        Inl (ValueError ''entry value violates the matrix value bound'')
      else Inr e)"

definition collect_overflow ::
  "segmented_delta_state \<Rightarrow> (int \<times> int, int) dict \<Rightarrow> (int \<times> int) list \<times> strong_entry list \<Rightarrow>
     strong_entry \<Rightarrow> ((int \<times> int) list \<times> strong_entry list) res"
where
  "collect_overflow s decoded = (\<lambda>(seen, acc) raw.
     rbind (validated_entry s raw) (\<lambda>e.
     if se_coordinate e \<in> set seen \<or> se_coordinate e \<in> fst ` set decoded then
       Inl (ValueError ''updates and overflow entries must have unique new coordinates'')
     else Inr (se_coordinate e # seen, acc @ [e])))"

text \<open>The state here: segments' entries, changed segments, entries not placed, per row.\<close>

definition place_overflow ::
  "segmented_delta_state \<Rightarrow>
     strong_entry option list list \<times> nat list \<times> (int, strong_entry list) dict \<Rightarrow> strong_entry \<Rightarrow>
     strong_entry option list list \<times> nat list \<times> (int, strong_entry list) dict"
where
  "place_overflow s = (\<lambda>(mutable, changed, unplaced) e.
     let owned = (\<lambda>i. owner_row (segments s ! i) = se_row e);
         exact_tombstone = find_lane (\<lambda>i r. owned i \<and> (case r of None \<Rightarrow> False
           | Some res \<Rightarrow> se_value res = 0 \<and> se_coordinate res = se_coordinate e)) mutable;
         location = (case exact_tombstone of Some loc \<Rightarrow> Some loc
           | None \<Rightarrow> find_lane (\<lambda>i r. owned i \<and> (case r of None \<Rightarrow> True
               | Some res \<Rightarrow> se_value res = 0)) mutable)
     in case location of
          None \<Rightarrow> (mutable, changed, dict_append unplaced (se_row e) e)
        | Some loc \<Rightarrow> (put_lane mutable loc e, fst loc # changed, unplaced))"

text \<open>\<open>range(0, len(entries), width)\<close> slices, each padded with \<open>None\<close> to the width.\<close>

definition segment_slices :: "nat \<Rightarrow> strong_entry list \<Rightarrow> strong_entry option list list" where
  "segment_slices w es =
     map (\<lambda>k. let xs = take w (drop (k * w) es) in map Some xs @ replicate (w - length xs) None)
       [0..<(length es + w - 1) div w]"

definition first_row :: "strong_entry option list \<Rightarrow> int res" where
  "first_row es = (case List.find (\<lambda>e. e \<noteq> None) es of
     Some (Some e) \<Rightarrow> Inr (se_row e) | _ \<Rightarrow> Inl (RuntimeError ''StopIteration''))"

definition rebuild_segment ::
  "segmented_delta_state \<Rightarrow> int \<times> strong_entry option list \<Rightarrow> strong_segment res"
where
  "rebuild_segment s = (\<lambda>(ordinal, es).
     rbind (if ordinal < int (length (segments s))
            then Inr (owner_row (segments s ! nat ordinal)) else first_row es) (\<lambda>owner.
     Inr \<lparr>segment_id = segment_id_of ordinal, segment_ordinal = ordinal,
          page_ordinal = ordinal div segments_per_page s,
          slot_start = (ordinal mod segments_per_page s) * segment_width s,
          owner_row = owner, entries = es\<rparr>))"

definition ci_patch_count ::
  "(string, int list) dict \<Rightarrow> client_b_page_metadata list \<Rightarrow> int"
where
  "ci_patch_count old_metadata new_metadata = sum_list (map (\<lambda>m.
     case map_of old_metadata (cbm_page_id m) of
       None \<Rightarrow> 0
     | Some old \<Rightarrow> int (length (filter (\<lambda>(a, b). a \<noteq> b) (zip old (global_column_indices m)))))
     new_metadata)"

definition advance_segmented_delta ::
  "segmented_delta_state \<Rightarrow> net_update list \<Rightarrow> strong_entry list \<Rightarrow> string \<Rightarrow>
     segmented_delta_transition res"
where
  "advance_segmented_delta s delta_updates overflow_entries version =
     rbind (spc_require_id version ''version_id'') (\<lambda>version.
     if version = sd_version_id s then Inl (ValueError ''version_id must advance'')
     else
     rbind (decode_segmented_delta s) (\<lambda>decoded.
     rbind (rfold (apply_delta_update s decoded) ([], map entries (segments s), [])
              delta_updates) (\<lambda>(seen, mutable, changed).
     rbind (rfold (collect_overflow s decoded) (seen, []) overflow_entries) (\<lambda>(_, overflow).
     let (mutable, changed, unplaced) =
           foldl (place_overflow s) (mutable, changed, []) (sort_key se_coordinate overflow);
         w = nat (segment_width s);
         fresh = concat (map (\<lambda>row. segment_slices w (dict_get unplaced row []))
                   (sort (map fst unplaced)));
         changed = rev [length mutable..<length mutable + length fresh] @ changed;
         mutable = mutable @ fresh
     in
     rbind (rmap (rebuild_segment s) (py_enumerate mutable)) (\<lambda>segs.
     let s' = s\<lparr>sd_version_id := version, segments := segs\<rparr> in
     rbind (assert_state_invariants s') (\<lambda>_.
     rbind (client_b_page_metadata s) (\<lambda>old.
     rbind (client_b_page_metadata s') (\<lambda>new.
     let old_metadata = map (\<lambda>m. (cbm_page_id m, global_column_indices m)) old;
         new_pages = int (length (filter (\<lambda>m. cbm_page_id m \<notin> fst ` set old_metadata) new))
     in Inr \<lparr>
       sdt_state = s',
       changed_page_ids = map page_id_of
         (sorted_set (map (\<lambda>i. int i div segments_per_page s) changed)),
       sdt_ci_patch_entries = ci_patch_count old_metadata new,
       sdt_ci_full_sync_entries = new_pages * sd_effective_slots s,
       new_segment_count = int (length segs) - int (length (segments s)),
       new_page_count = new_pages\<rparr>))))))))"

end
