(* ===== verification/Query_Compiler.thy ===== *)
theory Query_Compiler
  imports Cssc_Layout Cloud_Plan Strong_Coo
begin

text \<open>
  \<open>query_compiler.py\<close>: from published components (and either a segmented delta or client-lane
  COO segments) to one Cloud program, the output plan of its results, the private operand
  specifications and the routes from results to shares. \<open>validate_component\<close> accepts exactly
  the components whose lanes, counters and indices agree.
\<close>

section \<open>Data\<close>

record packed_coo_entry =
  pe_coordinate :: coord
  pe_value :: int

record packed_coo_segment =
  pcs_segment_id :: string
  pcs_version_id :: string
  pcs_capacity :: int
  pcs_entries :: "packed_coo_entry option list"

datatype f1m_policy = OverlapOnly | UniformRandomOrZero

datatype operand_source_kind = PublishedChunk | SegmentedDeltaPage | ClientLaneSegment

record operand_spec =
  value_ciphertext_id :: string
  query_ciphertext_id :: string
  source_kind :: operand_source_kind
  source_ordinal :: nat
  spec_result_id :: string
  spec_values :: "int list"
  spec_columns :: "int list"

record result_route =
  rr_result_id :: string
  f1m_ciphertext_id :: "string option"
  rr_component_id :: string
  rr_output_block_id :: string

abbreviation route_share_id :: "result_route \<Rightarrow> string \<times> string" where
  "route_share_id r \<equiv> (rr_component_id r, rr_output_block_id r)"

record compiled_query =
  cq_components :: "published_component list"
  segmented_delta :: "segmented_delta_state option"
  client_lane_segments :: "packed_coo_segment list"
  f1m_policy :: f1m_policy
  cloud_plan :: cloud_execution_plan
  cq_output_plan :: output_plan
  operand_specs :: "operand_spec list"
  result_routes :: "result_route list"
  cq_cloud_program_digest :: string
  cq_output_plan_digest :: string
  cq_execution_binding_digest :: string
  cloud_counts :: cloud_plan_counts
  output_analysis :: output_plan_analysis

definition client_lane_component_id :: string where
  "client_lane_component_id = ''packed-coo-delta''"

abbreviation qc_error :: "string \<Rightarrow> 'a res" where
  "qc_error m \<equiv> Inl (QueryCompilerError m)"

section \<open>Validation of a component\<close>

abbreviation invalid_component :: "'a res" where
  "invalid_component \<equiv> qc_error ''PublishedComponent is invalid''"

type_synonym lane_scan =
  "(coord, slot_location) dict \<times> (int \<times> lane_kind \<times> slot_location) list \<times> (int, int) dict
     \<times> int \<times> int"

text \<open>
  One lane of a chunk: (lane, value, column, coordinate, owner, kind). The scan holds the
  coordinates and free lanes of the component so far, the materialized width of each row of
  the block, and the chunk's two counters.
\<close>

definition lane_geometry_ok ::
  "output_block_layout \<Rightarrow> value_chunk \<Rightarrow> int \<Rightarrow> int option \<Rightarrow> lane_kind \<Rightarrow> bool"
where
  "lane_geometry_ok b ch lane owner k =
     (if lane < rectangular_slots ch then
        let physical_row = nat (lane mod height ch);
            rank = start_column ch + lane div height ch;
            materialized = rank < physical_row_capacities b ! physical_row
        in owner = Some (row_map b ! physical_row) \<and>
           (materialized \<longrightarrow> k \<in> {Actual, Tombstone, Reserved}) \<and>
           (\<not> materialized \<longrightarrow> k = NaturalPadding)
      else k = Tail \<and> owner = None)"

definition widen :: "value_chunk \<Rightarrow> int \<Rightarrow> int \<Rightarrow> (int, int) dict \<Rightarrow> (int, int) dict" where
  "widen ch lane owner widths = AList.update owner
     (max (dict_get widths owner 0) (start_column ch + lane div height ch + 1)) widths"

definition validate_lane ::
  "string \<Rightarrow> layout_spec \<Rightarrow> output_block_layout \<Rightarrow> value_chunk \<Rightarrow> lane_scan \<Rightarrow>
     int \<times> int \<times> int \<times> coord option \<times> int option \<times> lane_kind \<Rightarrow> lane_scan res"
where
  "validate_lane cid sp b ch =
     (\<lambda>(coords, avail, widths, used, reserved) (lane, value, column, coordinate, owner, k).
     let location = (cid, chunk_id ch, lane) in
     if \<not> lane_geometry_ok b ch lane owner k then invalid_component
     else case (k, owner) of
       (Actual, Some ow) \<Rightarrow>
         if coordinate \<noteq> Some (ow, column) \<or> value = 0 \<or> \<not> (0 \<le> ow \<and> ow < ls_rows sp) \<or>
            \<not> (0 \<le> column \<and> column < ls_cols sp) \<or> (ow, column) \<in> fst ` set coords
         then invalid_component
         else Inr (AList.update (ow, column) location coords, avail, widen ch lane ow widths,
                   used + 1, reserved)
     | (Tombstone, Some ow) \<Rightarrow>
         if coordinate \<noteq> None \<or> value \<noteq> 0 \<or> \<not> (0 \<le> column \<and> column < ls_cols sp)
         then invalid_component
         else Inr (coords, avail @ [(ow, k, location)], widen ch lane ow widths, used, reserved)
     | (NaturalPadding, Some ow) \<Rightarrow>
         if coordinate \<noteq> None \<or> value \<noteq> 0 \<or> column \<noteq> - 1 then invalid_component
         else Inr (coords, avail @ [(ow, k, location)], widths, used, reserved)
     | (Reserved, Some ow) \<Rightarrow>
         if coordinate \<noteq> None \<or> value \<noteq> 0 \<or> column \<noteq> - 1 then invalid_component
         else Inr (coords, avail @ [(ow, k, location)], widen ch lane ow widths, used, reserved + 1)
     | (Tail, None) \<Rightarrow>
         if coordinate \<noteq> None \<or> value \<noteq> 0 \<or> column \<noteq> - 1 then invalid_component
         else Inr (coords, avail, widths, used, reserved)
     | _ \<Rightarrow> invalid_component)"

definition chunk_lanes ::
  "value_chunk \<Rightarrow> (int \<times> int \<times> int \<times> coord option \<times> int option \<times> lane_kind) list"
where
  "chunk_lanes ch =
     zip (map int [0..<length (vc_values ch)])
       (zip (vc_values ch) (zip (column_indices ch) (zip (slot_coordinates ch)
         (zip (slot_owner_rows ch) (slot_kinds ch)))))"

definition chunk_shape_ok ::
  "layout_spec \<Rightarrow> output_block_layout \<Rightarrow> int \<Rightarrow> int \<Rightarrow> string list \<Rightarrow> value_chunk \<Rightarrow> bool"
where
  "chunk_shape_ok sp b max_width next_column ids ch \<longleftrightarrow>
     valid_id (chunk_id ch) \<and> chunk_id ch \<notin> set ids \<and>
     start_column ch = next_column \<and> 0 < width ch \<and> 0 < height ch \<and>
     rectangular_slots ch = width ch * height ch \<and>
     rectangular_slots ch \<le> ls_effective_slots sp \<and>
     height ch = column_height (physical_row_capacities b) (start_column ch) \<and>
     width ch = min (max_width - start_column ch) (ls_effective_slots sp div height ch) \<and>
     int (length (vc_values ch)) = ls_effective_slots sp \<and>
     int (length (column_indices ch)) = ls_effective_slots sp \<and>
     int (length (slot_coordinates ch)) = ls_effective_slots sp \<and>
     int (length (slot_owner_rows ch)) = ls_effective_slots sp \<and>
     int (length (slot_kinds ch)) = ls_effective_slots sp"

text \<open>Per block: the next column, the chunk identifiers, and the scan of its lanes.\<close>

type_synonym block_scan =
  "int \<times> string list \<times> (coord, slot_location) dict \<times>
     (int \<times> lane_kind \<times> slot_location) list \<times> (int, int) dict"

definition validate_chunk ::
  "string \<Rightarrow> layout_spec \<Rightarrow> output_block_layout \<Rightarrow> int \<Rightarrow> block_scan \<Rightarrow> value_chunk \<Rightarrow> block_scan res"
where
  "validate_chunk cid sp b max_width = (\<lambda>(next_column, ids, coords, avail, widths) ch.
     if \<not> chunk_shape_ok sp b max_width next_column ids ch then invalid_component
     else rbind (rfold (validate_lane cid sp b ch) (coords, avail, widths, 0, 0) (chunk_lanes ch))
       (\<lambda>(coords, avail, widths, used, reserved).
        if used_slots ch \<noteq> used \<or> reserved_slots ch \<noteq> reserved then invalid_component
        else Inr (next_column + width ch, chunk_id ch # ids, coords, avail, widths)))"

definition block_shape_ok ::
  "layout_spec \<Rightarrow> string list \<Rightarrow> int \<times> int \<Rightarrow> output_block_layout \<Rightarrow> bool"
where
  "block_shape_ok sp ids expected b \<longleftrightarrow>
     valid_id (output_block_id b) \<and> output_block_id b \<notin> set ids \<and>
     (logical_row_start b, logical_row_stop b) = expected \<and>
     set (row_map b) = set (py_range (fst expected) (snd expected)) \<and>
     int (length (row_map b)) = snd expected - fst expected \<and>
     length (physical_row_capacities b) = length (row_map b) \<and>
     (\<forall>c \<in> set (physical_row_capacities b). 0 \<le> c \<and> c \<le> ls_cols sp)"

type_synonym component_scan =
  "string list \<times> string list \<times> (coord, slot_location) dict \<times>
     (int \<times> lane_kind \<times> slot_location) list"

definition validate_block ::
  "string \<Rightarrow> layout_spec \<Rightarrow> component_scan \<Rightarrow> output_block_layout \<times> int \<times> int \<Rightarrow> component_scan res"
where
  "validate_block cid sp = (\<lambda>(block_ids, chunk_ids, coords, avail) (b, expected).
     if \<not> block_shape_ok sp block_ids expected b then invalid_component
     else
       let max_width = max_default 0 (physical_row_capacities b);
           widths = map (\<lambda>row. (row, 0)) (row_map b)
       in rbind (rfold (validate_chunk cid sp b max_width) (0, chunk_ids, coords, avail, widths)
                   (chunks b))
            (\<lambda>(next_column, chunk_ids, coords, avail, widths).
             if next_column \<noteq> max_width \<or>
                physical_row_capacities b \<noteq> map (\<lambda>row. dict_get widths row 0) (row_map b)
             then invalid_component
             else Inr (output_block_id b # block_ids, chunk_ids, coords, avail)))"

definition expected_ranges :: "layout_spec \<Rightarrow> (int \<times> int) list" where
  "expected_ranges sp = map (\<lambda>start. (start, min (ls_rows sp) (start + ls_partition_rows sp)))
     (range_step (ls_rows sp) (ls_partition_rows sp))"

definition validate_component :: "published_component \<Rightarrow> unit res" where
  "validate_component c =
     (let sp = layout_spec c in
      if \<not> valid_id (component_id c) \<or> \<not> valid_id (version_id c) \<or>
         \<not> (0 < ls_rows sp \<and> 0 < ls_cols sp \<and> 0 < ls_effective_slots sp \<and>
            0 < ls_partition_rows sp) \<or>
         ls_partition_rows sp > ls_effective_slots sp
      then invalid_component
      else if length (blocks c) \<noteq> length (expected_ranges sp) then invalid_component
      else rbind (rfold (validate_block (component_id c) sp) ([], [], [], [])
                    (zip (blocks c) (expected_ranges sp)))
             (\<lambda>(_, _, coords, avail).
              if sort coords \<noteq> coordinate_slots c \<or> avail \<noteq> available_slots c
              then invalid_component else Inr ()))"

section \<open>Validation of the sources\<close>

definition add_component_coordinates :: "coord list \<Rightarrow> published_component \<Rightarrow> coord list res" where
  "add_component_coordinates seen c =
     (let own = map fst (coord_to_slot c) in
      if set seen \<inter> set own \<noteq> {} then qc_error ''active source coordinates must not overlap''
      else Inr (own @ seen))"

definition validate_delta_source ::
  "published_component list \<Rightarrow> published_component \<Rightarrow> coord list \<Rightarrow> segmented_delta_state option \<Rightarrow>
     unit res"
where
  "validate_delta_source comps reference coords delta = (case delta of None \<Rightarrow> Inr () | Some d \<Rightarrow>
     (case decode_segmented_delta d of
        Inl _ \<Rightarrow> qc_error ''segmented_delta is invalid''
      | Inr decoded \<Rightarrow>
          if sd_version_id d \<noteq> version_id reference then
            qc_error ''all sources must have the same version_id''
          else if (sd_rows d, sd_cols d, sd_effective_slots d) \<noteq> component_matrix reference then
            qc_error ''all sources must have the same matrix and slot dimensions''
          else if strong_component_id \<in> set (map component_id comps) then
            qc_error ''component ID collides with segmented delta''
          else if set coords \<inter> set (map fst decoded) \<noteq> {} then
            qc_error ''active source coordinates must not overlap''
          else Inr ()))"

definition validate_segment_entry ::
  "int \<times> int \<times> int \<Rightarrow> coord list \<Rightarrow> packed_coo_entry option \<Rightarrow> coord list res"
where
  "validate_segment_entry dims seen entry = (case entry of None \<Rightarrow> Inr seen | Some e \<Rightarrow>
     (case (dims, pe_coordinate e) of ((rows, cols, _), (r, c)) \<Rightarrow>
        if \<not> (0 \<le> r \<and> r < rows) \<or> \<not> (0 \<le> c \<and> c < cols) then
          qc_error ''client-lane segment is invalid''
        else if pe_value e = 0 then Inr seen
        else if (r, c) \<in> set seen then
          qc_error ''active source coordinates must not overlap''
        else Inr ((r, c) # seen)))"

definition validate_client_segment ::
  "published_component \<Rightarrow> coord list \<Rightarrow> packed_coo_segment \<Rightarrow> coord list res"
where
  "validate_client_segment reference seen g =
     (if \<not> valid_id (pcs_segment_id g) \<or> pcs_version_id g \<noteq> version_id reference \<or>
         \<not> (0 < pcs_capacity g \<and> pcs_capacity g \<le> ls_effective_slots (layout_spec reference)) \<or>
         int (length (pcs_entries g)) \<noteq> pcs_capacity g
      then qc_error ''client-lane segment is invalid''
      else rfold (validate_segment_entry (component_matrix reference)) seen (pcs_entries g))"

definition validated_sources ::
  "published_component list \<Rightarrow> segmented_delta_state option \<Rightarrow> packed_coo_segment list \<Rightarrow>
     (published_component list \<times> packed_coo_segment list) res"
where
  "validated_sources components delta client_segments =
     (if components = [] then qc_error ''components must be a non-empty tuple''
      else if delta \<noteq> None \<and> client_segments \<noteq> [] then
        qc_error ''segmented_delta and client_lane_segments are mutually exclusive''
      else
      let ordered = sort_key component_id components; reference = hd ordered in
      if \<not> distinct (map component_id ordered) then qc_error ''component IDs must be unique''
      else
      rbind (rfold (\<lambda>_ c. validate_component c) () ordered) (\<lambda>_.
      if \<exists>c \<in> set ordered. version_id c \<noteq> version_id reference then
        qc_error ''all sources must have the same version_id''
      else if \<exists>c \<in> set ordered. component_matrix c \<noteq> component_matrix reference then
        qc_error ''all sources must have the same matrix and slot dimensions''
      else
      rbind (rfold add_component_coordinates [] ordered) (\<lambda>coords.
      rbind (validate_delta_source ordered reference coords delta) (\<lambda>_.
      let ordered_segments = sort_key pcs_segment_id client_segments in
      if \<not> distinct (map pcs_segment_id ordered_segments) then
        qc_error ''client-lane segment IDs must be unique''
      else if ordered_segments \<noteq> [] \<and> client_lane_component_id \<in> set (map component_id ordered) then
        qc_error ''component ID collides with client-lane source''
      else
      rbind (rfold (validate_client_segment reference) coords ordered_segments) (\<lambda>_.
      Inr (ordered, ordered_segments))))))"

section \<open>The CSSC reduction schedule\<close>

text \<open>
  The stored-power phase: \<open>powers[2 * stride] = powers[stride] + rotate(powers[stride], stride * height)\<close>.
  The state is (powers, emitted nodes, rotation shifts); the first conjunct of the guard only
  makes the recursion total (the loop starts at 1). The dictionary is read with a default that is
  never used, because \<open>reduction_powers_run\<close> in \<open>Reduction_Facts\<close> shows which powers are stored.
\<close>

type_synonym reduction_state = "(nat, string) dict \<times> cloud_node list \<times> int list"

definition add_shift :: "int \<Rightarrow> int list \<Rightarrow> int list" where
  "add_shift s xs = (if s \<in> set xs then xs else s # xs)"

function reduction_powers ::
  "string \<Rightarrow> nat \<Rightarrow> int \<Rightarrow> nat \<Rightarrow> reduction_state \<Rightarrow> nat \<times> reduction_state"
where
  "reduction_powers ordinal w h stride (powers, ns, shifts) =
     (if 0 < stride \<and> 2 * stride \<le> w then
        let shift = int stride * h;
            source = dict_get powers stride [];
            rotated = ''ssa-rotate-'' @ ordinal @ ''-'' @ fmt06 stride;
            total = ''ssa-column-sum-'' @ ordinal @ ''-'' @ fmt06 stride
        in reduction_powers ordinal w h (2 * stride)
             (AList.update (2 * stride) total powers,
              ns @ [Rotate rotated source shift shift, AddCiphertexts total source rotated],
              add_shift shift shifts)
      else (stride, powers, ns, shifts))"
  by pat_completeness auto
termination
  by (relation "measure (\<lambda>(_, w, _, stride, _). w - stride)") auto

declare reduction_powers.simps [simp del]

text \<open>The prefix phase: add the stored power of every lower bit of the width.\<close>

fun reduction_prefix ::
  "string \<Rightarrow> nat \<Rightarrow> int \<Rightarrow> (nat, string) dict \<Rightarrow> nat \<Rightarrow> nat \<Rightarrow> string \<Rightarrow> cloud_node list \<Rightarrow> int list \<Rightarrow>
     string \<times> cloud_node list \<times> int list"
where
  "reduction_prefix ordinal w h powers low prefix acc ns shifts =
     (if low = 0 then (acc, ns, shifts)
      else if and w low \<noteq> 0 then
        let shift = int prefix * h;
            source = dict_get powers low [];
            rotated = ''ssa-rotate-'' @ ordinal @ ''-'' @ fmt06 prefix;
            total = ''ssa-column-sum-'' @ ordinal @ ''-'' @ fmt06 prefix
        in reduction_prefix ordinal w h powers (low div 2) (prefix + low) total
             (ns @ [Rotate rotated source shift shift, AddCiphertexts total acc rotated])
             (add_shift shift shifts)
      else reduction_prefix ordinal w h powers (low div 2) prefix acc ns shifts)"

declare reduction_prefix.simps [simp del]

definition append_cssc_reduction ::
  "string \<Rightarrow> string \<Rightarrow> int \<Rightarrow> int \<Rightarrow> cloud_node list \<Rightarrow> int list \<Rightarrow>
     string \<times> cloud_node list \<times> int list"
where
  "append_cssc_reduction ordinal source_id w h ns shifts =
     (if w = 1 then (source_id, ns, shifts)
      else
        let (stride, powers, ns, shifts) =
              reduction_powers ordinal (nat w) h 1 ([(1, source_id)], ns, shifts)
        in reduction_prefix ordinal (nat w) h powers (stride div 2) stride
             (dict_get powers stride []) ns shifts)"

section \<open>Compilation\<close>

text \<open>The lists and counters the nested functions of \<open>compile_query\<close> extend.\<close>

record compile_state =
  cs_inputs :: "ciphertext_input list"
  cs_masks :: "plaintext_mask list"
  cs_nodes :: "cloud_node list"
  cs_result_ids :: "string list"
  cs_specs :: "operand_spec list"
  cs_routes :: "result_route list"
  cs_shifts :: "int list"
  cs_operand :: nat
  cs_result :: nat

definition empty_compile :: compile_state where
  "empty_compile = \<lparr>cs_inputs = [], cs_masks = [], cs_nodes = [], cs_result_ids = [],
     cs_specs = [], cs_routes = [], cs_shifts = [], cs_operand = 0, cs_result = 0\<rparr>"

definition append_operand ::
  "int \<Rightarrow> compile_state \<Rightarrow> (string \<times> string \<times> string \<times> string) \<times> compile_state"
where
  "append_operand slots s =
     (let ordinal = fmt06 (cs_operand s);
          value_id = ''ct-value-'' @ ordinal;
          query_id = ''ct-query-'' @ ordinal;
          product_id = ''ssa-product-'' @ ordinal;
          relinearized_id = ''ssa-relinearized-'' @ ordinal
      in ((ordinal, value_id, query_id, relinearized_id),
          s\<lparr>cs_inputs := cs_inputs s @
              [\<lparr>ci_id = value_id, ci_role = ''value'', ci_length = slots\<rparr>,
               \<lparr>ci_id = query_id, ci_role = ''query'', ci_length = slots\<rparr>],
            cs_nodes := cs_nodes s @
              [MultiplyCiphertexts product_id value_id query_id,
               Relinearize relinearized_id product_id],
            cs_operand := Suc (cs_operand s)\<rparr>))"

definition finish_result ::
  "int \<Rightarrow> bool \<Rightarrow> string \<Rightarrow> string \<Rightarrow> string \<Rightarrow> compile_state \<Rightarrow> string \<times> compile_state"
where
  "finish_result slots needs_mask accumulated_id cid bid s =
     (let result_id = ''result-'' @ fmt06 (cs_result s);
          f1m_id = ''ct-f1m-'' @ fmt06 (cs_result s);
          masked_id = ''ssa-masked-'' @ fmt06 (cs_result s);
          s1 = (if needs_mask then
                  s\<lparr>cs_inputs := cs_inputs s @
                      [\<lparr>ci_id = f1m_id, ci_role = ''f1m-mask'', ci_length = slots\<rparr>],
                    cs_nodes := cs_nodes s @
                      [AddF1MMask masked_id accumulated_id f1m_id ''opaque-zero-sum'']\<rparr>
                else s);
          returned_id = (if needs_mask then masked_id else accumulated_id)
      in (result_id,
          s1\<lparr>cs_nodes := cs_nodes s1 @ [ReturnResult result_id returned_id],
             cs_result_ids := cs_result_ids s1 @ [result_id],
             cs_routes := cs_routes s1 @
               [\<lparr>rr_result_id = result_id,
                 f1m_ciphertext_id = (if needs_mask then Some f1m_id else None),
                 rr_component_id = cid, rr_output_block_id = bid\<rparr>],
             cs_result := Suc (cs_result s1)\<rparr>))"

definition append_selection ::
  "int \<Rightarrow> string \<Rightarrow> (int \<Rightarrow> bool) \<Rightarrow> string \<Rightarrow> compile_state \<Rightarrow> string \<times> compile_state"
where
  "append_selection slots ordinal selects accumulated_id s =
     (let mid = ''pt-selection-'' @ ordinal;
          selected_id = ''ssa-selected-'' @ ordinal
      in (selected_id,
          s\<lparr>cs_masks := cs_masks s @
              [\<lparr>mask_id = mid, mask_role = ''selection'', mask_length = slots,
                mask_values = map (\<lambda>lane. if selects lane then 1 else 0) (py_range 0 slots)\<rparr>],
            cs_nodes := cs_nodes s @ [MultiplyPlaintextMask selected_id accumulated_id mid]\<rparr>))"

type_synonym pending_spec = "string \<times> string \<times> nat \<times> int list \<times> int list"

definition compile_chunk ::
  "int \<Rightarrow> compile_state \<times> string list \<times> pending_spec list \<Rightarrow> value_chunk \<Rightarrow>
     compile_state \<times> string list \<times> pending_spec list"
where
  "compile_chunk slots = (\<lambda>(s, selected_ids, pending) ch.
     let source = cs_operand s;
         ((ordinal, value_id, query_id, relinearized_id), s1) = append_operand slots s;
         (accumulated_id, ns, shifts) = append_cssc_reduction ordinal relinearized_id (width ch)
            (height ch) (cs_nodes s1) (cs_shifts s1);
         s2 = s1\<lparr>cs_nodes := ns, cs_shifts := shifts\<rparr>;
         (final_id, s3) =
           (if height ch < slots
            then append_selection slots ordinal (\<lambda>lane. lane < height ch) accumulated_id s2
            else (accumulated_id, s2))
     in (s3, selected_ids @ [final_id],
         pending @ [(value_id, query_id, source, vc_values ch, column_indices ch)]))"

definition cross_sum ::
  "nat \<Rightarrow> string list \<Rightarrow> cloud_node list \<Rightarrow> string \<times> cloud_node list"
where
  "cross_sum result selected_ids ns =
     foldl (\<lambda>(acc, ns) (k, selected_id).
        let sum_id = ''ssa-result-sum-'' @ fmt06 result @ ''-'' @ fmt06 k
        in (sum_id, ns @ [AddCiphertexts sum_id acc selected_id]))
       (hd selected_ids, ns)
       (zip [1..<length selected_ids] (tl selected_ids))"

definition compile_block ::
  "int \<Rightarrow> (string \<times> string \<Rightarrow> bool) \<Rightarrow> string \<Rightarrow> compile_state \<Rightarrow> output_block_layout \<Rightarrow> compile_state"
where
  "compile_block slots masked cid s b =
     (if chunks b = [] then s
      else
        let (s1, selected_ids, pending) = foldl (compile_chunk slots) (s, [], []) (chunks b);
            (accumulated_id, ns) = cross_sum (cs_result s1) selected_ids (cs_nodes s1);
            (result_id, s2) = finish_result slots (masked (cid, output_block_id b)) accumulated_id
               cid (output_block_id b) (s1\<lparr>cs_nodes := ns\<rparr>)
        in s2\<lparr>cs_specs := cs_specs s2 @ map (\<lambda>(value_id, query_id, source, vals, cols).
               \<lparr>value_ciphertext_id = value_id, query_ciphertext_id = query_id,
                source_kind = PublishedChunk, source_ordinal = source, spec_result_id = result_id,
                spec_values = vals, spec_columns = cols\<rparr>) pending\<rparr>)"

definition compile_component ::
  "int \<Rightarrow> (string \<times> string \<Rightarrow> bool) \<Rightarrow> compile_state \<Rightarrow> published_component \<Rightarrow> compile_state"
where
  "compile_component slots masked s c =
     foldl (compile_block slots masked (component_id c)) s (blocks c)"

text \<open>The doubling reduction of a delta page.\<close>

definition segment_reduction ::
  "string \<Rightarrow> string \<Rightarrow> int list \<Rightarrow> cloud_node list \<times> int list \<Rightarrow>
     string \<times> cloud_node list \<times> int list"
where
  "segment_reduction ordinal start steps = (\<lambda>(ns, shifts).
     foldl (\<lambda>(acc, ns, shifts) shift.
        let rotated = ''ssa-rotate-'' @ ordinal @ ''-'' @ fmt06 (nat shift);
            total = ''ssa-segment-sum-'' @ ordinal @ ''-'' @ fmt06 (nat (2 * shift))
        in (total, ns @ [Rotate rotated acc shift shift, AddCiphertexts total acc rotated],
            add_shift shift shifts))
       (start, ns, shifts) steps)"

definition delta_page_values :: "segmented_delta_state \<Rightarrow> int list list \<Rightarrow> int list list" where
  "delta_page_values d blank =
     foldl (\<lambda>pages g. foldl (\<lambda>pages (offset, entry). case entry of None \<Rightarrow> pages | Some e \<Rightarrow>
        pages[nat (page_ordinal g) :=
          (pages ! nat (page_ordinal g))[nat (slot_start g + offset) := se_value e]])
       pages (py_enumerate (entries g))) blank (segments d)"

definition compile_page ::
  "int \<Rightarrow> (string \<times> string \<Rightarrow> bool) \<Rightarrow> segmented_delta_state \<Rightarrow> compile_state \<Rightarrow>
     nat \<times> int list \<times> client_b_page_metadata \<Rightarrow> compile_state"
where
  "compile_page slots masked d s = (\<lambda>(page, vals, meta).
     let ((ordinal, value_id, query_id, relinearized_id), s1) = append_operand slots s;
         (accumulated_id, ns, shifts) = segment_reduction ordinal relinearized_id
            (doubling_shifts 1 (segment_width d)) (cs_nodes s1, cs_shifts s1);
         (selected_id, s2) = append_selection slots ordinal
            (\<lambda>lane. lane < segments_per_page d * segment_width d \<and>
                    lane mod segment_width d = 0) accumulated_id
            (s1\<lparr>cs_nodes := ns, cs_shifts := shifts\<rparr>);
         (result_id, s3) = finish_result slots (masked (strong_component_id, cbm_page_id meta))
            selected_id strong_component_id (cbm_page_id meta) s2
     in s3\<lparr>cs_specs := cs_specs s3 @
           [\<lparr>value_ciphertext_id = value_id, query_ciphertext_id = query_id,
             source_kind = SegmentedDeltaPage, source_ordinal = page, spec_result_id = result_id,
             spec_values = vals, spec_columns = global_column_indices meta\<rparr>]\<rparr>)"

definition active_entry :: "packed_coo_entry option \<Rightarrow> bool" where
  "active_entry e = (case e of None \<Rightarrow> False | Some x \<Rightarrow> pe_value x \<noteq> 0)"

definition segment_lane :: "packed_coo_segment \<Rightarrow> int \<Rightarrow> packed_coo_entry option" where
  "segment_lane g lane = (if lane < pcs_capacity g then pcs_entries g ! nat lane else None)"

definition compile_segment ::
  "int \<Rightarrow> (string \<times> string \<Rightarrow> bool) \<Rightarrow> compile_state \<Rightarrow> nat \<times> packed_coo_segment \<Rightarrow> compile_state"
where
  "compile_segment slots masked s = (\<lambda>(source, g).
     if \<not> (\<exists>e \<in> set (pcs_entries g). active_entry e) then s
     else
       let vals = map (\<lambda>lane. case segment_lane g lane of None \<Rightarrow> 0 | Some e \<Rightarrow> pe_value e)
                    (py_range 0 slots);
           cols = map (\<lambda>lane. case segment_lane g lane of None \<Rightarrow> - 1
                         | Some e \<Rightarrow> snd (pe_coordinate e)) (py_range 0 slots);
           ((_, value_id, query_id, relinearized_id), s1) = append_operand slots s;
           (result_id, s2) = finish_result slots
              (masked (client_lane_component_id, pcs_segment_id g)) relinearized_id
              client_lane_component_id (pcs_segment_id g) s1
       in s2\<lparr>cs_specs := cs_specs s2 @
             [\<lparr>value_ciphertext_id = value_id, query_ciphertext_id = query_id,
               source_kind = ClientLaneSegment, source_ordinal = source,
               spec_result_id = result_id, spec_values = vals, spec_columns = cols\<rparr>]\<rparr>)"

text \<open>The shares of the client-lane segments that hold an active entry.\<close>

definition client_lane_shares :: "packed_coo_segment list \<Rightarrow> output_share list" where
  "client_lane_shares gs = map (\<lambda>g.
     \<lparr>os_component_id = client_lane_component_id, os_output_block_id = pcs_segment_id g,
      slot_to_logical = concat (map (\<lambda>(lane, entry). case entry of None \<Rightarrow> []
         | Some e \<Rightarrow> if pe_value e \<noteq> 0 then [(lane, fst (pe_coordinate e))] else [])
        (py_enumerate (pcs_entries g)))\<rparr>)
     (filter (\<lambda>g. \<exists>e \<in> set (pcs_entries g). active_entry e) gs)"

definition extra_shares ::
  "segmented_delta_state option \<Rightarrow> packed_coo_segment list \<Rightarrow> output_share list res"
where
  "extra_shares delta gs = (case delta of
     Some d \<Rightarrow> post_aggregation_output_shares d
   | None \<Rightarrow> Inr (client_lane_shares gs))"

text \<open>The (component, block) pairs of shares that map an overlapping logical row.\<close>

definition overlap_share_ids :: "output_plan \<Rightarrow> (string \<times> string) list" where
  "overlap_share_ids plan =
     (let mults = counter_of (concat (map (\<lambda>s. map snd (slot_to_logical s)) (shares plan)))
      in map share_id (filter (\<lambda>s. \<exists>(_, l) \<in> set (slot_to_logical s). dict_get mults l 0 > 1)
           (shares plan)))"

definition compile_sources ::
  "int \<Rightarrow> (string \<times> string \<Rightarrow> bool) \<Rightarrow> published_component list \<Rightarrow> segmented_delta_state option \<Rightarrow>
     packed_coo_segment list \<Rightarrow> compile_state res"
where
  "compile_sources slots masked comps delta gs =
     (let s1 = foldl (compile_component slots masked) empty_compile comps in
      rbind (case delta of None \<Rightarrow> Inr s1 | Some d \<Rightarrow>
          rbind (client_b_page_metadata d) (\<lambda>metadata.
          let pages = delta_page_values d (map (\<lambda>_. replicate (nat slots) 0) metadata)
          in Inr (foldl (compile_page slots masked d) s1
                   (zip [0..<length metadata] (zip pages metadata))))) (\<lambda>s2.
      Inr (foldl (compile_segment slots masked) s2 (zip [0..<length gs] gs))))"

definition program_of :: "int \<Rightarrow> compile_state \<Rightarrow> cloud_program" where
  "program_of slots s =
     \<lparr>cp_format = cloud_program_format, cp_slot_count = slots, ciphertext_inputs = cs_inputs s,
      plaintext_masks = cs_masks s, nodes = cs_nodes s, result_ids = cs_result_ids s,
      rotation_catalog = map (\<lambda>shift. (shift, shift)) (sort (cs_shifts s))\<rparr>"

definition required_overlap_mask_result_ids ::
  "output_plan \<Rightarrow> result_route list \<Rightarrow> string list"
where
  "required_overlap_mask_result_ids plan routes =
     map rr_result_id (filter (\<lambda>r. route_share_id r \<in> set (overlap_share_ids plan)) routes)"

definition validate_compiled_parts :: "compiled_query \<Rightarrow> unit res" where
  "validate_compiled_parts q =
     (let share_ids = map share_id (shares (cq_output_plan q));
          route_ids = map route_share_id (result_routes q);
          p = program (cloud_plan q);
          required = (case f1m_policy q of
             UniformRandomOrZero \<Rightarrow> result_ids p
           | OverlapOnly \<Rightarrow> required_overlap_mask_result_ids (cq_output_plan q) (result_routes q));
          masked = map rr_result_id (filter (\<lambda>r. f1m_ciphertext_id r \<noteq> None) (result_routes q))
      in if length (result_routes q) \<noteq> length (remdups route_ids) \<or> set route_ids \<noteq> set share_ids \<or>
            map rr_result_id (result_routes q) \<noteq> result_ids p
         then qc_error ''result routes must exactly cover the OutputPlan and returns''
         else if set masked \<noteq> set required then
           qc_error ''result routes do not match the exact F1M policy''
         else case (case f1m_policy q of
             UniformRandomOrZero \<Rightarrow> validate_cloud_execution_plan (cloud_plan q)
           | OverlapOnly \<Rightarrow>
               validate_cloud_execution_plan_with_masked_results (cloud_plan q) required) of
           Inl _ \<Rightarrow> qc_error ''cloud plan does not match the exact F1M policy''
         | Inr _ \<Rightarrow> Inr ())"

definition compile_query ::
  "published_component list \<Rightarrow> segmented_delta_state option \<Rightarrow> packed_coo_segment list \<Rightarrow>
     f1m_policy \<Rightarrow> compiled_query res"
where
  "compile_query components delta client_segments policy =
     rbind (validated_sources components delta client_segments) (\<lambda>(comps, gs).
     let reference = hd comps;
         slots = ls_effective_slots (layout_spec reference)
     in
     rbind (output_plan_for comps) (\<lambda>base_plan.
     rbind (extra_shares delta gs) (\<lambda>extra.
     let plan = base_plan\<lparr>shares := shares base_plan @ extra\<rparr> in
     rbind (analyze_output_plan plan) (\<lambda>analysis.
     let masked_ids = overlap_share_ids plan;
         masked = (\<lambda>i. policy = UniformRandomOrZero \<or> i \<in> set masked_ids)
     in
     rbind (compile_sources slots masked comps delta gs) (\<lambda>s.
     let p = program_of slots s in
     rbind (cloud_program_digest p) (\<lambda>program_digest.
     let b = \<lparr>eb_format = execution_binding_format, eb_version_id = version_id reference,
               eb_output_plan_digest = oa_output_plan_digest analysis,
               eb_cloud_program_digest = program_digest\<rparr>;
         cplan = \<lparr>program = p, binding = b\<rparr>
     in
     rbind (analyze_cloud_plan cplan) (\<lambda>counts.
     rbind (execution_binding_digest b) (\<lambda>binding_digest.
     let q = \<lparr>cq_components = comps, segmented_delta = delta, client_lane_segments = gs,
               f1m_policy = policy, cloud_plan = cplan, cq_output_plan = plan,
               operand_specs = cs_specs s, result_routes = cs_routes s,
               cq_cloud_program_digest = program_digest,
               cq_output_plan_digest = oa_output_plan_digest analysis,
               cq_execution_binding_digest = binding_digest, cloud_counts = counts,
               output_analysis = analysis\<rparr>
     in rbind (validate_compiled_parts q) (\<lambda>_. Inr q)))))))))"

definition validate_compiled_query :: "compiled_query \<Rightarrow> unit res" where
  "validate_compiled_query q =
     rbind (validate_compiled_parts q) (\<lambda>_.
     rbind (compile_query (cq_components q) (segmented_delta q) (client_lane_segments q)
              (f1m_policy q)) (\<lambda>expected.
     if q \<noteq> expected then
       qc_error ''CompiledQuery is not its deterministic canonical compilation''
     else Inr ()))"

section \<open>The private plan\<close>

definition policy_string :: "f1m_policy \<Rightarrow> string" where
  "policy_string p = (case p of OverlapOnly \<Rightarrow> ''overlap-only''
     | UniformRandomOrZero \<Rightarrow> ''uniform-random-or-zero'')"

definition source_kind_string :: "operand_source_kind \<Rightarrow> string" where
  "source_kind_string k = (case k of PublishedChunk \<Rightarrow> ''published-chunk''
     | SegmentedDeltaPage \<Rightarrow> ''segmented-delta-page''
     | ClientLaneSegment \<Rightarrow> ''client-lane-segment'')"

definition query_private_plan_payload :: "compiled_query \<Rightarrow> json" where
  "query_private_plan_payload q = JObj [
     (''bindings'', JObj [
        (''cloud_program_digest'', JStr (cq_cloud_program_digest q)),
        (''execution_binding_digest'', JStr (cq_execution_binding_digest q)),
        (''output_plan_digest'', JStr (cq_output_plan_digest q)),
        (''version_id'', JStr (eb_version_id (binding (cloud_plan q))))]),
     (''f1m_policy'', JStr (policy_string (f1m_policy q))),
     (''format'', JStr ''dynamic-cssc-common-ordinary-private-plan-v1''),
     (''operands'', JList (map (\<lambda>x. JObj [
        (''global_column_indices'', jints (spec_columns x)),
        (''query_ciphertext_id'', JStr (query_ciphertext_id x)),
        (''result_id'', JStr (spec_result_id x)),
        (''source_kind'', JStr (source_kind_string (source_kind x))),
        (''source_ordinal'', JInt (int (source_ordinal x))),
        (''value_ciphertext_id'', JStr (value_ciphertext_id x)),
        (''values'', jints (spec_values x))]) (operand_specs q))),
     (''routes'', JList (map (\<lambda>r. JObj [
        (''component_id'', JStr (rr_component_id r)),
        (''f1m_ciphertext_id'', (case f1m_ciphertext_id r of None \<Rightarrow> JNull | Some i \<Rightarrow> JStr i)),
        (''output_block_id'', JStr (rr_output_block_id r)),
        (''result_id'', JStr (rr_result_id r))]) (result_routes q)))]"

definition query_private_plan_digest :: "json \<Rightarrow> string" where
  "query_private_plan_digest payload = sha256_hex (dumps True payload)"

definition private_plan_digest :: "compiled_query \<Rightarrow> string" where
  "private_plan_digest q = query_private_plan_digest (query_private_plan_payload q)"

definition canonical_query_private_plan_payload :: "compiled_query \<Rightarrow> json" where
  "canonical_query_private_plan_payload q = query_private_plan_payload q"

end
