(* ===== verification/Plaintext_Oracle.thy ===== *)
theory Plaintext_Oracle
  imports Output_Plan Cloud_Plan
begin

text \<open>
  \<open>plaintext_oracle.py\<close>: the reference semantics over vectors modulo \<open>t\<close>. \<open>direct_spmv\<close>
  is the specification of a query, \<open>reconstruct_output\<close> the client's reassembly of returned
  shares, and \<open>execute_validated_cloud_plan\<close> the interpreter of Cloud programs.
\<close>

definition positive_int :: "int \<Rightarrow> string \<Rightarrow> int res" where
  "positive_int v field =
     (if v \<le> 0 then Inl (ValueError (field @ '' must be a positive strict integer'')) else Inr v)"

definition check_modulus :: "int \<Rightarrow> int res" where
  "check_modulus m =
     (if m < 2 then Inl (ValueError ''modulus must be a strict integer of at least two'')
      else Inr m)"

definition check_vector :: "int list \<Rightarrow> int \<Rightarrow> string \<Rightarrow> int list res" where
  "check_vector xs len field =
     (if int (length xs) \<noteq> len then
        Inl (ValueError (field @ '' must have length '' @ json_int len))
      else Inr xs)"

text \<open>How a message shows an identity; identities hold no character that Python would escape.\<close>

definition quoted :: "string \<Rightarrow> string" where
  "quoted i = CHR 0x27 # i @ [CHR 0x27]"

section \<open>The direct product\<close>

definition spmv_step ::
  "int list \<Rightarrow> int \<Rightarrow> int \<Rightarrow> int \<Rightarrow> int list \<Rightarrow> (int \<times> int) \<times> int \<Rightarrow> int list res"
where
  "spmv_step x rows cols modulus result = (\<lambda>((row, global_col), value).
     if \<not> (0 \<le> row \<and> row < rows) \<or> \<not> (0 \<le> global_col \<and> global_col < cols) then
       Inl (ValueError ''matrix coordinate is outside the matrix'')
     else if value = 0 then Inl (ValueError ''matrix values must be nonzero strict integers'')
     else Inr (result[nat row :=
            (result ! nat row + value * x ! nat global_col) mod modulus]))"

definition direct_spmv ::
  "(int \<times> int, int) dict \<Rightarrow> int list \<Rightarrow> int \<Rightarrow> int \<Rightarrow> int \<Rightarrow> int list res"
where
  "direct_spmv matrix x rows cols modulus =
     rbind (positive_int rows ''rows'') (\<lambda>rows.
     rbind (positive_int cols ''cols'') (\<lambda>cols.
     rbind (check_modulus modulus) (\<lambda>modulus.
     rbind (check_vector x cols ''vector'') (\<lambda>dense.
     rfold (spmv_step dense rows cols modulus) (replicate (nat rows) 0) matrix))))"

section \<open>Reconstruction\<close>

definition accumulate_lane :: "int list \<Rightarrow> int \<Rightarrow> int list \<Rightarrow> int \<times> int \<Rightarrow> int list" where
  "accumulate_lane lanes modulus result = (\<lambda>(physical_lane, logical).
     result[nat logical := (result ! nat logical + lanes ! nat physical_lane) mod modulus])"

definition accumulate_share ::
  "int \<Rightarrow> (string \<times> string, int list) dict \<Rightarrow> int \<Rightarrow> int list \<Rightarrow> output_share \<Rightarrow> int list res"
where
  "accumulate_share slots returned modulus result s =
     (case map_of returned (share_id s) of
        None \<Rightarrow> Inl KeyError
      | Some vs \<Rightarrow> rbind (check_vector vs slots (''returned share ('' @
          quoted (fst (share_id s)) @ '', '' @ quoted (snd (share_id s)) @ '')'')) (\<lambda>lanes.
          Inr (foldl (accumulate_lane lanes modulus) result (slot_to_logical s))))"

definition reconstruct_output ::
  "output_plan \<Rightarrow> (string \<times> string, int list) dict \<Rightarrow> int \<Rightarrow> int list res"
where
  "reconstruct_output plan returned modulus =
     rbind (check_modulus modulus) (\<lambda>modulus.
     rbind (analyze_output_plan plan) (\<lambda>_.
     if fst ` set returned \<noteq> share_id ` set (shares plan) then
       Inl (ValueError ''returned share identities must exactly match the OutputPlan'')
     else rfold (accumulate_share (op_slot_count plan) returned modulus)
            (replicate (nat (logical_output_size plan)) 0) (shares plan)))"

section \<open>Execution of a Cloud program\<close>

type_synonym env = "string \<Rightarrow> int list option"

definition env_get :: "env \<Rightarrow> string \<Rightarrow> int list res" where
  "env_get e i = (case e i of None \<Rightarrow> Inl KeyError | Some v \<Rightarrow> Inr v)"

definition pointwise :: "(int \<Rightarrow> int \<Rightarrow> int) \<Rightarrow> int \<Rightarrow> int list \<Rightarrow> int list \<Rightarrow> int list res" where
  "pointwise f modulus left right =
     (if length left \<noteq> length right then
        Inl (ValueError ''zip() arguments have different lengths'')
      else Inr (map2 (\<lambda>a b. f a b mod modulus) left right))"

definition rotate_vector :: "int \<Rightarrow> int list \<Rightarrow> int list" where
  "rotate_vector index source =
     map (\<lambda>lane. source ! nat ((int lane + index) mod int (length source))) [0..<length source]"

type_synonym results = "(string, int list) dict"

fun execute_node ::
  "(int, int) dict \<Rightarrow> env \<Rightarrow> int \<Rightarrow> env \<times> results \<Rightarrow> cloud_node \<Rightarrow> (env \<times> results) res"
where
  "execute_node rotations masks modulus (e, out) (MultiplyCiphertexts r a b) =
     rbind (env_get e a) (\<lambda>va. rbind (env_get e b) (\<lambda>vb.
     rbind (pointwise (*) modulus va vb) (\<lambda>v. Inr (e(r \<mapsto> v), out))))"
| "execute_node rotations masks modulus (e, out) (Relinearize r a) =
     rbind (env_get e a) (\<lambda>va. Inr (e(r \<mapsto> va), out))"
| "execute_node rotations masks modulus (e, out) (Rotate r a shift index) =
     (if map_of rotations shift \<noteq> Some index then
        Inl (ValueError ''rotation does not match the plan's exact catalog'')
      else rbind (env_get e a) (\<lambda>va. Inr (e(r \<mapsto> rotate_vector index va), out)))"
| "execute_node rotations masks modulus (e, out) (MultiplyPlaintextMask r a m) =
     rbind (env_get e a) (\<lambda>va. rbind (env_get masks m) (\<lambda>vm.
     rbind (pointwise (*) modulus va vm) (\<lambda>v. Inr (e(r \<mapsto> v), out))))"
| "execute_node rotations masks modulus (e, out) (AddCiphertexts r a b) =
     rbind (env_get e a) (\<lambda>va. rbind (env_get e b) (\<lambda>vb.
     rbind (pointwise (+) modulus va vb) (\<lambda>v. Inr (e(r \<mapsto> v), out))))"
| "execute_node rotations masks modulus (e, out) (AddF1MMask r a m role) =
     rbind (env_get e a) (\<lambda>va. rbind (env_get e m) (\<lambda>vm.
     rbind (pointwise (+) modulus va vm) (\<lambda>v. Inr (e(r \<mapsto> v), out))))"
| "execute_node rotations masks modulus (e, out) (ReturnResult r a) =
     rbind (env_get e a) (\<lambda>va. Inr (e, AList.update r va out))"

definition load_ciphertext ::
  "(string, int list) dict \<Rightarrow> int \<Rightarrow> env \<Rightarrow> ciphertext_input \<Rightarrow> env res"
where
  "load_ciphertext inputs modulus e c =
     (case map_of inputs (ci_id c) of
        None \<Rightarrow> Inl KeyError
      | Some vs \<Rightarrow> rbind (check_vector vs (ci_length c)
          (''ciphertext input '' @ quoted (ci_id c))) (\<lambda>vs.
          Inr (e(ci_id c \<mapsto> map (\<lambda>v. v mod modulus) vs))))"

definition load_mask ::
  "(string, int list) dict \<Rightarrow> int \<Rightarrow> env \<Rightarrow> plaintext_mask \<Rightarrow> env res"
where
  "load_mask supplied modulus e m =
     (case map_of supplied (mask_id m) of
        None \<Rightarrow> Inl KeyError
      | Some vs \<Rightarrow> rbind (check_vector vs (mask_length m)
          (''plaintext mask '' @ quoted (mask_id m))) (\<lambda>vs.
          if vs \<noteq> mask_values m then
            Inl (ValueError ''supplied values must equal the committed plaintext mask'')
          else Inr (e(mask_id m \<mapsto> map (\<lambda>v. v mod modulus) vs))))"

definition execute_validated_cloud_plan ::
  "cloud_execution_plan \<Rightarrow> (string, int list) dict \<Rightarrow> (string, int list) dict \<Rightarrow> int \<Rightarrow> results res"
where
  "execute_validated_cloud_plan plan inputs supplied modulus =
     (let p = program plan in
      if \<exists>(_, index) \<in> set (rotation_catalog p). \<bar>index\<bar> \<ge> cp_slot_count p then
        Inl (ValueError ''single-effective-row v1 rotation index is outside the slot range'')
      else if fst ` set inputs \<noteq> ci_id ` set (ciphertext_inputs p) then
        Inl (ValueError ''ciphertext input IDs must exactly match the typed plan'')
      else if fst ` set supplied \<noteq> mask_id ` set (plaintext_masks p) then
        Inl (ValueError ''plaintext mask IDs must exactly match the typed plan'')
      else
        rbind (rfold (load_ciphertext inputs modulus) Map.empty (ciphertext_inputs p)) (\<lambda>e.
        rbind (rfold (load_mask supplied modulus) Map.empty (plaintext_masks p)) (\<lambda>masks.
        let rotations = foldl (\<lambda>d (k, v). AList.update k v d) [] (rotation_catalog p) in
        rbind (rfold (execute_node rotations masks modulus) (e, []) (nodes p)) (\<lambda>(_, out).
        Inr out))))"

definition execute_cloud_plan ::
  "cloud_execution_plan \<Rightarrow> (string, int list) dict \<Rightarrow> (string, int list) dict \<Rightarrow> int \<Rightarrow> results res"
where
  "execute_cloud_plan plan inputs supplied modulus =
     rbind (check_modulus modulus) (\<lambda>modulus.
     rbind (validate_cloud_execution_plan plan) (\<lambda>_.
     execute_validated_cloud_plan plan inputs supplied modulus))"

end
