(* ===== verification/Cloud_Facts.thy ===== *)
theory Cloud_Facts
  imports Plaintext_Oracle
begin

text \<open>
  The validator of Cloud programs is sound for the interpreter. A program that
  \<open>validate_program\<close> accepts has unique identifiers, so its nodes are equations: execution on
  well-formed operands returns, and there is one environment in which the equation of every
  node holds and from which every returned result is read. All later correctness proofs about
  compiled programs argue in that environment and never about the order of the nodes.
\<close>

section \<open>Scalar checks\<close>

lemma cep_checks [simp]:
  "cep_require_positive_int v f = Inr w \<longleftrightarrow> 0 < v \<and> w = v"
  "cep_require_id s f = Inr t \<longleftrightarrow> valid_id s \<and> t = s"
  "cep_require_sha256_digest s f = Inr t \<longleftrightarrow> valid_sha256 s \<and> t = s"
  by (auto simp: cep_require_positive_int_def cep_require_id_def cep_require_sha256_digest_def)

lemma require_ciphertext_Inr [simp]:
  "require_ciphertext v cid f = Inr len \<longleftrightarrow> valid_id cid \<and> v_lengths v cid = Some len"
  by (auto simp: require_ciphertext_def rbind_eq_Inr split: option.splits)

lemma define_result_Inr:
  "define_result v rid len node deps = Inr v' \<longleftrightarrow> valid_id rid \<and> rid \<notin> set (v_declared v) \<and>
     v' = v\<lparr>v_declared := rid # v_declared v, v_lengths := (v_lengths v)(rid \<mapsto> len),
            v_roles := (v_roles v)(rid \<mapsto> ''computed''),
            v_node_by_result := AList.update rid node (v_node_by_result v),
            v_dependencies := AList.update rid deps (v_dependencies v)\<rparr>"
  by (auto simp: define_result_def rbind_eq_Inr)

section \<open>The meaning of a node\<close>

text \<open>
  The equation of a node over vectors of \<open>n\<close> lanes, in the environment of ciphertexts, the
  environment of plaintext masks, and the returned results.
\<close>

definition vec_at :: "nat \<Rightarrow> env \<Rightarrow> string \<Rightarrow> int list \<Rightarrow> bool" where
  "vec_at n E i v \<longleftrightarrow> E i = Some v \<and> length v = n"

fun node_holds ::
  "nat \<Rightarrow> int \<Rightarrow> (int, int) dict \<Rightarrow> env \<Rightarrow> results \<Rightarrow> env \<Rightarrow> cloud_node \<Rightarrow> bool"
where
  "node_holds n t rotations masks out E (MultiplyCiphertexts r a b) \<longleftrightarrow>
     (\<exists>va vb. vec_at n E a va \<and> vec_at n E b vb \<and>
        E r = Some (map2 (\<lambda>x y. x * y mod t) va vb))"
| "node_holds n t rotations masks out E (Relinearize r a) \<longleftrightarrow>
     (\<exists>va. vec_at n E a va \<and> E r = Some va)"
| "node_holds n t rotations masks out E (Rotate r a shift index) \<longleftrightarrow>
     map_of rotations shift = Some index \<and>
     (\<exists>va. vec_at n E a va \<and> E r = Some (rotate_vector index va))"
| "node_holds n t rotations masks out E (MultiplyPlaintextMask r a m) \<longleftrightarrow>
     (\<exists>va vm. vec_at n E a va \<and> vec_at n masks m vm \<and>
        E r = Some (map2 (\<lambda>x y. x * y mod t) va vm))"
| "node_holds n t rotations masks out E (AddCiphertexts r a b) \<longleftrightarrow>
     (\<exists>va vb. vec_at n E a va \<and> vec_at n E b vb \<and>
        E r = Some (map2 (\<lambda>x y. (x + y) mod t) va vb))"
| "node_holds n t rotations masks out E (AddF1MMask r a m role) \<longleftrightarrow>
     (\<exists>va vm. vec_at n E a va \<and> vec_at n E m vm \<and>
        E r = Some (map2 (\<lambda>x y. (x + y) mod t) va vm))"
| "node_holds n t rotations masks out E (ReturnResult r a) \<longleftrightarrow>
     (\<exists>va. vec_at n E a va \<and> map_of out r = Some va)"

lemma vec_at_mono: "vec_at n E i v \<Longrightarrow> E \<subseteq>\<^sub>m E' \<Longrightarrow> vec_at n E' i v"
  by (auto simp: vec_at_def map_le_def dom_def)

lemma map_le_Some: "E \<subseteq>\<^sub>m E' \<Longrightarrow> E i = Some v \<Longrightarrow> E' i = Some v"
  by (auto simp: map_le_def dom_def)

lemma node_holds_mono:
  assumes "node_holds n t rotations masks out E node" and "E \<subseteq>\<^sub>m E'"
    and "map_of out \<subseteq>\<^sub>m map_of out'"
  shows "node_holds n t rotations masks out' E' node"
  using assms by (cases node) (auto 0 5 intro: vec_at_mono dest: map_le_Some)

text \<open>The interpreter on operands of the right length realizes the equation.\<close>

lemma env_get_Inr [simp]: "env_get E i = Inr v \<longleftrightarrow> E i = Some v"
  by (auto simp: env_get_def split: option.splits)

lemma rotate_length [simp]: "length (rotate_vector k v) = length v"
  by (simp add: rotate_vector_def)

section \<open>Agreement of validator and interpreter\<close>

text \<open>
  The validator's tables describe an environment: every declared ciphertext is present with
  \<open>n\<close> lanes, nothing else is, and results are only recorded under declared identifiers.
\<close>

definition agrees :: "nat \<Rightarrow> validation \<Rightarrow> env \<Rightarrow> env \<Rightarrow> results \<Rightarrow> bool" where
  "agrees n v masks E out \<longleftrightarrow>
     dom E = dom (v_lengths v) \<and> dom (v_lengths v) \<subseteq> set (v_declared v) \<and>
     (\<forall>i len. v_lengths v i = Some len \<longrightarrow> len = int n) \<and>
     (\<forall>i w. E i = Some w \<longrightarrow> length w = n) \<and>
     (\<forall>m len. v_mask_lengths v m = Some len \<longrightarrow> (\<exists>w. vec_at n masks m w)) \<and>
     dom masks \<subseteq> set (v_declared v) \<and> fst ` set out \<subseteq> set (v_declared v)"

lemma agrees_get: "agrees n v masks E out \<Longrightarrow> v_lengths v i = Some len \<Longrightarrow> \<exists>w. vec_at n E i w"
proof -
  assume ag: "agrees n v masks E out" and "v_lengths v i = Some len"
  then have "i \<in> dom E" by (auto simp: agrees_def)
  then obtain w where "E i = Some w" by (rule domD [THEN exE])
  then show ?thesis using ag by (auto simp: agrees_def vec_at_def)
qed

lemma agrees_define:
  assumes "agrees n v masks E out" and "define_result v rid (int n) node deps = Inr v'"
    and "length w = n"
  shows "agrees n v' masks (E(rid \<mapsto> w)) out" and "E \<subseteq>\<^sub>m E(rid \<mapsto> w)"
proof -
  have "rid \<notin> dom E" using assms(1,2) by (auto simp: agrees_def define_result_Inr)
  then show "E \<subseteq>\<^sub>m E(rid \<mapsto> w)" by (auto simp: map_le_def)
  show "agrees n v' masks (E(rid \<mapsto> w)) out"
    using assms by (auto simp: agrees_def define_result_Inr)
qed

lemma agrees_len:
  "agrees n v masks E out \<Longrightarrow> v_lengths v i = Some len \<Longrightarrow> len = int n"
  by (simp add: agrees_def)

lemma validate_return_Inr:
  assumes "validate_return required v rid cid = Inr v'"
  shows "\<exists>len. v_lengths v cid = Some len" and "rid \<notin> set (v_declared v)" and "valid_id rid"
    and "v_declared v' = rid # v_declared v" and "v_lengths v' = v_lengths v"
    and "v_mask_lengths v' = v_mask_lengths v"
    and "v_returns v' = v_returns v @ [ReturnResult rid cid]"
    and "v_node_by_result v' = v_node_by_result v" and "v_dependencies v' = v_dependencies v"
  using assms by (auto simp: validate_return_def rbind_eq_Inr Let_def split: if_splits)

text \<open>One node: the validator's step and the interpreter's step go together.\<close>

lemma node_agreement:
  assumes v: "validate_node rotations required v node = Inr v'" and ag: "agrees n v masks E out"
  shows "\<exists>E' out'. execute_node rotations masks t (E, out) node = Inr (E', out') \<and>
    agrees n v' masks E' out' \<and> E \<subseteq>\<^sub>m E' \<and> map_of out \<subseteq>\<^sub>m map_of out' \<and>
    node_holds n t rotations masks out' E' node \<and>
    (fst ` set out' = fst ` set out \<union> (if is_return node then {node_result_id node} else {}))"
proof (cases node)
  case (MultiplyCiphertexts r a b)
  then obtain la lb where l: "v_lengths v a = Some la" "v_lengths v b = Some lb" "la = lb"
    and d: "define_result v r la (MultiplyCiphertexts r a b) [a, b] = Inr v'"
    using v by (auto simp: rbind_eq_Inr split: if_splits)
  obtain va vb where va: "vec_at n E a va" and vb: "vec_at n E b vb" using agrees_get [OF ag] l by metis
  let ?w = "map2 (\<lambda>x y. x * y mod t) va vb"
  have len: "length ?w = n" using va vb by (simp add: vec_at_def)
  note ext = agrees_define [OF ag d [unfolded agrees_len [OF ag l(1)]] len]
  have "node_holds n t rotations masks out (E(r \<mapsto> ?w)) node"
    using va vb ext(2) unfolding MultiplyCiphertexts by (auto intro: vec_at_mono)
  then show ?thesis using va vb ext
    by (auto simp: MultiplyCiphertexts vec_at_def pointwise_def rbind_eq_Inr)
next
  case (Relinearize r a)
  then obtain la where l: "v_lengths v a = Some la"
    and d: "define_result v r la (Relinearize r a) [a] = Inr v'"
    using v by (auto simp: rbind_eq_Inr split: if_splits)
  obtain va where va: "vec_at n E a va" using agrees_get [OF ag] l by metis
  have len: "length va = n" using va by (simp add: vec_at_def)
  note ext = agrees_define [OF ag d [unfolded agrees_len [OF ag l]] len]
  have "node_holds n t rotations masks out (E(r \<mapsto> va)) node"
    using va ext(2) unfolding Relinearize by (auto intro: vec_at_mono)
  then show ?thesis using va ext by (auto simp: Relinearize vec_at_def rbind_eq_Inr)
next
  case (Rotate r a shift index)
  then obtain la where l: "v_lengths v a = Some la" "map_of rotations shift = Some index"
    and d: "define_result v r la (Rotate r a shift index) [a] = Inr v'"
    using v by (auto simp: rbind_eq_Inr split: if_splits)
  obtain va where va: "vec_at n E a va" using agrees_get [OF ag] l by metis
  have len: "length (rotate_vector index va) = n" using va by (simp add: vec_at_def)
  note ext = agrees_define [OF ag d [unfolded agrees_len [OF ag l(1)]] len]
  have "node_holds n t rotations masks out (E(r \<mapsto> rotate_vector index va)) node"
    using va l ext(2) unfolding Rotate by (auto intro: vec_at_mono)
  then show ?thesis using va l ext by (auto simp: Rotate vec_at_def rbind_eq_Inr)
next
  case (MultiplyPlaintextMask r a m)
  then obtain la lm where l: "v_lengths v a = Some la" "v_mask_lengths v m = Some lm"
    and d: "define_result v r la (MultiplyPlaintextMask r a m) [a, m] = Inr v'"
    using v by (auto simp: rbind_eq_Inr split: if_splits option.splits)
  obtain va where va: "vec_at n E a va" using agrees_get [OF ag] l by metis
  obtain vm where vm: "vec_at n masks m vm" using ag l by (auto simp: agrees_def)
  let ?w = "map2 (\<lambda>x y. x * y mod t) va vm"
  have len: "length ?w = n" using va vm by (simp add: vec_at_def)
  note ext = agrees_define [OF ag d [unfolded agrees_len [OF ag l(1)]] len]
  have "node_holds n t rotations masks out (E(r \<mapsto> ?w)) node"
    using va vm ext(2) unfolding MultiplyPlaintextMask by (auto intro: vec_at_mono)
  then show ?thesis using va vm ext
    by (auto simp: MultiplyPlaintextMask vec_at_def pointwise_def rbind_eq_Inr)
next
  case (AddCiphertexts r a b)
  then obtain la lb where l: "v_lengths v a = Some la" "v_lengths v b = Some lb" "la = lb"
    and d: "define_result v r la (AddCiphertexts r a b) [a, b] = Inr v'"
    using v by (auto simp: rbind_eq_Inr split: if_splits)
  obtain va vb where va: "vec_at n E a va" and vb: "vec_at n E b vb" using agrees_get [OF ag] l by metis
  let ?w = "map2 (\<lambda>x y. (x + y) mod t) va vb"
  have len: "length ?w = n" using va vb by (simp add: vec_at_def)
  note ext = agrees_define [OF ag d [unfolded agrees_len [OF ag l(1)]] len]
  have "node_holds n t rotations masks out (E(r \<mapsto> ?w)) node"
    using va vb ext(2) unfolding AddCiphertexts by (auto intro: vec_at_mono)
  then show ?thesis using va vb ext
    by (auto simp: AddCiphertexts vec_at_def pointwise_def rbind_eq_Inr)
next
  case (AddF1MMask r a m role)
  then obtain la lb where l: "v_lengths v a = Some la" "v_lengths v m = Some lb" "la = lb"
    and d: "define_result v r la (AddF1MMask r a m role) [a, m] = Inr v'"
    using v by (auto simp: rbind_eq_Inr split: if_splits)
  obtain va vb where va: "vec_at n E a va" and vb: "vec_at n E m vb" using agrees_get [OF ag] l by metis
  let ?w = "map2 (\<lambda>x y. (x + y) mod t) va vb"
  have len: "length ?w = n" using va vb by (simp add: vec_at_def)
  note ext = agrees_define [OF ag d [unfolded agrees_len [OF ag l(1)]] len]
  have "node_holds n t rotations masks out (E(r \<mapsto> ?w)) node"
    using va vb ext(2) unfolding AddF1MMask by (auto intro: vec_at_mono)
  then show ?thesis using va vb ext
    by (auto simp: AddF1MMask vec_at_def pointwise_def rbind_eq_Inr)
next
  case (ReturnResult r a)
  with v have r: "validate_return required v r a = Inr v'" by simp
  obtain va where va: "vec_at n E a va"
    using validate_return_Inr(1) [OF r] agrees_get [OF ag] by metis
  have "r \<notin> dom (map_of out)"
    using validate_return_Inr(2) [OF r] ag by (auto simp: agrees_def dom_map_of_conv_image_fst)
  then have "map_of out \<subseteq>\<^sub>m map_of (AList.update r va out)"
    by (auto simp: map_of_update map_le_def)
  moreover have "agrees n v' masks E (AList.update r va out)"
    using ag validate_return_Inr [OF r] by (auto simp: agrees_def dict_keys_update)
  ultimately show ?thesis
    using va by (auto simp: ReturnResult vec_at_def rbind_eq_Inr map_of_update dict_keys_update)
qed

lemma nodes_agreement:
  assumes "rfold (validate_node rotations required) v ns = Inr v'" and "agrees n v masks E out"
  shows "\<exists>E' out'. rfold (execute_node rotations masks t) (E, out) ns = Inr (E', out') \<and>
    agrees n v' masks E' out' \<and> E \<subseteq>\<^sub>m E' \<and> map_of out \<subseteq>\<^sub>m map_of out' \<and>
    (\<forall>node \<in> set ns. node_holds n t rotations masks out' E' node) \<and>
    fst ` set out' = fst ` set out \<union> node_result_id ` {x \<in> set ns. is_return x}"
  using assms
proof (induction ns arbitrary: v E out)
  case Nil
  then show ?case by auto
next
  case (Cons node ns)
  from Cons.prems obtain v1 where v1: "validate_node rotations required v node = Inr v1"
      "rfold (validate_node rotations required) v1 ns = Inr v'"
    by (auto simp: rbind_eq_Inr)
  obtain E1 out1 where 1: "execute_node rotations masks t (E, out) node = Inr (E1, out1)"
      "agrees n v1 masks E1 out1" "E \<subseteq>\<^sub>m E1" "map_of out \<subseteq>\<^sub>m map_of out1"
      "node_holds n t rotations masks out1 E1 node"
      "fst ` set out1 = fst ` set out \<union> (if is_return node then {node_result_id node} else {})"
    using node_agreement [OF v1(1) Cons.prems(2)] by blast
  obtain E2 out2 where 2: "rfold (execute_node rotations masks t) (E1, out1) ns = Inr (E2, out2)"
      "agrees n v' masks E2 out2" "E1 \<subseteq>\<^sub>m E2" "map_of out1 \<subseteq>\<^sub>m map_of out2"
      "\<forall>node \<in> set ns. node_holds n t rotations masks out2 E2 node"
      "fst ` set out2 = fst ` set out1 \<union> node_result_id ` {x \<in> set ns. is_return x}"
    using Cons.IH [OF v1(2) 1(2)] by blast
  have "node_holds n t rotations masks out2 E2 node"
    using 1(5) 2(3,4) by (rule node_holds_mono)
  moreover have "E \<subseteq>\<^sub>m E2" "map_of out \<subseteq>\<^sub>m map_of out2" using 1(3,4) 2(3,4) by (auto intro: map_le_trans)
  ultimately show ?case using 1 2 by (intro exI [of _ E2] exI [of _ out2]) auto
qed

section \<open>Loading the operands\<close>

lemma declare_input_Inr:
  "declare_input slots v c = Inr v' \<Longrightarrow>
     ci_id c \<notin> set (v_declared v) \<and> valid_id (ci_id c) \<and> ci_length c = slots \<and> 0 < slots \<and>
     v' = v\<lparr>v_declared := ci_id c # v_declared v, v_lengths := (v_lengths v)(ci_id c \<mapsto> slots),
            v_roles := (v_roles v)(ci_id c \<mapsto> ci_role c)\<rparr>"
  by (auto simp: declare_input_def rbind_eq_Inr split: if_splits)

lemma declare_mask_Inr:
  "declare_mask slots v m = Inr v' \<Longrightarrow>
     mask_id m \<notin> set (v_declared v) \<and> mask_length m = slots \<and>
     int (length (mask_values m)) = slots \<and> (\<forall>x \<in> set (mask_values m). x \<in> {0, 1}) \<and>
     v' = v\<lparr>v_declared := mask_id m # v_declared v,
            v_mask_lengths := (v_mask_lengths v)(mask_id m \<mapsto> slots)\<rparr>"
  by (auto simp: declare_mask_def rbind_eq_Inr split: if_splits)

definition input_ok :: "(string, int list) dict \<Rightarrow> int \<Rightarrow> ciphertext_input \<Rightarrow> bool" where
  "input_ok inputs slots c \<longleftrightarrow> (\<exists>vs. map_of inputs (ci_id c) = Some vs \<and> int (length vs) = slots)"

definition reduced :: "int \<Rightarrow> int list \<Rightarrow> int list" where
  "reduced t = map (\<lambda>v. v mod t)"

lemma inputs_agreement:
  assumes "rfold (declare_input slots) v cs = Inr v'" and "agrees (nat slots) v masks E []"
    and "\<forall>c \<in> set cs. input_ok inputs slots c" and "0 < slots"
  shows "\<exists>E'. rfold (load_ciphertext inputs t) E cs = Inr E' \<and> agrees (nat slots) v' masks E' [] \<and>
    E \<subseteq>\<^sub>m E' \<and> (\<forall>c \<in> set cs. E' (ci_id c) = map_option (reduced t) (map_of inputs (ci_id c)))"
  using assms
proof (induction cs arbitrary: v E)
  case Nil
  then show ?case by auto
next
  case (Cons c cs)
  from Cons.prems obtain v1 where v1: "declare_input slots v c = Inr v1"
      "rfold (declare_input slots) v1 cs = Inr v'"
    by (auto simp: rbind_eq_Inr)
  note d = declare_input_Inr [OF v1(1)]
  obtain vs where vs: "map_of inputs (ci_id c) = Some vs" "int (length vs) = slots"
    using Cons.prems(3) by (auto simp: input_ok_def)
  let ?E1 = "E(ci_id c \<mapsto> reduced t vs)"
  have load: "load_ciphertext inputs t E c = Inr ?E1"
    using vs d by (simp add: load_ciphertext_def check_vector_def reduced_def)
  have "ci_id c \<notin> dom E" using d Cons.prems(2) by (auto simp: agrees_def)
  then have le: "E \<subseteq>\<^sub>m ?E1" by (auto simp: map_le_def)
  have len: "length (reduced t vs) = nat slots" using vs by (simp add: reduced_def)
  have dec: "v_declared v1 = ci_id c # v_declared v" "v_mask_lengths v1 = v_mask_lengths v"
      "v_lengths v1 = (v_lengths v)(ci_id c \<mapsto> slots)"
    using d by simp_all
  have "agrees (nat slots) v1 masks ?E1 []"
    using Cons.prems(2) len \<open>0 < slots\<close> unfolding agrees_def dec by auto
  moreover have "\<forall>c \<in> set cs. input_ok inputs slots c" using Cons.prems(3) by simp
  ultimately obtain E2 where E2: "rfold (load_ciphertext inputs t) ?E1 cs = Inr E2"
      "agrees (nat slots) v' masks E2 []" "?E1 \<subseteq>\<^sub>m E2"
      "\<forall>c \<in> set cs. E2 (ci_id c) = map_option (reduced t) (map_of inputs (ci_id c))"
    using Cons.IH [OF v1(2) _ _ \<open>0 < slots\<close>] by blast
  have "E2 (ci_id c) = Some (reduced t vs)" using E2(3) by (rule map_le_Some) simp
  then show ?case using load E2 vs map_le_trans [OF le E2(3)] by auto
qed

lemma masks_agreement:
  assumes "rfold (declare_mask slots) v ms = Inr v'" and "agrees (nat slots) v masks E []"
    and "\<forall>m \<in> set ms. map_of supplied (mask_id m) = Some (mask_values m)" and "0 < slots"
  shows "\<exists>masks'. rfold (load_mask supplied t) masks ms = Inr masks' \<and>
    agrees (nat slots) v' masks' E [] \<and> masks \<subseteq>\<^sub>m masks' \<and>
    (\<forall>m \<in> set ms. masks' (mask_id m) = Some (reduced t (mask_values m)))"
  using assms
proof (induction ms arbitrary: v masks)
  case Nil
  then show ?case by auto
next
  case (Cons m ms)
  from Cons.prems obtain v1 where v1: "declare_mask slots v m = Inr v1"
      "rfold (declare_mask slots) v1 ms = Inr v'"
    by (auto simp: rbind_eq_Inr)
  note d = declare_mask_Inr [OF v1(1)]
  let ?M1 = "masks(mask_id m \<mapsto> reduced t (mask_values m))"
  have load: "load_mask supplied t masks m = Inr ?M1"
    using Cons.prems(3) d by (simp add: load_mask_def check_vector_def reduced_def)
  have "mask_id m \<notin> dom masks" using d Cons.prems(2) by (auto simp: agrees_def)
  then have le: "masks \<subseteq>\<^sub>m ?M1" by (auto simp: map_le_def)
  have len: "length (reduced t (mask_values m)) = nat slots"
    using d by (metis length_map nat_int reduced_def)
  have dec: "v_declared v1 = mask_id m # v_declared v" "v_lengths v1 = v_lengths v"
      "v_mask_lengths v1 = (v_mask_lengths v)(mask_id m \<mapsto> slots)"
    using d by simp_all
  have "\<exists>w. vec_at (nat slots) ?M1 m' w" if "v_mask_lengths v1 m' = Some l" for m' l
    using that len Cons.prems(2) unfolding dec agrees_def vec_at_def by auto
  then have "agrees (nat slots) v1 ?M1 E []"
    using Cons.prems(2) unfolding agrees_def dec by auto
  moreover have "\<forall>m \<in> set ms. map_of supplied (mask_id m) = Some (mask_values m)"
    using Cons.prems(3) by simp
  ultimately obtain M2 where M2: "rfold (load_mask supplied t) ?M1 ms = Inr M2"
      "agrees (nat slots) v' M2 E []" "?M1 \<subseteq>\<^sub>m M2"
      "\<forall>m \<in> set ms. M2 (mask_id m) = Some (reduced t (mask_values m))"
    using Cons.IH [OF v1(2) _ _ \<open>0 < slots\<close>] by blast
  have "M2 (mask_id m) = Some (reduced t (mask_values m))" using M2(3) by (rule map_le_Some) simp
  then show ?case using load M2 map_le_trans [OF le M2(3)] by auto
qed

lemma catalog_fold:
  "rfold (\<lambda>rotations (logical_shift, openfhe_index).
        if logical_shift = 0 then cep_error ''logical_shift must be a non-zero integer''
        else if openfhe_index = 0 then cep_error ''openfhe_index must be a non-zero integer''
        else if logical_shift \<in> fst ` set rotations then
          cep_error ''rotation catalog logical shifts must be unique''
        else Inr (AList.update logical_shift openfhe_index rotations)) d entries = Inr r \<Longrightarrow>
     r = foldl (\<lambda>d (k, v). AList.update k v d) d entries"
  by (induction entries arbitrary: d) (auto simp: rbind_eq_Inr split: if_splits)

lemma validate_rotation_catalog_Inr:
  "validate_rotation_catalog entries = Inr r \<Longrightarrow>
     r = foldl (\<lambda>d (k, v). AList.update k v d) [] entries"
  unfolding validate_rotation_catalog_def by (rule catalog_fold)

section \<open>A validated program\<close>

text \<open>The tables after the three loops of \<open>validate_program\<close>.\<close>

lemma validate_program_Inr:
  assumes "validate_program p required = Inr ()"
  obtains rotations v1 v2 v3 where "0 < cp_slot_count p"
    and "rotations = foldl (\<lambda>d (k, v). AList.update k v d) [] (rotation_catalog p)"
    and "rfold (declare_input (cp_slot_count p)) empty_validation (ciphertext_inputs p) = Inr v1"
    and "rfold (declare_mask (cp_slot_count p)) v1 (plaintext_masks p) = Inr v2"
    and "rfold (validate_node rotations required) v2 (nodes p) = Inr v3"
    and "validate_result_ids required p v3 = Inr ()" and "validate_f1m_use p v3 = Inr ()"
    and "validate_consumers p v3 = Inr ()" and "validate_liveness (v_declared v2) v3 = Inr ()"
  using assms
  by (auto simp: validate_program_def rbind_eq_Inr dest!: validate_rotation_catalog_Inr
      split: if_splits)

lemma validate_node_returns:
  "validate_node rotations required v node = Inr v' \<Longrightarrow>
     v_returns v' = v_returns v @ (if is_return node then [node] else [])"
  by (cases node)
    (auto simp: rbind_eq_Inr define_result_Inr dest: validate_return_Inr split: if_splits option.splits)

lemma validate_nodes_returns:
  "rfold (validate_node rotations required) v ns = Inr v' \<Longrightarrow>
     v_returns v' = v_returns v @ filter is_return ns"
  by (induction ns arbitrary: v) (auto simp: rbind_eq_Inr dest!: validate_node_returns)

lemma declare_inputs_returns:
  "rfold (declare_input slots) v cs = Inr v' \<Longrightarrow> v_returns v' = v_returns v"
  by (induction cs arbitrary: v) (auto simp: rbind_eq_Inr dest!: declare_input_Inr)

lemma declare_masks_returns:
  "rfold (declare_mask slots) v ms = Inr v' \<Longrightarrow> v_returns v' = v_returns v"
  by (induction ms arbitrary: v) (auto simp: rbind_eq_Inr dest!: declare_mask_Inr)

lemma validated_result_ids:
  assumes "validate_program p required = Inr ()"
  shows "result_ids p = map node_result_id (filter is_return (nodes p))"
proof -
  from assms obtain rotations v1 v2 v3 where
    v: "rfold (declare_input (cp_slot_count p)) empty_validation (ciphertext_inputs p) = Inr v1"
      "rfold (declare_mask (cp_slot_count p)) v1 (plaintext_masks p) = Inr v2"
      "rfold (validate_node rotations required) v2 (nodes p) = Inr v3"
      "validate_result_ids required p v3 = Inr ()"
    by (rule validate_program_Inr)
  have "v_returns v3 = filter is_return (nodes p)"
    using validate_nodes_returns [OF v(3)] declare_masks_returns [OF v(2)]
      declare_inputs_returns [OF v(1)] by (simp add: empty_validation_def)
  then show ?thesis using v(4)
    by (auto simp: validate_result_ids_def rbind_eq_Inr split: if_splits)
qed

definition rotations_fit :: "cloud_program \<Rightarrow> bool" where
  "rotations_fit p \<longleftrightarrow> (\<forall>(_, index) \<in> set (rotation_catalog p). \<bar>index\<bar> < cp_slot_count p)"

definition operands_supplied :: "cloud_program \<Rightarrow> (string, int list) dict \<Rightarrow> (string, int list) dict \<Rightarrow> bool" where
  "operands_supplied p inputs supplied \<longleftrightarrow>
     fst ` set inputs = ci_id ` set (ciphertext_inputs p) \<and>
     fst ` set supplied = mask_id ` set (plaintext_masks p) \<and>
     (\<forall>c \<in> set (ciphertext_inputs p). input_ok inputs (cp_slot_count p) c) \<and>
     (\<forall>m \<in> set (plaintext_masks p). map_of supplied (mask_id m) = Some (mask_values m))"

definition operands_ok :: "cloud_program \<Rightarrow> (string, int list) dict \<Rightarrow> (string, int list) dict \<Rightarrow> bool" where
  "operands_ok p inputs supplied \<longleftrightarrow> rotations_fit p \<and> operands_supplied p inputs supplied"

lemmas operands_ok_defs = operands_ok_def rotations_fit_def operands_supplied_def

text \<open>The execution of a validated program, as equations.\<close>

lemma validated_program_runs:
  assumes val: "validate_program (program plan) required = Inr ()"
    and ops: "operands_ok (program plan) inputs supplied"
  shows "\<exists>out E masks. execute_validated_cloud_plan plan inputs supplied t = Inr out \<and>
    (\<forall>node \<in> set (nodes (program plan)). node_holds (nat (cp_slot_count (program plan))) t
       (foldl (\<lambda>d (k, v). AList.update k v d) [] (rotation_catalog (program plan))) masks out E node) \<and>
    (\<forall>c \<in> set (ciphertext_inputs (program plan)).
       E (ci_id c) = map_option (reduced t) (map_of inputs (ci_id c))) \<and>
    (\<forall>m \<in> set (plaintext_masks (program plan)). masks (mask_id m) = Some (reduced t (mask_values m))) \<and>
    fst ` set out = set (result_ids (program plan))"
proof -
  let ?p = "program plan"
  let ?slots = "cp_slot_count ?p"
  from val obtain rotations v1 v2 v3 where pos: "0 < ?slots"
    and rot: "rotations = foldl (\<lambda>d (k, v). AList.update k v d) [] (rotation_catalog ?p)"
    and v1: "rfold (declare_input ?slots) empty_validation (ciphertext_inputs ?p) = Inr v1"
    and v2: "rfold (declare_mask ?slots) v1 (plaintext_masks ?p) = Inr v2"
    and v3: "rfold (validate_node rotations required) v2 (nodes ?p) = Inr v3"
    by (rule validate_program_Inr)
  have ag0: "agrees (nat ?slots) empty_validation Map.empty Map.empty []"
    by (simp add: agrees_def empty_validation_def)
  obtain E1 where E1: "rfold (load_ciphertext inputs t) Map.empty (ciphertext_inputs ?p) = Inr E1"
      "agrees (nat ?slots) v1 Map.empty E1 []"
      "\<forall>c \<in> set (ciphertext_inputs ?p). E1 (ci_id c) = map_option (reduced t) (map_of inputs (ci_id c))"
    using inputs_agreement [OF v1 ag0 _ pos, of inputs t] ops by (auto simp: operands_ok_defs)
  obtain M where M: "rfold (load_mask supplied t) Map.empty (plaintext_masks ?p) = Inr M"
      "agrees (nat ?slots) v2 M E1 []"
      "\<forall>m \<in> set (plaintext_masks ?p). M (mask_id m) = Some (reduced t (mask_values m))"
    using masks_agreement [OF v2 E1(2) _ pos, of supplied t] ops by (auto simp: operands_ok_defs)
  obtain E out where run: "rfold (execute_node rotations M t) (E1, []) (nodes ?p) = Inr (E, out)"
      and le: "E1 \<subseteq>\<^sub>m E"
      and holds: "\<forall>node \<in> set (nodes ?p). node_holds (nat ?slots) t rotations M out E node"
      and keys: "fst ` set out = node_result_id ` {x \<in> set (nodes ?p). is_return x}"
    using nodes_agreement [OF v3 M(2), of t] by auto
  have "execute_validated_cloud_plan plan inputs supplied t = Inr out"
    using ops E1(1) M(1) run unfolding rot
    by (auto simp: execute_validated_cloud_plan_def operands_ok_defs Let_def not_le split: prod.splits)
  moreover have "E (ci_id c) = map_option (reduced t) (map_of inputs (ci_id c))"
    if "c \<in> set (ciphertext_inputs ?p)" for c
  proof -
    have "input_ok inputs ?slots c" using ops that by (simp add: operands_ok_defs)
    then obtain vs where "map_of inputs (ci_id c) = Some vs" by (auto simp: input_ok_def)
    then show ?thesis using E1(3) that map_le_Some [OF le] by auto
  qed
  moreover have "fst ` set out = set (result_ids ?p)"
    unfolding keys validated_result_ids [OF val] by auto
  ultimately show ?thesis using holds M(3) unfolding rot by blast
qed

text \<open>Conversely an execution that returns had operands of that shape.\<close>

lemma load_ciphertexts_check:
  "rfold (load_ciphertext inputs t) E cs = Inr E' \<Longrightarrow> c \<in> set cs \<Longrightarrow> ci_length c = slots \<Longrightarrow>
     input_ok inputs slots c"
  by (induction cs arbitrary: E)
    (auto simp: rbind_eq_Inr load_ciphertext_def check_vector_def input_ok_def
      split: option.splits if_splits)

lemma load_masks_check:
  "rfold (load_mask supplied t) M ms = Inr M' \<Longrightarrow> m \<in> set ms \<Longrightarrow>
     map_of supplied (mask_id m) = Some (mask_values m)"
  by (induction ms arbitrary: M)
    (auto simp: rbind_eq_Inr load_mask_def check_vector_def split: option.splits if_splits)

lemma declare_inputs_length:
  "rfold (declare_input slots) v cs = Inr v' \<Longrightarrow> c \<in> set cs \<Longrightarrow> ci_length c = slots"
  by (induction cs arbitrary: v) (auto simp: rbind_eq_Inr dest!: declare_input_Inr)

lemma execution_operands_ok:
  assumes "validate_program (program plan) required = Inr ()"
    and "execute_validated_cloud_plan plan inputs supplied t = Inr out"
  shows "operands_ok (program plan) inputs supplied"
proof -
  from assms(1) obtain rotations v1 v2 v3 where
    v1: "rfold (declare_input (cp_slot_count (program plan))) empty_validation
      (ciphertext_inputs (program plan)) = Inr v1"
    by (rule validate_program_Inr)
  let ?p = "program plan"
  from assms(2) have shape: "\<forall>(_, index) \<in> set (rotation_catalog ?p). \<bar>index\<bar> < cp_slot_count ?p"
      "fst ` set inputs = ci_id ` set (ciphertext_inputs ?p)"
      "fst ` set supplied = mask_id ` set (plaintext_masks ?p)"
    by (auto simp: execute_validated_cloud_plan_def Let_def not_le split: if_splits)
  from assms(2) obtain E M where
    "rfold (load_ciphertext inputs t) Map.empty (ciphertext_inputs ?p) = Inr E"
    "rfold (load_mask supplied t) Map.empty (plaintext_masks ?p) = Inr M"
    by (auto simp: execute_validated_cloud_plan_def Let_def rbind_eq_Inr split: if_splits)
  then show ?thesis
    using shape load_ciphertexts_check declare_inputs_length [OF v1] load_masks_check
    unfolding operands_ok_defs by metis
qed

section \<open>The returned vectors\<close>

text \<open>Every vector the interpreter holds has \<open>n\<close> lanes reduced modulo \<open>t\<close>.\<close>

definition residues :: "nat \<Rightarrow> int \<Rightarrow> int list \<Rightarrow> bool" where
  "residues n t v \<longleftrightarrow> length v = n \<and> set v \<subseteq> {0..<t}"

definition env_residues :: "nat \<Rightarrow> int \<Rightarrow> env \<Rightarrow> bool" where
  "env_residues n t E \<longleftrightarrow> (\<forall>i v. E i = Some v \<longrightarrow> residues n t v)"

definition results_residues :: "nat \<Rightarrow> int \<Rightarrow> results \<Rightarrow> bool" where
  "results_residues n t out \<longleftrightarrow> dict_ok out \<and> (\<forall>(i, v) \<in> set out. residues n t v)"

lemma env_residues_update: "env_residues n t E \<Longrightarrow> residues n t v \<Longrightarrow> env_residues n t (E(r \<mapsto> v))"
  by (simp add: env_residues_def)

lemma results_residues_update:
  assumes "results_residues n t out" and "residues n t v"
  shows "results_residues n t (AList.update r v out)"
proof -
  have "set (AList.update r v out) \<subseteq> insert (r, v) (set out)" by (induction out) auto
  then show ?thesis using assms by (auto simp: results_residues_def dict_ok_def distinct_update)
qed

lemma pointwise_residues:
  "pointwise f t va vb = Inr v \<Longrightarrow> 0 < t \<Longrightarrow> residues n t va \<Longrightarrow> residues n t v"
  by (auto simp: pointwise_def residues_def split: if_splits)

lemma rotate_residues:
  assumes "residues n t v"
  shows "residues n t (rotate_vector index v)"
proof -
  have "v ! nat ((int lane + index) mod int (length v)) \<in> set v" if "lane < length v" for lane
  proof (rule nth_mem)
    have "0 < int (length v)" using that by linarith
    from pos_mod_sign [OF this] pos_mod_bound [OF this]
    show "nat ((int lane + index) mod int (length v)) < length v" by (simp add: nat_less_iff)
  qed
  then show ?thesis using assms by (auto simp: residues_def rotate_vector_def)
qed

lemma execute_node_residues:
  assumes "execute_node rotations masks t (E, out) node = Inr (E', out')" and "0 < t"
    and "env_residues n t E \<and> results_residues n t out"
  shows "env_residues n t E' \<and> results_residues n t out'"
proof -
  have get: "E i = Some v \<Longrightarrow> residues n t v" for i v using assms(3) by (simp add: env_residues_def)
  show ?thesis using assms
    by (cases node) (auto simp: rbind_eq_Inr intro!: env_residues_update results_residues_update rotate_residues
        intro: get pointwise_residues split: if_splits)
qed

lemma load_ciphertext_residues:
  assumes "load_ciphertext inputs t E c = Inr E'" and "0 < t" and "ci_length c = int n" and "env_residues n t E"
  shows "env_residues n t E'"
  using assms by (auto simp: load_ciphertext_def check_vector_def residues_def rbind_eq_Inr
      intro!: env_residues_update split: option.splits if_splits)

lemma executed_residues:
  assumes val: "validate_program (program plan) required = Inr ()" and t: "0 < t"
    and run: "execute_validated_cloud_plan plan inputs supplied t = Inr out"
  shows "results_residues (nat (cp_slot_count (program plan))) t out"
proof -
  let ?p = "program plan"
  let ?n = "nat (cp_slot_count ?p)"
  from val obtain rotations v1 where pos: "0 < cp_slot_count ?p" and
    v1: "rfold (declare_input (cp_slot_count ?p)) empty_validation (ciphertext_inputs ?p) = Inr v1"
    by (rule validate_program_Inr)
  from run obtain rot E1 M E where
    load: "rfold (load_ciphertext inputs t) Map.empty (ciphertext_inputs ?p) = Inr E1" and
    exec: "rfold (execute_node rot M t) (E1, []) (nodes ?p) = Inr (E, out)"
    by (auto simp: execute_validated_cloud_plan_def Let_def rbind_eq_Inr split: if_splits)
  have E1: "env_residues ?n t E1"
  proof (rule rfold_invariant [OF load])
    fix E c E'
    assume "c \<in> set (ciphertext_inputs ?p)" "env_residues ?n t E" "load_ciphertext inputs t E c = Inr E'"
    then show "env_residues ?n t E'"
      using load_ciphertext_residues declare_inputs_length [OF v1] pos t by simp
  qed (simp add: env_residues_def)
  let ?ok = "\<lambda>(E, out). env_residues ?n t E \<and> results_residues ?n t out"
  have "?ok (E, out)"
  proof (rule rfold_invariant [OF exec])
    fix s node s'
    assume "?ok s" "execute_node rot M t s node = Inr s'"
    then show "?ok s'" using execute_node_residues [OF _ t] by (cases s; cases s') simp
  qed (use E1 in \<open>simp add: results_residues_def dict_ok_def\<close>)
  then show ?thesis by simp
qed

lemma misfit_rejected:
  assumes "\<not> rotations_fit (program plan)"
  shows "execute_validated_cloud_plan plan inputs supplied t =
    Inl (ValueError ''single-effective-row v1 rotation index is outside the slot range'')"
proof -
  have "\<exists>(_, index) \<in> set (rotation_catalog (program plan)). \<bar>index\<bar> \<ge> cp_slot_count (program plan)"
  proof -
    obtain shift index where "(shift, index) \<in> set (rotation_catalog (program plan))"
        "cp_slot_count (program plan) \<le> \<bar>index\<bar>"
      using assms by (auto simp: rotations_fit_def not_less)
    then show ?thesis by (intro bexI [of _ "(shift, index)"]) auto
  qed
  then show ?thesis by (simp add: execute_validated_cloud_plan_def)
qed

section \<open>Validation is what execution needs\<close>

text \<open>
  C36. The type safety of the Cloud program: once validation has accepted a program and its rotation
  indices lie within the slot range, the evaluator never fails on a missing, repeated or ill-sized
  operand. Validation leaves the range of the indices unchecked, and the evaluator refuses a program
  outside it, whatever the operands. Otherwise it returns exactly when the caller supplies the
  declared ciphertexts at the slot count and the committed plaintext masks, and it then returns, for
  every declared result and nothing else, one vector of \<open>slot_count\<close> residues modulo \<open>t\<close>.
\<close>

theorem validated_program_executes:
  assumes val: "validate_program (program plan) required = Inr ()" and t: "2 \<le> t"
  shows "(\<not> rotations_fit (program plan) \<longrightarrow> execute_validated_cloud_plan plan inputs supplied t =
        Inl (ValueError ''single-effective-row v1 rotation index is outside the slot range'')) \<and>
    (rotations_fit (program plan) \<longrightarrow>
      ((\<exists>out. execute_validated_cloud_plan plan inputs supplied t = Inr out) \<longleftrightarrow>
       operands_supplied (program plan) inputs supplied)) \<and>
    (\<forall>out. execute_validated_cloud_plan plan inputs supplied t = Inr out \<longrightarrow>
      fst ` set out = set (result_ids (program plan)) \<and> distinct (map fst out) \<and>
      (\<forall>(_, v) \<in> set out. int (length v) = cp_slot_count (program plan) \<and> set v \<subseteq> {0..<t}))"
proof (intro conjI allI impI)
  assume "\<not> rotations_fit (program plan)"
  then show "execute_validated_cloud_plan plan inputs supplied t =
      Inl (ValueError ''single-effective-row v1 rotation index is outside the slot range'')"
    by (rule misfit_rejected)
next
  assume "rotations_fit (program plan)"
  then have "operands_ok (program plan) inputs supplied \<longleftrightarrow> operands_supplied (program plan) inputs supplied"
    by (simp add: operands_ok_def)
  then show "(\<exists>out. execute_validated_cloud_plan plan inputs supplied t = Inr out) \<longleftrightarrow>
      operands_supplied (program plan) inputs supplied"
    using execution_operands_ok [OF val, of inputs supplied t]
      validated_program_runs [OF val, of inputs supplied t] by (elim iffE) (intro iffI; blast)
next
  fix out
  assume run: "execute_validated_cloud_plan plan inputs supplied t = Inr out"
  obtain out' where "execute_validated_cloud_plan plan inputs supplied t = Inr out'"
      "fst ` set out' = set (result_ids (program plan))"
    using validated_program_runs [OF val execution_operands_ok [OF val run], of t] by (elim exE conjE)
  then show "fst ` set out = set (result_ids (program plan))" using run by simp
  have pos: "0 < cp_slot_count (program plan)" using val by (rule validate_program_Inr)
  have "results_residues (nat (cp_slot_count (program plan))) t out"
    using t by (intro executed_residues [OF val _ run]) simp
  then show "distinct (map fst out)"
      "\<forall>(_, v) \<in> set out. int (length v) = cp_slot_count (program plan) \<and> set v \<subseteq> {0..<t}"
    using pos by (auto simp: results_residues_def residues_def dict_ok_def)
qed

definition sample_program :: cloud_program where
  "sample_program = \<lparr>cp_format = cloud_program_format, cp_slot_count = 2,
     ciphertext_inputs = [\<lparr>ci_id = ''v'', ci_role = ''value'', ci_length = 2\<rparr>,
       \<lparr>ci_id = ''q'', ci_role = ''query'', ci_length = 2\<rparr>],
     plaintext_masks = [\<lparr>mask_id = ''m'', mask_role = ''selection'', mask_length = 2, mask_values = [1, 0]\<rparr>],
     nodes = [MultiplyCiphertexts ''a'' ''v'' ''q'', Relinearize ''b'' ''a'', Rotate ''c'' ''b'' 1 1,
       AddCiphertexts ''d'' ''b'' ''c'', MultiplyPlaintextMask ''e'' ''d'' ''m'', ReturnResult ''r'' ''e''],
     result_ids = [''r''], rotation_catalog = [(1, 1)]\<rparr>"

lemma sample_program_valid: "validate_program sample_program (Some []) = Inr ()"
  by code_simp

theorem validated_program_executes_witness:
  "\<forall>b. \<exists>out. execute_validated_cloud_plan \<lparr>program = sample_program, binding = b\<rparr>
     [(''v'', [2, 3]), (''q'', [5, 6])] [(''m'', [1, 0])] 97 = Inr out \<and> fst ` set out = {''r''} \<and>
     (\<forall>(_, v) \<in> set out. length v = 2 \<and> set v \<subseteq> {0..<97})"
proof
  fix b
  let ?plan = "\<lparr>program = sample_program, binding = b\<rparr>"
  let ?inputs = "[(''v'', [2, 3]), (''q'', [5, 6])]"
  let ?masks = "[(''m'', [1, 0])]"
  have val: "validate_program (program ?plan) (Some []) = Inr ()" by (simp add: sample_program_valid)
  have "rotations_fit (program ?plan)" "operands_supplied (program ?plan) ?inputs ?masks"
    by (simp_all add: rotations_fit_def operands_supplied_def input_ok_def sample_program_def)
  moreover have "(2 :: int) \<le> 97" by simp
  note R = validated_program_executes [OF val this, of ?inputs ?masks]
  ultimately obtain out where "execute_validated_cloud_plan ?plan ?inputs ?masks 97 = Inr out" by blast
  then show "\<exists>out. execute_validated_cloud_plan ?plan ?inputs ?masks 97 = Inr out \<and> fst ` set out = {''r''} \<and>
      (\<forall>(_, v) \<in> set out. length v = 2 \<and> set v \<subseteq> {0..<97})"
    using R by (fastforce simp: sample_program_def)
qed

end
