(* ===== verification/Reduction_Facts.thy ===== *)
theory Reduction_Facts
  imports Query_Compiler Cloud_Facts
begin

unbundle bit_operations_syntax

text \<open>
  The reduction schedules of the compiler, in an environment where the equation of every
  emitted node holds. Each lane of the accumulated ciphertext is the sum of a strided window
  of the source; the CSSC schedule reaches any width with stored powers and prefix sums, the
  delta schedule doubles a power-of-two width.
\<close>

section \<open>Vectors carried by identifiers\<close>

definition carries :: "nat \<Rightarrow> int \<Rightarrow> env \<Rightarrow> string \<Rightarrow> (nat \<Rightarrow> int) \<Rightarrow> bool" where
  "carries n t E i f \<longleftrightarrow> (\<exists>v. vec_at n E i v \<and> (\<forall>k < n. v ! k = f k mod t))"

lemma carries_cong:
  "carries n t E i f \<Longrightarrow> (\<And>k. k < n \<Longrightarrow> f k mod t = g k mod t) \<Longrightarrow> carries n t E i g"
  by (auto simp: carries_def)

lemma carries_multiply:
  assumes "node_holds n t rots M out E (MultiplyCiphertexts r a b)"
    and "carries n t E a f" and "carries n t E b g"
  shows "carries n t E r (\<lambda>k. f k * g k)"
  using assms by (auto simp: carries_def vec_at_def mod_simps)

lemma carries_relinearize:
  assumes "node_holds n t rots M out E (Relinearize r a)" and "carries n t E a f"
  shows "carries n t E r f"
  using assms by (auto simp: carries_def vec_at_def)

lemma carries_add:
  assumes "node_holds n t rots M out E (AddCiphertexts r a b)"
    and "carries n t E a f" and "carries n t E b g"
  shows "carries n t E r (\<lambda>k. f k + g k)"
  using assms by (auto simp: carries_def vec_at_def mod_simps)

lemma carries_f1m:
  assumes "node_holds n t rots M out E (AddF1MMask r a m role)"
    and "carries n t E a f" and "carries n t E m g"
  shows "carries n t E r (\<lambda>k. f k + g k)"
  using assms by (auto simp: carries_def vec_at_def mod_simps)

lemma carries_select:
  assumes "node_holds n t rots M out E (MultiplyPlaintextMask r a m)"
    and "carries n t E a f" and "carries n t M m g"
  shows "carries n t E r (\<lambda>k. f k * g k)"
  using assms by (auto simp: carries_def vec_at_def mod_simps)

lemma nat_shift_mod: "nat ((int k + int m) mod int n) = (k + m) mod n"
  by (metis nat_int of_nat_add zmod_int)

lemma carries_rotate:
  assumes node: "node_holds n t rots M out E (Rotate r a s (int m))" and a: "carries n t E a f"
  shows "carries n t E r (\<lambda>k. f ((k + m) mod n))"
proof -
  obtain v where v: "vec_at n E a v" "\<forall>k < n. v ! k = f k mod t"
    using a by (auto simp: carries_def)
  then have "E r = Some (rotate_vector (int m) v)"
    using node by (auto simp: vec_at_def)
  moreover have "rotate_vector (int m) v ! k = f ((k + m) mod n) mod t" if "k < n" for k
    using v that by (simp add: rotate_vector_def vec_at_def nat_shift_mod)
  moreover have "length (rotate_vector (int m) v) = n" using v(1) by (simp add: vec_at_def)
  ultimately show ?thesis by (auto simp: carries_def vec_at_def)
qed

lemma carries_return:
  assumes "node_holds n t rots M out E (ReturnResult r a)" and "carries n t E a f"
  shows "\<exists>v. map_of out r = Some v \<and> length v = n \<and> (\<forall>k < n. v ! k = f k mod t)"
  using assms by (auto simp: carries_def vec_at_def)

declare node_holds.simps [simp del]

section \<open>Windows\<close>

definition window :: "nat \<Rightarrow> (nat \<Rightarrow> int) \<Rightarrow> nat \<Rightarrow> nat \<Rightarrow> nat \<Rightarrow> int" where
  "window n f h w i = (\<Sum>j < w. f ((i + j * h) mod n))"

lemma window_1: "i < n \<Longrightarrow> window n f h 1 i = f i"
  by (simp add: window_def)

lemma window_add:
  "window n f h (a + b) i = window n f h a i + window n f h b ((i + a * h) mod n)"
proof -
  have "(\<Sum>j < a + b. f ((i + j * h) mod n)) =
      (\<Sum>j < a. f ((i + j * h) mod n)) + (\<Sum>j < b. f ((i + (a + j) * h) mod n))"
    by (induction b) (simp_all add: add.assoc)
  moreover have "f ((i + (a + j) * h) mod n) = f (((i + a * h) mod n + j * h) mod n)" for j
    by (simp add: mod_add_left_eq add.assoc distrib_right)
  ultimately show ?thesis by (simp add: window_def)
qed

lemma window_in_range:
  assumes "i + (w - 1) * h < n"
  shows "window n f h w i = (\<Sum>j < w. f (i + j * h))"
  unfolding window_def
proof (rule sum.cong [OF refl])
  fix j assume "j \<in> {..<w}"
  then have "j * h \<le> (w - 1) * h" by (intro mult_right_mono) auto
  with assms have "i + j * h < n" by linarith
  then show "f ((i + j * h) mod n) = f (i + j * h)" by simp
qed

text \<open>One rotation and one addition extend the window.\<close>

lemma carries_window_step:
  assumes rot: "node_holds n t rots M out E (Rotate rotated src (int a * int h) (int a * int h))"
    and add: "node_holds n t rots M out E (AddCiphertexts summed acc rotated)"
    and src: "carries n t E src (window n f h b)" and acc: "carries n t E acc (window n f h a)"
  shows "carries n t E summed (window n f h (a + b))"
proof -
  have "carries n t E rotated (\<lambda>k. window n f h b ((k + a * h) mod n))"
    using rot src unfolding of_nat_mult [symmetric] by (rule carries_rotate)
  then show ?thesis
    by (rule carries_cong [OF carries_add [OF add acc]]) (simp add: window_add)
qed

section \<open>The stored powers\<close>

abbreviation nodes_hold ::
  "nat \<Rightarrow> int \<Rightarrow> (int, int) dict \<Rightarrow> env \<Rightarrow> results \<Rightarrow> env \<Rightarrow> cloud_node list \<Rightarrow> bool"
where
  "nodes_hold n t rots M out E ns \<equiv> \<forall>node \<in> set ns. node_holds n t rots M out E node"

definition powers_stored :: "(nat \<Rightarrow> string \<Rightarrow> bool) \<Rightarrow> (nat, string) dict \<Rightarrow> nat \<Rightarrow> bool" where
  "powers_stored P powers stride \<longleftrightarrow>
     (\<exists>k. stride = 2 ^ k \<and> (\<forall>j \<le> k. \<exists>i. map_of powers (2 ^ j) = Some i \<and> P (2 ^ j) i))"

lemma powers_stored_get:
  "powers_stored P powers stride \<Longrightarrow> 2 ^ j \<le> stride \<Longrightarrow> P (2 ^ j) (dict_get powers (2 ^ j) d)"
  by (fastforce simp: powers_stored_def dict_get_def)

lemma powers_stored_stride:
  "powers_stored P powers stride \<Longrightarrow> P stride (dict_get powers stride d)"
  by (fastforce simp: powers_stored_def dict_get_def)

lemma powers_stored_extend:
  assumes "powers_stored P powers stride" and "P (2 * stride) i"
  shows "powers_stored P (AList.update (2 * stride) i powers) (2 * stride)"
proof -
  obtain k where k: "stride = 2 ^ k" "\<forall>j \<le> k. \<exists>i. map_of powers (2 ^ j) = Some i \<and> P (2 ^ j) i"
    using assms(1) by (auto simp: powers_stored_def)
  have "\<exists>i'. map_of (AList.update (2 * stride) i powers) (2 ^ j) = Some i' \<and> P (2 ^ j) i'"
    if "j \<le> Suc k" for j
  proof (cases "j = Suc k")
    case True
    then show ?thesis using assms(2) k(1) by (simp add: map_of_update)
  next
    case False
    then have "(2::nat) ^ j < 2 ^ Suc k" using that by (intro power_strict_increasing) auto
    then have "(2::nat) ^ j \<noteq> 2 * stride" by (simp add: k(1))
    then show ?thesis using False that k(2) by (simp add: map_of_update)
  qed
  then show ?thesis using k(1) by (auto simp: powers_stored_def intro!: exI [of _ "Suc k"])
qed

text \<open>
  The loop over the powers: it keeps the invariant, only appends nodes, only adds shifts below
  \<open>w * h\<close>, and ends with the largest power of two not above \<open>w\<close>. This also shows that the
  dictionary default of the model is never read.
\<close>

definition shifts_below :: "int \<Rightarrow> int list \<Rightarrow> bool" where
  "shifts_below m shifts \<longleftrightarrow> distinct shifts \<and> (\<forall>s \<in> set shifts. 0 < s \<and> s < m)"

lemma shifts_below_add: "shifts_below m shifts \<Longrightarrow> 0 < s \<Longrightarrow> s < m \<Longrightarrow> shifts_below m (add_shift s shifts)"
  by (auto simp: shifts_below_def add_shift_def)

lemma powers_stored_pos: "powers_stored P powers stride \<Longrightarrow> 0 < stride"
  by (auto simp: powers_stored_def)

lemma reduction_powers_step:
  assumes "0 < stride" and "2 * stride \<le> w"
  shows "reduction_powers ord w h stride (powers, ns, shifts) =
    reduction_powers ord w h (2 * stride)
      (AList.update (2 * stride) (''ssa-column-sum-'' @ ord @ ''-'' @ fmt06 stride) powers,
       ns @ [Rotate (''ssa-rotate-'' @ ord @ ''-'' @ fmt06 stride) (dict_get powers stride [])
               (int stride * h) (int stride * h),
             AddCiphertexts (''ssa-column-sum-'' @ ord @ ''-'' @ fmt06 stride)
               (dict_get powers stride []) (''ssa-rotate-'' @ ord @ ''-'' @ fmt06 stride)],
       add_shift (int stride * h) shifts)"
  using assms by (subst reduction_powers.simps) (simp add: Let_def)

lemma reduction_powers_stop:
  "\<not> (0 < stride \<and> 2 * stride \<le> w) \<Longrightarrow>
     reduction_powers ord w h stride (powers, ns, shifts) = (stride, powers, ns, shifts)"
  by (subst reduction_powers.simps) auto

lemma reduction_powers_run:
  assumes "reduction_powers ord w (int h) stride (powers, ns, shifts) = (stride', powers', ns', shifts')"
    and "powers_stored (\<lambda>_ _. True) powers stride" and "stride \<le> w"
  shows "set ns \<subseteq> set ns' \<and> powers_stored (\<lambda>_ _. True) powers' stride' \<and>
    stride' \<le> w \<and> w < 2 * stride' \<and>
    (\<exists>k. stride' = stride * 2 ^ k \<and> length ns' = length ns + 2 * k) \<and>
    (0 < h \<longrightarrow> int (w * h) \<le> cap \<longrightarrow> shifts_below cap shifts \<longrightarrow> shifts_below cap shifts') \<and>
    (nodes_hold n t rots M out E ns' \<longrightarrow>
     powers_stored (\<lambda>p i. carries n t E i (window n f h p)) powers stride \<longrightarrow>
     powers_stored (\<lambda>p i. carries n t E i (window n f h p)) powers' stride')"
  using assms
proof (induction "w - stride" arbitrary: stride powers ns shifts rule: less_induct)
  case less
  let ?P = "\<lambda>p i. carries n t E i (window n f h p)"
  note pos = powers_stored_pos [OF less.prems(2)]
  show ?case
  proof (cases "2 * stride \<le> w")
    case False
    then have "(stride', powers', ns', shifts') = (stride, powers, ns, shifts)"
      using less.prems(1) by (simp add: reduction_powers_stop)
    then show ?thesis using False less.prems by (auto intro!: exI [of _ 0])
  next
    case True
    let ?src = "dict_get powers stride []"
    let ?rot = "''ssa-rotate-'' @ ord @ ''-'' @ fmt06 stride"
    let ?sum = "''ssa-column-sum-'' @ ord @ ''-'' @ fmt06 stride"
    let ?powers = "AList.update (2 * stride) ?sum powers"
    let ?ns = "ns @ [Rotate ?rot ?src (int stride * int h) (int stride * int h),
      AddCiphertexts ?sum ?src ?rot]"
    let ?shifts = "add_shift (int stride * int h) shifts"
    have run: "reduction_powers ord w (int h) (2 * stride) (?powers, ?ns, ?shifts) =
        (stride', powers', ns', shifts')"
      using less.prems(1) unfolding reduction_powers_step [OF pos True] .
    have st: "powers_stored (\<lambda>_ _. True) ?powers (2 * stride)"
      using less.prems(2) by (rule powers_stored_extend) simp
    have IH: "set ?ns \<subseteq> set ns' \<and> powers_stored (\<lambda>_ _. True) powers' stride' \<and>
        stride' \<le> w \<and> w < 2 * stride' \<and>
        (\<exists>k. stride' = 2 * stride * 2 ^ k \<and> length ns' = length ?ns + 2 * k) \<and>
        (0 < h \<longrightarrow> int (w * h) \<le> cap \<longrightarrow> shifts_below cap ?shifts \<longrightarrow> shifts_below cap shifts') \<and>
        (nodes_hold n t rots M out E ns' \<longrightarrow> powers_stored ?P ?powers (2 * stride) \<longrightarrow>
          powers_stored ?P powers' stride')"
      by (rule less.hyps [OF _ run st True]) (use True pos in simp)
    have "\<exists>k. stride' = stride * 2 ^ k \<and> length ns' = length ns + 2 * k"
    proof -
      obtain k where "stride' = 2 * stride * 2 ^ k" "length ns' = length ?ns + 2 * k"
        using IH by blast
      then show ?thesis by (intro exI [of _ "Suc k"]) simp
    qed
    moreover have "shifts_below cap ?shifts"
      if "0 < h" "int (w * h) \<le> cap" "shifts_below cap shifts"
    proof (rule shifts_below_add [OF that(3)])
      have "stride * h < w * h" using True pos that(1) by simp
      then have "int stride * int h < int (w * h)" unfolding of_nat_mult [symmetric] by simp
      with that(2) show "int stride * int h < cap" by linarith
      show "0 < int stride * int h" using pos that(1) by simp
    qed
    moreover have "powers_stored ?P ?powers (2 * stride)"
      if holds: "nodes_hold n t rots M out E ns'" and "powers_stored ?P powers stride"
    proof (rule powers_stored_extend [OF that(2)])
      have src: "?P stride ?src" using that(2) by (rule powers_stored_stride)
      have "?P (stride + stride) ?sum"
        by (rule carries_window_step [OF _ _ src src]) (use IH holds in auto)
      then show "?P (2 * stride) ?sum" by (simp add: mult_2)
    qed
    ultimately show ?thesis using IH by auto
  qed
qed

section \<open>The prefix phase\<close>

text \<open>
  \<open>prefix\<close> is the width with the bits up to \<open>low\<close> cleared; \<open>low\<close> is a power of two, or zero
  when every bit is done.
\<close>

definition prefix_state :: "nat \<Rightarrow> nat \<Rightarrow> nat \<Rightarrow> bool" where
  "prefix_state w low prefix \<longleftrightarrow>
     (low = 0 \<and> prefix = w) \<or> (\<exists>j. low = 2 ^ j \<and> prefix = w div 2 ^ Suc j * 2 ^ Suc j)"

lemma prefix_state_half:
  assumes "prefix = w div 2 ^ j * 2 ^ j"
  shows "prefix_state w (2 ^ j div 2) prefix"
  using assms by (cases j) (auto simp: prefix_state_def)

lemma and_power_bit: "w AND 2 ^ j \<noteq> 0 \<longleftrightarrow> odd (w div 2 ^ j)" for w :: nat
  by (simp add: and_exp_eq_0_iff_not_bit bit_iff_odd)

lemma prefix_set_bit:
  fixes w :: nat
  assumes "odd (w div 2 ^ j)"
  shows "w div 2 ^ Suc j * 2 ^ Suc j + 2 ^ j = w div 2 ^ j * 2 ^ j"
proof -
  have "w div 2 ^ j = 2 * (w div 2 ^ j div 2) + 1"
    using odd_two_times_div_two_succ [OF assms] by simp
  also have "w div 2 ^ j div 2 = w div 2 ^ Suc j" by (simp only: power_Suc2 div_mult2_eq)
  finally have "w div 2 ^ j * 2 ^ j = (2 * (w div 2 ^ Suc j) + 1) * 2 ^ j" by simp
  then show ?thesis by (simp add: distrib_right)
qed

lemma prefix_clear_bit:
  fixes w :: nat
  assumes "even (w div 2 ^ j)"
  shows "w div 2 ^ Suc j * 2 ^ Suc j = w div 2 ^ j * 2 ^ j"
proof -
  have "w div 2 ^ j = 2 * (w div 2 ^ j div 2)"
    using even_two_times_div_two [OF assms] by simp
  also have "w div 2 ^ j div 2 = w div 2 ^ Suc j" by (simp only: power_Suc2 div_mult2_eq)
  finally have "w div 2 ^ j * 2 ^ j = 2 * (w div 2 ^ Suc j) * 2 ^ j" by simp
  then show ?thesis by simp
qed

lemma reduction_prefix_done:
  "reduction_prefix ord w h powers 0 prefix acc ns shifts = (acc, ns, shifts)"
  by (subst reduction_prefix.simps) simp

lemma reduction_prefix_skip:
  "low \<noteq> 0 \<Longrightarrow> w AND low = 0 \<Longrightarrow> reduction_prefix ord w h powers low prefix acc ns shifts =
     reduction_prefix ord w h powers (low div 2) prefix acc ns shifts"
  by (subst reduction_prefix.simps) simp

lemma reduction_prefix_take:
  "low \<noteq> 0 \<Longrightarrow> w AND low \<noteq> 0 \<Longrightarrow> reduction_prefix ord w h powers low prefix acc ns shifts =
     reduction_prefix ord w h powers (low div 2) (prefix + low)
       (''ssa-column-sum-'' @ ord @ ''-'' @ fmt06 prefix)
       (ns @ [Rotate (''ssa-rotate-'' @ ord @ ''-'' @ fmt06 prefix) (dict_get powers low [])
                (int prefix * h) (int prefix * h),
              AddCiphertexts (''ssa-column-sum-'' @ ord @ ''-'' @ fmt06 prefix) acc
                (''ssa-rotate-'' @ ord @ ''-'' @ fmt06 prefix)])
       (add_shift (int prefix * h) shifts)"
  by (subst reduction_prefix.simps) (simp add: Let_def)

lemma bit_count_low: "0 < n \<Longrightarrow> bit_count n = n mod 2 + bit_count (n div 2)"
  by (subst bit_count.simps) simp

lemma bit_count_0 [simp]: "bit_count 0 = 0"
  by (subst bit_count.simps) simp

lemma bit_length_0 [simp]: "bit_length 0 = 0"
  by (subst bit_length.simps) simp

lemma bit_length_pos: "0 < n \<Longrightarrow> bit_length n = Suc (bit_length (n div 2))"
  by (subst bit_length.simps) simp

lemma bit_count_mod_Suc:
  "bit_count (w mod 2 ^ Suc j) = (if odd (w div 2 ^ j) then 1 else 0) + bit_count (w mod 2 ^ j)"
proof (induction j arbitrary: w)
  case 0
  then show ?case by (cases "odd w") (auto simp: bit_count_low odd_iff_mod_2_eq_one)
next
  case (Suc j)
  have split: "bit_count (w mod 2 ^ Suc i) = w mod 2 + bit_count (w div 2 mod 2 ^ i)" for i w
  proof (cases "w mod 2 ^ Suc i = 0")
    case True
    then have "w mod 2 = 0" by (metis dvd_triv_left mod_0_imp_dvd power_Suc dvd_trans dvd_imp_mod_0)
    moreover have "w div 2 mod 2 ^ i = 0" using True by (auto simp: mod_mult2_eq)
    ultimately show ?thesis using True by simp
  next
    case False
    have "w mod 2 ^ Suc i mod 2 = w mod 2" by (simp add: mod_mod_cancel)
    moreover have "w mod 2 ^ Suc i div 2 = w div 2 mod 2 ^ i" by (simp add: mod_mult2_eq)
    ultimately show ?thesis using False by (simp add: bit_count_low)
  qed
  show ?case using Suc [of "w div 2"] unfolding split by (simp add: div_mult2_eq)
qed

lemma reduction_prefix_run:
  assumes "reduction_prefix ord w (int h) powers low prefix acc ns shifts = (acc', ns', shifts')"
    and "prefix_state w low prefix" and "0 < prefix"
  shows "set ns \<subseteq> set ns' \<and>
    length ns' = length ns + 2 * (if low = 0 then 0 else bit_count (w mod (2 * low))) \<and>
    (0 < h \<longrightarrow> int (w * h) \<le> cap \<longrightarrow> shifts_below cap shifts \<longrightarrow> shifts_below cap shifts') \<and>
    (nodes_hold n t rots M out E ns' \<longrightarrow> carries n t E acc (window n f h prefix) \<longrightarrow>
     (\<forall>j. 2 ^ j \<le> low \<longrightarrow> carries n t E (dict_get powers (2 ^ j) []) (window n f h (2 ^ j))) \<longrightarrow>
     carries n t E acc' (window n f h w))"
  using assms
proof (induction low arbitrary: prefix acc ns shifts rule: less_induct)
  case (less low)
  show ?case
  proof (cases "low = 0")
    case True
    then show ?thesis using less.prems by (auto simp: reduction_prefix_done prefix_state_def)
  next
    case False
    then obtain j where low: "low = 2 ^ j" and prefix: "prefix = w div 2 ^ Suc j * 2 ^ Suc j"
      using less.prems(2) by (auto simp: prefix_state_def)
    have half: "low div 2 < low" using False by simp
    have half_le: "2 ^ i \<le> low" if "2 ^ i \<le> low div 2" for i using that by (metis div_le_dividend le_trans)
    have cnt: "bit_count (w mod (2 * low)) =
        (if odd (w div 2 ^ j) then 1 else 0) +
        (if low div 2 = 0 then 0 else bit_count (w mod (2 * (low div 2))))"
    proof (cases j)
      case 0
      then show ?thesis using bit_count_mod_Suc [of w 0] by (simp add: low)
    next
      case (Suc i)
      then show ?thesis using bit_count_mod_Suc [of w j] by (simp add: low)
    qed
    show ?thesis
    proof (cases "odd (w div 2 ^ j)")
      case False
      then have run: "reduction_prefix ord w (int h) powers (low div 2) prefix acc ns shifts =
          (acc', ns', shifts')"
        using less.prems(1) and_power_bit [of w j] by (simp add: low reduction_prefix_skip)
      have "prefix_state w (low div 2) prefix"
        unfolding low prefix by (rule prefix_state_half, rule prefix_clear_bit) (use False in simp)
      from less.IH [OF half run this less.prems(3)] show ?thesis
        using False half_le \<open>low \<noteq> 0\<close> unfolding cnt by simp
    next
      case True
      define rot where "rot = ''ssa-rotate-'' @ ord @ ''-'' @ fmt06 prefix"
      define summed where "summed = ''ssa-column-sum-'' @ ord @ ''-'' @ fmt06 prefix"
      let ?two = "[Rotate rot (dict_get powers low []) (int prefix * int h) (int prefix * int h),
        AddCiphertexts summed acc rot]"
      have bit: "w AND low \<noteq> 0" using True and_power_bit [of w j] by (simp add: low)
      have run: "reduction_prefix ord w (int h) powers (low div 2) (prefix + low) summed (ns @ ?two)
          (add_shift (int prefix * int h) shifts) = (acc', ns', shifts')"
        using less.prems(1) unfolding reduction_prefix_take [OF \<open>low \<noteq> 0\<close> bit] rot_def summed_def .
      have next_prefix: "prefix + low = w div 2 ^ j * 2 ^ j"
        unfolding prefix low by (rule prefix_set_bit [OF True])
      then have st: "prefix_state w (low div 2) (prefix + low)"
        unfolding low by (intro prefix_state_half) simp
      have "prefix + low \<le> w" unfolding next_prefix by simp
      have "0 < prefix + low" using less.prems(3) by simp
      note IH = less.IH [OF half run st this]
      have sub: "set (ns @ ?two) \<subseteq> set ns'" using IH by blast
      have len: "length ns' = length ns + 2 + 2 * (if low div 2 = 0 then 0
          else bit_count (w mod (2 * (low div 2))))"
        using IH by simp
      have below: "shifts_below cap (add_shift (int prefix * int h) shifts)"
        if "0 < h" "int (w * h) \<le> cap" "shifts_below cap shifts"
      proof (rule shifts_below_add [OF that(3)])
        have "prefix < w" using \<open>prefix + low \<le> w\<close> \<open>low \<noteq> 0\<close> by simp
        then have "prefix * h < w * h" using that(1) by simp
        then have "int prefix * int h < int (w * h)" unfolding of_nat_mult [symmetric] by simp
        with that(2) show "int prefix * int h < cap" by linarith
        show "0 < int prefix * int h" using less.prems(3) that(1) by simp
      qed
      have step: "carries n t E summed (window n f h (prefix + low))"
        if holds: "nodes_hold n t rots M out E ns'" and acc: "carries n t E acc (window n f h prefix)"
          and pow: "\<forall>j. 2 ^ j \<le> low \<longrightarrow> carries n t E (dict_get powers (2 ^ j) []) (window n f h (2 ^ j))"
      proof -
        have src: "carries n t E (dict_get powers low []) (window n f h low)" using pow low by simp
        show ?thesis
          by (rule carries_window_step [OF _ _ src acc]) (use sub holds in auto)
      qed
      show ?thesis
      proof (intro conjI impI)
        show "set ns \<subseteq> set ns'" using sub by simp
        show "length ns' = length ns + 2 * (if low = 0 then 0 else bit_count (w mod (2 * low)))"
          using len True \<open>low \<noteq> 0\<close> unfolding cnt by simp
        show "shifts_below cap shifts'"
          if "0 < h" "int (w * h) \<le> cap" "shifts_below cap shifts"
          using IH below [OF that] that(1,2) by blast
        show "carries n t E acc' (window n f h w)"
          if "nodes_hold n t rots M out E ns'" "carries n t E acc (window n f h prefix)"
            "\<forall>j. 2 ^ j \<le> low \<longrightarrow> carries n t E (dict_get powers (2 ^ j) []) (window n f h (2 ^ j))"
          using IH step [OF that] that half_le by blast
      qed
    qed
  qed
qed

section \<open>The CSSC reduction\<close>

lemma bit_length_power:
  "2 ^ k \<le> w \<Longrightarrow> w < 2 ^ Suc k \<Longrightarrow> bit_length w = Suc k"
proof (induction k arbitrary: w)
  case 0
  then have "w = 1" by simp
  then show ?case by (simp add: bit_length_pos)
next
  case (Suc k)
  then have "0 < w" by (metis not_gr_zero le_zero_eq power_not_zero zero_neq_numeral)
  moreover have "2 ^ k \<le> w div 2" "w div 2 < 2 ^ Suc k" using Suc.prems by simp_all
  ultimately show ?case using Suc.IH by (simp add: bit_length_pos)
qed

lemma bit_count_top:
  assumes "2 ^ k \<le> w" and "w < 2 ^ Suc k"
  shows "bit_count w = Suc (bit_count (w mod 2 ^ k))"
proof -
  have "w div 2 ^ k = 1" using assms by (intro div_nat_eqI) simp_all
  then show ?thesis using bit_count_mod_Suc [of w k] assms by simp
qed

lemma append_cssc_reduction_run:
  assumes run: "append_cssc_reduction ord src (int w) (int h) ns shifts = (acc, ns', shifts')"
    and "0 < w"
  shows "set ns \<subseteq> set ns' \<and>
    int (length ns') = int (length ns) + 2 * aggregation_rotations_proxy (int w) \<and>
    (0 < h \<longrightarrow> int (w * h) \<le> cap \<longrightarrow> shifts_below cap shifts \<longrightarrow> shifts_below cap shifts') \<and>
    (nodes_hold n t rots M out E ns' \<longrightarrow> carries n t E src f \<longrightarrow> carries n t E acc (window n f h w))"
proof (cases "w = 1")
  case True
  then have "acc = src" "ns' = ns" "shifts' = shifts"
    using run by (auto simp: append_cssc_reduction_def)
  moreover have "carries n t E src (window n f h 1)" if "carries n t E src f"
    using that by (rule carries_cong) (simp add: window_def)
  ultimately show ?thesis using True by (simp add: aggregation_rotations_proxy_def)
next
  case False
  let ?P = "\<lambda>p i. carries n t E i (window n f h p)"
  obtain stride powers ns1 shifts1 where
    1: "reduction_powers ord w (int h) 1 ([(1, src)], ns, shifts) = (stride, powers, ns1, shifts1)"
    by (metis surj_pair)
  have 2: "reduction_prefix ord w (int h) powers (stride div 2) stride (dict_get powers stride [])
      ns1 shifts1 = (acc, ns', shifts')"
    using run False 1 by (simp add: append_cssc_reduction_def)
  have init: "powers_stored (\<lambda>_ _. True) [(1, src)] 1" by (auto simp: powers_stored_def intro!: exI [of _ 0])
  have "1 \<le> w" using \<open>0 < w\<close> by simp
  note R = reduction_powers_run [OF 1 init this, where n = n and t = t and rots = rots and M = M
      and out = out and E = E and f = f and cap = cap]
  obtain k where stride: "stride = 2 ^ k" and len1: "length ns1 = length ns + 2 * k" using R by auto
  have range: "2 ^ k \<le> w" "w < 2 ^ Suc k" using R unfolding stride by auto
  have "w div 2 ^ k = 1" using range by (intro div_nat_eqI) simp_all
  then have "prefix_state w (stride div 2) stride"
    unfolding stride by (intro prefix_state_half) simp
  moreover have "0 < stride" by (simp add: stride)
  ultimately have P: "set ns1 \<subseteq> set ns' \<and>
      length ns' = length ns1 + 2 * (if stride div 2 = 0 then 0 else bit_count (w mod (2 * (stride div 2)))) \<and>
      (0 < h \<longrightarrow> int (w * h) \<le> cap \<longrightarrow> shifts_below cap shifts1 \<longrightarrow> shifts_below cap shifts') \<and>
      (nodes_hold n t rots M out E ns' \<longrightarrow> carries n t E (dict_get powers stride []) (window n f h stride) \<longrightarrow>
       (\<forall>j. 2 ^ j \<le> stride div 2 \<longrightarrow> carries n t E (dict_get powers (2 ^ j) []) (window n f h (2 ^ j))) \<longrightarrow>
       carries n t E acc (window n f h w))"
    by (rule reduction_prefix_run [OF 2])
  have "(if stride div 2 = 0 then 0 else bit_count (w mod (2 * (stride div 2)))) = bit_count w - 1"
    using bit_count_top [OF range] by (cases k) (simp_all add: stride)
  moreover have "bit_length w = Suc k" using range by (rule bit_length_power)
  moreover have "0 < bit_count w" using bit_count_top [OF range] by simp
  ultimately have len: "int (length ns') = int (length ns) + 2 * aggregation_rotations_proxy (int w)"
    using P len1 False \<open>0 < w\<close> by (simp add: aggregation_rotations_proxy_def)
  have "carries n t E acc (window n f h w)"
    if holds: "nodes_hold n t rots M out E ns'" and src: "carries n t E src f"
  proof -
    have "carries n t E src (window n f h 1)" using src by (rule carries_cong) (simp add: window_def)
    then have "powers_stored ?P [(1, src)] 1" by (auto simp: powers_stored_def intro!: exI [of _ 0])
    then have st: "powers_stored ?P powers stride" using R P holds by blast
    have "?P (2 ^ j) (dict_get powers (2 ^ j) [])" if "2 ^ j \<le> stride div 2" for j
      using powers_stored_get [OF st, of j] that by (meson div_le_dividend le_trans)
    then show ?thesis using P holds powers_stored_stride [OF st] by blast
  qed
  then show ?thesis using R P len by blast
qed

section \<open>The doubling reduction\<close>

lemma power_of_two_int:
  "2 \<le> w \<Longrightarrow> w AND (w - 1) = 0 \<Longrightarrow> \<exists>m. w = 2 ^ m" for w :: int
proof (induction "nat w" arbitrary: w rule: less_induct)
  case less
  have rec: "w AND (w - 1) = of_bool (odd w \<and> odd (w - 1)) + 2 * (w div 2 AND (w - 1) div 2)"
    by (rule and_rec)
  show ?case
  proof (cases "even w")
    case False
    then have "(w - 1) div 2 = w div 2" by (auto elim: oddE)
    then have "w div 2 = 0" using rec less.prems(2) by simp
    then show ?thesis using less.prems(1) by simp
  next
    case True
    then obtain u where u: "w = 2 * u" by (rule evenE)
    have "(w - 1) div 2 = u - 1" by (simp add: u)
    then have "u AND (u - 1) = 0" using rec less.prems(2) by (simp add: u)
    moreover have "u = 1 \<or> 2 \<le> u" using less.prems(1) u by auto
    ultimately obtain m where "u = 2 ^ m"
      using less.hyps [of u] less.prems(1) u by (metis nat_less_iff int_nat_eq mult_2 power_0
        less_add_same_cancel2 order_less_le_trans zero_less_numeral nat_mono_iff zero_le_numeral order_trans)
    then show ?thesis by (intro exI [of _ "Suc m"]) (simp add: u)
  qed
qed

lemma doubling_shifts_step:
  "0 < s \<Longrightarrow> s < w \<Longrightarrow> doubling_shifts s w = s # doubling_shifts (2 * s) w"
  by (subst doubling_shifts.simps) simp

lemma doubling_shifts_stop: "w \<le> s \<Longrightarrow> doubling_shifts s w = []"
  by (subst doubling_shifts.simps) simp

lemma doubling_shifts_powers:
  "i \<le> m \<Longrightarrow> doubling_shifts (2 ^ i) (2 ^ m) = map (\<lambda>k. 2 ^ k) [i..<m]"
proof (induction "m - i" arbitrary: i)
  case 0
  then show ?case by (simp add: doubling_shifts_stop)
next
  case (Suc d)
  then have "i < m" by simp
  then have "doubling_shifts (2 ^ i) (2 ^ m) = 2 ^ i # doubling_shifts (2 ^ Suc i) (2 ^ m)"
    by (simp add: doubling_shifts_step)
  also have "doubling_shifts (2 ^ Suc i) (2 ^ m) = map (\<lambda>k. 2 ^ k) [Suc i..<m]"
    using Suc \<open>i < m\<close> by (intro Suc.hyps) simp_all
  finally show ?case using \<open>i < m\<close> by (simp add: upt_conv_Cons)
qed

lemma segment_reduction_Cons:
  "segment_reduction ord start (s # steps) (ns, shifts) =
     segment_reduction ord (''ssa-segment-sum-'' @ ord @ ''-'' @ fmt06 (nat (2 * s))) steps
       (ns @ [Rotate (''ssa-rotate-'' @ ord @ ''-'' @ fmt06 (nat s)) start s s,
              AddCiphertexts (''ssa-segment-sum-'' @ ord @ ''-'' @ fmt06 (nat (2 * s))) start
                (''ssa-rotate-'' @ ord @ ''-'' @ fmt06 (nat s))],
        add_shift s shifts)"
  by (simp add: segment_reduction_def Let_def)

text \<open>The reduction of a delta page, from the power \<open>2 ^ i\<close> on.\<close>

lemma segment_reduction_run:
  assumes "segment_reduction ord start (map (\<lambda>k. 2 ^ k) [i..<m]) (ns, shifts) = (acc, ns', shifts')"
    and "i \<le> m"
  shows "set ns \<subseteq> set ns' \<and> length ns' = length ns + 2 * (m - i) \<and>
    (2 ^ m \<le> cap \<longrightarrow> shifts_below cap shifts \<longrightarrow> shifts_below cap shifts') \<and>
    (nodes_hold n t rots M out E ns' \<longrightarrow> carries n t E start (window n f 1 (2 ^ i)) \<longrightarrow>
     carries n t E acc (window n f 1 (2 ^ m)))"
  using assms
proof (induction "m - i" arbitrary: i start ns shifts)
  case 0
  then show ?case by (auto simp: segment_reduction_def)
next
  case (Suc d)
  then have less: "i < m" by simp
  define rot where "rot = ''ssa-rotate-'' @ ord @ ''-'' @ fmt06 (nat (2 ^ i))"
  define summed where "summed = ''ssa-segment-sum-'' @ ord @ ''-'' @ fmt06 (nat (2 * 2 ^ i))"
  let ?two = "[Rotate rot start (2 ^ i) (2 ^ i), AddCiphertexts summed start rot]"
  have run: "segment_reduction ord summed (map (\<lambda>k. 2 ^ k) [Suc i..<m])
      (ns @ ?two, add_shift (2 ^ i) shifts) = (acc, ns', shifts')"
    using Suc.prems(1)
    unfolding upt_conv_Cons [OF less] list.map segment_reduction_Cons rot_def summed_def .
  have "d = m - Suc i" using Suc.hyps(2) by simp
  note IH = Suc.hyps(1) [OF this run Suc_leI [OF less]]
  have sub: "set (ns @ ?two) \<subseteq> set ns'" using IH by blast
  have below: "shifts_below cap (add_shift (2 ^ i) shifts)"
    if "2 ^ m \<le> cap" "shifts_below cap shifts"
  proof (rule shifts_below_add [OF that(2)])
    have "(2::int) ^ i < 2 ^ m" using less by (intro power_strict_increasing) auto
    with that(1) show "2 ^ i < cap" by linarith
  qed simp
  have step: "carries n t E summed (window n f 1 (2 ^ Suc i))"
    if "nodes_hold n t rots M out E ns'" and start: "carries n t E start (window n f 1 (2 ^ i))"
  proof -
    have pow: "(2::int) ^ i = int (2 ^ i) * int 1" by simp
    have "carries n t E summed (window n f 1 (2 ^ i + 2 ^ i))"
      by (rule carries_window_step [OF _ _ start start, where rotated = rot])
        (use sub that(1) in \<open>auto simp flip: pow\<close>)
    then show ?thesis by (simp add: mult_2)
  qed
  have "length ns' = length ns + 2 * (m - i)"
  proof -
    have "length ns' = length ns + 2 + 2 * (m - Suc i)" using IH by simp
    then show ?thesis using less by simp
  qed
  then show ?case using IH sub below step by auto
qed

end
