(* ===== verification/Output_Plan_Facts.thy ===== *)
theory Output_Plan_Facts
  imports Output_Plan
begin

text \<open>
  What \<open>output_plan.py\<close> guarantees. Validation accepts exactly the well-formed plans
  (\<open>plan_ok\<close>) and returns the multiplicity of each logical row; the analysis counts lanes and
  rows of the plan; the prepared masks lie in the residue ring, are zero off the overlapping
  rows, and sum to zero over the lanes of every row.
\<close>

section \<open>The abstract plan\<close>

definition share_ok :: "int \<Rightarrow> int \<Rightarrow> output_share \<Rightarrow> bool" where
  "share_ok n slots s \<longleftrightarrow>
     valid_id (os_component_id s) \<and> valid_id (os_output_block_id s) \<and>
     slot_to_logical s \<noteq> [] \<and> distinct (map fst (slot_to_logical s)) \<and>
     (\<forall>(p, l) \<in> set (slot_to_logical s). 0 \<le> p \<and> p < slots \<and> 0 \<le> l \<and> l < n)"

definition plan_ok :: "output_plan \<Rightarrow> bool" where
  "plan_ok plan \<longleftrightarrow>
     0 < logical_output_size plan \<and> 0 < op_slot_count plan \<and>
     distinct (map share_id (shares plan)) \<and>
     (\<forall>s \<in> set (shares plan). share_ok (logical_output_size plan) (op_slot_count plan) s)"

text \<open>The rows the lanes of the plan reach, one occurrence per lane, and the lanes with them.\<close>

definition logical_rows :: "output_plan \<Rightarrow> int list" where
  "logical_rows plan = concat (map (\<lambda>s. map snd (slot_to_logical s)) (shares plan))"

definition plan_lanes :: "output_plan \<Rightarrow> (int \<times> lane) list" where
  "plan_lanes plan = concat (map (\<lambda>s. map (\<lambda>(p, l).
     (l, os_component_id s, os_output_block_id s, p)) (slot_to_logical s)) (shares plan))"

definition row_lanes :: "output_plan \<Rightarrow> int \<Rightarrow> lane list" where
  "row_lanes plan r = map snd (filter (\<lambda>x. fst x = r) (plan_lanes plan))"

lemma rows_of_plan_lanes: "map fst (plan_lanes plan) = logical_rows plan"
  by (auto simp: plan_lanes_def logical_rows_def map_concat split_beta
      intro!: arg_cong [where f = concat] map_cong)

section \<open>Validation\<close>

lemma op_checks [simp]:
  "op_require_positive_int v f = Inr w \<longleftrightarrow> 0 < v \<and> w = v"
  "op_require_id s f = Inr t \<longleftrightarrow> valid_id s \<and> t = s"
  by (auto simp: op_require_positive_int_def op_require_id_def)

lemma validate_mappings:
  "rfold (validate_mapping n slots) (seen, m) xs = Inr (seen', m') \<longleftrightarrow>
     distinct (map fst xs) \<and> set seen \<inter> fst ` set xs = {} \<and>
     (\<forall>(p, l) \<in> set xs. 0 \<le> p \<and> p < slots \<and> 0 \<le> l \<and> l < n) \<and>
     seen' = rev (map fst xs) @ seen \<and> m' = foldl counter_add m (map snd xs)"
proof (induction xs arbitrary: seen m)
  case Nil
  then show ?case by auto
next
  case (Cons x xs)
  obtain p l where x: "x = (p, l)" by (cases x)
  show ?case
  proof (cases "0 \<le> p \<and> p < slots \<and> p \<notin> set seen \<and> 0 \<le> l \<and> l < n")
    case True
    then show ?thesis
      using Cons.IH [of "p # seen" "counter_add m l"] x
      by (auto simp: validate_mapping_def)
  next
    case False
    then show ?thesis using x by (auto simp: validate_mapping_def)
  qed
qed

lemma validate_share_step:
  "validate_share n slots (ids, m) s = Inr r \<longleftrightarrow>
     share_ok n slots s \<and> share_id s \<notin> set ids \<and>
     r = (share_id s # ids, foldl counter_add m (map snd (slot_to_logical s)))"
  by (auto simp: validate_share_def share_ok_def rbind_eq_Inr validate_mappings)

lemma validate_shares:
  "rfold (validate_share n slots) (ids, m) ss = Inr (ids', m') \<longleftrightarrow>
     distinct (map share_id ss) \<and> set ids \<inter> share_id ` set ss = {} \<and>
     (\<forall>s \<in> set ss. share_ok n slots s) \<and> ids' = rev (map share_id ss) @ ids \<and>
     m' = foldl counter_add m (concat (map (\<lambda>s. map snd (slot_to_logical s)) ss))"
proof (induction ss arbitrary: ids m)
  case Nil
  then show ?case by auto
next
  case (Cons s ss)
  show ?case
    by (auto simp: rbind_eq_Inr validate_share_step Cons.IH)
qed

lemma validate_output_plan_eq:
  "validate_output_plan plan = Inr m \<longleftrightarrow> plan_ok plan \<and> m = counter_of (logical_rows plan)"
  by (auto simp: validate_output_plan_def rbind_eq_Inr validate_shares plan_ok_def
      logical_rows_def counter_of_def)

lemma validate_output_plan_ok:
  "plan_ok plan \<Longrightarrow> validate_output_plan plan = Inr (counter_of (logical_rows plan))"
  by (simp add: validate_output_plan_eq)

lemma canonical_payload_total:
  "plan_ok plan \<Longrightarrow> \<exists>j. canonical_output_plan_payload plan = Inr j"
  by (simp add: canonical_output_plan_payload_def validate_output_plan_ok)

lemma analyze_total: "plan_ok plan \<Longrightarrow> \<exists>a. analyze_output_plan plan = Inr a"
  by (auto simp: analyze_output_plan_def canonical_output_plan_payload_def
      validate_output_plan_ok Let_def)

lemma analyze_plan_ok: "analyze_output_plan plan = Inr a \<Longrightarrow> plan_ok plan"
  by (auto simp: analyze_output_plan_def rbind_eq_Inr validate_output_plan_eq)

lemma analyze_digest:
  "analyze_output_plan plan = Inr a \<Longrightarrow> valid_sha256 (oa_output_plan_digest a)"
  by (auto simp: analyze_output_plan_def rbind_eq_Inr Let_def)

section \<open>Lanes and contributors\<close>

lemma contributors_as_fold:
  "contributors_of plan = foldl (\<lambda>d (l, lane). dict_append d l lane) [] (plan_lanes plan)"
  by (simp add: contributors_of_def plan_lanes_def)

lemma contributors_get [simp]: "dict_get (contributors_of plan) r [] = row_lanes plan r"
  by (simp add: contributors_as_fold dict_get_foldl_append row_lanes_def)

lemma contributors_ok [simp]: "dict_ok (contributors_of plan)"
  unfolding contributors_as_fold by (rule dict_ok_foldl_append) simp

lemma contributors_keys: "fst ` set (contributors_of plan) = set (logical_rows plan)"
  by (simp add: contributors_as_fold dict_keys_foldl_append flip: rows_of_plan_lanes)

lemma contributors_item: "(r, lanes) \<in> set (contributors_of plan) \<Longrightarrow> lanes = row_lanes plan r"
  using dict_get_item [OF contributors_ok, of r lanes plan "[]"] by simp

lemma row_lanes_empty: "r \<notin> set (logical_rows plan) \<Longrightarrow> row_lanes plan r = []"
  by (auto simp: row_lanes_def filter_empty_conv simp flip: rows_of_plan_lanes)

lemma length_row_lanes: "length (row_lanes plan r) = count_list (logical_rows plan) r"
  by (simp add: row_lanes_def count_list_eq_length_filter filter_map comp_def eq_commute
      flip: rows_of_plan_lanes)

abbreviation lane_share :: "lane \<Rightarrow> string \<times> string" where
  "lane_share x \<equiv> (fst x, fst (snd x))"

text \<open>The shares of the overlapping rows: the ones the code masks.\<close>

definition overlap_ids :: "output_plan \<Rightarrow> (string \<times> string) set" where
  "overlap_ids plan =
     (\<Union>r \<in> {r. 1 < length (row_lanes plan r)}. lane_share ` set (row_lanes plan r))"

lemma set_masked_share_ids:
  "set (masked_share_ids_of (contributors_of plan)) = overlap_ids plan"
proof (intro set_eqI iffI)
  fix i assume "i \<in> set (masked_share_ids_of (contributors_of plan))"
  then show "i \<in> overlap_ids plan"
    by (force simp: masked_share_ids_of_def overlap_ids_def dest: contributors_item split: if_splits)
next
  fix i assume "i \<in> overlap_ids plan"
  then obtain c b r p where i: "i = (c, b)" and p: "(c, b, p) \<in> set (row_lanes plan r)"
      and "1 < length (row_lanes plan r)"
    by (auto simp: overlap_ids_def)
  then have "r \<in> fst ` set (contributors_of plan)"
    using row_lanes_empty by (fastforce simp: contributors_keys)
  then obtain lanes where "(r, lanes) \<in> set (contributors_of plan)" by auto
  then have "(r, row_lanes plan r) \<in> set (contributors_of plan)"
    using contributors_item by metis
  then show "i \<in> set (masked_share_ids_of (contributors_of plan))"
    using p i \<open>1 < length (row_lanes plan r)\<close> by (force simp: masked_share_ids_of_def)
qed

lemma plan_lanes_mem:
  "(r, c, b, p) \<in> set (plan_lanes plan) \<longleftrightarrow>
     (\<exists>s \<in> set (shares plan). share_id s = (c, b) \<and> (p, r) \<in> set (slot_to_logical s))"
  by (fastforce simp: plan_lanes_def)

lemma distinct_lanes_of_shares:
  assumes "distinct (map share_id ss)" and "\<forall>s \<in> set ss. distinct (map fst (slot_to_logical s))"
  shows "distinct (concat (map (\<lambda>s. map (\<lambda>(p, l). (os_component_id s, os_output_block_id s, p))
      (slot_to_logical s)) ss))"
  using assms
proof (induction ss)
  case Nil
  then show ?case by simp
next
  case (Cons s ss)
  have "distinct (map (\<lambda>(p, l). (c, b, p)) xs)" if "distinct (map fst xs)"
    for c b :: string and xs :: "(int \<times> int) list"
    using that by (induction xs) force+
  then have "distinct (map (\<lambda>(p, l). (os_component_id s, os_output_block_id s, p)) (slot_to_logical s))"
    using Cons.prems by (simp add: split_beta)
  moreover have "distinct (concat (map (\<lambda>s. map (\<lambda>(p, l).
      (os_component_id s, os_output_block_id s, p)) (slot_to_logical s)) ss))"
    using Cons.prems by (intro Cons.IH) simp_all
  moreover have "share_id s \<noteq> share_id s'" if "s' \<in> set ss" for s'
    using Cons.prems(1) that by auto
  ultimately show ?case by (auto simp del: distinct_concat)
qed

lemma distinct_plan_lanes:
  assumes "plan_ok plan"
  shows "distinct (map snd (plan_lanes plan))"
proof -
  have "map snd (plan_lanes plan) = concat (map (\<lambda>s. map (\<lambda>(p, l).
      (os_component_id s, os_output_block_id s, p)) (slot_to_logical s)) (shares plan))"
    by (auto simp: plan_lanes_def map_concat split_beta comp_def
        intro!: arg_cong [where f = concat] map_cong)
  then show ?thesis
    using assms distinct_lanes_of_shares [of "shares plan"] by (auto simp: plan_ok_def share_ok_def)
qed

lemma distinct_row_lanes: "plan_ok plan \<Longrightarrow> distinct (row_lanes plan r)"
  using distinct_plan_lanes [of plan] by (simp add: row_lanes_def distinct_map_filter)

lemma row_lanes_disjoint:
  assumes "plan_ok plan" and "x \<in> set (row_lanes plan r)" and "x \<in> set (row_lanes plan r')"
  shows "r = r'"
proof -
  from assms have "(r, x) \<in> set (plan_lanes plan)" "(r', x) \<in> set (plan_lanes plan)"
    by (auto simp: row_lanes_def)
  then show ?thesis using distinct_plan_lanes [OF assms(1)]
    by (metis distinct_map inj_on_def snd_conv fst_conv)
qed

lemma row_lanes_slot:
  "plan_ok plan \<Longrightarrow> (c, b, p) \<in> set (row_lanes plan r) \<Longrightarrow> 0 \<le> p \<and> p < op_slot_count plan"
  by (fastforce simp: row_lanes_def plan_lanes_mem plan_ok_def share_ok_def)

section \<open>The masks\<close>

text \<open>The mask value of a lane; a share without a mask counts as zero.\<close>

definition lane_value :: "(string \<times> string, int list) dict \<Rightarrow> lane \<Rightarrow> int" where
  "lane_value vals = (\<lambda>(c, b, p). case map_of vals (c, b) of None \<Rightarrow> 0 | Some vs \<Rightarrow> vs ! nat p)"

definition vals_ok :: "int \<Rightarrow> int \<Rightarrow> (string \<times> string, int list) dict \<Rightarrow> bool" where
  "vals_ok slots t vals \<longleftrightarrow> dict_ok vals \<and>
     (\<forall>i vs. map_of vals i = Some vs \<longrightarrow> length vs = nat slots \<and> (\<forall>x \<in> set vs. 0 \<le> x \<and> x < t))"

abbreviation lane_in :: "int \<Rightarrow> lane \<Rightarrow> bool" where
  "lane_in slots x \<equiv> 0 \<le> snd (snd x) \<and> snd (snd x) < slots"

lemma vals_ok_store:
  assumes "vals_ok slots t vals" and "0 \<le> v" "v < t"
  shows "vals_ok slots t (store_lane slots vals (x, v))"
  using assms set_update_subset_insert
  by (fastforce simp: vals_ok_def store_lane_def map_of_update dict_get_def
      split: prod.splits option.splits if_splits)

lemma lane_value_store:
  assumes "vals_ok slots t vals" and "lane_in slots x" and "lane_in slots y"
  shows "lane_value (store_lane slots vals (x, v)) y = (if y = x then v else lane_value vals y)"
proof -
  obtain c b p where x: "x = (c, b, p)" by (cases x)
  obtain c' b' p' where y: "y = (c', b', p')" by (cases y)
  show ?thesis
    using assms by (auto simp: x y lane_value_def store_lane_def map_of_update dict_get_def
        vals_ok_def nth_list_update split: option.splits)
qed

lemma keys_store:
  "fst ` set (store_lane slots vals xv) = insert (lane_share (fst xv)) (fst ` set vals)"
  by (simp add: store_lane_def dict_keys_update split_beta)

definition store_lanes ::
  "int \<Rightarrow> (string \<times> string, int list) dict \<Rightarrow> (lane \<times> int) list \<Rightarrow> (string \<times> string, int list) dict"
where
  "store_lanes slots = foldl (store_lane slots)"

lemma store_lanes_ok:
  "vals_ok slots t vals \<Longrightarrow> \<forall>(x, v) \<in> set xvs. 0 \<le> v \<and> v < t \<Longrightarrow>
     vals_ok slots t (store_lanes slots vals xvs)"
  by (induction xvs arbitrary: vals) (auto simp: store_lanes_def vals_ok_store)

lemma store_lanes_keys:
  "fst ` set (store_lanes slots vals xvs) = fst ` set vals \<union> (\<lambda>xv. lane_share (fst xv)) ` set xvs"
  by (induction xvs arbitrary: vals) (simp_all add: store_lanes_def keys_store)

lemma store_lanes_value:
  assumes "vals_ok slots t vals" and "\<forall>(x, v) \<in> set xvs. lane_in slots x \<and> 0 \<le> v \<and> v < t"
    and "distinct (map fst xvs)" and "lane_in slots y"
  shows "lane_value (store_lanes slots vals xvs) y =
     (case map_of xvs y of None \<Rightarrow> lane_value vals y | Some v \<Rightarrow> v)"
  using assms
proof (induction xvs arbitrary: vals)
  case Nil
  then show ?case by (simp add: store_lanes_def)
next
  case (Cons xv xvs)
  obtain x v where xv: "xv = (x, v)" by (cases xv)
  have ok: "vals_ok slots t (store_lane slots vals (x, v))"
    using Cons.prems by (intro vals_ok_store) (auto simp: xv)
  have "lane_value (store_lanes slots vals (xv # xvs)) y =
      (case map_of xvs y of None \<Rightarrow> lane_value (store_lane slots vals (x, v)) y | Some v \<Rightarrow> v)"
    using Cons.IH [OF ok] Cons.prems by (simp add: store_lanes_def xv)
  moreover have "lane_value (store_lane slots vals (x, v)) y =
      (if y = x then v else lane_value vals y)"
    using Cons.prems by (intro lane_value_store [of slots t]) (auto simp: xv)
  moreover have "map_of xvs x = None" using Cons.prems(3) by (simp add: xv map_of_eq_None_iff)
  ultimately show ?case by (auto simp: xv split: option.splits)
qed

lemma draw_samples_Inr:
  "draw_samples rng t n i = Inr (rs, j) \<Longrightarrow> length rs = n \<and> (\<forall>x \<in> set rs. 0 \<le> x \<and> x < t)"
  by (induction n arbitrary: i rs) (auto simp: rbind_eq_Inr split: if_splits)

text \<open>One coordinate: its lanes get values in the ring with sum zero.\<close>

lemma mask_coordinate_Inr:
  assumes "mask_coordinate rng t slots contributors (vals, i) r = Inr (vals', j)"
    and "1 < length (dict_get contributors r [])" and "0 < t"
  obtains vs where "length vs = length (dict_get contributors r [])"
    and "\<forall>v \<in> set vs. 0 \<le> v \<and> v < t" and "sum_list vs mod t = 0"
    and "vals' = store_lanes slots vals (zip (sort (dict_get contributors r [])) vs)"
proof -
  let ?lanes = "sort (dict_get contributors r [])"
  have "length ?lanes \<noteq> 1" using assms(2) by simp
  then obtain rs where rs: "draw_samples rng t (length ?lanes - 1) i = Inr (rs, j)"
    and vals': "vals' = store_lanes slots vals (zip ?lanes (rs @ [(- sum_list rs) mod t]))"
    using assms(1) by (auto simp: mask_coordinate_def Let_def rbind_eq_Inr store_lanes_def)
  show thesis
  proof (rule that [OF _ _ _ vals'])
    show "length (rs @ [(- sum_list rs) mod t]) = length (dict_get contributors r [])"
      using draw_samples_Inr [OF rs] assms(2) by simp
    show "\<forall>v \<in> set (rs @ [(- sum_list rs) mod t]). 0 \<le> v \<and> v < t"
      using draw_samples_Inr [OF rs] \<open>0 < t\<close> by auto
    show "sum_list (rs @ [(- sum_list rs) mod t]) mod t = 0"
      by (simp add: mod_simps)
  qed
qed

lemma sum_list_sort: "sum_list (map f (sort xs)) = sum_list (map f xs)"
  for f :: "'a::linorder \<Rightarrow> int"
  by (metis mset_map mset_sort sum_mset_sum_list)

lemma store_lanes_sum:
  assumes "vals_ok slots t vals" and "\<forall>x \<in> set xs. lane_in slots x" and "distinct xs"
    and "length vs = length xs" and "\<forall>v \<in> set vs. 0 \<le> v \<and> v < t"
  shows "sum_list (map (lane_value (store_lanes slots vals (zip (sort xs) vs))) xs) = sum_list vs"
proof -
  have *: "\<forall>(x, v) \<in> set (zip (sort xs) vs). lane_in slots x \<and> 0 \<le> v \<and> v < t"
    using assms(2,5) by (fastforce dest: set_zip_leftD set_zip_rightD)
  have "map (lane_value (store_lanes slots vals (zip (sort xs) vs))) (sort xs) = vs"
  proof (rule nth_equalityI)
    fix i assume "i < length (map (lane_value (store_lanes slots vals (zip (sort xs) vs))) (sort xs))"
    then have i: "i < length xs" by simp
    then have "sort xs ! i \<in> set xs" by (metis length_sort nth_mem set_sort)
    moreover have "map_of (zip (sort xs) vs) (sort xs ! i) = Some (vs ! i)"
      using i assms by (intro map_of_zip_nth) auto
    ultimately show "map (lane_value (store_lanes slots vals (zip (sort xs) vs))) (sort xs) ! i = vs ! i"
      using store_lanes_value [OF assms(1) *, of "sort xs ! i"] assms i by simp
  qed (use assms in simp)
  then show ?thesis by (metis sum_list_sort)
qed

text \<open>The invariant of the loop over the rows, for the rows visited.\<close>

definition masks_inv ::
  "output_plan \<Rightarrow> int \<Rightarrow> int list \<Rightarrow> (string \<times> string, int list) dict \<Rightarrow> bool"
where
  "masks_inv plan t visited vals \<longleftrightarrow>
     vals_ok (op_slot_count plan) t vals \<and>
     (\<forall>r \<in> set visited. (\<Sum>x \<leftarrow> row_lanes plan r. lane_value vals x) mod t = 0) \<and>
     (\<forall>x. lane_in (op_slot_count plan) x \<and>
          (\<forall>r \<in> set visited. x \<in> set (row_lanes plan r) \<longrightarrow> length (row_lanes plan r) \<le> 1) \<longrightarrow>
          lane_value vals x = 0) \<and>
     fst ` set vals = (\<Union>r \<in> {r \<in> set visited. 1 < length (row_lanes plan r)}.
       lane_share ` set (row_lanes plan r))"

lemma masks_inv_zero:
  assumes "masks_inv plan t visited vals" and "lane_in (op_slot_count plan) x"
    and "\<forall>r \<in> set visited. x \<in> set (row_lanes plan r) \<longrightarrow> length (row_lanes plan r) \<le> 1"
  shows "lane_value vals x = 0"
  using assms unfolding masks_inv_def by blast

lemma masks_inv_step:
  assumes ok: "plan_ok plan" and "0 < t" and inv: "masks_inv plan t visited vals"
    and step: "mask_coordinate rng t (op_slot_count plan) (contributors_of plan) (vals, i) r =
      Inr (vals', j)"
    and new: "r \<notin> set visited" and row: "row_lanes plan r \<noteq> []"
  shows "masks_inv plan t (visited @ [r]) vals'"
proof -
  let ?L = "row_lanes plan r" and ?slots = "op_slot_count plan"
  have lanes_in: "\<forall>x \<in> set (row_lanes plan r'). lane_in ?slots x" for r'
    using row_lanes_slot [OF ok] by auto
  have fresh: "x \<notin> set (row_lanes plan r')" if "x \<in> set ?L" "r' \<in> set visited" for x r'
    using row_lanes_disjoint [OF ok] that new by blast
  have v: "vals_ok ?slots t vals" using inv by (simp add: masks_inv_def)
  show ?thesis
  proof (cases "length ?L = 1")
    case True
    then have [simp]: "vals' = vals" using step by (simp add: mask_coordinate_def)
    obtain x where x: "?L = [x]" using True by (metis length_Suc_conv length_0_conv One_nat_def)
    have "lane_value vals x = 0"
      using inv fresh [of x] lanes_in [of r] x by (cases x) (auto simp: masks_inv_def)
    moreover have "{r' \<in> set (visited @ [r]). 1 < length (row_lanes plan r')} =
        {r' \<in> set visited. 1 < length (row_lanes plan r')}"
      using True by auto
    ultimately show ?thesis
      using inv x unfolding masks_inv_def by (simp del: split_paired_All)
  next
    case False
    with row have gt: "1 < length ?L" by (cases ?L) auto
    then obtain vs where vs: "length vs = length ?L" "\<forall>v \<in> set vs. 0 \<le> v \<and> v < t"
        "sum_list vs mod t = 0" and vals': "vals' = store_lanes ?slots vals (zip (sort ?L) vs)"
      using mask_coordinate_Inr [OF step] \<open>0 < t\<close> by (auto simp: contributors_get)
    have zip_ok: "\<forall>(x, v) \<in> set (zip (sort ?L) vs). lane_in ?slots x \<and> 0 \<le> v \<and> v < t"
      using lanes_in [of r] vs(2) by (fastforce dest: set_zip_leftD set_zip_rightD)
    have keep: "lane_value vals' x = lane_value vals x" if "x \<notin> set ?L" "lane_in ?slots x" for x
      using store_lanes_value [OF v zip_ok _ that(2)] that(1) vs(1) distinct_row_lanes [OF ok]
      by (simp add: vals' map_of_zip_is_None [THEN iffD2])
    have "vals_ok ?slots t vals'"
      unfolding vals' by (rule store_lanes_ok [OF v]) (use zip_ok in auto)
    moreover have "(\<Sum>x \<leftarrow> ?L. lane_value vals' x) mod t = 0"
      using store_lanes_sum [OF v lanes_in distinct_row_lanes [OF ok] vs(1,2)] vs(3)
      by (simp add: vals')
    moreover have "(\<Sum>x \<leftarrow> row_lanes plan r'. lane_value vals' x) mod t = 0"
      if "r' \<in> set visited" for r'
    proof -
      have "map (lane_value vals') (row_lanes plan r') = map (lane_value vals) (row_lanes plan r')"
        using keep fresh [OF _ that] lanes_in [of r'] by (intro map_cong) blast+
      then show ?thesis using inv that by (simp add: masks_inv_def del: map_eq_conv)
    qed
    moreover have "lane_value vals' x = 0"
      if "lane_in ?slots x" "\<forall>r' \<in> set (visited @ [r]). x \<in> set (row_lanes plan r') \<longrightarrow>
        length (row_lanes plan r') \<le> 1" for x
      using keep [OF _ that(1)] that masks_inv_zero [OF inv that(1)] gt by auto
    moreover have "fst ` set vals' = fst ` set vals \<union> lane_share ` set ?L"
    proof -
      have "(\<lambda>xv. lane_share (fst xv)) ` set (zip (sort ?L) vs) =
          lane_share ` set (map fst (zip (sort ?L) vs))"
        by (auto simp: image_image)
      also have "\<dots> = lane_share ` set ?L" using vs(1) by simp
      finally show ?thesis by (simp add: vals' store_lanes_keys)
    qed
    then have "fst ` set vals' = (\<Union>r' \<in> {r' \<in> set (visited @ [r]). 1 < length (row_lanes plan r')}.
        lane_share ` set (row_lanes plan r'))"
      using inv gt by (auto simp: masks_inv_def)
    ultimately show ?thesis unfolding masks_inv_def by auto
  qed
qed

text \<open>The masks as the function returns them, read by share.\<close>

definition masks_dict :: "prepared_mask list \<Rightarrow> (string \<times> string, int list) dict" where
  "masks_dict ms = map (\<lambda>m. ((pm_component_id m, pm_output_block_id m), pm_values m)) ms"

definition masks_ok :: "output_plan \<Rightarrow> int \<Rightarrow> prepared_mask list \<Rightarrow> bool" where
  "masks_ok plan t ms \<longleftrightarrow> masks_inv plan t (sort (map fst (contributors_of plan))) (masks_dict ms)"

lemma mask_loop_inv:
  assumes ok: "plan_ok plan" and "0 < t"
    and "rfold (mask_coordinate rng t (op_slot_count plan) (contributors_of plan)) ([], 0)
      (sort (map fst (contributors_of plan))) = Inr (vals, i)"
  shows "masks_inv plan t (sort (map fst (contributors_of plan))) vals"
proof -
  let ?f = "mask_coordinate rng t (op_slot_count plan) (contributors_of plan)"
  let ?rs = "sort (map fst (contributors_of plan))"
  have "distinct ?rs" using contributors_ok [of plan] by (simp add: dict_ok_def)
  have "(\<lambda>visited (vals, _ :: nat). masks_inv plan t visited vals) ?rs (vals, i)"
  proof (rule rfold_prefix_invariant [OF assms(3)])
    show "case ([], 0) of (vals, _ :: nat) \<Rightarrow> masks_inv plan t [] vals"
      by (simp add: masks_inv_def vals_ok_def lane_value_def)
  next
    fix ys x zs and s t' :: "(string \<times> string, int list) dict \<times> nat"
    assume rs: "?rs = ys @ x # zs" and inv: "case s of (vals, _) \<Rightarrow> masks_inv plan t ys vals"
      and step: "?f s x = Inr t'"
    have "x \<in> set ?rs" by (simp add: rs)
    then have "x \<in> set (logical_rows plan)" by (simp add: contributors_keys)
    then have row: "row_lanes plan x \<noteq> []"
      by (auto simp: row_lanes_def filter_empty_conv simp flip: rows_of_plan_lanes)
    have "x \<notin> set ys" using \<open>distinct ?rs\<close> by (simp add: rs)
    with step inv row show "case t' of (vals, _) \<Rightarrow> masks_inv plan t (ys @ [x]) vals"
      by (cases s; cases t') (auto intro: masks_inv_step [OF ok \<open>0 < t\<close>])
  qed
  then show ?thesis by simp
qed

lemma masks_inv_cong:
  assumes "masks_inv plan t visited vals" and "dict_ok vals'" and "map_of vals' = map_of vals"
  shows "masks_inv plan t visited vals'"
proof -
  have "lane_value vals' = lane_value vals" using assms(3) by (simp add: lane_value_def fun_eq_iff)
  moreover have "fst ` set vals' = fst ` set vals"
    using assms(3) by (metis dom_map_of_conv_image_fst)
  ultimately show ?thesis
    using assms unfolding masks_inv_def vals_ok_def by simp
qed

lemma overlap_union:
  "(\<Union>r \<in> {r \<in> set (sort (map fst (contributors_of plan))). 1 < length (row_lanes plan r)}.
     lane_share ` set (row_lanes plan r)) = overlap_ids plan"
proof -
  have "row_lanes plan r = []" if "r \<notin> set (sort (map fst (contributors_of plan)))" for r
    using that by (intro row_lanes_empty) (simp add: contributors_keys)
  then have "{r \<in> set (sort (map fst (contributors_of plan))). 1 < length (row_lanes plan r)} =
      {r. 1 < length (row_lanes plan r)}"
    by (metis (no_types, lifting) list.size(3) not_less_zero)
  then show ?thesis by (simp add: overlap_ids_def)
qed

lemma sorted_lists_eq:
  "sorted xs \<Longrightarrow> sorted ys \<Longrightarrow> distinct xs \<Longrightarrow> distinct ys \<Longrightarrow> set xs = set ys \<Longrightarrow> xs = ys"
  by (rule sorted_distinct_set_unique)

text \<open>Everything a successful preparation establishes.\<close>

lemma prepare_f1m_masks_Inr:
  assumes "prepare_f1m_masks rng reserve plan q v t l = (Inr ms, l')"
  shows "plan_ok plan" and "2 \<le> t" and "masks_ok plan t ms"
    and "reserve (map pm_binding ms) l = Inr l'"
    and "distinct (map pm_binding ms)"
    and "(\<lambda>m. (pm_component_id m, pm_output_block_id m)) ` set ms = overlap_ids plan"
    and "\<forall>m \<in> set ms. pm_query_id m = q \<and> pm_version_id m = v"
    and "\<exists>a. analyze_output_plan plan = Inr a \<and>
      (\<forall>m \<in> set ms. pm_output_plan_digest m = oa_output_plan_digest a)"
proof -
  let ?ids = "masked_share_ids_of (contributors_of plan)"
  from assms obtain a vals i where a: "analyze_output_plan plan = Inr a"
      and t: "2 \<le> t"
      and res: "reserve (map (\<lambda>(c, b). (q, v, oa_output_plan_digest a, c, b)) ?ids) l = Inr l'"
      and loop: "rfold (mask_coordinate rng t (op_slot_count plan) (contributors_of plan)) ([], 0)
        (sort (map fst (contributors_of plan))) = Inr (vals, i)"
      and ms: "ms = map (\<lambda>(c, b). \<lparr>pm_query_id = q, pm_version_id = v,
        pm_output_plan_digest = oa_output_plan_digest a, pm_component_id = c,
        pm_output_block_id = b, pm_values = dict_get vals (c, b) []\<rparr>) (sort (map fst vals))"
    by (auto simp: prepare_f1m_masks_def sbind_Inr rbind_eq_Inr Let_def split: if_splits)
  from a show ok: "plan_ok plan" by (rule analyze_plan_ok)
  from t show "2 \<le> t" .
  have inv: "masks_inv plan t (sort (map fst (contributors_of plan))) vals"
    using mask_loop_inv [OF ok _ loop] t by simp
  then have dict: "dict_ok vals" by (simp add: masks_inv_def vals_ok_def)
  have keys: "fst ` set vals = overlap_ids plan"
    using inv unfolding masks_inv_def overlap_union by simp
  have "sorted ?ids" and "distinct ?ids" by (simp_all add: masked_share_ids_of_def)
  then have ids: "sort (map fst vals) = ?ids"
    using dict keys set_masked_share_ids [of plan]
    by (intro sorted_lists_eq) (simp_all add: dict_ok_def)
  have bind: "map pm_binding ms = map (\<lambda>(c, b). (q, v, oa_output_plan_digest a, c, b)) ?ids"
    by (simp add: ms ids pm_binding_def split_beta)
  then show "reserve (map pm_binding ms) l = Inr l'" using res by simp
  show "distinct (map pm_binding ms)"
    unfolding bind using \<open>distinct ?ids\<close> by (auto simp: distinct_map inj_on_def)
  have md: "masks_dict ms = map (\<lambda>i. (i, dict_get vals i [])) (sort (map fst vals))"
    by (simp add: masks_dict_def ms split_beta)
  have "map fst (masks_dict ms) = sort (map fst vals)" by (simp add: md comp_def)
  then have dict': "dict_ok (masks_dict ms)" using dict by (simp add: dict_ok_def)
  have "map_of (masks_dict ms) k = map_of vals k" for k
  proof (cases "map_of vals k")
    case None
    then have "k \<notin> set (sort (map fst vals))" by (auto simp: map_of_eq_None_iff)
    then show ?thesis using None by (simp add: md map_of_map_restrict restrict_map_def)
  next
    case (Some w)
    then have "k \<in> set (sort (map fst vals))" by (force dest: map_of_SomeD)
    then show ?thesis using Some by (simp add: md map_of_map_restrict dict_get_def)
  qed
  then have "map_of (masks_dict ms) = map_of vals" by (rule ext)
  then show "masks_ok plan t ms"
    using masks_inv_cong [OF inv dict'] by (simp add: masks_ok_def)
  show "(\<lambda>m. (pm_component_id m, pm_output_block_id m)) ` set ms = overlap_ids plan"
    using keys by (simp add: ms image_image split_beta)
  show "\<forall>m \<in> set ms. pm_query_id m = q \<and> pm_version_id m = v" by (auto simp: ms)
  show "\<exists>a. analyze_output_plan plan = Inr a \<and>
      (\<forall>m \<in> set ms. pm_output_plan_digest m = oa_output_plan_digest a)"
    using a by (auto simp: ms)
qed

text \<open>A failed preparation leaves the ledger alone, or with the reservation it made.\<close>

lemma prepare_f1m_masks_Inl:
  assumes "prepare_f1m_masks rng reserve plan q v t l = (Inl e, l')"
  shows "l' = l \<or> (\<exists>a. analyze_output_plan plan = Inr a \<and> reserve
    (map (\<lambda>(c, b). (q, v, oa_output_plan_digest a, c, b)) (masked_share_ids_of (contributors_of plan)))
    l = Inr l')"
  using assms
  by (auto simp: prepare_f1m_masks_def sbind_Inl sbind_Inr Let_def split: if_splits)

text \<open>It succeeds whenever the plan is well formed, the ledger accepts, and samples are in range.\<close>

lemma draw_samples_total:
  "\<forall>i. 0 \<le> rng i \<and> rng i < t \<Longrightarrow> \<exists>rs j. draw_samples rng t n i = Inr (rs, j)"
proof (induction n arbitrary: i)
  case 0
  then show ?case by simp
next
  case (Suc n)
  then obtain rs j where "draw_samples rng t n (Suc i) = Inr (rs, j)" by blast
  then show ?case using Suc.prems by simp
qed

lemma mask_coordinate_total:
  assumes "\<forall>i. 0 \<le> rng i \<and> rng i < t"
  shows "\<exists>s'. mask_coordinate rng t slots contributors s r = Inr s'"
proof -
  obtain vals i where s: "s = (vals, i)" by (cases s)
  obtain rs j where "draw_samples rng t (length (sort (dict_get contributors r [])) - 1) i = Inr (rs, j)"
    using draw_samples_total [OF assms] by blast
  then show ?thesis by (simp add: s mask_coordinate_def Let_def)
qed

lemma prepare_f1m_masks_total:
  assumes "plan_ok plan" and "valid_id q" "valid_id v" and "2 \<le> t"
    and "\<forall>i. 0 \<le> rng i \<and> rng i < t"
    and "\<And>bs. distinct bs \<Longrightarrow> fst ` set bs \<subseteq> {q} \<Longrightarrow> \<exists>l'. reserve bs l = Inr l'"
  shows "\<exists>ms l'. prepare_f1m_masks rng reserve plan q v t l = (Inr ms, l')"
proof -
  obtain a where a: "analyze_output_plan plan = Inr a" using analyze_total [OF assms(1)] by blast
  obtain l' where l': "reserve (map (\<lambda>(c, b). (q, v, oa_output_plan_digest a, c, b))
      (masked_share_ids_of (contributors_of plan))) l = Inr l'"
  proof -
    let ?bs = "map (\<lambda>(c, b). (q, v, oa_output_plan_digest a, c, b)) (masked_share_ids_of (contributors_of plan))"
    have "distinct ?bs" "fst ` set ?bs \<subseteq> {q}"
      by (auto simp: distinct_map inj_on_def masked_share_ids_of_def)
    then have "\<exists>l'. reserve ?bs l = Inr l'" by (rule assms(6))
    then show ?thesis using that by blast
  qed
  obtain s where s: "rfold (mask_coordinate rng t (op_slot_count plan) (contributors_of plan)) ([], 0)
      (sort (map fst (contributors_of plan))) = Inr s"
    using rfold_Inr_total [where P = "\<lambda>_. True"] mask_coordinate_total [OF assms(5)] by metis
  obtain vals i where "s = (vals, i)" by (cases s)
  then show ?thesis using assms a l' s
    by (auto simp: prepare_f1m_masks_def sbind_Inr Let_def)
qed

section \<open>Accounting\<close>

definition shared_rows :: "output_plan \<Rightarrow> int set" where
  "shared_rows plan = {r. 1 < count_list (logical_rows plan) r}"

lemma overlapping_counter:
  "distinct (overlapping (counter_of xs))" "set (overlapping (counter_of xs)) = {r. 1 < count_list xs r}"
proof -
  show "distinct (overlapping (counter_of xs))"
    using dict_ok_counter [of xs] by (simp add: overlapping_def dict_ok_def distinct_map_filter)
  have "r \<in> set (overlapping (counter_of xs)) \<longleftrightarrow> 1 < count_list xs r" for r
  proof
    assume "r \<in> set (overlapping (counter_of xs))"
    then show "1 < count_list xs r" by (force simp: overlapping_def dest: counter_item(1))
  next
    assume r: "1 < count_list xs r"
    then have "r \<in> set xs" by (metis count_notin not_less_zero)
    then have "r \<in> fst ` set (counter_of xs)" by simp
    then obtain c where c: "(r, c) \<in> set (counter_of xs)" unfolding image_iff by force
    then have "1 < c" using r counter_item(1) [OF c] by simp
    with c show "r \<in> set (overlapping (counter_of xs))" by (force simp: overlapping_def)
  qed
  then show "set (overlapping (counter_of xs)) = {r. 1 < count_list xs r}" by auto
qed

text \<open>The shares that map a shared row, as the analysis and the compiler compute them.\<close>

lemma overlap_ids_of_shares:
  "overlap_ids plan = share_id ` {s \<in> set (shares plan). \<exists>(_, l) \<in> set (slot_to_logical s). l \<in> shared_rows plan}"
proof (intro set_eqI iffI)
  fix i assume "i \<in> overlap_ids plan"
  then obtain r x where r: "1 < length (row_lanes plan r)" and x: "x \<in> set (row_lanes plan r)" "i = lane_share x"
    by (auto simp: overlap_ids_def)
  obtain c b q where xx: "x = (c, b, q)" by (cases x)
  from x(1) obtain s where "s \<in> set (shares plan)" "share_id s = (c, b)" "(q, r) \<in> set (slot_to_logical s)"
    by (auto simp: row_lanes_def plan_lanes_mem xx)
  then show "i \<in> share_id ` {s \<in> set (shares plan). \<exists>(_, l) \<in> set (slot_to_logical s). l \<in> shared_rows plan}"
    using r x(2) by (force simp: xx shared_rows_def length_row_lanes)
next
  fix i assume "i \<in> share_id ` {s \<in> set (shares plan). \<exists>(_, l) \<in> set (slot_to_logical s). l \<in> shared_rows plan}"
  then obtain s q l where s: "s \<in> set (shares plan)" "i = share_id s" "(q, l) \<in> set (slot_to_logical s)"
      "l \<in> shared_rows plan" by auto
  then have "(l, os_component_id s, os_output_block_id s, q) \<in> set (plan_lanes plan)"
    by (auto simp: plan_lanes_mem)
  then have "(os_component_id s, os_output_block_id s, q) \<in> set (row_lanes plan l)"
    by (force simp: row_lanes_def)
  then show "i \<in> overlap_ids plan"
    using s(2,4) by (force simp: overlap_ids_def shared_rows_def length_row_lanes)
qed

lemma finite_shared_rows [simp]: "finite (shared_rows plan)"
proof (rule finite_subset)
  show "shared_rows plan \<subseteq> set (logical_rows plan)"
    unfolding shared_rows_def by (auto intro: ccontr simp: count_notin)
qed simp

lemma sum_overlapping:
  "(\<Sum>c \<leftarrow> overlapping (counter_of xs). f c) = (\<Sum>c \<in> {r. 1 < count_list xs r}. f c)"
  using overlapping_counter [of xs] by (simp add: sum_list_distinct_conv_sum_set)

text \<open>
  C39. The analysis of an output plan accepts exactly the well-formed plans, and its counters are
  the true ones: lanes, rows without a lane, rows with several lanes, the additions and the mask
  elements those rows cost, and the shares that need a mask.
\<close>

theorem output_plan_accounting:
  "case analyze_output_plan plan of
     Inl e \<Rightarrow> \<not> plan_ok plan
   | Inr a \<Rightarrow> plan_ok plan \<and>
       client_reorder_elements a = int (length (logical_rows plan)) \<and>
       client_modular_additions a = int (length (logical_rows plan)) - int (card (set (logical_rows plan))) \<and>
       implicit_zero_coordinates a = logical_output_size plan - int (card (set (logical_rows plan))) \<and>
       result_ciphertexts a = int (length (shares plan)) \<and>
       masked_result_ciphertexts a = int (card (overlap_ids plan)) \<and>
       overlap_coordinates a = int (card (shared_rows plan)) \<and>
       mask_mapped_elements a = (\<Sum>r \<in> shared_rows plan. int (length (row_lanes plan r))) \<and>
       mask_random_elements a = mask_mapped_elements a - overlap_coordinates a \<and>
       (reconstruction_mode a = Concatenate \<longleftrightarrow> shared_rows plan = {})"
proof (cases "plan_ok plan")
  case False
  then show ?thesis by (auto split: sum.split dest: analyze_plan_ok)
next
  case True
  let ?rows = "logical_rows plan" and ?m = "counter_of (logical_rows plan)"
  have rows: "set (overlapping ?m) = shared_rows plan" "length (overlapping ?m) = card (shared_rows plan)"
    using overlapping_counter [of ?rows] distinct_card [of "overlapping ?m"]
    by (simp_all add: shared_rows_def)
  then have empty: "overlapping ?m = [] \<longleftrightarrow> shared_rows plan = {}" by auto
  have total: "(\<Sum>k \<in> set ?rows. int (count_list ?rows k)) = int (length ?rows)"
    by (simp flip: sum_count_set [OF subset_refl])
  have sums: "(\<Sum>(_, c) \<leftarrow> ?m. c) = int (length ?rows)"
      "(\<Sum>(_, c) \<leftarrow> ?m. c - 1) = int (length ?rows) - int (card (set ?rows))"
    using sum_counter [of "\<lambda>_ c. c" ?rows] sum_counter [of "\<lambda>_ c. c - 1" ?rows] total
    by (simp_all add: sum_subtractf)
  let ?ids = "map share_id (filter (\<lambda>s. \<exists>(_, l) \<in> set (slot_to_logical s). l \<in> set (overlapping ?m)) (shares plan))"
  have "set ?ids = overlap_ids plan"
    unfolding rows overlap_ids_of_shares by auto
  then have masked: "length (remdups ?ids) = card (overlap_ids plan)"
    by (simp add: length_remdups_card_conv)
  have mask: "(\<Sum>c \<leftarrow> overlapping ?m. int (count_list ?rows c)) = (\<Sum>r \<in> shared_rows plan. int (length (row_lanes plan r)))"
    "(\<Sum>c \<leftarrow> overlapping ?m. int (count_list ?rows c) - 1) =
       (\<Sum>r \<in> shared_rows plan. int (length (row_lanes plan r))) - int (card (shared_rows plan))"
    by (simp_all add: sum_overlapping shared_rows_def length_row_lanes sum_subtractf)
  obtain a where a: "analyze_output_plan plan = Inr a" using analyze_total [OF True] by blast
  have fields: "client_reorder_elements a = (\<Sum>(_, c) \<leftarrow> ?m. c)"
      "client_modular_additions a = (\<Sum>(_, c) \<leftarrow> ?m. c - 1)"
      "implicit_zero_coordinates a = logical_output_size plan - int (length ?m)"
      "result_ciphertexts a = int (length (shares plan))"
      "masked_result_ciphertexts a = int (length (remdups ?ids))"
      "overlap_coordinates a = int (length (overlapping ?m))"
      "mask_mapped_elements a = (\<Sum>c \<leftarrow> overlapping ?m. int (count_list ?rows c))"
      "mask_random_elements a = (\<Sum>c \<leftarrow> overlapping ?m. int (count_list ?rows c) - 1)"
      "reconstruction_mode a = (if overlapping ?m \<noteq> [] then CoordinateSum else Concatenate)"
    using a True by (auto simp: analyze_output_plan_def canonical_output_plan_payload_def
        validate_output_plan_ok Let_def simp del: dumps.simps)
  show ?thesis
    unfolding a sum.case fields masked
    unfolding sums mask rows length_counter using True empty by simp
qed

text \<open>A plan in which two shares meet on row 0.\<close>

definition sample_plan :: output_plan where
  "sample_plan = \<lparr>logical_output_size = 2, op_slot_count = 2, shares =
     [\<lparr>os_component_id = ''a'', os_output_block_id = ''a-h000000'', slot_to_logical = [(0, 0), (1, 1)]\<rparr>,
      \<lparr>os_component_id = ''b'', os_output_block_id = ''b-h000000'', slot_to_logical = [(0, 0)]\<rparr>]\<rparr>"

lemma sample_plan_ok: "plan_ok sample_plan"
  by (simp add: sample_plan_def plan_ok_def share_ok_def valid_id_def id_char_def)

end
