(* ===== verification/Oracle_Facts.thy ===== *)
theory Oracle_Facts
  imports Plaintext_Oracle Output_Plan_Facts
begin

text \<open>
  \<open>plaintext_oracle.py\<close>, the two ends of a query: what the direct product computes and when
  it fails, what reconstruction computes from the returned shares, and that masks which sum
  to zero on every row do not change the reconstruction.
\<close>

section \<open>Accumulation by row\<close>

definition row_total :: "(int \<times> int) list \<Rightarrow> int \<Rightarrow> int" where
  "row_total xs r = sum_list (map snd (filter (\<lambda>x. fst x = r) xs))"

lemma row_total_Nil [simp]: "row_total [] r = 0"
  by (simp add: row_total_def)

lemma row_total_Cons [simp]:
  "row_total (x # xs) r = (if fst x = r then snd x else 0) + row_total xs r"
  by (simp add: row_total_def)

lemma row_total_append [simp]: "row_total (xs @ ys) r = row_total xs r + row_total ys r"
  by (simp add: row_total_def)

lemma row_total_concat: "row_total (concat xss) r = (\<Sum>xs \<leftarrow> xss. row_total xs r)"
  by (induction xss) simp_all

lemma row_total_mset: "mset xs = mset ys \<Longrightarrow> row_total xs r = row_total ys r"
proof -
  assume "mset xs = mset ys"
  then have "mset (map snd (filter (\<lambda>x. fst x = r) xs)) = mset (map snd (filter (\<lambda>x. fst x = r) ys))"
    by simp
  then show ?thesis unfolding row_total_def by (metis sum_mset_sum_list)
qed

definition accumulate :: "int \<Rightarrow> int list \<Rightarrow> int \<times> int \<Rightarrow> int list" where
  "accumulate t res = (\<lambda>(r, v). res[nat r := (res ! nat r + v) mod t])"

lemma accumulate_fold:
  assumes "0 < t" and "\<forall>x \<in> set xs. 0 \<le> fst x \<and> fst x < int (length res)"
    and "\<forall>v \<in> set res. 0 \<le> v \<and> v < t"
  shows "foldl (accumulate t) res xs =
    map (\<lambda>i. (res ! i + row_total xs (int i)) mod t) [0..<length res]"
  using assms
proof (induction xs arbitrary: res)
  case Nil
  then have "map (\<lambda>i. (res ! i) mod t) [0..<length res] = map (\<lambda>i. res ! i) [0..<length res]"
    by (intro map_cong refl mod_pos_pos_trivial) auto
  then show ?case by (simp add: map_nth)
next
  case (Cons x xs)
  obtain r v where x: "x = (r, v)" by (cases x)
  have r: "0 \<le> r" "nat r < length res" using Cons.prems x by auto
  have len: "length (accumulate t res x) = length res" by (simp add: accumulate_def x)
  have bound: "\<forall>w \<in> set (accumulate t res x). 0 \<le> w \<and> w < t"
  proof
    fix w assume "w \<in> set (accumulate t res x)"
    then have "w = (res ! nat r + v) mod t \<or> w \<in> set res"
      using set_update_subset_insert by (fastforce simp: accumulate_def x)
    then show "0 \<le> w \<and> w < t"
      using Cons.prems(1,3) by (elim disjE) simp_all
  qed
  have "foldl (accumulate t) (accumulate t res x) xs =
      map (\<lambda>i. (accumulate t res x ! i + row_total xs (int i)) mod t) [0..<length res]"
    using Cons.IH [OF Cons.prems(1) _ bound] Cons.prems(2) by (simp add: len)
  also have "\<dots> = map (\<lambda>i. (res ! i + row_total (x # xs) (int i)) mod t) [0..<length res]"
  proof (rule map_cong [OF refl])
    fix i assume "i \<in> set [0..<length res]"
    then have i: "i < length res" by simp
    show "(accumulate t res x ! i + row_total xs (int i)) mod t =
        (res ! i + row_total (x # xs) (int i)) mod t"
    proof (cases "int i = r")
      case True
      then have "i = nat r" by simp
      then show ?thesis using i x r by (simp add: accumulate_def mod_simps ac_simps)
    next
      case False
      then have "nat r \<noteq> i" using r by auto
      then show ?thesis using i x False by (simp add: accumulate_def)
    qed
  qed
  finally show ?case by simp
qed

lemma accumulate_zeros:
  assumes "0 < t" and "\<forall>x \<in> set xs. 0 \<le> fst x \<and> fst x < n" and "0 \<le> n"
  shows "foldl (accumulate t) (replicate (nat n) 0) xs =
    map (\<lambda>r. row_total xs r mod t) (py_range 0 n)"
  using assms accumulate_fold [of t xs "replicate (nat n) 0"] by (simp add: py_range_def)

section \<open>The direct product\<close>

definition spmv_terms :: "(int \<times> int, int) dict \<Rightarrow> int list \<Rightarrow> (int \<times> int) list" where
  "spmv_terms m x = map (\<lambda>((r, c), v). (r, v * x ! nat c)) m"

definition matrix_ok :: "int \<Rightarrow> int \<Rightarrow> (int \<times> int, int) dict \<Rightarrow> bool" where
  "matrix_ok rows cols m \<longleftrightarrow>
     (\<forall>((r, c), v) \<in> set m. 0 \<le> r \<and> r < rows \<and> 0 \<le> c \<and> c < cols \<and> v \<noteq> 0)"

lemma spmv_step_eq:
  "spmv_step x rows cols t res ((r, c), v) = Inr res' \<longleftrightarrow>
     0 \<le> r \<and> r < rows \<and> 0 \<le> c \<and> c < cols \<and> v \<noteq> 0 \<and>
     res' = accumulate t res (r, v * x ! nat c)"
  by (auto simp: spmv_step_def accumulate_def)

lemma spmv_steps:
  "rfold (spmv_step x rows cols t) res m = Inr ys \<longleftrightarrow>
     matrix_ok rows cols m \<and> ys = foldl (accumulate t) res (spmv_terms m x)"
proof (induction m arbitrary: res)
  case Nil
  then show ?case by (auto simp: matrix_ok_def spmv_terms_def)
next
  case (Cons e m)
  obtain r c v where e: "e = ((r, c), v)" by (metis surj_pair)
  show ?case
    unfolding e rfold.simps rbind_eq_Inr spmv_step_eq Cons.IH
    by (auto simp: matrix_ok_def spmv_terms_def)
qed

lemma direct_spmv_eq:
  "direct_spmv m x rows cols t = Inr ys \<longleftrightarrow>
     0 < rows \<and> 0 < cols \<and> 2 \<le> t \<and> int (length x) = cols \<and> matrix_ok rows cols m \<and>
     ys = map (\<lambda>r. row_total (spmv_terms m x) r mod t) (py_range 0 rows)"
proof -
  have "foldl (accumulate t) (replicate (nat rows) 0) (spmv_terms m x) =
      map (\<lambda>r. row_total (spmv_terms m x) r mod t) (py_range 0 rows)"
    if "0 < rows" "2 \<le> t" "matrix_ok rows cols m"
    using that by (intro accumulate_zeros) (auto simp: spmv_terms_def matrix_ok_def)
  then show ?thesis
    by (auto simp: direct_spmv_def rbind_eq_Inr positive_int_def check_modulus_def
        check_vector_def spmv_steps)
qed

section \<open>Reconstruction\<close>

definition row_sum :: "output_plan \<Rightarrow> (string \<times> string, int list) dict \<Rightarrow> int \<Rightarrow> int" where
  "row_sum plan returned r = (\<Sum>x \<leftarrow> row_lanes plan r. lane_value returned x)"

definition returned_ok :: "output_plan \<Rightarrow> (string \<times> string, int list) dict \<Rightarrow> bool" where
  "returned_ok plan returned \<longleftrightarrow>
     fst ` set returned = share_id ` set (shares plan) \<and>
     (\<forall>i vs. map_of returned i = Some vs \<longrightarrow> int (length vs) = op_slot_count plan)"

definition lane_terms :: "output_plan \<Rightarrow> (string \<times> string, int list) dict \<Rightarrow> (int \<times> int) list" where
  "lane_terms plan returned = map (\<lambda>(r, x). (r, lane_value returned x)) (plan_lanes plan)"

lemma row_total_lane_terms: "row_total (lane_terms plan returned) r = row_sum plan returned r"
  by (simp add: row_total_def lane_terms_def row_sum_def row_lanes_def filter_map split_beta comp_def)

lemma accumulate_lanes:
  assumes "map_of returned (c, b) = Some vs"
  shows "foldl (accumulate_lane vs t) res xs =
    foldl (accumulate t) res (map (\<lambda>(p, l). (l, lane_value returned (c, b, p))) xs)"
  using assms
  by (induction xs arbitrary: res) (auto simp: accumulate_lane_def accumulate_def lane_value_def)

lemma accumulate_shares:
  assumes "\<And>s. s \<in> set ss \<Longrightarrow> \<exists>vs. map_of returned (share_id s) = Some vs"
    and "\<forall>i vs. map_of returned i = Some vs \<longrightarrow> int (length vs) = slots"
  shows "rfold (accumulate_share slots returned t) res ss = Inr (foldl (accumulate t) res
    (concat (map (\<lambda>s. map (\<lambda>(p, l). (l, lane_value returned (os_component_id s,
       os_output_block_id s, p))) (slot_to_logical s)) ss)))"
  using assms
proof (induction ss arbitrary: res)
  case Nil
  then show ?case by simp
next
  case (Cons s ss)
  obtain vs where vs: "map_of returned (share_id s) = Some vs" using Cons.prems(1) by auto
  then have "accumulate_share slots returned t res s = Inr (foldl (accumulate t) res
      (map (\<lambda>(p, l). (l, lane_value returned (os_component_id s, os_output_block_id s, p)))
        (slot_to_logical s)))"
    using Cons.prems(2) by (simp add: accumulate_share_def check_vector_def accumulate_lanes)
  then show ?case using Cons by simp
qed

lemma accumulate_shares_check:
  "rfold (accumulate_share slots returned t) res ss = Inr ys \<Longrightarrow> s \<in> set ss \<Longrightarrow>
     \<exists>vs. map_of returned (share_id s) = Some vs \<and> int (length vs) = slots"
  by (induction ss arbitrary: res)
    (auto simp: rbind_eq_Inr accumulate_share_def check_vector_def split: option.splits if_splits)

lemma plan_lanes_range:
  "plan_ok plan \<Longrightarrow> (r, x) \<in> set (plan_lanes plan) \<Longrightarrow> 0 \<le> r \<and> r < logical_output_size plan"
  by (cases x) (fastforce simp: plan_lanes_mem plan_ok_def share_ok_def)

lemma reconstruct_output_ok:
  assumes ok: "plan_ok plan" and "2 \<le> t" and ret: "returned_ok plan returned"
  shows "reconstruct_output plan returned t =
    Inr (map (\<lambda>r. row_sum plan returned r mod t) (py_range 0 (logical_output_size plan)))"
proof -
  let ?n = "logical_output_size plan"
  obtain a where a: "analyze_output_plan plan = Inr a" using analyze_total [OF ok] by blast
  have "\<exists>vs. map_of returned (share_id s) = Some vs" if "s \<in> set (shares plan)" for s
  proof -
    have "share_id s \<in> dom (map_of returned)"
      using ret that by (simp add: dom_map_of_conv_image_fst returned_ok_def)
    then show ?thesis by auto
  qed
  then have "rfold (accumulate_share (op_slot_count plan) returned t) (replicate (nat ?n) 0)
      (shares plan) = Inr (foldl (accumulate t) (replicate (nat ?n) 0) (concat (map (\<lambda>s.
        map (\<lambda>(p, l). (l, lane_value returned (os_component_id s, os_output_block_id s, p)))
          (slot_to_logical s)) (shares plan))))"
    using ret by (intro accumulate_shares) (auto simp: returned_ok_def)
  also have "concat (map (\<lambda>s. map (\<lambda>(p, l). (l, lane_value returned (os_component_id s,
      os_output_block_id s, p))) (slot_to_logical s)) (shares plan)) = lane_terms plan returned"
    by (auto simp: lane_terms_def plan_lanes_def map_concat split_beta comp_def
        intro!: arg_cong [where f = concat] map_cong)
  also have "foldl (accumulate t) (replicate (nat ?n) 0) (lane_terms plan returned) =
      map (\<lambda>r. row_sum plan returned r mod t) (py_range 0 ?n)"
    unfolding row_total_lane_terms [symmetric]
  proof (rule accumulate_zeros)
    show "0 < t" using \<open>2 \<le> t\<close> by simp
    show "\<forall>x \<in> set (lane_terms plan returned). 0 \<le> fst x \<and> fst x < ?n"
      using plan_lanes_range [OF ok] by (auto simp: lane_terms_def)
    show "0 \<le> ?n" using ok by (simp add: plan_ok_def)
  qed
  finally show ?thesis
    using \<open>2 \<le> t\<close> a ret by (simp add: reconstruct_output_def check_modulus_def returned_ok_def)
qed

lemma reconstruct_output_Inr:
  assumes "reconstruct_output plan returned t = Inr ys"
  shows "plan_ok plan" and "2 \<le> t" and "returned_ok plan returned"
proof -
  show "plan_ok plan" "2 \<le> t"
    using assms by (auto simp: reconstruct_output_def check_modulus_def rbind_eq_Inr
        analyze_plan_ok split: if_splits)
  from assms have keys: "fst ` set returned = share_id ` set (shares plan)"
    and run: "rfold (accumulate_share (op_slot_count plan) returned t)
      (replicate (nat (logical_output_size plan)) 0) (shares plan) = Inr ys"
    by (auto simp: reconstruct_output_def check_modulus_def rbind_eq_Inr split: if_splits)
  have "int (length vs) = op_slot_count plan" if "map_of returned i = Some vs" for i vs
  proof -
    have "i \<in> share_id ` set (shares plan)"
      using that keys by (metis domI dom_map_of_conv_image_fst)
    then show ?thesis using accumulate_shares_check [OF run] that by fastforce
  qed
  with keys show "returned_ok plan returned" by (simp add: returned_ok_def)
qed

section \<open>Masked shares\<close>

text \<open>What the Cloud returns when it adds the masks to the clean shares.\<close>

definition apply_masks ::
  "int \<Rightarrow> (string \<times> string, int list) dict \<Rightarrow> (string \<times> string, int list) dict \<Rightarrow>
     (string \<times> string, int list) dict"
where
  "apply_masks t masks returned = map (\<lambda>(i, vs). (i, case map_of masks i of None \<Rightarrow> vs
     | Some ms \<Rightarrow> map2 (\<lambda>a b. (a + b) mod t) vs ms)) returned"

lemma row_lanes_sum_zero:
  assumes "masks_ok plan t ms"
  shows "(\<Sum>x \<leftarrow> row_lanes plan r. lane_value (masks_dict ms) x) mod t = 0"
proof (cases "r \<in> set (logical_rows plan)")
  case True
  then show ?thesis using assms by (simp add: masks_ok_def masks_inv_def contributors_keys)
next
  case False
  then show ?thesis by (simp add: row_lanes_empty)
qed

lemma sum_list_mod_cong:
  "(\<And>x. x \<in> set xs \<Longrightarrow> f x mod t = g x mod t) \<Longrightarrow>
     (\<Sum>x \<leftarrow> xs. f x) mod t = (\<Sum>x \<leftarrow> xs. g x) mod (t :: int)"
proof (induction xs)
  case Nil
  then show ?case by simp
next
  case (Cons x xs)
  then have "f x mod t = g x mod t" by simp
  moreover have "(\<Sum>x \<leftarrow> xs. f x) mod t = (\<Sum>x \<leftarrow> xs. g x) mod t"
    using Cons.prems by (intro Cons.IH) simp
  ultimately have "(f x + (\<Sum>x \<leftarrow> xs. f x)) mod t = (g x + (\<Sum>x \<leftarrow> xs. g x)) mod t"
    by (rule mod_add_cong)
  then show ?case by simp
qed

lemma masked_row_sum:
  assumes "masks_ok plan t ms"
    and "\<And>x. x \<in> set (row_lanes plan r) \<Longrightarrow> lane_value returned' x mod t =
      (lane_value returned x + lane_value (masks_dict ms) x) mod t"
  shows "row_sum plan returned' r mod t = row_sum plan returned r mod t"
proof -
  have "row_sum plan returned' r mod t =
      (\<Sum>x \<leftarrow> row_lanes plan r. lane_value returned x + lane_value (masks_dict ms) x) mod t"
    unfolding row_sum_def by (rule sum_list_mod_cong) (rule assms(2))
  also have "\<dots> = (row_sum plan returned r +
      (\<Sum>x \<leftarrow> row_lanes plan r. lane_value (masks_dict ms) x) mod t) mod t"
    by (simp add: row_sum_def sum_list_addf mod_add_right_eq)
  also have "\<dots> = row_sum plan returned r mod t"
    unfolding row_lanes_sum_zero [OF assms(1)] by simp
  finally show ?thesis .
qed

lemma map_of_map_items:
  "map_of (map (\<lambda>(i, v). (i, f i v)) d) k = map_option (f k) (map_of d k)"
  by (induction d) auto

lemma lane_value_apply_masks:
  assumes ret: "returned_ok plan returned" and masks: "masks_ok plan t ms" and ok: "plan_ok plan"
    and x: "x \<in> set (row_lanes plan r)"
  shows "lane_value (apply_masks t (masks_dict ms) returned) x mod t =
    (lane_value returned x + lane_value (masks_dict ms) x) mod t"
proof -
  obtain c b p where x': "x = (c, b, p)" by (cases x)
  have p: "0 \<le> p" "p < op_slot_count plan" using row_lanes_slot [OF ok] x x' by auto
  have len: "length ws = nat (op_slot_count plan)" if "map_of (masks_dict ms) (c, b) = Some ws" for ws
    using masks that unfolding masks_ok_def masks_inv_def vals_ok_def by blast
  obtain s where "s \<in> set (shares plan)" "share_id s = (c, b)"
    using x x' by (auto simp: row_lanes_def plan_lanes_mem)
  then have "(c, b) \<in> dom (map_of returned)"
    using ret by (auto simp: dom_map_of_conv_image_fst returned_ok_def)
  then obtain vs where vs: "map_of returned (c, b) = Some vs" by auto
  then have lv: "length vs = nat (op_slot_count plan)" using ret by (fastforce simp: returned_ok_def)
  show ?thesis
    using vs lv p by (auto simp: x' lane_value_def apply_masks_def map_of_map_items len
        split: option.splits)
qed

lemma apply_masks_returned_ok:
  assumes "returned_ok plan returned" and "masks_ok plan t ms"
  shows "returned_ok plan (apply_masks t (masks_dict ms) returned)"
proof -
  have "fst ` set (apply_masks t (masks_dict ms) returned) = fst ` set returned"
    by (simp add: apply_masks_def image_image split_beta)
  moreover have "length ws = nat (op_slot_count plan)" if "map_of (masks_dict ms) i = Some ws" for i ws
    using assms(2) that unfolding masks_ok_def masks_inv_def vals_ok_def by blast
  ultimately show ?thesis
    using assms(1) by (fastforce simp: returned_ok_def apply_masks_def map_of_map_items
        split: option.splits)
qed

lemma reconstruct_masked:
  assumes "plan_ok plan" and "2 \<le> t" and "masks_ok plan t ms" and "returned_ok plan returned"
  shows "reconstruct_output plan (apply_masks t (masks_dict ms) returned) t =
    reconstruct_output plan returned t"
proof -
  have "row_sum plan (apply_masks t (masks_dict ms) returned) r mod t = row_sum plan returned r mod t"
    for r
    using masked_row_sum [OF assms(3)] lane_value_apply_masks [OF assms(4,3,1)] by blast
  then show ?thesis
    using assms by (simp add: reconstruct_output_ok apply_masks_returned_ok)
qed

section \<open>The oracle's contract\<close>

text \<open>
  C37. The direct product returns exactly when the dimensions are positive, the modulus is at
  least two, the vector has the matrix's width and every entry is a nonzero value inside the
  matrix; then each row of the result is the sum of its products, reduced.
\<close>

theorem direct_spmv_contract:
  "direct_spmv m x rows cols t = Inr ys \<longleftrightarrow>
     0 < rows \<and> 0 < cols \<and> 2 \<le> t \<and> int (length x) = cols \<and>
     (\<forall>((r, c), v) \<in> set m. 0 \<le> r \<and> r < rows \<and> 0 \<le> c \<and> c < cols \<and> v \<noteq> 0) \<and>
     ys = map (\<lambda>r. (\<Sum>((r', c), v) \<leftarrow> m. if r' = r then v * x ! nat c else 0) mod t) (py_range 0 rows)"
proof -
  have "row_total (spmv_terms m x) r = (\<Sum>((r', c), v) \<leftarrow> m. if r' = r then v * x ! nat c else 0)" for r
    by (induction m) (auto simp: spmv_terms_def)
  then show ?thesis by (simp add: direct_spmv_eq matrix_ok_def)
qed

theorem direct_spmv_contract_witness:
  "direct_spmv [((0, 1), 3), ((1, 0), 2), ((0, 0), 4)] [5, 6] 2 2 7 = Inr [3, 3]"
  by (simp add: direct_spmv_contract py_range_def numeral_2_eq_2)

text \<open>
  C38. Reconstruction succeeds exactly on a well-formed plan, a modulus of at least two and one
  returned share of full length per share of the plan; then every logical row is the sum of its
  lanes, so rows that no lane reaches are zero.
\<close>

theorem reconstruct_output_contract:
  "reconstruct_output plan returned t = Inr ys \<longleftrightarrow>
     plan_ok plan \<and> 2 \<le> t \<and> fst ` set returned = share_id ` set (shares plan) \<and>
     (\<forall>i vs. map_of returned i = Some vs \<longrightarrow> int (length vs) = op_slot_count plan) \<and>
     ys = map (\<lambda>r. (\<Sum>x \<leftarrow> row_lanes plan r. lane_value returned x) mod t)
            (py_range 0 (logical_output_size plan))"
  (is "_ \<longleftrightarrow> ?ok \<and> ?t \<and> ?keys \<and> ?len \<and> ?ys")
proof
  assume run: "reconstruct_output plan returned t = Inr ys"
  then have "?ok" "?t" "returned_ok plan returned" by (rule reconstruct_output_Inr)+
  then show "?ok \<and> ?t \<and> ?keys \<and> ?len \<and> ?ys"
    using run reconstruct_output_ok [of plan t returned] by (simp add: returned_ok_def row_sum_def)
next
  assume "?ok \<and> ?t \<and> ?keys \<and> ?len \<and> ?ys"
  then show "reconstruct_output plan returned t = Inr ys"
    using reconstruct_output_ok [of plan t returned] by (simp add: returned_ok_def row_sum_def)
qed

theorem reconstruct_output_contract_witness:
  "reconstruct_output sample_plan [((''a'', ''a-h000000''), [4, 5]), ((''b'', ''b-h000000''), [6, 0])] 7 =
     Inr [3, 5]"
  using sample_plan_ok
  by (simp add: reconstruct_output_contract sample_plan_def py_range_def numeral_2_eq_2 row_lanes_def
      plan_lanes_def lane_value_def)

text \<open>
  C32. Masks prepared for a plan, whatever the random samples and the ledger, do not change what
  the client reconstructs: adding them to the returned shares leaves every output row as it was.
\<close>

theorem masks_preserve_output:
  assumes "prepare_f1m_masks rng reserve plan q v t l = (Inr ms, l')"
    and "fst ` set returned = share_id ` set (shares plan)"
    and "\<forall>i vs. map_of returned i = Some vs \<longrightarrow> int (length vs) = op_slot_count plan"
  shows "reconstruct_output plan (apply_masks t (masks_dict ms) returned) t =
    reconstruct_output plan returned t"
  using prepare_f1m_masks_Inr(1-3) [OF assms(1)] assms(2,3)
  by (intro reconstruct_masked) (simp_all add: returned_ok_def)

theorem masks_preserve_output_witness:
  "\<exists>ms l'. prepare_f1m_masks (\<lambda>_. 3) (\<lambda>_ l. Inr l) sample_plan ''q'' ''v'' 7 () = (Inr ms, l') \<and>
     reconstruct_output sample_plan (apply_masks 7 (masks_dict ms)
       [((''a'', ''a-h000000''), [4, 5]), ((''b'', ''b-h000000''), [6, 0])]) 7 =
     reconstruct_output sample_plan
       [((''a'', ''a-h000000''), [4, 5]), ((''b'', ''b-h000000''), [6, 0])] 7"
proof -
  have "\<exists>ms l'. prepare_f1m_masks (\<lambda>_. 3) (\<lambda>_ l. Inr l) sample_plan ''q'' ''v'' 7 () = (Inr ms, l')"
    by (rule prepare_f1m_masks_total [OF sample_plan_ok]) (simp_all add: valid_id_def id_char_def)
  then obtain ms l' where run: "prepare_f1m_masks (\<lambda>_. 3) (\<lambda>_ l. Inr l) sample_plan ''q'' ''v'' 7 () = (Inr ms, l')"
    by blast
  show ?thesis
    using run masks_preserve_output [OF run, of "[((''a'', ''a-h000000''), [4, 5]), ((''b'', ''b-h000000''), [6, 0])]"]
    by (auto simp: sample_plan_def)
qed

end
