(* ===== verification/Mask_Ledger.thy ===== *)
theory Mask_Ledger
  imports Output_Plan
begin

text \<open>
  \<open>mask_ledger.py\<close>: the persistent ledger of one-time masks. Three tables: the reserved mask
  bindings, the batches of prepared F1-M commitments (each consumed at most once) and the
  commitment rows of each batch. Every operation is one SQLite transaction: it either returns
  the new database or raises and leaves the database as it was, which is why a raised error
  carries no state. The file system side of the class (opening, schema creation and migration)
  is not modelled.
\<close>

section \<open>Data\<close>

datatype f1m_kind = RandomZeroSum | EncryptedZeroDummy

definition kind_string :: "f1m_kind \<Rightarrow> string" where
  "kind_string k = (case k of RandomZeroSum \<Rightarrow> ''random-zero-sum''
     | EncryptedZeroDummy \<Rightarrow> ''encrypted-zero-dummy'')"

record prepared_f1m_commitment =
  fc_query_id :: string
  fc_version_id :: string
  fc_output_plan_digest :: string
  fc_component_id :: string
  fc_output_block_id :: string
  fc_kind :: f1m_kind
  fc_values :: "int list"

definition fc_binding :: "prepared_f1m_commitment \<Rightarrow> mask_binding" where
  "fc_binding c = (fc_query_id c, fc_version_id c, fc_output_plan_digest c,
     fc_component_id c, fc_output_block_id c)"

text \<open>The keyword arguments every commitment operation shares.\<close>

record batch_key =
  bk_query_id :: string
  bk_version_id :: string
  bk_output_plan_digest :: string
  bk_private_plan_digest :: string
  bk_execution_binding_digest :: string
  bk_modulus :: int

record batch_row =
  br_token :: string
  br_query_id :: string
  br_version_id :: string
  br_output_plan_digest :: string
  br_private_plan_digest :: string
  br_execution_binding_digest :: string
  br_modulus :: string
  br_consumed :: bool

type_synonym commitment_row = "string \<times> string \<times> string \<times> int \<times> string"

record ledger =
  reservations :: "mask_binding list"
  batches :: "batch_row list"
  commitments :: "(string \<times> commitment_row) list"
  read_only :: bool

definition empty_ledger :: ledger where
  "empty_ledger = \<lparr>reservations = [], batches = [], commitments = [], read_only = False\<rparr>"

abbreviation pfc_error :: "string \<Rightarrow> 'a res" where
  "pfc_error m \<equiv> Inl (PreparedF1MCommitmentError m)"

section \<open>Validation of a batch\<close>

definition commitment_ok :: "batch_key \<Rightarrow> prepared_f1m_commitment \<Rightarrow> bool" where
  "commitment_ok k c \<longleftrightarrow>
     fc_query_id c = bk_query_id k \<and> fc_version_id c = bk_version_id k \<and>
     fc_output_plan_digest c = bk_output_plan_digest k \<and>
     valid_id (fc_component_id c) \<and> valid_id (fc_output_block_id c) \<and>
     fc_values c \<noteq> [] \<and> (\<forall>v \<in> set (fc_values c). 0 \<le> v \<and> v < bk_modulus k)"

definition validate_commitment ::
  "batch_key \<Rightarrow> (string \<times> string) list \<Rightarrow> prepared_f1m_commitment \<Rightarrow> (string \<times> string) list res"
where
  "validate_commitment k ids c =
     (let i = (fc_component_id c, fc_output_block_id c) in
      if \<not> commitment_ok k c then pfc_error ''prepared F1-M commitment is invalid''
      else if i \<in> set ids then
        pfc_error ''prepared F1-M commitment batch repeats an output share''
      else if fc_kind c = EncryptedZeroDummy \<and> (\<exists>v \<in> set (fc_values c). v \<noteq> 0) then
        pfc_error ''prepared F1-M dummy commitment must be exactly zero''
      else Inr (i # ids))"

definition validate_commitments ::
  "batch_key \<Rightarrow> prepared_f1m_commitment list \<Rightarrow> unit res"
where
  "validate_commitments k cs =
     (if \<not> valid_id (bk_query_id k) \<or> \<not> valid_id (bk_version_id k) \<or>
         \<not> valid_sha256 (bk_output_plan_digest k) \<or> \<not> valid_sha256 (bk_private_plan_digest k) \<or>
         \<not> valid_sha256 (bk_execution_binding_digest k) \<or> bk_modulus k < 2
      then pfc_error ''prepared F1-M commitment batch binding is invalid''
      else rbind (rfold (validate_commitment k) [] cs) (\<lambda>_. Inr ()))"

definition values_digest :: "int \<Rightarrow> prepared_f1m_commitment \<Rightarrow> string" where
  "values_digest modulus c = sha256_hex (dumps True (JObj [
     (''binding'', JList (map JStr [fc_query_id c, fc_version_id c, fc_output_plan_digest c,
        fc_component_id c, fc_output_block_id c])),
     (''format'', JStr ''dynamic-cssc-prepared-f1m-commitment-v1''),
     (''kind'', JStr (kind_string (fc_kind c))),
     (''modulus'', JInt modulus),
     (''values'', jints (fc_values c))]))"

definition commitment_row_of :: "int \<Rightarrow> prepared_f1m_commitment \<Rightarrow> commitment_row" where
  "commitment_row_of modulus c = (fc_component_id c, fc_output_block_id c,
     kind_string (fc_kind c), int (length (fc_values c)), values_digest modulus c)"

section \<open>Operations\<close>

definition require_writable :: "ledger \<Rightarrow> unit res" where
  "require_writable l =
     (if read_only l then Inl (RuntimeError ''prepared F1-M ledger is read-only'') else Inr ())"

text \<open>The primary key of the reservation table is the whole binding.\<close>

definition reserve_all :: "mask_binding list \<Rightarrow> ledger \<Rightarrow> ledger res" where
  "reserve_all bindings l =
     rbind (require_writable l) (\<lambda>_.
     if bindings = [] then Inr l
     else if \<not> distinct bindings then
       Inl (DuplicateMaskBindingError ''reservation request repeats a mask binding'')
     else if set bindings \<inter> set (reservations l) \<noteq> {} then
       Inl (DuplicateMaskBindingError ''mask binding was already consumed'')
     else Inr (l\<lparr>reservations := reservations l @ bindings\<rparr>))"

text \<open>
  The insertion into the two batch tables fails on the primary key, on the unique index over
  (query, version, output plan), or on the primary key of the commitment table. The token is
  the environment's \<open>secrets.token_hex(32)\<close>.
\<close>

definition new_batch :: "string \<Rightarrow> batch_key \<Rightarrow> batch_row" where
  "new_batch token k = \<lparr>br_token = token, br_query_id = bk_query_id k,
     br_version_id = bk_version_id k, br_output_plan_digest = bk_output_plan_digest k,
     br_private_plan_digest = bk_private_plan_digest k,
     br_execution_binding_digest = bk_execution_binding_digest k,
     br_modulus = json_int (bk_modulus k), br_consumed = False\<rparr>"

definition batch_identity :: "batch_row \<Rightarrow> string \<times> string \<times> string" where
  "batch_identity b = (br_query_id b, br_version_id b, br_output_plan_digest b)"

definition commitment_key :: "string \<times> commitment_row \<Rightarrow> string \<times> string \<times> string" where
  "commitment_key = (\<lambda>(t, c, b, _). (t, c, b))"

definition commit_prepared_f1m ::
  "string \<Rightarrow> prepared_f1m_commitment list \<Rightarrow> batch_key \<Rightarrow> ledger \<Rightarrow> (string \<times> ledger) res"
where
  "commit_prepared_f1m token cs k l =
     rbind (require_writable l) (\<lambda>_.
     rbind (validate_commitments k cs) (\<lambda>_.
     if \<not> valid_sha256 token then
       pfc_error ''ledger failed to issue a prepared F1-M commitment token''
     else if \<exists>c \<in> set cs. fc_kind c = RandomZeroSum \<and> fc_binding c \<notin> set (reservations l) then
       pfc_error ''random prepared F1-M commitment lacks a prior reservation''
     else
       let row = new_batch token k;
           rows = map (\<lambda>c. (token, commitment_row_of (bk_modulus k) c)) cs
       in if token \<in> br_token ` set (batches l) \<or>
             batch_identity row \<in> batch_identity ` set (batches l) \<or>
             commitment_key ` set rows \<inter> commitment_key ` set (commitments l) \<noteq> {}
          then Inl (DuplicateMaskBindingError ''prepared F1-M query binding was already committed'')
          else Inr (token, l\<lparr>batches := batches l @ [row],
                            commitments := commitments l @ rows\<rparr>)))"

definition find_batch :: "string \<Rightarrow> ledger \<Rightarrow> batch_row option" where
  "find_batch token l = List.find (\<lambda>b. br_token b = token) (batches l)"

definition stored_rows :: "string \<Rightarrow> ledger \<Rightarrow> commitment_row list" where
  "stored_rows token l = sort_key (\<lambda>(c, b, _). (c, b))
     (map snd (filter (\<lambda>(t, _). t = token) (commitments l)))"

definition expected_rows :: "int \<Rightarrow> prepared_f1m_commitment list \<Rightarrow> commitment_row list" where
  "expected_rows modulus cs = sort (map (commitment_row_of modulus) cs)"

definition mark_consumed :: "string \<Rightarrow> ledger \<Rightarrow> ledger" where
  "mark_consumed token l = l\<lparr>batches := map (\<lambda>b.
     if br_token b = token \<and> \<not> br_consumed b then b\<lparr>br_consumed := True\<rparr> else b) (batches l)\<rparr>"

definition verify_and_consume_prepared_f1m ::
  "prepared_f1m_commitment list \<Rightarrow> string \<Rightarrow> batch_key \<Rightarrow> ledger \<Rightarrow> ledger res"
where
  "verify_and_consume_prepared_f1m cs token k l =
     rbind (require_writable l) (\<lambda>_.
     rbind (validate_commitments k cs) (\<lambda>_.
     if \<not> valid_sha256 token then pfc_error ''prepared F1-M commitment token is invalid''
     else case find_batch token l of
       None \<Rightarrow> pfc_error ''prepared F1-M commitment does not match its ledger batch''
     | Some b \<Rightarrow>
         if batch_identity b \<noteq> (bk_query_id k, bk_version_id k, bk_output_plan_digest k) \<or>
            br_modulus b \<noteq> json_int (bk_modulus k)
         then pfc_error ''prepared F1-M commitment does not match its ledger batch''
         else if br_private_plan_digest b \<noteq> bk_private_plan_digest k then
           pfc_error ''prepared F1-M commitment private plan does not match the ledger''
         else if br_execution_binding_digest b \<noteq> bk_execution_binding_digest k then
           pfc_error ''prepared F1-M commitment execution binding does not match the ledger''
         else if br_consumed b then
           Inl (ConsumedPreparedF1MCommitmentError
             ''prepared F1-M commitment batch was already consumed'')
         else if stored_rows token l \<noteq> expected_rows (bk_modulus k) cs then
           pfc_error ''prepared F1-M commitment values do not match the ledger''
         else Inr (mark_consumed token l)))"

definition verify_consumed_prepared_f1m ::
  "prepared_f1m_commitment list \<Rightarrow> string \<Rightarrow> batch_key \<Rightarrow> ledger \<Rightarrow> unit res"
where
  "verify_consumed_prepared_f1m cs token k l =
     rbind (validate_commitments k cs) (\<lambda>_.
     if \<not> valid_sha256 token then pfc_error ''prepared F1-M commitment token is invalid''
     else if find_batch token l \<noteq> Some (new_batch token k\<lparr>br_consumed := True\<rparr>) then
       pfc_error ''prepared F1-M replay batch is absent, unconsumed, or mismatched''
     else if stored_rows token l \<noteq> expected_rows (bk_modulus k) cs then
       pfc_error ''prepared F1-M replay operands differ from the consumed ledger''
     else Inr ())"

definition binding_ok :: "mask_binding \<Rightarrow> bool" where
  "binding_ok = (\<lambda>(q, v, d, c, b).
     valid_id q \<and> valid_id v \<and> valid_sha256 d \<and> valid_id c \<and> valid_id b)"

definition verify_closed_consumed_prepared_f1m_ledger ::
  "string list \<Rightarrow> mask_binding list \<Rightarrow> ledger \<Rightarrow> unit res"
where
  "verify_closed_consumed_prepared_f1m_ledger tokens bindings l =
     (if (\<exists>t \<in> set tokens. \<not> valid_sha256 t) \<or> \<not> distinct tokens \<or> \<not> distinct bindings then
        pfc_error ''closed prepared F1-M replay ledger expectation is invalid''
      else if \<exists>b \<in> set bindings. \<not> binding_ok b then
        pfc_error ''closed prepared F1-M replay reservation is invalid''
      else if sort (map br_token (filter br_consumed (batches l))) \<noteq> sort tokens \<or>
         length (batches l) \<noteq> length tokens \<or>
         sort (reservations l) \<noteq> sort bindings \<or>
         (\<exists>t \<in> set (map fst (commitments l)). t \<notin> set tokens) \<or>
         (\<exists>t \<in> set (map fst (commitments l)). t \<notin> set (map br_token (batches l)))
      then pfc_error (''prepared F1-M replay ledger is missing, extra, duplicated, unconsumed, '' @
        ''or has invalid commitment rows'')
      else Inr ())"

end
