(* ===== verification/Ordinary_Lifecycle.thy ===== *)
theory Ordinary_Lifecycle
  imports Query_Compiler Plaintext_Oracle Mask_Ledger
begin

text \<open>
  \<open>ordinary_query_lifecycle.py\<close>: the private life of a query. A compiled query is bound into a
  bundle, prepared (query operands from the vector, masks reserved and committed in the
  ledger), authorized by consuming the commitment, claimed once, executed and reconstructed; a
  replay verifies the consumed commitment instead. The ledger is threaded through as the store
  of an action. The decoder of retained preparation bytes (\<open>json.loads\<close>) is not modelled.

  \<open>execute_compiled_query\<close> of \<open>plaintext_oracle.py\<close> is here as well, because it needs the
  compiler.
\<close>

section \<open>Data\<close>

definition ordinary_preparation_schema :: string where
  "ordinary_preparation_schema = ''dynamic-cssc-common-ordinary-query-preparation-v1''"

definition ordinary_authorization_schema :: string where
  "ordinary_authorization_schema = ''dynamic-cssc-common-ordinary-execution-authorization-v1''"

record ordinary_bundle =
  ob_compiled :: compiled_query
  ob_private_plan_digest :: string

record prepared_query_operand =
  pq_ciphertext_id :: string
  pq_values :: "int list"

record prepared_f1m_operand =
  po_ciphertext_id :: string
  po_result_id :: string
  po_kind :: f1m_kind
  po_query_id :: string
  po_version_id :: string
  po_output_plan_digest :: string
  po_component_id :: string
  po_output_block_id :: string
  po_values :: "int list"

abbreviation po_share_id :: "prepared_f1m_operand \<Rightarrow> string \<times> string" where
  "po_share_id w \<equiv> (po_component_id w, po_output_block_id w)"

record prepared_query =
  pr_query_id :: string
  pr_version_id :: string
  pr_modulus :: int
  pr_vector :: "int list"
  pr_cloud_program_digest :: string
  pr_output_plan_digest :: string
  pr_execution_binding_digest :: string
  pr_private_plan_digest :: string
  pr_ledger_commitment_token :: string
  pr_query_operands :: "prepared_query_operand list"
  pr_f1m_operands :: "prepared_f1m_operand list"

record lifecycle_result =
  lr_prepared :: prepared_query
  lr_preparation_bytes :: string
  lr_output :: "int list"

record authorization_receipt =
  ar_query_id :: string
  ar_version_id :: string
  ar_ledger_commitment_token :: string
  ar_query_preparation_sha256 :: string
  ar_execution_binding_digest :: string
  ar_authorization_transition_sha256 :: string

definition receipt_document :: "authorization_receipt \<Rightarrow> json" where
  "receipt_document r = JObj [
     (''authorization_transition_sha256'', JStr (ar_authorization_transition_sha256 r)),
     (''execution_binding_digest'', JStr (ar_execution_binding_digest r)),
     (''ledger_commitment_token'', JStr (ar_ledger_commitment_token r)),
     (''query_id'', JStr (ar_query_id r)),
     (''query_preparation_sha256'', JStr (ar_query_preparation_sha256 r)),
     (''schema_version'', JStr ordinary_authorization_schema),
     (''version_id'', JStr (ar_version_id r))]"

text \<open>The capability object: its binding and the flag its lock guards.\<close>

record execution_capability =
  cap_binding :: authorization_receipt
  cap_claimed :: bool

abbreviation oql_error :: "string \<Rightarrow> 'a res" where
  "oql_error m \<equiv> Inl (OrdinaryQueryLifecycleError m)"

section \<open>Binding\<close>

definition validated_vector :: "int list \<Rightarrow> int \<Rightarrow> int list res" where
  "validated_vector v len =
     (if int (length v) \<noteq> len
      then oql_error (''vector must be an exact tuple of length '' @ json_int len) else Inr v)"

definition bind_ordinary_execution :: "compiled_query \<Rightarrow> ordinary_bundle res" where
  "bind_ordinary_execution q =
     rbind (rewrap is_value_error (OrdinaryQueryLifecycleError ''ordinary compilation is not canonical'')
       (rbind (validate_compiled_query q) (\<lambda>_. Inr (canonical_query_private_plan_payload q)))) (\<lambda>_.
     if f1m_policy q \<noteq> OverlapOnly then
       oql_error ''ordinary lifecycle requires the exact overlap-only F1-M policy''
     else Inr \<lparr>ob_compiled = q, ob_private_plan_digest = private_plan_digest q\<rparr>)"

definition validate_bundle :: "ordinary_bundle \<Rightarrow> unit res" where
  "validate_bundle b =
     rbind (bind_ordinary_execution (ob_compiled b)) (\<lambda>expected.
     if b \<noteq> expected then oql_error ''ordinary bundle changed after canonical binding''
     else Inr ())"

definition canonical_ordinary_private_plan_payload :: "ordinary_bundle \<Rightarrow> json res" where
  "canonical_ordinary_private_plan_payload b =
     rbind (validate_bundle b) (\<lambda>_. Inr (canonical_query_private_plan_payload (ob_compiled b)))"

definition canonical_ordinary_private_plan_bytes :: "ordinary_bundle \<Rightarrow> string res" where
  "canonical_ordinary_private_plan_bytes b =
     rbind (canonical_ordinary_private_plan_payload b) (\<lambda>j. Inr (dumps True j))"

section \<open>Preparation\<close>

definition prepared_f1m_commitments ::
  "prepared_f1m_operand list \<Rightarrow> prepared_f1m_commitment list"
where
  "prepared_f1m_commitments ops = map (\<lambda>w.
     \<lparr>fc_query_id = po_query_id w, fc_version_id = po_version_id w,
      fc_output_plan_digest = po_output_plan_digest w, fc_component_id = po_component_id w,
      fc_output_block_id = po_output_block_id w, fc_kind = po_kind w, fc_values = po_values w\<rparr>) ops"

definition masked_routes :: "compiled_query \<Rightarrow> result_route list" where
  "masked_routes q = filter (\<lambda>r. f1m_ciphertext_id r \<noteq> None) (result_routes q)"

text \<open>\<open>compiled.components[0].layout_spec.cols\<close>; a compiled query has a component.\<close>

definition query_cols :: "compiled_query \<Rightarrow> int" where
  "query_cols q = ls_cols (layout_spec (hd (cq_components q)))"

definition query_operands_of :: "compiled_query \<Rightarrow> int list \<Rightarrow> prepared_query_operand list" where
  "query_operands_of q x = map (\<lambda>spec.
     \<lparr>pq_ciphertext_id = query_ciphertext_id spec,
      pq_values = map (\<lambda>c. if c \<ge> 0 then x ! nat c else 0) (spec_columns spec)\<rparr>) (operand_specs q)"

definition masks_by_share :: "prepared_mask list \<Rightarrow> (string \<times> string, prepared_mask) dict" where
  "masks_by_share ms = dict_of (map (\<lambda>m. ((pm_component_id m, pm_output_block_id m), m)) ms)"

definition f1m_operand_of ::
  "compiled_query \<Rightarrow> string \<Rightarrow> (string \<times> string, prepared_mask) dict \<Rightarrow> result_route \<Rightarrow>
     prepared_f1m_operand res"
where
  "f1m_operand_of q query_id random_by_share r =
     (case (map_of random_by_share (route_share_id r), f1m_ciphertext_id r) of
        (Some m, Some cid) \<Rightarrow> Inr
          \<lparr>po_ciphertext_id = cid, po_result_id = rr_result_id r, po_kind = RandomZeroSum,
           po_query_id = query_id, po_version_id = eb_version_id (binding (cloud_plan q)),
           po_output_plan_digest = cq_output_plan_digest q, po_component_id = rr_component_id r,
           po_output_block_id = rr_output_block_id r, po_values = pm_values m\<rparr>
      | _ \<Rightarrow> oql_error ''ordinary compiled F1-M route lacks its freshly prepared overlap mask'')"

definition is_caught :: "py_exc \<Rightarrow> bool" where
  "is_caught e \<longleftrightarrow> is_type_error e \<or> is_value_error e \<or> is_runtime_error e"

definition query_batch_key :: "ordinary_bundle \<Rightarrow> string \<Rightarrow> int \<Rightarrow> batch_key" where
  "query_batch_key b query_id modulus =
     (let q = ob_compiled b in
      \<lparr>bk_query_id = query_id, bk_version_id = eb_version_id (binding (cloud_plan q)),
       bk_output_plan_digest = cq_output_plan_digest q,
       bk_private_plan_digest = ob_private_plan_digest b,
       bk_execution_binding_digest = cq_execution_binding_digest q, bk_modulus = modulus\<rparr>)"

text \<open>\<open>rng\<close> and \<open>token\<close> are the environment's \<open>secrets.randbelow\<close> and \<open>secrets.token_hex\<close>.\<close>

definition prepare_ordinary_for_validated_bundle ::
  "(nat \<Rightarrow> int) \<Rightarrow> string \<Rightarrow> ordinary_bundle \<Rightarrow> string \<Rightarrow> int list \<Rightarrow> int \<Rightarrow>
     (ledger, prepared_query) action"
where
  "prepare_ordinary_for_validated_bundle rng token b query_id vector modulus =
     (let q = ob_compiled b; version = eb_version_id (binding (cloud_plan q)) in
     sbind (slift (validated_vector vector (query_cols q))) (\<lambda>dense.
     if modulus < 2 then
       slift (oql_error ''modulus must be a strict integer of at least two'')
     else
     sbind (srewrap is_caught (OrdinaryQueryLifecycleError ''ordinary overlap-mask preparation failed'')
       (prepare_f1m_masks rng reserve_all (cq_output_plan q) query_id version modulus)) (\<lambda>masks.
     let random_by_share = masks_by_share masks;
         queries = query_operands_of q dense in
     sbind (slift (rmap (f1m_operand_of q query_id random_by_share) (masked_routes q))) (\<lambda>f1m.
     if fst ` set random_by_share \<noteq> po_share_id ` set f1m then
       slift (oql_error ''prepared overlap masks escape the compiled F1-M routes'')
     else
     sbind (srewrap is_caught (OrdinaryQueryLifecycleError ''ordinary F1-M commitment failed'')
       (transact (commit_prepared_f1m token (prepared_f1m_commitments f1m)
          (query_batch_key b query_id modulus)))) (\<lambda>issued.
     slift (Inr
       \<lparr>pr_query_id = query_id, pr_version_id = version, pr_modulus = modulus, pr_vector = dense,
        pr_cloud_program_digest = cq_cloud_program_digest q,
        pr_output_plan_digest = cq_output_plan_digest q,
        pr_execution_binding_digest = cq_execution_binding_digest q,
        pr_private_plan_digest = ob_private_plan_digest b, pr_ledger_commitment_token = issued,
        pr_query_operands = queries, pr_f1m_operands = f1m\<rparr>))))))"

section \<open>Validation of a prepared query\<close>

definition prepared_binding_ok :: "ordinary_bundle \<Rightarrow> prepared_query \<Rightarrow> bool" where
  "prepared_binding_ok b p \<longleftrightarrow>
     (let q = ob_compiled b in
      valid_id (pr_query_id p) \<and> valid_id (pr_version_id p) \<and>
      pr_version_id p = eb_version_id (binding (cloud_plan q)) \<and>
      pr_cloud_program_digest p = cq_cloud_program_digest q \<and>
      pr_output_plan_digest p = cq_output_plan_digest q \<and>
      pr_execution_binding_digest p = cq_execution_binding_digest q \<and>
      pr_private_plan_digest p = ob_private_plan_digest b \<and>
      valid_sha256 (pr_ledger_commitment_token p) \<and> 2 \<le> pr_modulus p)"

definition overlap_rows :: "output_plan \<Rightarrow> int list" where
  "overlap_rows plan = overlapping
     (counter_of (concat (map (\<lambda>s. map snd (slot_to_logical s)) (shares plan))))"

definition f1m_operand_ok ::
  "output_plan \<Rightarrow> prepared_query \<Rightarrow> result_route \<Rightarrow> output_share \<Rightarrow> prepared_f1m_operand \<Rightarrow> bool"
where
  "f1m_operand_ok plan p r s w \<longleftrightarrow>
     Some (po_ciphertext_id w) = f1m_ciphertext_id r \<and> po_result_id w = rr_result_id r \<and>
     po_kind w = RandomZeroSum \<and> po_query_id w = pr_query_id p \<and>
     po_version_id w = pr_version_id p \<and> po_output_plan_digest w = pr_output_plan_digest p \<and>
     po_share_id w = route_share_id r \<and> int (length (po_values w)) = op_slot_count plan \<and>
     (\<forall>v \<in> set (po_values w). 0 \<le> v \<and> v < pr_modulus p) \<and>
     (\<forall>(lane, v) \<in> set (py_enumerate (po_values w)). v \<noteq> 0 \<longrightarrow>
        (\<exists>(l, row) \<in> set (slot_to_logical s). l = lane \<and> row \<in> set (overlap_rows plan)))"

definition check_f1m_operand ::
  "output_plan \<Rightarrow> prepared_query \<Rightarrow> (string \<times> string, int list) dict \<Rightarrow>
     prepared_f1m_operand \<times> result_route \<Rightarrow> (string \<times> string, int list) dict res"
where
  "check_f1m_operand plan p vals = (\<lambda>(w, r).
     case map_of (dict_of (map (\<lambda>s. (share_id s, s)) (shares plan))) (route_share_id r) of
       None \<Rightarrow> Inl KeyError
     | Some s \<Rightarrow>
         if \<not> f1m_operand_ok plan p r s w then
           oql_error ''prepared ordinary F1-M operand changed its exact overlap route''
         else Inr (AList.update (route_share_id r) (po_values w) vals))"

definition overlap_lanes :: "output_plan \<Rightarrow> int \<Rightarrow> ((string \<times> string) \<times> int) list" where
  "overlap_lanes plan logical = concat (map (\<lambda>s. concat (map (\<lambda>(lane, row).
     if row = logical then [(share_id s, lane)] else []) (slot_to_logical s))) (shares plan))"

definition check_cancellation ::
  "output_plan \<Rightarrow> prepared_query \<Rightarrow> (string \<times> string, int list) dict \<Rightarrow> int \<Rightarrow> unit res"
where
  "check_cancellation plan p vals logical =
     rbind (rfold (\<lambda>acc (i, lane). case map_of vals i of None \<Rightarrow> Inl KeyError
        | Some v \<Rightarrow> Inr (acc + v ! nat lane)) 0 (overlap_lanes plan logical)) (\<lambda>acc.
     if acc mod pr_modulus p \<noteq> 0 then
       oql_error ''prepared ordinary F1-M values do not cancel per overlapping coordinate''
     else Inr ())"

definition validate_prepared :: "ordinary_bundle \<Rightarrow> prepared_query \<Rightarrow> unit res" where
  "validate_prepared b p =
     (let q = ob_compiled b; plan = cq_output_plan q in
      if \<not> prepared_binding_ok b p then
        oql_error ''prepared ordinary query does not match its execution bundle binding''
      else
      rbind (validated_vector (pr_vector p) (query_cols q)) (\<lambda>dense.
      if pr_query_operands p \<noteq> query_operands_of q dense then
        oql_error ''prepared ordinary query operands do not match private global columns''
      else if length (pr_f1m_operands p) \<noteq> length (masked_routes q) then
        oql_error ''prepared ordinary query must cover every compiled F1-M route exactly once''
      else
      rbind (rfold (check_f1m_operand plan p) [] (zip (pr_f1m_operands p) (masked_routes q)))
        (\<lambda>vals. rfold (\<lambda>_ row. check_cancellation plan p vals row) () (overlap_rows plan))))"

definition prepare_ordinary_query ::
  "(nat \<Rightarrow> int) \<Rightarrow> string \<Rightarrow> ordinary_bundle \<Rightarrow> string \<Rightarrow> int list \<Rightarrow> int \<Rightarrow>
     (ledger, prepared_query) action"
where
  "prepare_ordinary_query rng token b query_id vector modulus =
     sbind (slift (validate_bundle b)) (\<lambda>_.
     sbind (prepare_ordinary_for_validated_bundle rng token b query_id vector modulus) (\<lambda>p.
     sbind (slift (validate_prepared b p)) (\<lambda>_.
     slift (Inr p))))"

section \<open>Serialization\<close>

definition preparation_payload :: "prepared_query \<Rightarrow> json" where
  "preparation_payload p = JObj [
     (''bindings'', JObj [
        (''cloud_program_digest'', JStr (pr_cloud_program_digest p)),
        (''execution_binding_digest'', JStr (pr_execution_binding_digest p)),
        (''output_plan_digest'', JStr (pr_output_plan_digest p)),
        (''private_plan_digest'', JStr (pr_private_plan_digest p))]),
     (''f1m_operands'', JList (map (\<lambda>w. JObj [
        (''ciphertext_id'', JStr (po_ciphertext_id w)),
        (''component_id'', JStr (po_component_id w)),
        (''kind'', JStr (kind_string (po_kind w))),
        (''output_block_id'', JStr (po_output_block_id w)),
        (''result_id'', JStr (po_result_id w)),
        (''values'', jints (po_values w))]) (pr_f1m_operands p))),
     (''format'', JStr ordinary_preparation_schema),
     (''ledger_commitment_token'', JStr (pr_ledger_commitment_token p)),
     (''modulus'', JInt (pr_modulus p)),
     (''query_id'', JStr (pr_query_id p)),
     (''query_operands'', JList (map (\<lambda>w. JObj [
        (''ciphertext_id'', JStr (pq_ciphertext_id w)),
        (''values'', jints (pq_values w))]) (pr_query_operands p))),
     (''version_id'', JStr (pr_version_id p))]"

definition preparation_bytes :: "prepared_query \<Rightarrow> string" where
  "preparation_bytes p = dumps True (preparation_payload p)"

definition canonical_ordinary_query_preparation_bytes ::
  "ordinary_bundle \<Rightarrow> prepared_query \<Rightarrow> string res"
where
  "canonical_ordinary_query_preparation_bytes b p =
     rbind (validate_bundle b) (\<lambda>_. rbind (validate_prepared b p) (\<lambda>_.
     Inr (preparation_bytes p)))"

section \<open>Authorization\<close>

definition prepared_batch_key :: "prepared_query \<Rightarrow> batch_key" where
  "prepared_batch_key p =
     \<lparr>bk_query_id = pr_query_id p, bk_version_id = pr_version_id p,
      bk_output_plan_digest = pr_output_plan_digest p,
      bk_private_plan_digest = pr_private_plan_digest p,
      bk_execution_binding_digest = pr_execution_binding_digest p, bk_modulus = pr_modulus p\<rparr>"

definition authorization_transition :: "prepared_query \<Rightarrow> string \<Rightarrow> json" where
  "authorization_transition p preparation_sha256 = JObj [
     (''execution_binding_digest'', JStr (pr_execution_binding_digest p)),
     (''ledger_commitment_token'', JStr (pr_ledger_commitment_token p)),
     (''query_id'', JStr (pr_query_id p)),
     (''query_preparation_sha256'', JStr preparation_sha256),
     (''schema_version'', JStr ordinary_authorization_schema),
     (''transition'', JStr ''prepared-to-consumed''),
     (''version_id'', JStr (pr_version_id p))]"

definition authorize_for_validated_query ::
  "prepared_query \<Rightarrow> string \<Rightarrow> (ledger, execution_capability) action"
where
  "authorize_for_validated_query p bytes =
     (let preparation_sha256 = sha256_hex bytes in
     sbind (srewrap is_caught (OrdinaryQueryLifecycleError ''ordinary F1-M commitment consumption failed'')
       (transact_unit (verify_and_consume_prepared_f1m (prepared_f1m_commitments (pr_f1m_operands p))
          (pr_ledger_commitment_token p) (prepared_batch_key p)))) (\<lambda>_.
     slift (Inr \<lparr>cap_binding =
       \<lparr>ar_query_id = pr_query_id p, ar_version_id = pr_version_id p,
        ar_ledger_commitment_token = pr_ledger_commitment_token p,
        ar_query_preparation_sha256 = preparation_sha256,
        ar_execution_binding_digest = pr_execution_binding_digest p,
        ar_authorization_transition_sha256 =
          sha256_hex (dumps True (authorization_transition p preparation_sha256))\<rparr>,
       cap_claimed = False\<rparr>)))"

definition authorize_ordinary_execution ::
  "ordinary_bundle \<Rightarrow> prepared_query \<Rightarrow> (ledger, execution_capability) action"
where
  "authorize_ordinary_execution b p =
     sbind (slift (validate_bundle b)) (\<lambda>_.
     sbind (slift (validate_prepared b p)) (\<lambda>_.
     authorize_for_validated_query p (preparation_bytes p)))"

text \<open>The step under the capability's lock: the store is the capability itself.\<close>

definition take_binding :: "(execution_capability, authorization_receipt) action" where
  "take_binding c =
     (if cap_claimed c then
        (oql_error ''ordinary execution capability is absent or consumed'', c)
      else (Inr (cap_binding c), c\<lparr>cap_claimed := True\<rparr>))"

definition verify_binding ::
  "authorization_receipt \<Rightarrow> prepared_query \<Rightarrow> string \<Rightarrow> authorization_receipt res"
where
  "verify_binding r p bytes =
     (if ar_query_id r \<noteq> pr_query_id p \<or> ar_version_id r \<noteq> pr_version_id p \<or>
         ar_ledger_commitment_token r \<noteq> pr_ledger_commitment_token p \<or>
         ar_query_preparation_sha256 r \<noteq> sha256_hex bytes \<or>
         ar_execution_binding_digest r \<noteq> pr_execution_binding_digest p
      then oql_error ''ordinary execution capability differs from its prepared query''
      else Inr r)"

definition claim_ordinary_execution ::
  "ordinary_bundle \<Rightarrow> prepared_query \<Rightarrow> (execution_capability, authorization_receipt) action"
where
  "claim_ordinary_execution b p =
     sbind take_binding (\<lambda>r.
     sbind (slift (validate_bundle b)) (\<lambda>_.
     sbind (slift (validate_prepared b p)) (\<lambda>_.
     slift (verify_binding r p (preparation_bytes p)))))"

section \<open>Execution\<close>

definition ciphertext_inputs_of :: "compiled_query \<Rightarrow> prepared_query \<Rightarrow> (string, int list) dict" where
  "ciphertext_inputs_of q p = dict_of
     (map (\<lambda>spec. (value_ciphertext_id spec, spec_values spec)) (operand_specs q) @
      map (\<lambda>w. (pq_ciphertext_id w, pq_values w)) (pr_query_operands p) @
      map (\<lambda>w. (po_ciphertext_id w, po_values w)) (pr_f1m_operands p))"

definition returned_share ::
  "results \<Rightarrow> result_route \<Rightarrow> ((string \<times> string) \<times> int list) res"
where
  "returned_share returned r = (case map_of returned (rr_result_id r) of
     None \<Rightarrow> Inl KeyError | Some v \<Rightarrow> Inr (route_share_id r, v))"

definition execute_ordinary_plaintext_for_validated_query ::
  "ordinary_bundle \<Rightarrow> prepared_query \<Rightarrow> int \<Rightarrow> int list res"
where
  "execute_ordinary_plaintext_for_validated_query b p modulus =
     (let q = ob_compiled b in
      rewrap (\<lambda>e. e = KeyError \<or> is_type_error e \<or> is_value_error e)
        (OrdinaryQueryLifecycleError ''ordinary typed execution failed'')
        (rbind (execute_validated_cloud_plan (cloud_plan q) (ciphertext_inputs_of q p)
            (dict_of (map (\<lambda>m. (mask_id m, mask_values m)) (plaintext_masks (program (cloud_plan q)))))
            modulus) (\<lambda>returned.
         rbind (rmap (returned_share returned) (result_routes q)) (\<lambda>items.
         reconstruct_output (cq_output_plan q) (dict_of items) modulus))))"

definition admit_and_execute ::
  "ordinary_bundle \<Rightarrow> prepared_query \<Rightarrow> string \<Rightarrow> int \<Rightarrow> (ledger, int list) action"
where
  "admit_and_execute b p bytes modulus =
     sbind (authorize_for_validated_query p bytes) (\<lambda>capability.
     sbind (slift (fst (take_binding capability))) (\<lambda>r.
     sbind (slift (verify_binding r p bytes)) (\<lambda>_.
     slift (execute_ordinary_plaintext_for_validated_query b p modulus))))"

definition execute_ordinary_plaintext ::
  "ordinary_bundle \<Rightarrow> prepared_query \<Rightarrow> int \<Rightarrow> (ledger, int list) action"
where
  "execute_ordinary_plaintext b p modulus =
     sbind (slift (validate_bundle b)) (\<lambda>_.
     sbind (slift (validate_prepared b p)) (\<lambda>_.
     if modulus \<noteq> pr_modulus p then
       slift (oql_error ''execution modulus must match the prepared ordinary query'')
     else admit_and_execute b p (preparation_bytes p) modulus))"

definition execute_ordinary_query_lifecycle ::
  "(nat \<Rightarrow> int) \<Rightarrow> string \<Rightarrow> compiled_query \<Rightarrow> string \<Rightarrow> int list \<Rightarrow> int \<Rightarrow>
     (ledger, lifecycle_result) action"
where
  "execute_ordinary_query_lifecycle rng token q query_id vector modulus =
     sbind (slift (bind_ordinary_execution q)) (\<lambda>b.
     sbind (prepare_ordinary_for_validated_bundle rng token b query_id vector modulus) (\<lambda>p.
     sbind (admit_and_execute b p (preparation_bytes p) modulus) (\<lambda>output.
     slift (Inr \<lparr>lr_prepared = p, lr_preparation_bytes = preparation_bytes p,
       lr_output = output\<rparr>))))"

section \<open>Replay\<close>

definition replay_for_validated_query ::
  "ordinary_bundle \<Rightarrow> prepared_query \<Rightarrow> int \<Rightarrow> ledger \<Rightarrow> int list res"
where
  "replay_for_validated_query b p modulus l =
     rbind (rewrap is_caught
       (OrdinaryQueryLifecycleError ''ordinary read-only replay ledger verification failed'')
       (verify_consumed_prepared_f1m (prepared_f1m_commitments (pr_f1m_operands p))
          (pr_ledger_commitment_token p) (prepared_batch_key p) l)) (\<lambda>_.
     rewrap (\<lambda>e. e = KeyError \<or> is_type_error e \<or> is_value_error e)
       (OrdinaryQueryLifecycleError ''ordinary read-only typed replay failed'')
       (execute_ordinary_plaintext_for_validated_query b p modulus))"

definition replay_ordinary_plaintext_read_only ::
  "ordinary_bundle \<Rightarrow> prepared_query \<Rightarrow> int \<Rightarrow> ledger \<Rightarrow> int list res"
where
  "replay_ordinary_plaintext_read_only b p modulus l =
     rbind (validate_bundle b) (\<lambda>_.
     rbind (validate_prepared b p) (\<lambda>_.
     if modulus \<noteq> pr_modulus p then
       oql_error ''replay modulus must match the prepared ordinary query''
     else replay_for_validated_query b p modulus l))"

section \<open>The policy-checked execution of a compiled query\<close>

definition execute_compiled_query ::
  "compiled_query \<Rightarrow> f1m_policy \<Rightarrow> (string, int list) dict \<Rightarrow> (string, int list) dict \<Rightarrow> int \<Rightarrow>
     results res"
where
  "execute_compiled_query q expected_policy inputs supplied modulus =
     (if expected_policy \<noteq> f1m_policy q then
        qc_error ''expected_f1m_policy does not match the CompiledQuery policy''
      else
      rbind (check_modulus modulus) (\<lambda>modulus.
      rbind (validate_compiled_query q) (\<lambda>_.
      execute_validated_cloud_plan (cloud_plan q) inputs supplied modulus)))"

end
