(* ===== verification/Compiler_Facts.thy ===== *)
theory Compiler_Facts
  imports Reduction_Facts Oracle_Facts Ordinary_Lifecycle
begin

text \<open>
  The meaning of compiled sources. In an environment where the equations of the emitted nodes
  hold and the operands carry their values, every result carries the sum of its source plus
  the mask of its route: a block of a component the sums of its chunk rows, a delta page the
  sums of its segments, a client segment its lane products.
\<close>

section \<open>The environment of a compilation\<close>

definition xval :: "int list \<Rightarrow> int \<Rightarrow> int" where
  "xval x c = (if c \<ge> 0 then x ! nat c else 0)"

definition masks_carry :: "nat \<Rightarrow> int \<Rightarrow> env \<Rightarrow> plaintext_mask list \<Rightarrow> bool" where
  "masks_carry n t M ms \<longleftrightarrow> (\<forall>m \<in> set ms. carries n t M (mask_id m) (\<lambda>k. mask_values m ! k))"

definition operand_carries ::
  "nat \<Rightarrow> int \<Rightarrow> env \<Rightarrow> int list \<Rightarrow> string \<times> string \<times> int list \<times> int list \<Rightarrow> bool"
where
  "operand_carries n t E x = (\<lambda>(vid, qid, vals, cols).
     carries n t E vid (\<lambda>k. vals ! k) \<and> carries n t E qid (\<lambda>k. xval x (cols ! k)))"

definition spec_operand :: "operand_spec \<Rightarrow> string \<times> string \<times> int list \<times> int list" where
  "spec_operand s = (value_ciphertext_id s, query_ciphertext_id s, spec_values s, spec_columns s)"

definition pending_operand :: "pending_spec \<Rightarrow> string \<times> string \<times> int list \<times> int list" where
  "pending_operand = (\<lambda>(vid, qid, _, vals, cols). (vid, qid, vals, cols))"

type_synonym share_masks = "string \<times> string \<Rightarrow> nat \<Rightarrow> int"

definition routes_carry :: "nat \<Rightarrow> int \<Rightarrow> env \<Rightarrow> share_masks \<Rightarrow> result_route list \<Rightarrow> bool" where
  "routes_carry n t E fm rs \<longleftrightarrow>
     (\<forall>r \<in> set rs. \<forall>i. f1m_ciphertext_id r = Some i \<longrightarrow> carries n t E i (fm (route_share_id r)))"

definition env_ok ::
  "nat \<Rightarrow> int \<Rightarrow> (int, int) dict \<Rightarrow> env \<Rightarrow> results \<Rightarrow> env \<Rightarrow> int list \<Rightarrow> share_masks \<Rightarrow> compile_state \<Rightarrow> bool"
where
  "env_ok n t rots M out E x fm s \<longleftrightarrow>
     nodes_hold n t rots M out E (cs_nodes s) \<and> masks_carry n t M (cs_masks s) \<and>
     (\<forall>sp \<in> set (cs_specs s). operand_carries n t E x (spec_operand sp)) \<and>
     routes_carry n t E fm (cs_routes s)"

text \<open>Compilation only extends the lists of its state.\<close>

definition grows :: "int \<Rightarrow> compile_state \<Rightarrow> compile_state \<Rightarrow> bool" where
  "grows slots s s' \<longleftrightarrow>
     set (cs_nodes s) \<subseteq> set (cs_nodes s') \<and> set (cs_masks s) \<subseteq> set (cs_masks s') \<and>
     set (cs_specs s) \<subseteq> set (cs_specs s') \<and> set (cs_routes s) \<subseteq> set (cs_routes s') \<and>
     (shifts_below slots (cs_shifts s) \<longrightarrow> shifts_below slots (cs_shifts s'))"

lemma grows_refl [simp]: "grows slots s s"
  by (simp add: grows_def)

lemma grows_trans: "grows slots s s' \<Longrightarrow> grows slots s' s'' \<Longrightarrow> grows slots s s''"
  by (auto simp: grows_def)

lemma env_ok_antimono: "env_ok n t rots M out E x fm s' \<Longrightarrow> grows slots s s' \<Longrightarrow> env_ok n t rots M out E x fm s"
  by (auto simp: env_ok_def grows_def masks_carry_def routes_carry_def)

text \<open>What a result carries: the clean value, and its mask when the route has one.\<close>

definition result_carries ::
  "nat \<Rightarrow> int \<Rightarrow> results \<Rightarrow> share_masks \<Rightarrow> result_route \<Rightarrow> (nat \<Rightarrow> int) \<Rightarrow> bool"
where
  "result_carries n t out fm r f \<longleftrightarrow> (\<exists>v. map_of out (rr_result_id r) = Some v \<and> length v = n \<and>
     (\<forall>k < n. v ! k =
        (f k + (if f1m_ciphertext_id r = None then 0 else fm (route_share_id r) k)) mod t))"

definition served ::
  "nat \<Rightarrow> int \<Rightarrow> results \<Rightarrow> share_masks \<Rightarrow> compile_state \<Rightarrow> string \<times> string \<Rightarrow> (nat \<Rightarrow> int) \<Rightarrow> bool"
where
  "served n t out fm s i f \<longleftrightarrow>
     (\<exists>r \<in> set (cs_routes s). route_share_id r = i \<and> result_carries n t out fm r f)"

lemma served_mono: "served n t out fm s i f \<Longrightarrow> grows slots s s' \<Longrightarrow> served n t out fm s' i f"
  by (auto simp: served_def grows_def)

section \<open>Operands, selections and results\<close>

lemma append_operand_run:
  assumes "append_operand slots s = ((ordinal, vid, qid, rid), s')"
  shows "grows slots s s'" and "cs_specs s' = cs_specs s" and "cs_routes s' = cs_routes s"
    and "cs_masks s' = cs_masks s" and "cs_shifts s' = cs_shifts s" and "cs_result s' = cs_result s"
    and "nodes_hold n t rots M out E (cs_nodes s') \<Longrightarrow> operand_carries n t E x (vid, qid, vals, cols) \<Longrightarrow>
      carries n t E rid (\<lambda>k. vals ! k * xval x (cols ! k))"
proof -
  define pid where "pid = ''ssa-product-'' @ ordinal"
  from assms have nodes: "cs_nodes s' = cs_nodes s @ [MultiplyCiphertexts pid vid qid, Relinearize rid pid]"
    and rest: "cs_specs s' = cs_specs s" "cs_routes s' = cs_routes s" "cs_masks s' = cs_masks s"
      "cs_shifts s' = cs_shifts s" "cs_result s' = cs_result s"
    by (auto simp: append_operand_def Let_def pid_def)
  show "grows slots s s'" by (auto simp: grows_def nodes rest)
  show "cs_specs s' = cs_specs s" "cs_routes s' = cs_routes s"
    "cs_masks s' = cs_masks s" "cs_shifts s' = cs_shifts s" "cs_result s' = cs_result s"
    by (fact rest)+
  assume holds: "nodes_hold n t rots M out E (cs_nodes s')"
    and op: "operand_carries n t E x (vid, qid, vals, cols)"
  have mul: "node_holds n t rots M out E (MultiplyCiphertexts pid vid qid)"
    and rel: "node_holds n t rots M out E (Relinearize rid pid)"
    using holds by (simp_all add: nodes)
  have "carries n t E vid (\<lambda>k. vals ! k)" "carries n t E qid (\<lambda>k. xval x (cols ! k))"
    using op by (simp_all add: operand_carries_def)
  from carries_relinearize [OF rel carries_multiply [OF mul this]]
  show "carries n t E rid (\<lambda>k. vals ! k * xval x (cols ! k))" .
qed

lemma append_selection_run:
  assumes "append_selection slots ordinal selects acc s = (sid, s')"
  shows "grows slots s s'" and "cs_specs s' = cs_specs s" and "cs_routes s' = cs_routes s"
    and "cs_shifts s' = cs_shifts s" and "cs_result s' = cs_result s"
    and "nodes_hold n t rots M out E (cs_nodes s') \<Longrightarrow> masks_carry n t M (cs_masks s') \<Longrightarrow>
      slots = int n \<Longrightarrow> carries n t E acc f \<Longrightarrow>
      carries n t E sid (\<lambda>k. if selects (int k) then f k else 0)"
proof -
  define mid where "mid = ''pt-selection-'' @ ordinal"
  define m where "m = \<lparr>mask_id = mid, mask_role = ''selection'', mask_length = slots,
    mask_values = map (\<lambda>lane. if selects lane then 1 else 0) (py_range 0 slots)\<rparr>"
  from assms have s': "s' = s\<lparr>cs_masks := cs_masks s @ [m],
      cs_nodes := cs_nodes s @ [MultiplyPlaintextMask sid acc mid]\<rparr>"
    by (auto simp: append_selection_def Let_def m_def mid_def)
  show "grows slots s s'" "cs_specs s' = cs_specs s" "cs_routes s' = cs_routes s"
    "cs_shifts s' = cs_shifts s" "cs_result s' = cs_result s"
    by (auto simp: s' grows_def)
  assume holds: "nodes_hold n t rots M out E (cs_nodes s')" and ms: "masks_carry n t M (cs_masks s')"
    and slots: "slots = int n" and acc: "carries n t E acc f"
  have "carries n t M mid (\<lambda>k. mask_values m ! k)"
    using ms by (auto simp: s' masks_carry_def m_def)
  then have "carries n t M mid (\<lambda>k. if selects (int k) then 1 else 0)"
    by (rule carries_cong) (simp add: m_def slots)
  moreover have "node_holds n t rots M out E (MultiplyPlaintextMask sid acc mid)"
    using holds by (simp add: s')
  ultimately have "carries n t E sid (\<lambda>k. f k * (if selects (int k) then 1 else 0))"
    using acc by (intro carries_select)
  then show "carries n t E sid (\<lambda>k. if selects (int k) then f k else 0)"
    by (rule carries_cong) simp
qed

lemma finish_result_run:
  assumes "finish_result slots needs_mask acc cid bid s = (rid, s')"
  shows "grows slots s s'" and "cs_specs s' = cs_specs s" and "cs_shifts s' = cs_shifts s"
    and "nodes_hold n t rots M out E (cs_nodes s') \<Longrightarrow> routes_carry n t E fm (cs_routes s') \<Longrightarrow>
      carries n t E acc f \<Longrightarrow> served n t out fm s' (cid, bid) f"
proof -
  define fid where "fid = ''ct-f1m-'' @ fmt06 (cs_result s)"
  define mid where "mid = ''ssa-masked-'' @ fmt06 (cs_result s)"
  define r where "r = \<lparr>rr_result_id = rid, f1m_ciphertext_id = (if needs_mask then Some fid else None),
    rr_component_id = cid, rr_output_block_id = bid\<rparr>"
  from assms have nodes: "cs_nodes s' = cs_nodes s @
      (if needs_mask then [AddF1MMask mid acc fid ''opaque-zero-sum'', ReturnResult rid mid]
       else [ReturnResult rid acc])"
    and routes: "cs_routes s' = cs_routes s @ [r]"
    and rest: "cs_masks s' = cs_masks s" "cs_specs s' = cs_specs s" "cs_shifts s' = cs_shifts s"
    by (auto simp: finish_result_def Let_def fid_def mid_def r_def)
  show "grows slots s s'" "cs_specs s' = cs_specs s" "cs_shifts s' = cs_shifts s"
    by (auto simp: grows_def nodes routes rest)
  assume holds: "nodes_hold n t rots M out E (cs_nodes s')"
    and rc: "routes_carry n t E fm (cs_routes s')" and acc: "carries n t E acc f"
  have "result_carries n t out fm r f"
  proof (cases needs_mask)
    case False
    then have "node_holds n t rots M out E (ReturnResult rid acc)" using holds by (simp add: nodes)
    from carries_return [OF this acc] False show ?thesis by (auto simp: result_carries_def r_def)
  next
    case True
    then have "carries n t E fid (fm (cid, bid))"
      using rc by (auto simp: routes_carry_def routes r_def)
    moreover have "node_holds n t rots M out E (AddF1MMask mid acc fid ''opaque-zero-sum'')"
      using holds True by (simp add: nodes)
    ultimately have "carries n t E mid (\<lambda>k. f k + fm (cid, bid) k)"
      using acc by (intro carries_f1m)
    moreover have "node_holds n t rots M out E (ReturnResult rid mid)" using holds True by (simp add: nodes)
    ultimately show ?thesis
      using carries_return [of n t rots M out E rid mid] True by (auto simp: result_carries_def r_def)
  qed
  then show "served n t out fm s' (cid, bid) f" by (auto simp: served_def routes r_def)
qed

section \<open>Chunks\<close>

definition chunk_fits :: "nat \<Rightarrow> value_chunk \<Rightarrow> bool" where
  "chunk_fits n ch \<longleftrightarrow> 0 < width ch \<and> 0 < height ch \<and> width ch * height ch \<le> int n"

text \<open>Lane \<open>p\<close> of a compiled chunk: the products of its row, summed over the chunk's columns.\<close>

definition chunk_lane :: "int list \<Rightarrow> value_chunk \<Rightarrow> nat \<Rightarrow> int" where
  "chunk_lane x ch p = (if int p < height ch
     then \<Sum>j < nat (width ch). vc_values ch ! (p + j * nat (height ch)) *
            xval x (column_indices ch ! (p + j * nat (height ch)))
     else 0)"

lemma chunk_window:
  assumes fits: "chunk_fits n ch" and p: "int p < height ch"
  shows "window n (\<lambda>k. vc_values ch ! k * xval x (column_indices ch ! k)) (nat (height ch))
    (nat (width ch)) p = chunk_lane x ch p"
proof -
  let ?h = "nat (height ch)" and ?w = "nat (width ch)"
  have "?w * ?h \<le> n" using fits by (simp add: chunk_fits_def nat_mult_distrib [symmetric] nat_le_iff)
  moreover have "p + (?w - 1) * ?h < ?w * ?h"
  proof -
    have "?w = Suc (?w - 1)" using fits by (simp add: chunk_fits_def)
    then have "?w * ?h = ?h + (?w - 1) * ?h" by (metis mult_Suc)
    then show ?thesis using p by simp
  qed
  ultimately have "p + (?w - 1) * ?h < n" by simp
  from window_in_range [OF this] p show ?thesis by (simp add: chunk_lane_def)
qed

lemma compile_chunk_run:
  assumes run: "compile_chunk slots (s, sel, pend) ch = (s', sel', pend')"
    and slots: "slots = int n" and fits: "chunk_fits n ch"
  shows "\<exists>fid op. sel' = sel @ [fid] \<and> pend' = pend @ [op] \<and>
    (\<exists>vid qid src. op = (vid, qid, src, vc_values ch, column_indices ch)) \<and>
    grows slots s s' \<and> cs_specs s' = cs_specs s \<and> cs_routes s' = cs_routes s \<and>
    (nodes_hold n t rots M out E (cs_nodes s') \<longrightarrow> masks_carry n t M (cs_masks s') \<longrightarrow>
     operand_carries n t E x (pending_operand op) \<longrightarrow> carries n t E fid (chunk_lane x ch))"
proof -
  from fits have "0 \<le> width ch" "0 \<le> height ch" by (auto simp: chunk_fits_def)
  then obtain w h where w: "width ch = int w" and h: "height ch = int h"
    by (metis nonneg_int_cases)
  have pos: "0 < w" "0 < h" and wh: "int (w * h) \<le> slots"
    using fits by (auto simp: chunk_fits_def w h slots simp flip: of_nat_mult)
  obtain ordinal vid qid rid s1 where 1: "append_operand slots s = ((ordinal, vid, qid, rid), s1)"
    by (metis surj_pair)
  note A = append_operand_run [OF 1]
  obtain acc ns shifts where 2: "append_cssc_reduction ordinal rid (int w) (int h)
      (cs_nodes s1) (cs_shifts s1) = (acc, ns, shifts)"
    by (metis surj_pair)
  note R = append_cssc_reduction_run [OF 2 pos(1), where n = n and t = t and rots = rots and M = M
      and out = out and E = E and cap = slots]
  let ?s2 = "s1\<lparr>cs_nodes := ns, cs_shifts := shifts\<rparr>"
  have g2: "grows slots s1 ?s2"
    using R [where f = undefined] pos wh by (auto simp: grows_def)
  let ?op = "(vid, qid, cs_operand s, vc_values ch, column_indices ch)"
  have lane: "carries n t E acc (window n (\<lambda>k. vc_values ch ! k * xval x (column_indices ch ! k)) h w)"
    if "nodes_hold n t rots M out E ns" and op: "operand_carries n t E x (vid, qid, vc_values ch, column_indices ch)"
  proof -
    have "nodes_hold n t rots M out E (cs_nodes s1)" using that(1) g2 by (auto simp: grows_def)
    then show ?thesis using R A(7) [OF _ op] that(1) by blast
  qed
  have win: "window n (\<lambda>k. vc_values ch ! k * xval x (column_indices ch ! k)) h w p = chunk_lane x ch p"
    if "p < h" for p
    using chunk_window [OF fits, of p x] that by (simp add: w h)
  show ?thesis
  proof (cases "height ch < slots")
    case True
    obtain sid s3 where 3: "append_selection slots ordinal (\<lambda>lane. lane < height ch) acc ?s2 = (sid, s3)"
      by (metis surj_pair)
    note S = append_selection_run [OF 3]
    have res: "s' = s3" "sel' = sel @ [sid]" "pend' = pend @ [?op]"
      using run True by (simp_all add: compile_chunk_def 1 2 3 [unfolded h] w h)
    have "carries n t E sid (chunk_lane x ch)"
      if nodes: "nodes_hold n t rots M out E (cs_nodes s3)" and ms: "masks_carry n t M (cs_masks s3)"
        and op: "operand_carries n t E x (pending_operand ?op)"
    proof -
      have "nodes_hold n t rots M out E ns" using nodes S(1) by (auto simp: grows_def)
      from lane [OF this] op have "carries n t E acc (window n (\<lambda>k. vc_values ch ! k *
          xval x (column_indices ch ! k)) h w)"
        by (simp add: pending_operand_def)
      from S(6) [OF nodes ms slots this] show ?thesis
        by (rule carries_cong) (auto simp: h win, simp add: chunk_lane_def h)
    qed
    then show ?thesis
      using res S A(1,2,3) g2 by (auto intro: grows_trans)
  next
    case False
    have res: "s' = ?s2" "sel' = sel @ [acc]" "pend' = pend @ [?op]"
      using run False by (simp_all add: compile_chunk_def 1 2 w h)
    have "carries n t E acc (chunk_lane x ch)"
      if nodes: "nodes_hold n t rots M out E ns"
        and op: "operand_carries n t E x (pending_operand ?op)"
    proof -
      have "n \<le> h" using False slots h by simp
      from lane [OF nodes] op have "carries n t E acc (window n (\<lambda>k. vc_values ch ! k *
          xval x (column_indices ch ! k)) h w)"
        by (simp add: pending_operand_def)
      then show ?thesis by (rule carries_cong) (use \<open>n \<le> h\<close> in \<open>simp add: win\<close>)
    qed
    then show ?thesis
      using res A(1,2,3) g2 by (auto intro: grows_trans)
  qed
qed

section \<open>Blocks and components\<close>

lemma compile_chunks_run:
  assumes "foldl (compile_chunk slots) (s, sel, pend) chs = (s', sel', pend')"
    and slots: "slots = int n" and "\<forall>ch \<in> set chs. chunk_fits n ch"
  shows "\<exists>fids ops. sel' = sel @ fids \<and> pend' = pend @ ops \<and> length fids = length chs \<and>
    grows slots s s' \<and> cs_specs s' = cs_specs s \<and> cs_routes s' = cs_routes s \<and>
    (nodes_hold n t rots M out E (cs_nodes s') \<longrightarrow> masks_carry n t M (cs_masks s') \<longrightarrow>
     (\<forall>op \<in> set ops. operand_carries n t E x (pending_operand op)) \<longrightarrow>
     list_all2 (carries n t E) fids (map (chunk_lane x) chs))"
  using assms
proof (induction chs arbitrary: s sel pend)
  case Nil
  then show ?case by auto
next
  case (Cons ch chs)
  obtain s1 sel1 pend1 where 1: "compile_chunk slots (s, sel, pend) ch = (s1, sel1, pend1)"
    by (metis surj_pair)
  have "chunk_fits n ch" using Cons.prems(3) by simp
  from compile_chunk_run [OF 1 slots this, of t rots M out E x] obtain fid op where
    C: "sel1 = sel @ [fid]" "pend1 = pend @ [op]" "grows slots s s1" "cs_specs s1 = cs_specs s"
      "cs_routes s1 = cs_routes s"
      "nodes_hold n t rots M out E (cs_nodes s1) \<longrightarrow> masks_carry n t M (cs_masks s1) \<longrightarrow>
       operand_carries n t E x (pending_operand op) \<longrightarrow> carries n t E fid (chunk_lane x ch)"
    by blast
  have rest: "foldl (compile_chunk slots) (s1, sel1, pend1) chs = (s', sel', pend')"
    using Cons.prems(1) by (simp add: 1)
  have "\<forall>ch \<in> set chs. chunk_fits n ch" using Cons.prems(3) by simp
  from Cons.IH [OF rest slots this] obtain fids ops where
    I: "sel' = sel1 @ fids" "pend' = pend1 @ ops" "length fids = length chs" "grows slots s1 s'"
      "cs_specs s' = cs_specs s1" "cs_routes s' = cs_routes s1"
      "nodes_hold n t rots M out E (cs_nodes s') \<longrightarrow> masks_carry n t M (cs_masks s') \<longrightarrow>
       (\<forall>op \<in> set ops. operand_carries n t E x (pending_operand op)) \<longrightarrow>
       list_all2 (carries n t E) fids (map (chunk_lane x) chs)"
    by blast
  have down: "nodes_hold n t rots M out E (cs_nodes s1)" "masks_carry n t M (cs_masks s1)"
    if "nodes_hold n t rots M out E (cs_nodes s')" "masks_carry n t M (cs_masks s')"
    using that I(4) by (auto simp: grows_def masks_carry_def)
  show ?case
    using C I grows_trans [OF C(3) I(4)] down
    by (intro exI [of _ "fid # fids"] exI [of _ "op # ops"]) auto
qed

lemma cross_sum_step:
  "foldl (\<lambda>(acc, ns) (k, selected_id).
        let sum_id = ''ssa-result-sum-'' @ ord @ ''-'' @ fmt06 k
        in (sum_id, ns @ [AddCiphertexts sum_id acc selected_id])) (acc0, ns0) (zip ks sel) = (acc, ns) \<Longrightarrow>
   length ks = length sel \<Longrightarrow>
   set ns0 \<subseteq> set ns \<and> (nodes_hold n t rots M out E ns \<longrightarrow> carries n t E acc0 f0 \<longrightarrow>
     list_all2 (carries n t E) sel fs \<longrightarrow> carries n t E acc (\<lambda>k. f0 k + (\<Sum>f \<leftarrow> fs. f k)))"
proof (induction sel arbitrary: ks acc0 ns0 f0 fs)
  case Nil
  then show ?case by simp
next
  case (Cons i sel)
  then obtain k ks' where ks: "ks = k # ks'" "length ks' = length sel" by (cases ks) auto
  define sid where "sid = ''ssa-result-sum-'' @ ord @ ''-'' @ fmt06 k"
  have run: "foldl (\<lambda>(acc, ns) (k, selected_id).
        let sum_id = ''ssa-result-sum-'' @ ord @ ''-'' @ fmt06 k
        in (sum_id, ns @ [AddCiphertexts sum_id acc selected_id]))
      (sid, ns0 @ [AddCiphertexts sid acc0 i]) (zip ks' sel) = (acc, ns)"
    using Cons.prems(1) by (simp add: ks sid_def Let_def)
  note IH = Cons.IH [OF run ks(2)]
  have sub: "set ns0 \<subseteq> set ns" "AddCiphertexts sid acc0 i \<in> set ns" using IH by auto
  have "carries n t E acc (\<lambda>k. f0 k + (\<Sum>f \<leftarrow> fs. f k))"
    if holds: "nodes_hold n t rots M out E ns" and acc: "carries n t E acc0 f0"
      and sel: "list_all2 (carries n t E) (i # sel) fs"
  proof -
    obtain f fs' where fs: "fs = f # fs'" "carries n t E i f" "list_all2 (carries n t E) sel fs'"
      using sel by (auto simp: list_all2_Cons1)
    have "node_holds n t rots M out E (AddCiphertexts sid acc0 i)" using holds sub(2) by blast
    from carries_add [OF this acc fs(2)] have "carries n t E sid (\<lambda>k. f0 k + f k)" .
    with IH holds fs(3) have "carries n t E acc (\<lambda>k. f0 k + f k + (\<Sum>f \<leftarrow> fs'. f k))" by blast
    then show ?thesis by (rule carries_cong) (simp add: fs(1) add.assoc)
  qed
  then show ?case using sub(1) by blast
qed

lemma cross_sum_run:
  assumes "cross_sum res sel ns0 = (acc, ns)" and "sel \<noteq> []"
  shows "set ns0 \<subseteq> set ns" and "nodes_hold n t rots M out E ns \<Longrightarrow>
    list_all2 (carries n t E) sel fs \<Longrightarrow> carries n t E acc (\<lambda>k. \<Sum>f \<leftarrow> fs. f k)"
proof -
  obtain i js where sel: "sel = i # js" using assms(2) by (cases sel) auto
  have len: "length [1..<length sel] = length js" unfolding length_upt sel by simp
  have run: "foldl (\<lambda>(acc, ns) (k, selected_id).
        let sum_id = ''ssa-result-sum-'' @ fmt06 res @ ''-'' @ fmt06 k
        in (sum_id, ns @ [AddCiphertexts sum_id acc selected_id]))
      (i, ns0) (zip [1..<length sel] js) = (acc, ns)"
    using assms(1) unfolding cross_sum_def sel list.sel .
  note X = cross_sum_step [OF run len, where n = n and t = t and rots = rots and M = M and out = out
      and E = E]
  show "set ns0 \<subseteq> set ns" using X by blast
  assume holds: "nodes_hold n t rots M out E ns" and "list_all2 (carries n t E) sel fs"
  then obtain f fs' where fs: "fs = f # fs'" "carries n t E i f" "list_all2 (carries n t E) js fs'"
    by (auto simp: sel list_all2_Cons1)
  with X holds have "carries n t E acc (\<lambda>k. f k + (\<Sum>f \<leftarrow> fs'. f k))" by blast
  then show "carries n t E acc (\<lambda>k. \<Sum>f \<leftarrow> fs. f k)" by (simp add: fs(1))
qed

text \<open>Lane \<open>p\<close> of a block: the row of the rectangle over all its chunks.\<close>

definition block_lane :: "int list \<Rightarrow> output_block_layout \<Rightarrow> nat \<Rightarrow> int" where
  "block_lane x b p = (\<Sum>ch \<leftarrow> chunks b. chunk_lane x ch p)"

lemma compile_block_run:
  assumes slots: "slots = int n" and fits: "\<forall>ch \<in> set (chunks b). chunk_fits n ch"
  shows "grows slots s (compile_block slots masked cid s b) \<and>
    (env_ok n t rots M out E x fm (compile_block slots masked cid s b) \<longrightarrow> chunks b \<noteq> [] \<longrightarrow>
     served n t out fm (compile_block slots masked cid s b) (cid, output_block_id b) (block_lane x b))"
proof (cases "chunks b = []")
  case True
  then show ?thesis by (simp add: compile_block_def)
next
  case False
  obtain s1 sel pend where 1: "foldl (compile_chunk slots) (s, [], []) (chunks b) = (s1, sel, pend)"
    by (metis surj_pair)
  from compile_chunks_run [OF 1 slots fits, of t rots M out E x] have
    C: "length sel = length (chunks b)" "grows slots s s1" "cs_specs s1 = cs_specs s"
      "nodes_hold n t rots M out E (cs_nodes s1) \<longrightarrow> masks_carry n t M (cs_masks s1) \<longrightarrow>
       (\<forall>op \<in> set pend. operand_carries n t E x (pending_operand op)) \<longrightarrow>
       list_all2 (carries n t E) sel (map (chunk_lane x) (chunks b))"
    by auto
  obtain acc ns where 2: "cross_sum (cs_result s1) sel (cs_nodes s1) = (acc, ns)" by (metis surj_pair)
  have "sel \<noteq> []" using C(1) False by auto
  note X = cross_sum_run [OF 2 this]
  obtain rid s2 where 3: "finish_result slots (masked (cid, output_block_id b)) acc cid
      (output_block_id b) (s1\<lparr>cs_nodes := ns\<rparr>) = (rid, s2)" by (metis surj_pair)
  note F = finish_result_run [OF 3]
  define s3 where "s3 = compile_block slots masked cid s b"
  have s3: "cs_nodes s3 = cs_nodes s2" "cs_masks s3 = cs_masks s2" "cs_routes s3 = cs_routes s2"
      "cs_shifts s3 = cs_shifts s2"
      "cs_specs s3 = cs_specs s2 @ map (\<lambda>(vid, qid, source, vals, cols).
         \<lparr>value_ciphertext_id = vid, query_ciphertext_id = qid, source_kind = PublishedChunk,
          source_ordinal = source, spec_result_id = rid, spec_values = vals, spec_columns = cols\<rparr>) pend"
    using False by (simp_all add: s3_def compile_block_def 1 2 3)
  have g1: "grows slots s1 (s1\<lparr>cs_nodes := ns\<rparr>)" using X(1) by (auto simp: grows_def)
  have g3: "grows slots s2 s3" by (auto simp: grows_def s3)
  have "grows slots s s3" using C(2) g1 F(1) g3 by (meson grows_trans)
  moreover have "served n t out fm s3 (cid, output_block_id b) (block_lane x b)"
    if ok: "env_ok n t rots M out E x fm s3"
  proof -
    have ok2: "env_ok n t rots M out E x fm s2" using ok g3 by (rule env_ok_antimono)
    then have nodes: "nodes_hold n t rots M out E ns"
      using F(1) by (auto simp: env_ok_def grows_def)
    have ops: "\<forall>op \<in> set pend. operand_carries n t E x (pending_operand op)"
    proof
      fix op assume "op \<in> set pend"
      moreover obtain vid qid src vals cols where op: "op = (vid, qid, src, vals, cols)" by (cases op)
      ultimately have "\<lparr>value_ciphertext_id = vid, query_ciphertext_id = qid,
          source_kind = PublishedChunk, source_ordinal = src, spec_result_id = rid,
          spec_values = vals, spec_columns = cols\<rparr> \<in> set (cs_specs s3)"
        by (force simp: s3)
      then show "operand_carries n t E x (pending_operand op)"
        using ok by (auto simp: env_ok_def spec_operand_def pending_operand_def op)
    qed
    have "masks_carry n t M (cs_masks s1)"
      using ok2 F(1) by (auto simp: env_ok_def grows_def masks_carry_def)
    moreover have "nodes_hold n t rots M out E (cs_nodes s1)" using nodes X(1) by auto
    ultimately have "list_all2 (carries n t E) sel (map (chunk_lane x) (chunks b))"
      using C(4) ops by blast
    from X(2) [OF nodes this] have "carries n t E acc (block_lane x b)"
      by (simp add: block_lane_def [abs_def] comp_def)
    then have "served n t out fm s2 (cid, output_block_id b) (block_lane x b)"
      using ok2 F(4) by (auto simp: env_ok_def)
    then show ?thesis using g3 by (rule served_mono)
  qed
  ultimately show ?thesis by (simp add: s3_def)
qed

text \<open>Compiling a sequence of sources: what each one establishes survives the rest.\<close>

lemma foldl_compile:
  assumes step: "\<And>a s. a \<in> set as \<Longrightarrow> grows slots s (c s a) \<and> (ok (c s a) \<longrightarrow> G a (c s a))"
    and anti: "\<And>s s'. ok s' \<Longrightarrow> grows slots s s' \<Longrightarrow> ok s"
    and mono: "\<And>a s s'. G a s \<Longrightarrow> grows slots s s' \<Longrightarrow> G a s'"
  shows "grows slots s (foldl c s as) \<and> (ok (foldl c s as) \<longrightarrow> (\<forall>a \<in> set as. G a (foldl c s as)))"
  using step
proof (induction as arbitrary: s)
  case Nil
  then show ?case by simp
next
  case (Cons a as)
  have IH: "grows slots (c s a) (foldl c (c s a) as) \<and> (ok (foldl c (c s a) as) \<longrightarrow>
      (\<forall>a' \<in> set as. G a' (foldl c (c s a) as)))"
    by (rule Cons.IH) (simp add: Cons.prems)
  have S: "grows slots s (c s a)" "ok (c s a) \<longrightarrow> G a (c s a)" using Cons.prems by auto
  show ?case using IH S grows_trans [OF S(1)] anti mono by simp blast
qed

lemma compile_component_run:
  assumes slots: "slots = int n" and fits: "\<forall>b \<in> set (blocks c). \<forall>ch \<in> set (chunks b). chunk_fits n ch"
  shows "grows slots s (compile_component slots masked s c) \<and>
    (env_ok n t rots M out E x fm (compile_component slots masked s c) \<longrightarrow>
     (\<forall>b \<in> set (blocks c). chunks b \<noteq> [] \<longrightarrow> served n t out fm (compile_component slots masked s c)
        (component_id c, output_block_id b) (block_lane x b)))"
  unfolding compile_component_def
proof (rule foldl_compile)
  fix b s assume "b \<in> set (blocks c)"
  then have "\<forall>ch \<in> set (chunks b). chunk_fits n ch" using fits by blast
  from compile_block_run [OF slots this]
  show "grows slots s (compile_block slots masked (component_id c) s b) \<and>
    (env_ok n t rots M out E x fm (compile_block slots masked (component_id c) s b) \<longrightarrow>
     (chunks b \<noteq> [] \<longrightarrow> served n t out fm (compile_block slots masked (component_id c) s b)
        (component_id c, output_block_id b) (block_lane x b)))" .
qed (auto intro: env_ok_antimono served_mono)

lemma compile_components_run:
  assumes slots: "slots = int n"
    and fits: "\<forall>c \<in> set cs. \<forall>b \<in> set (blocks c). \<forall>ch \<in> set (chunks b). chunk_fits n ch"
  shows "grows slots s (foldl (compile_component slots masked) s cs) \<and>
    (env_ok n t rots M out E x fm (foldl (compile_component slots masked) s cs) \<longrightarrow>
     (\<forall>c \<in> set cs. \<forall>b \<in> set (blocks c). chunks b \<noteq> [] \<longrightarrow>
        served n t out fm (foldl (compile_component slots masked) s cs)
        (component_id c, output_block_id b) (block_lane x b)))"
proof (rule foldl_compile)
  fix c s assume "c \<in> set cs"
  then have "\<forall>b \<in> set (blocks c). \<forall>ch \<in> set (chunks b). chunk_fits n ch" using fits by blast
  from compile_component_run [OF slots this]
  show "grows slots s (compile_component slots masked s c) \<and>
    (env_ok n t rots M out E x fm (compile_component slots masked s c) \<longrightarrow>
     (\<forall>b \<in> set (blocks c). chunks b \<noteq> [] \<longrightarrow> served n t out fm (compile_component slots masked s c)
        (component_id c, output_block_id b) (block_lane x b)))" .
qed (auto intro: env_ok_antimono served_mono)

section \<open>Delta pages and client segments\<close>

text \<open>Lane \<open>p\<close> of a delta page: on a leader lane the products of its segment.\<close>

definition page_lane :: "int list \<Rightarrow> segmented_delta_state \<Rightarrow> int list \<Rightarrow> int list \<Rightarrow> nat \<Rightarrow> int" where
  "page_lane x d vals cols p =
     (if int p < segments_per_page d * segment_width d \<and> int p mod segment_width d = 0
      then \<Sum>j < nat (segment_width d). vals ! (p + j) * xval x (cols ! (p + j)) else 0)"

lemma leader_in_page:
  assumes "int p < q * int w" and "int p mod int w = 0" and "q * int w \<le> int n"
  shows "p + (w - 1) < n"
proof -
  have "int w dvd int p" using assms(2) by (simp only: dvd_eq_mod_eq_0)
  then obtain k where k: "int p = int w * k" by (rule dvdE)
  have "0 < w" using assms(1) by (cases w) auto
  have "int w * k < int w * q" using assms(1) by (simp add: k mult.commute)
  then have "k + 1 \<le> q" using \<open>0 < w\<close> by simp
  then have "int w * (k + 1) \<le> int w * q" using \<open>0 < w\<close> by (intro mult_left_mono) simp_all
  then have "int p + int w \<le> int n" using assms(3) by (simp add: k algebra_simps)
  then show ?thesis using \<open>0 < w\<close> by linarith
qed

lemma compile_page_run:
  assumes slots: "slots = int n" and width: "segment_width d = 2 ^ m"
    and fits: "segments_per_page d * segment_width d \<le> int n" "segment_width d \<le> int n"
  shows "grows slots s (compile_page slots masked d s (page, vals, meta)) \<and>
    (env_ok n t rots M out E x fm (compile_page slots masked d s (page, vals, meta)) \<longrightarrow>
     served n t out fm (compile_page slots masked d s (page, vals, meta))
       (strong_component_id, cbm_page_id meta) (page_lane x d vals (global_column_indices meta)))"
proof -
  let ?cols = "global_column_indices meta" and ?w = "2 ^ m :: nat"
  let ?f = "\<lambda>k. vals ! k * xval x (?cols ! k)"
  obtain ordinal vid qid rid s1 where 1: "append_operand slots s = ((ordinal, vid, qid, rid), s1)"
    by (metis surj_pair)
  note A = append_operand_run [OF 1]
  have ds: "doubling_shifts 1 (segment_width d) = map (\<lambda>k. 2 ^ k) [0..<m]"
    using doubling_shifts_powers [of 0 m] by (simp add: width)
  obtain acc ns shifts where
    2: "segment_reduction ordinal rid (map (\<lambda>k. 2 ^ k) [0..<m]) (cs_nodes s1, cs_shifts s1) = (acc, ns, shifts)"
    by (metis surj_pair)
  note two = 2 [folded ds]
  note R = segment_reduction_run [OF 2, where n = n and t = t and rots = rots and M = M
      and out = out and E = E and cap = slots]
  let ?s2 = "s1\<lparr>cs_nodes := ns, cs_shifts := shifts\<rparr>"
  let ?leads = "\<lambda>lane. lane < segments_per_page d * segment_width d \<and> lane mod segment_width d = 0"
  obtain sid s2 where 3: "append_selection slots ordinal ?leads acc ?s2 = (sid, s2)" by (metis surj_pair)
  note S = append_selection_run [OF 3]
  obtain res s3 where 4: "finish_result slots (masked (strong_component_id, cbm_page_id meta)) sid
      strong_component_id (cbm_page_id meta) s2 = (res, s3)" by (metis surj_pair)
  note F = finish_result_run [OF 4]
  define sp where "sp = \<lparr>value_ciphertext_id = vid, query_ciphertext_id = qid,
    source_kind = SegmentedDeltaPage, source_ordinal = page, spec_result_id = res,
    spec_values = vals, spec_columns = ?cols\<rparr>"
  have s': "compile_page slots masked d s (page, vals, meta) = s3\<lparr>cs_specs := cs_specs s3 @ [sp]\<rparr>"
    by (simp add: compile_page_def 1 two 3 4 sp_def)
  have "2 ^ m \<le> slots" using fits(2) by (simp add: width slots)
  then have g12: "grows slots s1 ?s2" using R [where f = undefined] by (auto simp: grows_def)
  have g: "grows slots s s3" using A(1) g12 S(1) F(1) by (meson grows_trans)
  have gs: "grows slots s3 (s3\<lparr>cs_specs := cs_specs s3 @ [sp]\<rparr>)" by (auto simp: grows_def)
  have "served n t out fm s3 (strong_component_id, cbm_page_id meta) (page_lane x d vals ?cols)"
    if ok: "env_ok n t rots M out E x fm (s3\<lparr>cs_specs := cs_specs s3 @ [sp]\<rparr>)"
  proof -
    have ok3: "env_ok n t rots M out E x fm s3" using ok gs by (rule env_ok_antimono)
    have ok2: "nodes_hold n t rots M out E (cs_nodes s2)" "masks_carry n t M (cs_masks s2)"
      using ok3 F(1) by (auto simp: env_ok_def grows_def masks_carry_def)
    then have nodes: "nodes_hold n t rots M out E ns" using S(1) by (auto simp: grows_def)
    then have "nodes_hold n t rots M out E (cs_nodes s1)" using g12 by (auto simp: grows_def)
    moreover have "operand_carries n t E x (vid, qid, vals, ?cols)"
      using ok by (auto simp: env_ok_def spec_operand_def sp_def)
    ultimately have "carries n t E rid ?f" by (rule A(7))
    then have "carries n t E rid (window n ?f 1 (2 ^ 0))"
      by (rule carries_cong) (simp add: window_def)
    then have acc: "carries n t E acc (window n ?f 1 ?w)" using R nodes by blast
    from S(6) [OF ok2 slots acc] have "carries n t E sid (page_lane x d vals ?cols)"
    proof (rule carries_cong)
      fix k assume "k < n"
      show "(if ?leads (int k) then window n ?f 1 ?w k else 0) mod t = page_lane x d vals ?cols k mod t"
      proof (cases "?leads (int k)")
        case True
        have nw: "nat (segment_width d) = ?w" using width by (simp add: nat_power_eq)
        have w: "segment_width d = int ?w" by (simp add: width)
        have "k + (?w - 1) < n"
          using True fits(1) unfolding w by (intro leader_in_page) auto
        then have "window n ?f 1 ?w k = (\<Sum>j < ?w. ?f (k + j))"
          using window_in_range [of k ?w 1 n ?f] by simp
        then show ?thesis using True by (simp add: page_lane_def nw)
      next
        case False
        then show ?thesis by (auto simp: page_lane_def)
      qed
    qed
    then show ?thesis using F(4) ok3 by (auto simp: env_ok_def)
  qed
  then show ?thesis unfolding s' using g gs by (auto intro: grows_trans served_mono)
qed

text \<open>Lane \<open>p\<close> of a client segment: the product of its entry, tombstones included.\<close>

definition client_lane :: "int list \<Rightarrow> packed_coo_segment \<Rightarrow> nat \<Rightarrow> int" where
  "client_lane x g p = (case segment_lane g (int p) of None \<Rightarrow> 0
     | Some e \<Rightarrow> pe_value e * xval x (snd (pe_coordinate e)))"

definition segment_active :: "packed_coo_segment \<Rightarrow> bool" where
  "segment_active g \<longleftrightarrow> (\<exists>e \<in> set (pcs_entries g). active_entry e)"

lemma compile_segment_run:
  assumes slots: "slots = int n"
  shows "grows slots s (compile_segment slots masked s (source, g)) \<and>
    (env_ok n t rots M out E x fm (compile_segment slots masked s (source, g)) \<longrightarrow>
     segment_active g \<longrightarrow>
     served n t out fm (compile_segment slots masked s (source, g))
       (client_lane_component_id, pcs_segment_id g) (client_lane x g))"
proof (cases "segment_active g")
  case False
  then show ?thesis by (simp add: compile_segment_def segment_active_def)
next
  case True
  let ?vals = "map (\<lambda>lane. case segment_lane g lane of None \<Rightarrow> 0 | Some e \<Rightarrow> pe_value e) (py_range 0 slots)"
  let ?cols = "map (\<lambda>lane. case segment_lane g lane of None \<Rightarrow> - 1 | Some e \<Rightarrow> snd (pe_coordinate e))
    (py_range 0 slots)"
  obtain ordinal vid qid rid s1 where 1: "append_operand slots s = ((ordinal, vid, qid, rid), s1)"
    by (metis surj_pair)
  note A = append_operand_run [OF 1]
  obtain res s2 where 2: "finish_result slots (masked (client_lane_component_id, pcs_segment_id g)) rid
      client_lane_component_id (pcs_segment_id g) s1 = (res, s2)" by (metis surj_pair)
  note F = finish_result_run [OF 2]
  define sp where "sp = \<lparr>value_ciphertext_id = vid, query_ciphertext_id = qid,
    source_kind = ClientLaneSegment, source_ordinal = source, spec_result_id = res,
    spec_values = ?vals, spec_columns = ?cols\<rparr>"
  have s': "compile_segment slots masked s (source, g) = s2\<lparr>cs_specs := cs_specs s2 @ [sp]\<rparr>"
    using True [unfolded segment_active_def]
    by (auto simp: compile_segment_def 1 2 sp_def Let_def)
  have gs: "grows slots s2 (s2\<lparr>cs_specs := cs_specs s2 @ [sp]\<rparr>)" by (auto simp: grows_def)
  have "served n t out fm s2 (client_lane_component_id, pcs_segment_id g) (client_lane x g)"
    if ok: "env_ok n t rots M out E x fm (s2\<lparr>cs_specs := cs_specs s2 @ [sp]\<rparr>)"
  proof -
    have ok2: "env_ok n t rots M out E x fm s2" using ok gs by (rule env_ok_antimono)
    then have "nodes_hold n t rots M out E (cs_nodes s1)" using F(1) by (auto simp: env_ok_def grows_def)
    moreover have "operand_carries n t E x (vid, qid, ?vals, ?cols)"
      using ok by (auto simp: env_ok_def spec_operand_def sp_def)
    ultimately have "carries n t E rid (\<lambda>k. ?vals ! k * xval x (?cols ! k))" by (rule A(7))
    then have "carries n t E rid (client_lane x g)"
      by (rule carries_cong) (simp add: client_lane_def slots split: option.split)
    then show ?thesis using F(4) ok2 by (auto simp: env_ok_def)
  qed
  then show ?thesis
    unfolding s' using A(1) F(1) gs by (auto intro: grows_trans served_mono)
qed

section \<open>All sources\<close>

definition page_values :: "int \<Rightarrow> segmented_delta_state \<Rightarrow> client_b_page_metadata list \<Rightarrow> int list list" where
  "page_values slots d metas = delta_page_values d (map (\<lambda>_. replicate (nat slots) 0) metas)"

lemma compile_sources_run:
  assumes run: "compile_sources slots masked comps delta gs = Inr s" and slots: "slots = int n"
    and fits: "\<forall>c \<in> set comps. \<forall>b \<in> set (blocks c). \<forall>ch \<in> set (chunks b). chunk_fits n ch"
    and delta_fits: "\<And>d. delta = Some d \<Longrightarrow> (\<exists>m. segment_width d = 2 ^ m) \<and>
      segments_per_page d * segment_width d \<le> int n \<and> segment_width d \<le> int n"
    and ok: "env_ok n t rots M out E x fm s"
  shows "\<forall>c \<in> set comps. \<forall>b \<in> set (blocks c). chunks b \<noteq> [] \<longrightarrow>
      served n t out fm s (component_id c, output_block_id b) (block_lane x b)"
    and "\<And>d. delta = Some d \<Longrightarrow> \<exists>metas. client_b_page_metadata d = Inr metas \<and>
      (\<forall>(page, vals, meta) \<in> set (zip [0..<length metas] (zip (page_values slots d metas) metas)).
        served n t out fm s (strong_component_id, cbm_page_id meta)
          (page_lane x d vals (global_column_indices meta)))"
    and "\<forall>g \<in> set gs. segment_active g \<longrightarrow>
      served n t out fm s (client_lane_component_id, pcs_segment_id g) (client_lane x g)"
proof -
  let ?ok = "env_ok n t rots M out E x fm"
  define s1 where "s1 = foldl (compile_component slots masked) empty_compile comps"
  have R1: "grows slots empty_compile s1 \<and> (?ok s1 \<longrightarrow> (\<forall>c \<in> set comps. \<forall>b \<in> set (blocks c).
      chunks b \<noteq> [] \<longrightarrow> served n t out fm s1 (component_id c, output_block_id b) (block_lane x b)))"
    unfolding s1_def by (rule compile_components_run [OF slots fits])
  obtain s2 where s2: "(case delta of None \<Rightarrow> Inr s1 | Some d \<Rightarrow>
          rbind (client_b_page_metadata d) (\<lambda>metadata.
          let pages = delta_page_values d (map (\<lambda>_. replicate (nat slots) 0) metadata)
          in Inr (foldl (compile_page slots masked d) s1
                   (zip [0..<length metadata] (zip pages metadata))))) = Inr s2"
      and s: "s = foldl (compile_segment slots masked) s2 (zip [0..<length gs] gs)"
    using run that unfolding compile_sources_def s1_def [symmetric] Let_def rbind_eq_Inr by blast
  have R3: "grows slots s2 s \<and> (?ok s \<longrightarrow> (\<forall>kg \<in> set (zip [0..<length gs] gs). segment_active (snd kg) \<longrightarrow>
      served n t out fm s (client_lane_component_id, pcs_segment_id (snd kg)) (client_lane x (snd kg))))"
    unfolding s
  proof (rule foldl_compile)
    fix kg s0
    show "grows slots s0 (compile_segment slots masked s0 kg) \<and> (?ok (compile_segment slots masked s0 kg) \<longrightarrow>
      (segment_active (snd kg) \<longrightarrow> served n t out fm (compile_segment slots masked s0 kg)
        (client_lane_component_id, pcs_segment_id (snd kg)) (client_lane x (snd kg))))"
      using compile_segment_run [OF slots, of s0 masked "fst kg" "snd kg"] by simp
  qed (auto intro: env_ok_antimono served_mono)
  have R2: "grows slots s1 s2 \<and> (\<forall>d. delta = Some d \<longrightarrow> (\<exists>metas. client_b_page_metadata d = Inr metas \<and>
      (?ok s2 \<longrightarrow> (\<forall>x' \<in> set (zip [0..<length metas] (zip (page_values slots d metas) metas)).
        case x' of (page, vals, meta) \<Rightarrow> served n t out fm s2 (strong_component_id, cbm_page_id meta)
          (page_lane x d vals (global_column_indices meta))))))"
  proof (cases delta)
    case None
    then show ?thesis using s2 by simp
  next
    case (Some d)
    then obtain metas where metas: "client_b_page_metadata d = Inr metas"
        and s2': "s2 = foldl (compile_page slots masked d) s1
          (zip [0..<length metas] (zip (page_values slots d metas) metas))"
      using s2 by (auto simp: rbind_eq_Inr Let_def page_values_def)
    obtain m where d: "segment_width d = 2 ^ m" "segments_per_page d * segment_width d \<le> int n"
        "segment_width d \<le> int n"
      using delta_fits [OF Some] by blast
    have "grows slots s1 s2 \<and> (?ok s2 \<longrightarrow> (\<forall>x' \<in> set (zip [0..<length metas] (zip (page_values slots d metas) metas)).
        (\<lambda>x' s2. case x' of (page, vals, meta) \<Rightarrow> served n t out fm s2 (strong_component_id, cbm_page_id meta)
          (page_lane x d vals (global_column_indices meta))) x' s2))"
      unfolding s2'
    proof (rule foldl_compile)
      fix x' :: "nat \<times> int list \<times> client_b_page_metadata" and s0
      obtain page vals meta where x': "x' = (page, vals, meta)" by (cases x')
      show "grows slots s0 (compile_page slots masked d s0 x') \<and> (?ok (compile_page slots masked d s0 x') \<longrightarrow>
          (case x' of (page, vals, meta) \<Rightarrow> served n t out fm (compile_page slots masked d s0 x')
            (strong_component_id, cbm_page_id meta) (page_lane x d vals (global_column_indices meta))))"
        using compile_page_run [OF slots d(1-3)] by (simp add: x')
    qed (auto intro: env_ok_antimono served_mono split: prod.splits)
    then show ?thesis using Some metas by simp
  qed
  have ok2: "?ok s2" using ok R3 by (blast intro: env_ok_antimono)
  have ok1: "?ok s1" using ok2 R2 by (blast intro: env_ok_antimono)
  have g13: "grows slots s1 s" using R2 R3 by (blast intro: grows_trans)
  show "\<forall>c \<in> set comps. \<forall>b \<in> set (blocks c). chunks b \<noteq> [] \<longrightarrow>
      served n t out fm s (component_id c, output_block_id b) (block_lane x b)"
    using R1 ok1 g13 by (blast intro: served_mono)
  show "\<exists>metas. client_b_page_metadata d = Inr metas \<and>
      (\<forall>(page, vals, meta) \<in> set (zip [0..<length metas] (zip (page_values slots d metas) metas)).
        served n t out fm s (strong_component_id, cbm_page_id meta)
          (page_lane x d vals (global_column_indices meta)))" if d: "delta = Some d" for d
  proof -
    obtain metas where metas: "client_b_page_metadata d = Inr metas"
      and s2: "?ok s2 \<longrightarrow> (\<forall>x' \<in> set (zip [0..<length metas] (zip (page_values slots d metas) metas)).
        case x' of (page, vals, meta) \<Rightarrow> served n t out fm s2 (strong_component_id, cbm_page_id meta)
          (page_lane x d vals (global_column_indices meta)))"
      using R2 [THEN conjunct2, rule_format, OF d] by (elim exE conjE)
    have "case x' of (page, vals, meta) \<Rightarrow> served n t out fm s (strong_component_id, cbm_page_id meta)
        (page_lane x d vals (global_column_indices meta))"
      if "x' \<in> set (zip [0..<length metas] (zip (page_values slots d metas) metas))" for x'
      using s2 [rule_format, OF ok2 that] R3 [THEN conjunct1] by (cases x') (simp add: served_mono)
    then show ?thesis using metas by blast
  qed
  show "\<forall>g \<in> set gs. segment_active g \<longrightarrow>
      served n t out fm s (client_lane_component_id, pcs_segment_id g) (client_lane x g)"
  proof
    fix g assume "g \<in> set gs"
    then obtain i where "(i, g) \<in> set (zip [0..<length gs] gs)"
      by (metis in_set_impl_in_set_zip2 length_map length_upt minus_nat.diff_0)
    then show "segment_active g \<longrightarrow>
      served n t out fm s (client_lane_component_id, pcs_segment_id g) (client_lane x g)"
      using R3 ok by fastforce
  qed
qed

end
