(* ===== verification/Component_Facts.thy ===== *)
theory Component_Facts
  imports Compiler_Facts
begin

text \<open>
  What validation of a published component establishes: every lane sits in the row of its
  rectangle, entries are nonzero, inside the matrix and pairwise distinct, active rows come
  first; and therefore the lanes of the compiled blocks add up to the products of the entries.
\<close>

section \<open>Scanning entries\<close>

text \<open>The keys found so far, the entries added, and the keys after.\<close>

definition scans :: "'a set \<Rightarrow> ('a \<times> 'b) list \<Rightarrow> 'a set \<Rightarrow> bool" where
  "scans K es K' \<longleftrightarrow> K' = K \<union> fst ` set es \<and> K \<inter> fst ` set es = {} \<and> distinct (map fst es)"

lemma scans_Nil [simp]: "scans K [] K' \<longleftrightarrow> K' = K"
  by (auto simp: scans_def)

lemma scans_append: "scans K es K1 \<Longrightarrow> scans K1 fs K2 \<Longrightarrow> scans K (es @ fs) K2"
  by (auto simp: scans_def)

lemma scans_update: "k \<notin> fst ` set d \<Longrightarrow> scans (fst ` set d) [(k, v)] (fst ` set (AList.update k w d))"
  by (simp add: scans_def dict_keys_update)

type_synonym lane_row = "int \<times> int \<times> int \<times> coord option \<times> int option \<times> lane_kind"

definition lane_entry :: "lane_row \<Rightarrow> (coord \<times> int) list" where
  "lane_entry = (\<lambda>(_, v, _, coordinate, _, _). case coordinate of None \<Rightarrow> [] | Some rc \<Rightarrow> [(rc, v)])"

definition lane_owner :: "lane_row \<Rightarrow> int option" where
  "lane_owner = (\<lambda>(_, _, _, _, ow, _). ow)"

definition lane_ok :: "layout_spec \<Rightarrow> output_block_layout \<Rightarrow> value_chunk \<Rightarrow> lane_row \<Rightarrow> bool" where
  "lane_ok sp b ch = (\<lambda>(lane, v, column, coordinate, ow, k).
     lane_geometry_ok b ch lane ow k \<and>
     (case coordinate of None \<Rightarrow> v = 0
      | Some (r, c) \<Rightarrow> ow = Some r \<and> c = column \<and> v \<noteq> 0 \<and>
          0 \<le> r \<and> r < ls_rows sp \<and> 0 \<le> c \<and> c < ls_cols sp))"

lemma validate_lane_ok:
  assumes "validate_lane cid sp b ch (coords, avail, widths, used, res) l =
    Inr (coords', avail', widths', used', res')"
  shows "lane_ok sp b ch l \<and> scans (fst ` set coords) (lane_entry l) (fst ` set coords') \<and>
    (\<forall>ow. dict_get widths' ow 0 = dict_get widths ow 0 \<or> lane_owner l = Some ow)"
proof -
  obtain lane v column coordinate ow k where l: "l = (lane, v, column, coordinate, ow, k)" by (cases l)
  show ?thesis
  proof (cases "lane_geometry_ok b ch lane ow k")
    case False
    then show ?thesis using assms by (simp add: validate_lane_def l Let_def)
  next
    case True
    show ?thesis
    proof (cases ow)
      case None
      then show ?thesis using assms True
        by (cases k; cases coordinate)
          (auto simp: validate_lane_def l Let_def lane_ok_def lane_entry_def split: if_splits)
    next
      case (Some r)
      then show ?thesis using assms True
        by (cases k; cases coordinate) (auto simp: validate_lane_def l Let_def lane_ok_def lane_entry_def lane_owner_def
            widen_def intro: scans_update split: if_splits)
    qed
  qed
qed

lemma validate_lanes_ok:
  "rfold (validate_lane cid sp b ch) (coords, avail, widths, used, res) ls =
     Inr (coords', avail', widths', used', res') \<Longrightarrow>
   (\<forall>l \<in> set ls. lane_ok sp b ch l) \<and>
   scans (fst ` set coords) (concat (map lane_entry ls)) (fst ` set coords') \<and>
   (\<forall>ow. dict_get widths' ow 0 = dict_get widths ow 0 \<or> (\<exists>l \<in> set ls. lane_owner l = Some ow))"
proof (induction ls arbitrary: coords avail widths used res)
  case Nil
  then show ?case by simp
next
  case (Cons l ls)
  then obtain coords1 avail1 widths1 used1 res1 where
    1: "validate_lane cid sp b ch (coords, avail, widths, used, res) l =
      Inr (coords1, avail1, widths1, used1, res1)"
    and 2: "rfold (validate_lane cid sp b ch) (coords1, avail1, widths1, used1, res1) ls =
      Inr (coords', avail', widths', used', res')"
    by (auto simp: rbind_eq_Inr)
  note L = validate_lane_ok [OF 1] and R = Cons.IH [OF 2]
  have "scans (fst ` set coords) (lane_entry l @ concat (map lane_entry ls)) (fst ` set coords')"
    using L R by (intro scans_append [of _ _ "fst ` set coords1"]) simp_all
  moreover have "dict_get widths' ow 0 = dict_get widths ow 0 \<or> (\<exists>l' \<in> set (l # ls). lane_owner l' = Some ow)"
    for ow using L R by (metis list.set_intros)
  ultimately show ?case using L R by simp
qed

section \<open>Chunks and blocks\<close>

definition chunk_entries :: "value_chunk \<Rightarrow> (coord \<times> int) list" where
  "chunk_entries ch = concat (map lane_entry (chunk_lanes ch))"

definition block_entries :: "output_block_layout \<Rightarrow> (coord \<times> int) list" where
  "block_entries b = concat (map chunk_entries (chunks b))"

definition component_entries :: "published_component \<Rightarrow> (coord \<times> int) list" where
  "component_entries c = concat (map block_entries (blocks c))"

definition chunk_valid :: "layout_spec \<Rightarrow> output_block_layout \<Rightarrow> value_chunk \<Rightarrow> bool" where
  "chunk_valid sp b ch \<longleftrightarrow> 0 < width ch \<and> 0 < height ch \<and>
     rectangular_slots ch = width ch * height ch \<and> rectangular_slots ch \<le> ls_effective_slots sp \<and>
     0 \<le> start_column ch \<and> height ch = column_height (physical_row_capacities b) (start_column ch) \<and>
     int (length (vc_values ch)) = ls_effective_slots sp \<and>
     int (length (column_indices ch)) = ls_effective_slots sp \<and>
     int (length (slot_coordinates ch)) = ls_effective_slots sp \<and>
     int (length (slot_owner_rows ch)) = ls_effective_slots sp \<and>
     int (length (slot_kinds ch)) = ls_effective_slots sp \<and>
     (\<forall>l \<in> set (chunk_lanes ch). lane_ok sp b ch l)"

lemma validate_chunk_ok:
  assumes "validate_chunk cid sp b max_width (next, ids, coords, avail, widths) ch =
    Inr (next', ids', coords', avail', widths')" and "0 \<le> next"
  shows "chunk_valid sp b ch \<and> scans (fst ` set coords) (chunk_entries ch) (fst ` set coords') \<and>
    (\<forall>ow. dict_get widths' ow 0 = dict_get widths ow 0 \<or> (\<exists>l \<in> set (chunk_lanes ch). lane_owner l = Some ow)) \<and>
    0 \<le> next'"
proof -
  have shape: "chunk_shape_ok sp b max_width next ids ch"
    using assms(1) by (simp add: validate_chunk_def split: if_splits)
  obtain coords1 avail1 widths1 used1 res1 where
    lanes: "rfold (validate_lane cid sp b ch) (coords, avail, widths, 0, 0) (chunk_lanes ch) =
      Inr (coords1, avail1, widths1, used1, res1)"
    and eq: "next' = next + width ch" "coords' = coords1" "widths' = widths1"
    using assms(1) by (auto simp: validate_chunk_def rbind_eq_Inr split: if_splits)
  show ?thesis
    using validate_lanes_ok [OF lanes] shape \<open>0 \<le> next\<close> eq
    by (auto simp: chunk_valid_def chunk_shape_ok_def chunk_entries_def)
qed

lemma validate_chunks_ok:
  "rfold (validate_chunk cid sp b max_width) (next, ids, coords, avail, widths) chs =
    Inr (next', ids', coords', avail', widths') \<Longrightarrow> 0 \<le> next \<Longrightarrow>
   (\<forall>ch \<in> set chs. chunk_valid sp b ch) \<and>
   scans (fst ` set coords) (concat (map chunk_entries chs)) (fst ` set coords') \<and>
   (\<forall>ow. dict_get widths' ow 0 = dict_get widths ow 0 \<or>
     (\<exists>ch \<in> set chs. \<exists>l \<in> set (chunk_lanes ch). lane_owner l = Some ow))"
proof (induction chs arbitrary: "next" ids coords avail widths)
  case Nil
  then show ?case by simp
next
  case (Cons ch chs)
  then obtain next1 ids1 coords1 avail1 widths1 where
    1: "validate_chunk cid sp b max_width (next, ids, coords, avail, widths) ch =
      Inr (next1, ids1, coords1, avail1, widths1)"
    and 2: "rfold (validate_chunk cid sp b max_width) (next1, ids1, coords1, avail1, widths1) chs =
      Inr (next', ids', coords', avail', widths')"
    by (auto simp: rbind_eq_Inr)
  note C = validate_chunk_ok [OF 1 Cons.prems(2)]
  have R: "(\<forall>ch \<in> set chs. chunk_valid sp b ch) \<and>
    scans (fst ` set coords1) (concat (map chunk_entries chs)) (fst ` set coords') \<and>
    (\<forall>ow. dict_get widths' ow 0 = dict_get widths1 ow 0 \<or>
     (\<exists>ch \<in> set chs. \<exists>l \<in> set (chunk_lanes ch). lane_owner l = Some ow))"
    using Cons.IH [OF 2] C by simp
  have "scans (fst ` set coords) (chunk_entries ch @ concat (map chunk_entries chs)) (fst ` set coords')"
    using C R by (intro scans_append [of _ _ "fst ` set coords1"]) simp_all
  moreover have "dict_get widths' ow 0 = dict_get widths ow 0 \<or>
     (\<exists>ch' \<in> set (ch # chs). \<exists>l \<in> set (chunk_lanes ch'). lane_owner l = Some ow)" for ow
    using C R by (metis list.set_intros)
  ultimately show ?case using C R by simp
qed

text \<open>The rows of a block that some chunk reaches are its first physical rows.\<close>

definition active_rows :: "output_block_layout \<Rightarrow> nat" where
  "active_rows b = nat (column_height (physical_row_capacities b) 0)"

definition block_valid :: "layout_spec \<Rightarrow> output_block_layout \<Rightarrow> bool" where
  "block_valid sp b \<longleftrightarrow> distinct (row_map b) \<and> length (physical_row_capacities b) = length (row_map b) \<and>
     (\<forall>c \<in> set (physical_row_capacities b). 0 \<le> c) \<and>
     (\<forall>ch \<in> set (chunks b). chunk_valid sp b ch) \<and>
     (\<forall>i < length (row_map b). 0 < physical_row_capacities b ! i \<longrightarrow>
        (\<exists>ch \<in> set (chunks b). \<exists>l \<in> set (chunk_lanes ch). lane_owner l = Some (row_map b ! i)))"

lemma dict_get_zeros: "dict_get (map (\<lambda>r. (r, 0)) rs) k 0 = (0 :: int)"
  by (induction rs) (auto simp: dict_get_def)

lemma distinct_row_map:
  assumes "set rs = {a..<b}" and "int (length rs) = b - a" and "a \<le> b"
  shows "distinct (rs :: int list)"
  using assms by (intro card_distinct) simp

lemma validate_block_ok:
  assumes "validate_block cid sp (bids, chids, coords, avail) (b, expected) =
    Inr (bids', chids', coords', avail')" and "fst expected \<le> snd expected"
  shows "block_valid sp b \<and> scans (fst ` set coords) (block_entries b) (fst ` set coords') \<and>
    valid_id (output_block_id b) \<and> output_block_id b \<notin> set bids \<and> bids' = output_block_id b # bids"
proof -
  have shape: "block_shape_ok sp bids expected b"
    using assms(1) by (simp add: validate_block_def split: if_splits)
  obtain next1 ids1 coords1 avail1 widths1 where
    run: "rfold (validate_chunk cid sp b (max_default 0 (physical_row_capacities b)))
        (0, chids, coords, avail, map (\<lambda>row. (row, 0)) (row_map b)) (chunks b) =
      Inr (next1, ids1, coords1, avail1, widths1)"
    and caps: "physical_row_capacities b = map (\<lambda>row. dict_get widths1 row 0) (row_map b)"
    and eq: "coords' = coords1" "bids' = output_block_id b # bids"
    using assms(1) by (auto simp: validate_block_def rbind_eq_Inr Let_def split: if_splits)
  from validate_chunks_ok [OF run] have C: "\<forall>ch \<in> set (chunks b). chunk_valid sp b ch"
      "scans (fst ` set coords) (block_entries b) (fst ` set coords1)"
      "\<forall>ow. dict_get widths1 ow 0 = 0 \<or>
         (\<exists>ch \<in> set (chunks b). \<exists>l \<in> set (chunk_lanes ch). lane_owner l = Some ow)"
    by (simp_all add: dict_get_zeros block_entries_def)
  have "distinct (row_map b)"
    using shape assms(2) by (intro distinct_row_map) (auto simp: block_shape_ok_def)
  moreover have "\<exists>ch \<in> set (chunks b). \<exists>l \<in> set (chunk_lanes ch). lane_owner l = Some (row_map b ! i)"
    if "i < length (row_map b)" "0 < physical_row_capacities b ! i" for i
  proof -
    have "dict_get widths1 (row_map b ! i) 0 = physical_row_capacities b ! i"
      using that(1) by (subst caps) simp
    then show ?thesis using C(3) that(2) by (metis less_irrefl)
  qed
  ultimately show ?thesis
    using C shape eq by (auto simp: block_valid_def block_shape_ok_def)
qed

section \<open>The sums of a block\<close>

lemma sum_list_sum_swap: "(\<Sum>a \<leftarrow> as. \<Sum>p \<in> P. f a p) = (\<Sum>p \<in> P. \<Sum>a \<leftarrow> as. (f a p :: int))"
  by (induction as) (simp_all add: sum.distrib)

lemma spmv_terms_append [simp]: "spmv_terms (xs @ ys) x = spmv_terms xs x @ spmv_terms ys x"
  by (simp add: spmv_terms_def)

lemma row_total_entries_concat:
  "row_total (spmv_terms (concat xss) x) r = (\<Sum>xs \<leftarrow> xss. row_total (spmv_terms xs x) r)"
  by (induction xss) (simp_all add: spmv_terms_def)

lemma nth_chunk_lanes:
  assumes "chunk_valid sp b ch" and "k < length (vc_values ch)"
  shows "chunk_lanes ch ! k = (int k, vc_values ch ! k, column_indices ch ! k, slot_coordinates ch ! k,
    slot_owner_rows ch ! k, slot_kinds ch ! k)"
proof -
  have "length (column_indices ch) = length (vc_values ch)" "length (slot_coordinates ch) = length (vc_values ch)"
    "length (slot_owner_rows ch) = length (vc_values ch)" "length (slot_kinds ch) = length (vc_values ch)"
    using assms(1) by (simp_all add: chunk_valid_def)
  then show ?thesis using assms(2) by (simp add: chunk_lanes_def)
qed

lemma length_chunk_lanes: "chunk_valid sp b ch \<Longrightarrow> length (chunk_lanes ch) = length (vc_values ch)"
  by (simp add: chunk_valid_def chunk_lanes_def)

definition chunk_term :: "int list \<Rightarrow> value_chunk \<Rightarrow> nat \<Rightarrow> int" where
  "chunk_term x ch k = vc_values ch ! k * xval x (column_indices ch ! k)"

lemma lane_entry_total:
  assumes "chunk_valid sp b ch" and "k < length (vc_values ch)"
  shows "row_total (spmv_terms (lane_entry (chunk_lanes ch ! k)) x) r =
    (if k < nat (width ch) * nat (height ch) \<and> row_map b ! (k mod nat (height ch)) = r
     then chunk_term x ch k else 0)"
proof -
  have wh: "nat (width ch) * nat (height ch) = nat (rectangular_slots ch)" and h: "0 < height ch"
    using assms(1) by (simp_all add: chunk_valid_def nat_mult_distrib)
  have "chunk_lanes ch ! k \<in> set (chunk_lanes ch)"
    using assms length_chunk_lanes by (metis nth_mem)
  then have "lane_ok sp b ch (chunk_lanes ch ! k)" using assms(1) by (simp add: chunk_valid_def)
  then have ok: "lane_geometry_ok b ch (int k) (slot_owner_rows ch ! k) (slot_kinds ch ! k)"
    "case slot_coordinates ch ! k of None \<Rightarrow> vc_values ch ! k = 0
      | Some (r, c) \<Rightarrow> slot_owner_rows ch ! k = Some r \<and> c = column_indices ch ! k \<and> vc_values ch ! k \<noteq> 0 \<and>
          0 \<le> r \<and> r < ls_rows sp \<and> 0 \<le> c \<and> c < ls_cols sp"
    by (simp_all add: nth_chunk_lanes [OF assms] lane_ok_def)
  show ?thesis
  proof (cases "slot_coordinates ch ! k")
    case None
    then show ?thesis
      using ok(2) by (simp add: nth_chunk_lanes [OF assms] lane_entry_def spmv_terms_def chunk_term_def)
  next
    case (Some rc)
    obtain r' c where rc: "rc = (r', c)" by (cases rc)
    have ow: "slot_owner_rows ch ! k = Some r'" "c = column_indices ch ! k" "0 \<le> c"
      using ok(2) by (simp_all add: Some rc)
    have "int k < rectangular_slots ch \<and> row_map b ! nat (int k mod height ch) = r'"
      using ok(1) by (auto simp: lane_geometry_ok_def Let_def ow split: if_splits)
    moreover have "nat (int k mod height ch) = k mod nat (height ch)"
      using h by (simp add: nat_mod_distrib)
    ultimately have "k < nat (rectangular_slots ch)" "row_map b ! (k mod nat (height ch)) = r'" by auto
    then show ?thesis using ow
      by (simp add: nth_chunk_lanes [OF assms] lane_entry_def spmv_terms_def chunk_term_def Some rc wh xval_def)
  qed
qed

text \<open>A sum over a rectangle stored by columns, summed by rows.\<close>

lemma sum_rectangle:
  "(\<Sum>k < w * h. f k) = (\<Sum>p < h. \<Sum>j < w. f (p + j * (h :: nat)))" for f :: "nat \<Rightarrow> int"
proof -
  have "(\<Sum>k < w * h. f k) = (\<Sum>j < w. \<Sum>k = j * h..< j * h + h. f k)"
    by (rule sum.nat_group [symmetric])
  also have "\<dots> = (\<Sum>j < w. \<Sum>p < h. f (p + j * h))"
  proof (rule sum.cong [OF refl])
    fix j
    have "(\<Sum>k = 0 + j * h..< h + j * h. f k) = (\<Sum>p = 0..<h. f (p + j * h))"
      by (rule sum.shift_bounds_nat_ivl)
    then show "(\<Sum>k = j * h..< j * h + h. f k) = (\<Sum>p < h. f (p + j * h))"
      by (simp add: add.commute lessThan_atLeast0)
  qed
  also have "\<dots> = (\<Sum>p < h. \<Sum>j < w. f (p + j * h))" by (rule sum.swap)
  finally show ?thesis .
qed

lemma chunk_entries_total:
  assumes "chunk_valid sp b ch"
  shows "row_total (spmv_terms (chunk_entries ch) x) r =
    (\<Sum>p < nat (height ch). if row_map b ! p = r then chunk_lane x ch p else 0)"
proof -
  let ?n = "length (vc_values ch)" and ?w = "nat (width ch)" and ?h = "nat (height ch)"
  let ?g = "\<lambda>k. if row_map b ! (k mod ?h) = r then chunk_term x ch k else 0"
  have dims: "0 < width ch" "0 < height ch" "rectangular_slots ch = width ch * height ch"
      "rectangular_slots ch \<le> int ?n"
    using assms unfolding chunk_valid_def by auto
  have wh: "?w * ?h \<le> ?n"
  proof -
    have "int (?w * ?h) \<le> int ?n" using dims by simp
    then show ?thesis by (simp only: of_nat_le_iff)
  qed
  have "row_total (spmv_terms (chunk_entries ch) x) r =
      (\<Sum>l \<leftarrow> chunk_lanes ch. row_total (spmv_terms (lane_entry l) x) r)"
    by (simp add: chunk_entries_def row_total_entries_concat comp_def)
  also have "\<dots> = (\<Sum>k < ?n. row_total (spmv_terms (lane_entry (chunk_lanes ch ! k)) x) r)"
    by (simp add: sum_list_sum_nth length_chunk_lanes [OF assms] atLeast0LessThan)
  also have "\<dots> = (\<Sum>k < ?n. if k < ?w * ?h then ?g k else 0)"
    by (rule sum.cong) (auto simp: lane_entry_total [OF assms])
  also have "\<dots> = (\<Sum>k < ?w * ?h. ?g k)"
    using wh by (intro sum.mono_neutral_cong_right) auto
  also have "\<dots> = (\<Sum>p < ?h. \<Sum>j < ?w. ?g (p + j * ?h))"
    by (rule sum_rectangle)
  also have "\<dots> = (\<Sum>p < ?h. if row_map b ! p = r then chunk_lane x ch p else 0)"
  proof (rule sum.cong [OF refl])
    fix p assume "p \<in> {..<?h}"
    then have p: "p < ?h" "int p < height ch" by auto
    have "chunk_lane x ch p = (\<Sum>j < ?w. chunk_term x ch (p + j * ?h))"
      using p by (simp add: chunk_lane_def chunk_term_def)
    then show "(\<Sum>j < ?w. ?g (p + j * ?h)) = (if row_map b ! p = r then chunk_lane x ch p else 0)"
      using p by simp
  qed
  finally show ?thesis .
qed

lemma column_height_mono: "0 \<le> c \<Longrightarrow> column_height caps c \<le> column_height caps 0"
proof -
  assume "0 \<le> c"
  then have "filter (\<lambda>d. c < d) caps = filter (\<lambda>d. c < d) (filter (\<lambda>d. 0 < d) caps)"
    by (auto intro!: filter_cong simp: filter_filter)
  then show ?thesis by (metis column_height_def length_filter_le of_nat_le_iff)
qed

lemma chunk_height_active:
  "chunk_valid sp b ch \<Longrightarrow> nat (height ch) \<le> active_rows b"
  by (simp add: chunk_valid_def active_rows_def column_height_mono nat_mono)

lemma block_entries_total:
  assumes "block_valid sp b"
  shows "row_total (spmv_terms (block_entries b) x) r =
    (\<Sum>p < active_rows b. if row_map b ! p = r then block_lane x b p else 0)"
proof -
  have chunk: "row_total (spmv_terms (chunk_entries ch) x) r =
      (\<Sum>p < active_rows b. if row_map b ! p = r then chunk_lane x ch p else 0)"
    if "ch \<in> set (chunks b)" for ch
  proof -
    have v: "chunk_valid sp b ch" using assms that by (simp add: block_valid_def)
    have "(\<Sum>p < active_rows b. if row_map b ! p = r then chunk_lane x ch p else 0) =
        (\<Sum>p < nat (height ch). if row_map b ! p = r then chunk_lane x ch p else 0)"
      using chunk_height_active [OF v] by (intro sum.mono_neutral_right) (auto simp: chunk_lane_def)
    then show ?thesis by (simp add: chunk_entries_total [OF v])
  qed
  have "row_total (spmv_terms (block_entries b) x) r =
      (\<Sum>ch \<leftarrow> chunks b. row_total (spmv_terms (chunk_entries ch) x) r)"
    by (simp add: block_entries_def row_total_entries_concat comp_def)
  also have "\<dots> = (\<Sum>ch \<leftarrow> chunks b. \<Sum>p < active_rows b. if row_map b ! p = r then chunk_lane x ch p else 0)"
    by (intro arg_cong [where f = sum_list] map_cong refl) (rule chunk)
  also have "\<dots> = (\<Sum>p < active_rows b. \<Sum>ch \<leftarrow> chunks b. if row_map b ! p = r then chunk_lane x ch p else 0)"
    by (rule sum_list_sum_swap)
  also have "\<dots> = (\<Sum>p < active_rows b. if row_map b ! p = r then block_lane x b p else 0)"
    by (rule sum.cong) (simp_all add: block_lane_def)
  finally show ?thesis .
qed

section \<open>The share of a block\<close>

lemma filter_prefix:
  assumes "h \<le> length zs" and "\<And>i. i < h \<Longrightarrow> P (zs ! i)" and "\<And>i. h \<le> i \<Longrightarrow> i < length zs \<Longrightarrow> \<not> P (zs ! i)"
  shows "filter P zs = take h zs"
proof -
  have "filter P (take h zs) = take h zs"
    using assms(1,2) by (auto simp: filter_id_conv in_set_conv_nth)
  moreover have "filter P (drop h zs) = []"
    using assms(3) by (auto simp: filter_empty_conv in_set_conv_nth)
  ultimately show ?thesis by (metis append_Nil2 append_take_drop_id filter_append)
qed

lemma active_row_height:
  assumes "block_valid sp b" and "i < length (row_map b)" and "0 < physical_row_capacities b ! i"
  shows "i < active_rows b"
proof -
  obtain ch l where ch: "ch \<in> set (chunks b)" and l: "l \<in> set (chunk_lanes ch)"
      and ow: "lane_owner l = Some (row_map b ! i)"
    using assms by (auto simp: block_valid_def)
  have v: "chunk_valid sp b ch" using assms(1) ch by (simp add: block_valid_def)
  obtain k where k: "k < length (vc_values ch)" "l = chunk_lanes ch ! k"
    using l by (metis in_set_conv_nth length_chunk_lanes [OF v])
  have ow': "slot_owner_rows ch ! k = Some (row_map b ! i)"
    using ow by (simp add: k nth_chunk_lanes [OF v k(1)] lane_owner_def)
  have "lane_ok sp b ch l" using v l by (simp add: chunk_valid_def)
  then have "lane_geometry_ok b ch (int k) (slot_owner_rows ch ! k) (slot_kinds ch ! k)"
    by (simp add: k nth_chunk_lanes [OF v k(1)] lane_ok_def)
  then have row: "row_map b ! nat (int k mod height ch) = row_map b ! i"
    by (auto simp: lane_geometry_ok_def Let_def ow' split: if_splits)
  have "0 < height ch" and eq: "height ch = column_height (physical_row_capacities b) (start_column ch)"
    and len: "length (physical_row_capacities b) = length (row_map b)"
    using v assms(1) unfolding chunk_valid_def block_valid_def by blast+
  then have h: "0 < height ch" "height ch \<le> int (length (row_map b))"
    using length_filter_le [of "\<lambda>c. start_column ch < c" "physical_row_capacities b"]
    unfolding eq column_height_def by simp_all
  then have m: "nat (int k mod height ch) < nat (height ch)" by (simp add: nat_less_iff)
  have "nat (height ch) \<le> length (row_map b)" using h by simp
  with m have "nat (int k mod height ch) < length (row_map b)" by (rule less_le_trans)
  then have "nat (int k mod height ch) = i"
    using row assms(1,2) by (simp add: block_valid_def nth_eq_iff_index_eq)
  then show ?thesis using m chunk_height_active [OF v] by simp
qed

lemma active_rows_prefix:
  assumes "block_valid sp b"
  shows "map fst (filter (\<lambda>(_, capacity). capacity > 0) (zip (row_map b) (physical_row_capacities b))) =
    take (active_rows b) (row_map b)" and "active_rows b \<le> length (row_map b)"
proof -
  let ?caps = "physical_row_capacities b" and ?h = "active_rows b"
  have len: "length ?caps = length (row_map b)" using assms by (simp add: block_valid_def)
  let ?I = "{i. i < length ?caps \<and> 0 < ?caps ! i}"
  have card: "card ?I = ?h"
    by (simp add: active_rows_def column_height_def length_filter_conv_card)
  show le: "?h \<le> length (row_map b)"
    using len length_filter_le [of "\<lambda>c. 0 < c" ?caps] by (simp add: active_rows_def column_height_def)
  have "?I \<subseteq> {..<?h}" using active_row_height [OF assms] len by auto
  then have I: "?I = {..<?h}" using card by (intro card_subset_eq) simp_all
  have I': "i < ?h \<longleftrightarrow> i < length ?caps \<and> 0 < ?caps ! i" for i using I by blast
  have F: "filter (\<lambda>(_, capacity). capacity > 0) (zip (row_map b) ?caps) = take ?h (zip (row_map b) ?caps)"
  proof (rule filter_prefix)
    show "?h \<le> length (zip (row_map b) ?caps)" using le len by simp
    show "case zip (row_map b) ?caps ! i of (_, capacity) \<Rightarrow> 0 < capacity" if "i < ?h" for i
      using that I' [of i] le len by simp
    show "\<not> (case zip (row_map b) ?caps ! i of (_, capacity) \<Rightarrow> 0 < capacity)"
      if "?h \<le> i" "i < length (zip (row_map b) ?caps)" for i
      using that I' [of i] len by simp
  qed
  have "map fst (filter (\<lambda>(_, capacity). capacity > 0) (zip (row_map b) ?caps)) =
      map fst (take ?h (zip (row_map b) ?caps))"
    by (rule arg_cong [OF F])
  also have "map fst (take ?h (zip (row_map b) ?caps)) = take ?h (map fst (zip (row_map b) ?caps))"
    by (rule take_map [symmetric])
  also have "map fst (zip (row_map b) ?caps) = row_map b" using len by simp
  finally show "map fst (filter (\<lambda>(_, capacity). capacity > 0) (zip (row_map b) ?caps)) = take ?h (row_map b)" .
qed

lemma block_share_valid:
  assumes "block_valid sp b"
  shows "block_share cid b = (if chunks b = [] then [] else
    [\<lparr>os_component_id = cid, os_output_block_id = output_block_id b,
      slot_to_logical = py_enumerate (take (active_rows b) (row_map b))\<rparr>])"
proof (cases "chunks b")
  case Nil
  then show ?thesis by (simp add: block_share_def)
next
  case (Cons ch chs)
  have v: "chunk_valid sp b ch" using assms Cons by (simp add: block_valid_def)
  then have "0 < nat (height ch)" by (simp add: chunk_valid_def)
  then have "0 < active_rows b" using chunk_height_active [OF v] by simp
  then have "take (active_rows b) (row_map b) \<noteq> []" using active_rows_prefix(2) [OF assms] by auto
  then show ?thesis using active_rows_prefix(1) [OF assms] Cons by (simp add: block_share_def Let_def)
qed

section \<open>Components\<close>

lemma range_step_below:
  assumes "start \<in> set (range_step rows part)" and "0 < part" and "0 < rows"
  shows "0 \<le> start \<and> start < rows"
proof -
  have "start \<in> (\<lambda>k. int k * part) ` {0..<nat ((rows + part - 1) div part)}"
    using assms(1) by (simp add: range_step_def)
  then obtain k where k: "start = int k * part" "k \<in> {0..<nat ((rows + part - 1) div part)}"
    by (rule imageE)
  then have "int k + 1 \<le> (rows + part - 1) div part" by simp
  then have "(int k + 1) * part \<le> (rows + part - 1) div part * part"
    using \<open>0 < part\<close> by (intro mult_right_mono) simp_all
  also have "\<dots> \<le> rows + part - 1"
    using div_mult_mod_eq [of "rows + part - 1" part] pos_mod_sign [OF \<open>0 < part\<close>, of "rows + part - 1"] by arith
  finally show ?thesis using k(1) \<open>0 < part\<close> by (simp add: algebra_simps)
qed

lemma validate_blocks_ok:
  "rfold (validate_block cid sp) (bids, chids, coords, avail) xs = Inr (bids', chids', coords', avail') \<Longrightarrow>
   \<forall>(_, lo, hi) \<in> set xs. lo \<le> hi \<Longrightarrow>
   (\<forall>b \<in> fst ` set xs. block_valid sp b \<and> valid_id (output_block_id b)) \<and>
   scans (fst ` set coords) (concat (map (\<lambda>x. block_entries (fst x)) xs)) (fst ` set coords') \<and>
   distinct (map (\<lambda>x. output_block_id (fst x)) xs) \<and> set bids \<inter> (\<lambda>x. output_block_id (fst x)) ` set xs = {}"
proof (induction xs arbitrary: bids chids coords avail)
  case Nil
  then show ?case by simp
next
  case (Cons y xs)
  obtain b e where y: "y = (b, e)" by (cases y)
  obtain bids1 chids1 coords1 avail1 where
    1: "validate_block cid sp (bids, chids, coords, avail) (b, e) = Inr (bids1, chids1, coords1, avail1)"
    and 2: "rfold (validate_block cid sp) (bids1, chids1, coords1, avail1) xs =
      Inr (bids', chids', coords', avail')"
    using Cons.prems(1) by (auto simp: rbind_eq_Inr y)
  have le: "fst e \<le> snd e" using Cons.prems(2) by (auto simp: y split_beta)
  note B = validate_block_ok [OF 1 le]
  have R: "(\<forall>b \<in> fst ` set xs. block_valid sp b \<and> valid_id (output_block_id b)) \<and>
   scans (fst ` set coords1) (concat (map (\<lambda>x. block_entries (fst x)) xs)) (fst ` set coords') \<and>
   distinct (map (\<lambda>x. output_block_id (fst x)) xs) \<and> set bids1 \<inter> (\<lambda>x. output_block_id (fst x)) ` set xs = {}"
    using Cons.IH [OF 2] Cons.prems(2) by simp
  have "scans (fst ` set coords) (block_entries b @ concat (map (\<lambda>x. block_entries (fst x)) xs)) (fst ` set coords')"
    using B R by (intro scans_append [of _ _ "fst ` set coords1"]) simp_all
  then show ?case using B R by (simp add: y)
qed

definition component_valid :: "published_component \<Rightarrow> bool" where
  "component_valid c \<longleftrightarrow> valid_id (component_id c) \<and> valid_id (version_id c) \<and>
     0 < ls_rows (layout_spec c) \<and> 0 < ls_cols (layout_spec c) \<and> 0 < ls_effective_slots (layout_spec c) \<and>
     (\<forall>b \<in> set (blocks c). block_valid (layout_spec c) b \<and> valid_id (output_block_id b)) \<and>
     distinct (map output_block_id (blocks c)) \<and> distinct (map fst (component_entries c)) \<and>
     fst ` set (component_entries c) = fst ` set (coordinate_slots c)"

lemma validate_component_ok:
  assumes "validate_component c = Inr ()"
  shows "component_valid c"
proof -
  let ?sp = "layout_spec c" and ?xs = "zip (blocks c) (expected_ranges (layout_spec c))"
  have pos: "valid_id (component_id c)" "valid_id (version_id c)" "0 < ls_rows ?sp" "0 < ls_cols ?sp"
      "0 < ls_effective_slots ?sp" "0 < ls_partition_rows ?sp"
    and len: "length (blocks c) = length (expected_ranges ?sp)"
    using assms by (auto simp: validate_component_def Let_def split: if_splits)
  obtain bids' chids' coords avail where
    run: "rfold (validate_block (component_id c) ?sp) ([], [], [], []) ?xs = Inr (bids', chids', coords, avail)"
    and eq: "sort coords = coordinate_slots c"
    using assms by (auto simp: validate_component_def Let_def rbind_eq_Inr split: if_splits)
  have le: "\<forall>(_, lo, hi) \<in> set ?xs. lo \<le> hi"
  proof (clarify)
    fix b lo hi assume "(b, lo, hi) \<in> set ?xs"
    then have "(lo, hi) \<in> set (expected_ranges ?sp)" by (rule set_zip_rightD)
    then have "lo \<in> set (range_step (ls_rows ?sp) (ls_partition_rows ?sp))"
      and hi: "hi = min (lo + ls_partition_rows ?sp) (ls_rows ?sp)"
      by (auto simp: expected_ranges_def)
    then have "lo < ls_rows ?sp" using range_step_below [of lo "ls_rows ?sp"] pos by simp
    then show "lo \<le> hi" using hi pos by simp
  qed
  note B = validate_blocks_ok [OF run le]
  have m: "map fst ?xs = blocks c" using len by simp
  then have fs: "fst ` set ?xs = set (blocks c)" by (metis list.set_map)
  have M: "map (\<lambda>x. f (fst x)) ?xs = map f (blocks c)" for f :: "output_block_layout \<Rightarrow> 'x"
    by (rule trans [OF _ arg_cong [OF m, of "map f"]]) simp
  have B': "\<forall>b \<in> set (blocks c). block_valid ?sp b \<and> valid_id (output_block_id b)"
      "scans {} (component_entries c) (fst ` set coords)" "distinct (map output_block_id (blocks c))"
    using B unfolding component_entries_def M fs by simp_all
  have "fst ` set coords = fst ` set (coordinate_slots c)" by (simp flip: eq)
  moreover have "distinct (map fst (component_entries c))"
      "fst ` set coords = fst ` set (component_entries c)"
    using B'(2) unfolding scans_def by simp_all
  ultimately show ?thesis unfolding component_valid_def using pos(1-5) B'(1,3) by presburger
qed

end
