(* ===== verification/Delta_Facts.thy ===== *)
theory Delta_Facts
  imports Component_Facts
begin

text \<open>
  The segmented delta of \<open>strong_packed_coo.py\<close> as an operand: what the asserted invariants
  say, that decoding lists the active entries, where each entry lies in the pages of values
  and of columns, and that the leader lanes of the pages add up to the products of the entries.
\<close>

section \<open>The asserted invariants\<close>

definition entry_item :: "strong_entry option \<Rightarrow> ((int \<times> int) \<times> int) list" where
  "entry_item entry = (case entry of None \<Rightarrow> []
     | Some e \<Rightarrow> if se_value e = 0 then [] else [(se_coordinate e, se_value e)])"

definition segment_items :: "strong_segment \<Rightarrow> ((int \<times> int) \<times> int) list" where
  "segment_items g = concat (map entry_item (entries g))"

definition delta_entries :: "segmented_delta_state \<Rightarrow> ((int \<times> int) \<times> int) list" where
  "delta_entries d = concat (map segment_items (segments d))"

definition entry_ok :: "segmented_delta_state \<Rightarrow> int \<Rightarrow> strong_entry option \<Rightarrow> bool" where
  "entry_ok d owner entry \<longleftrightarrow> (\<forall>e. entry = Some e \<longrightarrow> se_row e = owner \<and>
     0 \<le> se_row e \<and> se_row e < sd_rows d \<and> 0 \<le> se_col e \<and> se_col e < sd_cols d \<and>
     \<bar>se_value e\<bar> \<le> matrix_value_bound d)"

definition segment_ok :: "segmented_delta_state \<Rightarrow> int \<Rightarrow> strong_segment \<Rightarrow> bool" where
  "segment_ok d ordinal g \<longleftrightarrow> page_ordinal g = ordinal div segments_per_page d \<and>
     slot_start g = (ordinal mod segments_per_page d) * segment_width d \<and>
     int (length (entries g)) = segment_width d \<and> 0 \<le> owner_row g \<and> owner_row g < sd_rows d \<and>
     (\<forall>entry \<in> set (entries g). entry_ok d (owner_row g) entry)"

lemma assert_entries_Inr:
  "rfold (assert_entry d owner) seen es = Inr seen' \<Longrightarrow>
     (\<forall>entry \<in> set es. entry_ok d owner entry) \<and>
     seen' = rev (map fst (concat (map entry_item es))) @ seen"
proof (induction es arbitrary: seen)
  case Nil
  then show ?case by simp
next
  case (Cons entry es)
  then obtain seen1 where 1: "assert_entry d owner seen entry = Inr seen1"
      and 2: "rfold (assert_entry d owner) seen1 es = Inr seen'"
    by (auto simp: rbind_eq_Inr)
  have "entry_ok d owner entry \<and> seen1 = rev (map fst (entry_item entry)) @ seen"
    using 1 by (auto simp: assert_entry_def entry_ok_def entry_item_def split: option.splits if_splits)
  then show ?case using Cons.IH [OF 2] by simp
qed

lemma assert_segments_Inr:
  "rfold (assert_segment d) seen ogs = Inr seen' \<Longrightarrow>
     (\<forall>(ordinal, g) \<in> set ogs. segment_ok d ordinal g) \<and>
     seen' = rev (map fst (concat (map (\<lambda>og. segment_items (snd og)) ogs))) @ seen"
proof (induction ogs arbitrary: seen)
  case Nil
  then show ?case by simp
next
  case (Cons og ogs)
  obtain ordinal g where og: "og = (ordinal, g)" by (cases og)
  from Cons.prems obtain seen1 where 1: "assert_segment d seen (ordinal, g) = Inr seen1"
      and 2: "rfold (assert_segment d) seen1 ogs = Inr seen'"
    by (auto simp: rbind_eq_Inr og)
  from 1 have run: "rfold (assert_entry d (owner_row g)) seen (entries g) = Inr seen1"
    and shape: "page_ordinal g = ordinal div segments_per_page d"
      "slot_start g = (ordinal mod segments_per_page d) * segment_width d"
      "int (length (entries g)) = segment_width d" "0 \<le> owner_row g" "owner_row g < sd_rows d"
    by (auto simp: assert_segment_def split: if_splits)
  note E = assert_entries_Inr [OF run]
  then have "segment_ok d ordinal g" using shape by (simp add: segment_ok_def)
  then show ?case using Cons.IH [OF 2] E by (simp add: og segment_items_def)
qed

definition delta_ok :: "segmented_delta_state \<Rightarrow> bool" where
  "delta_ok d \<longleftrightarrow> 0 < sd_rows d \<and> 0 < sd_cols d \<and> 0 < sd_effective_slots d \<and>
     \<not> bad_segment_width (segment_width d) (sd_effective_slots d) \<and> valid_id (sd_version_id d) \<and>
     (\<forall>k < length (segments d). segment_ok d (int k) (segments d ! k)) \<and>
     distinct (map fst (delta_entries d))"

lemma assert_state_invariants_Inr:
  assumes "assert_state_invariants d = Inr ()"
  shows "delta_ok d"
proof -
  from assms obtain seen where
    run: "rfold (assert_segment d) [] (py_enumerate (segments d)) = Inr seen" and
    rest: "distinct seen" "0 < sd_rows d" "0 < sd_cols d" "0 < sd_effective_slots d"
      "\<not> bad_segment_width (segment_width d) (sd_effective_slots d)" "valid_id (sd_version_id d)"
    by (auto simp: assert_state_invariants_def rbind_eq_Inr split: if_splits)
  note S = assert_segments_Inr [OF run]
  have "map (\<lambda>og. segment_items (snd og)) (py_enumerate (segments d)) = map segment_items (segments d)"
    by (rule trans [OF _ arg_cong [OF map_snd_py_enumerate, of "map segment_items"]])
      (simp only: map_map comp_def)
  then have "distinct (map fst (delta_entries d))"
    using S rest(1) by (simp add: delta_entries_def)
  moreover have "segment_ok d (int k) (segments d ! k)" if "k < length (segments d)" for k
    using S that by (auto simp: set_py_enumerate)
  ultimately show ?thesis using rest by (simp add: delta_ok_def)
qed

section \<open>Decoding\<close>

lemma update_fresh: "k \<notin> fst ` set xs \<Longrightarrow> AList.update k v xs = xs @ [(k, v)]"
  by (induction xs) auto

lemma decode_entry_Inr: "decode_entry dec entry = Inr dec' \<Longrightarrow> dec' = dec @ entry_item entry"
  by (auto simp: decode_entry_def entry_item_def update_fresh split: option.splits if_splits)

lemma decode_entries_Inr:
  "rfold decode_entry dec es = Inr dec' \<Longrightarrow> dec' = dec @ concat (map entry_item es)"
  by (induction es arbitrary: dec) (fastforce simp: rbind_eq_Inr dest: decode_entry_Inr)+

lemma decode_segments_Inr:
  "rfold (\<lambda>dec g. rfold decode_entry dec (entries g)) dec gs = Inr dec' \<Longrightarrow>
     dec' = dec @ concat (map segment_items gs)"
  by (induction gs arbitrary: dec)
    (fastforce simp: rbind_eq_Inr segment_items_def dest: decode_entries_Inr)+

lemma decode_segmented_delta_Inr:
  assumes "decode_segmented_delta d = Inr dec"
  shows "delta_ok d" and "dec = delta_entries d"
  using assms assert_state_invariants_Inr [of d] decode_segments_Inr [of "[]" "segments d" dec]
  by (auto simp: decode_segmented_delta_def rbind_eq_Inr delta_entries_def)

lemma delta_entries_in_matrix:
  assumes "delta_ok d"
  shows "matrix_ok (sd_rows d) (sd_cols d) (delta_entries d)"
proof -
  have "0 \<le> r \<and> r < sd_rows d \<and> 0 \<le> c \<and> c < sd_cols d \<and> v \<noteq> 0"
    if m: "((r, c), v) \<in> set (delta_entries d)" for r c v
  proof -
    obtain k entry where k: "k < length (segments d)" "entry \<in> set (entries (segments d ! k))"
        and item: "((r, c), v) \<in> set (entry_item entry)"
      using m unfolding delta_entries_def segment_items_def
      by (fastforce simp: in_set_conv_nth [of _ "segments d"])
    have "entry_ok d (owner_row (segments d ! k)) entry"
      using assms k by (auto simp: delta_ok_def segment_ok_def)
    then show ?thesis using item
      by (auto simp: entry_ok_def entry_item_def se_coordinate_def split: option.splits if_splits)
  qed
  then show ?thesis by (auto simp: matrix_ok_def)
qed

section \<open>The pages\<close>

text \<open>The two loops that fill the pages differ in the field they store.\<close>

definition put_field ::
  "(strong_entry \<Rightarrow> int) \<Rightarrow> strong_segment \<Rightarrow> int list list \<Rightarrow> int \<times> strong_entry option \<Rightarrow> int list list"
where
  "put_field f g pages = (\<lambda>(offset, entry). case entry of None \<Rightarrow> pages | Some e \<Rightarrow>
     pages[nat (page_ordinal g) :=
       (pages ! nat (page_ordinal g))[nat (slot_start g + offset) := f e]])"

definition put_segment ::
  "(strong_entry \<Rightarrow> int) \<Rightarrow> int list list \<Rightarrow> strong_segment \<Rightarrow> int list list"
where
  "put_segment f pages g = foldl (put_field f g) pages (py_enumerate (entries g))"

lemma store_columns_put: "store_columns = put_segment se_col"
  by (intro ext) (simp add: store_columns_def put_segment_def put_field_def [abs_def])

lemma delta_page_values_put: "delta_page_values d blank = foldl (put_segment se_value) blank (segments d)"
  by (simp add: delta_page_values_def put_segment_def [abs_def] put_field_def [abs_def])

definition paged :: "nat \<Rightarrow> int list list \<Rightarrow> bool" where
  "paged n pages \<longleftrightarrow> (\<forall>page \<in> set pages. length page = n)"

lemma paged_nth: "paged n pages \<Longrightarrow> k < length pages \<Longrightarrow> length (pages ! k) = n"
  by (simp add: paged_def)

lemma put_field_shape:
  "paged n pages \<Longrightarrow> nat (page_ordinal g) < length pages \<Longrightarrow>
     paged n (put_field f g pages x) \<and> length (put_field f g pages x) = length pages"
  by (auto simp: put_field_def paged_def split: option.split prod.split dest!: set_update_subset_insert [THEN subsetD])

text \<open>A cell after the first entries of a segment have been stored.\<close>

lemma put_fields_cell:
  assumes "paged n pages" and page: "nat (page_ordinal g) < length pages"
    and start: "0 \<le> slot_start g" "nat (slot_start g) + length es \<le> n"
  shows "paged n (foldl (put_field f g) pages (py_enumerate es)) \<and>
    length (foldl (put_field f g) pages (py_enumerate es)) = length pages \<and>
    (\<forall>k i. k < length pages \<longrightarrow> i < n \<longrightarrow> foldl (put_field f g) pages (py_enumerate es) ! k ! i =
      (if k = nat (page_ordinal g) \<and> nat (slot_start g) \<le> i \<and> i < nat (slot_start g) + length es
       then case es ! (i - nat (slot_start g)) of None \<Rightarrow> pages ! k ! i | Some e \<Rightarrow> f e
       else pages ! k ! i))"
  using start(2)
proof (induction es rule: rev_induct)
  case Nil
  then show ?case using assms(1) by (simp add: py_enumerate_def)
next
  case (snoc entry es)
  have enum: "py_enumerate (es @ [entry]) = py_enumerate es @ [(int (length es), entry)]"
    by (simp add: py_enumerate_def)
  let ?p = "foldl (put_field f g) pages (py_enumerate es)"
  have IH: "paged n ?p" "length ?p = length pages"
    "\<And>k i. k < length pages \<Longrightarrow> i < n \<Longrightarrow> ?p ! k ! i =
      (if k = nat (page_ordinal g) \<and> nat (slot_start g) \<le> i \<and> i < nat (slot_start g) + length es
       then case es ! (i - nat (slot_start g)) of None \<Rightarrow> pages ! k ! i | Some e \<Rightarrow> f e
       else pages ! k ! i)"
    using snoc by auto
  have at: "nat (slot_start g + int (length es)) = nat (slot_start g) + length es"
    using start(1) by (simp add: nat_add_distrib)
  have len: "nat (slot_start g) + length es < n" using snoc.prems by simp
  have "put_field f g ?p (int (length es), entry) ! k ! i =
      (if k = nat (page_ordinal g) \<and> nat (slot_start g) \<le> i \<and> i < nat (slot_start g) + length (es @ [entry])
       then case (es @ [entry]) ! (i - nat (slot_start g)) of None \<Rightarrow> pages ! k ! i | Some e \<Rightarrow> f e
       else pages ! k ! i)" if ki: "k < length pages" "i < n" for k i
  proof (cases "k = nat (page_ordinal g) \<and> i = nat (slot_start g) + length es")
    case True
    then have "length (?p ! k) = n" using IH ki by (simp add: paged_nth)
    then show ?thesis using True ki IH page
      by (auto simp: put_field_def at split: option.split)
  next
    case False
    have "put_field f g ?p (int (length es), entry) ! k ! i = ?p ! k ! i"
    proof (cases "k = nat (page_ordinal g)")
      case True
      then show ?thesis using False page IH(2)
        by (auto simp: put_field_def at split: option.split)
    next
      case other: False
      then show ?thesis by (auto simp: put_field_def split: option.split)
    qed
    then show ?thesis using False ki IH(3) [OF ki] by (auto simp: nth_append less_diff_conv2)
  qed
  then show ?case using put_field_shape [OF IH(1)] IH(2) page by (auto simp: enum)
qed

text \<open>All segments: lane \<open>i\<close> of page \<open>k\<close> belongs to segment \<open>k * spp + i div w\<close>.\<close>

definition delta_cell :: "(strong_entry \<Rightarrow> int) \<Rightarrow> int \<Rightarrow> strong_entry option \<Rightarrow> int" where
  "delta_cell f dflt entry = (case entry of None \<Rightarrow> dflt | Some e \<Rightarrow> f e)"

lemma segment_of_lane:
  fixes w spp :: nat
  assumes "0 < w"
  shows "(k = o' div spp \<and> (o' mod spp) * w \<le> i \<and> i < (o' mod spp) * w + w \<and> 0 < spp) \<longleftrightarrow>
    (i div w < spp \<and> o' = k * spp + i div w)"
proof
  assume L: "k = o' div spp \<and> (o' mod spp) * w \<le> i \<and> i < (o' mod spp) * w + w \<and> 0 < spp"
  then have "i div w = o' mod spp" using assms
    by (metis add.commute div_nat_eqI mult.commute mult_Suc_right)
  then show "i div w < spp \<and> o' = k * spp + i div w" using L by (simp add: div_mult_mod_eq)
next
  assume R: "i div w < spp \<and> o' = k * spp + i div w"
  then have "o' div spp = k" "o' mod spp = i div w" by simp_all
  moreover have "i div w * w \<le> i" by simp
  moreover have "i < i div w * w + w"
    using assms by (metis add.commute dividend_less_div_times)
  ultimately show "k = o' div spp \<and> (o' mod spp) * w \<le> i \<and> i < (o' mod spp) * w + w \<and> 0 < spp"
    using R by simp
qed

lemma put_segments_cell:
  assumes ok: "\<And>m. m < length gs \<Longrightarrow> nat (page_ordinal (gs ! m)) = m div spp \<and>
      0 \<le> slot_start (gs ! m) \<and> nat (slot_start (gs ! m)) = (m mod spp) * w \<and> length (entries (gs ! m)) = w"
    and pos: "0 < w" "0 < spp" and fit: "spp * w \<le> n"
    and pages: "\<And>m. m < length gs \<Longrightarrow> m div spp < length blank" and blank: "paged n blank"
    and ki: "k < length blank" "i < n"
  shows "foldl (put_segment f) blank gs ! k ! i =
    (if i div w < spp \<and> k * spp + i div w < length gs
     then delta_cell f (blank ! k ! i) (entries (gs ! (k * spp + i div w)) ! (i mod w))
     else blank ! k ! i) \<and> paged n (foldl (put_segment f) blank gs) \<and>
    length (foldl (put_segment f) blank gs) = length blank"
  using ok pages ki
proof (induction gs arbitrary: k i rule: rev_induct)
  case Nil
  then show ?case using blank by simp
next
  case (snoc g gs)
  let ?p = "foldl (put_segment f) blank gs" and ?m = "length gs"
  have IH: "?p ! k ! i = (if i div w < spp \<and> k * spp + i div w < length gs
     then delta_cell f (blank ! k ! i) (entries (gs ! (k * spp + i div w)) ! (i mod w))
     else blank ! k ! i)" "paged n ?p" "length ?p = length blank"
    if "k < length blank" "i < n" for k i
  proof -
    have a: "nat (page_ordinal (gs ! m)) = m div spp \<and> 0 \<le> slot_start (gs ! m) \<and>
        nat (slot_start (gs ! m)) = (m mod spp) * w \<and> length (entries (gs ! m)) = w"
      "m div spp < length blank" if "m < length gs" for m
      using snoc.prems(1,2) [of m] that by (simp_all add: nth_append)
    show "?p ! k ! i = (if i div w < spp \<and> k * spp + i div w < length gs
       then delta_cell f (blank ! k ! i) (entries (gs ! (k * spp + i div w)) ! (i mod w))
       else blank ! k ! i)" "paged n ?p" "length ?p = length blank"
      using snoc.IH [OF a that] by simp_all
  qed
  have shape: "paged n ?p" "length ?p = length blank" using IH(2,3) [OF snoc.prems(3,4)] by simp_all
  have g: "nat (page_ordinal g) = ?m div spp" "0 \<le> slot_start g" "nat (slot_start g) = (?m mod spp) * w"
      "length (entries g) = w" and page: "?m div spp < length blank"
    using snoc.prems(1,2) [of ?m] by simp_all
  have "?m mod spp + 1 \<le> spp" using pos by (simp add: Suc_le_eq)
  then have "(?m mod spp + 1) * w \<le> spp * w" by (rule mult_le_mono1)
  then have room: "nat (slot_start g) + length (entries g) \<le> n" using fit by (simp add: g)
  note C = put_fields_cell [OF shape(1) _ g(2) room, of f, folded put_segment_def, unfolded g shape(2),
    rule_format, OF page]
  have old: "?p ! k ! i = blank ! k ! i" if "i div w < spp" "k * spp + i div w = ?m"
    using IH(1) [OF snoc.prems(3,4)] that by simp
  have C1: "put_segment f ?p g ! k ! i =
    (if k = ?m div spp \<and> ?m mod spp * w \<le> i \<and> i < ?m mod spp * w + w
     then case entries g ! (i - ?m mod spp * w) of None \<Rightarrow> ?p ! k ! i | Some e \<Rightarrow> f e
     else ?p ! k ! i)"
    using C snoc.prems(3,4) by blast
  have cell: "put_segment f ?p g ! k ! i =
    (if i div w < spp \<and> k * spp + i div w = ?m
     then delta_cell f (blank ! k ! i) (entries g ! (i mod w)) else ?p ! k ! i)"
  proof (cases "i div w < spp \<and> k * spp + i div w = ?m")
    case True
    then have R: "i div w < spp \<and> ?m = k * spp + i div w" by simp
    note L = segment_of_lane [OF pos(1), THEN iffD2, OF R]
    have at: "i - ?m mod spp * w = i mod w" using R by (simp add: minus_div_mult_eq_mod)
    have "put_segment f ?p g ! k ! i = (case entries g ! (i - ?m mod spp * w) of None \<Rightarrow> ?p ! k ! i | Some e \<Rightarrow> f e)"
      using C1 L by presburger
    then show ?thesis using True old unfolding at delta_cell_def by presburger
  next
    case False
    then have "\<not> (k = ?m div spp \<and> ?m mod spp * w \<le> i \<and> i < ?m mod spp * w + w)"
      using segment_of_lane [OF pos(1), of k ?m spp i] pos(2) by auto
    then show ?thesis using C1 False by presburger
  qed
  have shape': "paged n (put_segment f ?p g)" "length (put_segment f ?p g) = length blank"
    using C by blast+
  have "put_segment f ?p g ! k ! i =
    (if i div w < spp \<and> k * spp + i div w < length (gs @ [g])
     then delta_cell f (blank ! k ! i) (entries ((gs @ [g]) ! (k * spp + i div w)) ! (i mod w))
     else blank ! k ! i)"
  proof (cases "k * spp + i div w" ?m rule: linorder_cases)
    case less
    then show ?thesis using cell IH(1) [OF snoc.prems(3,4)] by (simp add: nth_append)
  next
    case equal
    then show ?thesis using cell IH(1) [OF snoc.prems(3,4)] by simp
  next
    case greater
    then show ?thesis using cell IH(1) [OF snoc.prems(3,4)] by simp
  qed
  then show ?case using shape' by simp
qed

section \<open>The leader lanes\<close>

lemma delta_dims:
  assumes "delta_ok d"
  shows "2 \<le> segment_width d" and "segment_width d \<le> sd_effective_slots d"
    and "1 \<le> segments_per_page d" and "segments_per_page d * segment_width d \<le> sd_effective_slots d"
    and "\<exists>m. segment_width d = 2 ^ m"
proof -
  show w: "2 \<le> segment_width d" "segment_width d \<le> sd_effective_slots d"
    using assms by (auto simp: delta_ok_def bad_segment_width_def)
  show "\<exists>m. segment_width d = 2 ^ m"
    using assms by (intro power_of_two_int) (auto simp: delta_ok_def bad_segment_width_def)
  show "1 \<le> segments_per_page d"
    using w by (simp add: segments_per_page_def int_one_le_iff_zero_less pos_imp_zdiv_pos_iff)
  show "segments_per_page d * segment_width d \<le> sd_effective_slots d"
    using div_mult_mod_eq [of "sd_effective_slots d" "segment_width d"] w
      pos_mod_sign [of "segment_width d" "sd_effective_slots d"]
    unfolding segments_per_page_def by arith
qed

lemma segment_position:
  assumes "delta_ok d" and "m < length (segments d)"
  shows "nat (page_ordinal (segments d ! m)) = m div nat (segments_per_page d)"
    and "slot_start (segments d ! m) = int ((m mod nat (segments_per_page d)) * nat (segment_width d))"
    and "length (entries (segments d ! m)) = nat (segment_width d)"
    and "page_ordinal (segments d ! m) = int (m div nat (segments_per_page d))"
proof -
  obtain spp where spp: "segments_per_page d = int spp"
    using delta_dims(3) [OF assms(1)] by (metis nonneg_int_cases order_trans zero_le_one)
  obtain w where w: "segment_width d = int w"
    using delta_dims(1) [OF assms(1)] by (metis nonneg_int_cases order_trans zero_le_numeral)
  have ok: "segment_ok d (int m) (segments d ! m)" using assms by (simp add: delta_ok_def)
  then show "slot_start (segments d ! m) = int ((m mod nat (segments_per_page d)) * nat (segment_width d))"
    by (simp add: segment_ok_def spp w zmod_int)
  show "page_ordinal (segments d ! m) = int (m div nat (segments_per_page d))"
    using ok by (simp add: segment_ok_def spp zdiv_int)
  then show "nat (page_ordinal (segments d ! m)) = m div nat (segments_per_page d)" by simp
  show "length (entries (segments d ! m)) = nat (segment_width d)"
    using ok by (simp add: segment_ok_def w)
qed

lemma page_metadata_cells:
  assumes ok: "delta_ok d" and metas: "client_b_page_metadata d = Inr metas"
  defines "w \<equiv> nat (segment_width d)" and "spp \<equiv> nat (segments_per_page d)"
    and "n \<equiv> nat (sd_effective_slots d)"
  shows "\<And>m. m < length (segments d) \<Longrightarrow> m div spp < length metas"
    and "\<And>k. k < length metas \<Longrightarrow> cbm_page_id (metas ! k) = page_id_of (int k)"
    and "\<And>k i. k < length metas \<Longrightarrow> i < n \<Longrightarrow> global_column_indices (metas ! k) ! i =
      (if i div w < spp \<and> k * spp + i div w < length (segments d)
       then delta_cell se_col (-1) (entries (segments d ! (k * spp + i div w)) ! (i mod w)) else - 1)"
    and "\<And>k i. k < length metas \<Longrightarrow> i < n \<Longrightarrow> page_values (sd_effective_slots d) d metas ! k ! i =
      (if i div w < spp \<and> k * spp + i div w < length (segments d)
       then delta_cell se_value 0 (entries (segments d ! (k * spp + i div w)) ! (i mod w)) else 0)"
    and "length (page_values (sd_effective_slots d) d metas) = length metas"
    and "\<And>k. k < length metas \<Longrightarrow> length (global_column_indices (metas ! k)) = n \<and>
      length (page_values (sd_effective_slots d) d metas ! k) = n"
proof -
  let ?N = "length (segments d)"
  note dims = delta_dims [OF ok]
  have pos: "0 < w" "0 < spp" using dims by (simp_all add: w_def spp_def)
  have sppi: "segments_per_page d = int spp" using dims(3) by (simp add: spp_def)
  have "int (spp * w) \<le> int n" using dims by (simp add: w_def spp_def n_def)
  then have fit: "spp * w \<le> n" by (simp only: of_nat_le_iff)
  define pc where "pc = (?N + spp - 1) div spp"
  have "(int ?N + int spp - 1) div int spp = int pc"
    using pos(2) by (simp add: pc_def zdiv_int of_nat_diff algebra_simps)
  then obtain shapes where "cloud_page_shapes d = Inr shapes" and shapes: "length shapes = pc"
    using metas by (auto simp: client_b_page_metadata_def cloud_page_shapes_def rbind_eq_Inr sppi Let_def)
  moreover define blank where "blank = replicate pc (replicate n (- 1 :: int))"
  moreover have "map (\<lambda>_. replicate n (- 1 :: int)) shapes = blank"
    using shapes by (simp add: blank_def map_replicate_const)
  ultimately have metas': "metas = map (\<lambda>(k, columns). \<lparr>cbm_page_id = page_id_of k,
      cbm_version_id = sd_version_id d, global_column_indices = columns\<rparr>)
      (py_enumerate (foldl (put_segment se_col) blank (segments d)))"
    using metas by (simp add: client_b_page_metadata_def store_columns_put n_def)
  have seg: "nat (page_ordinal (segments d ! m)) = m div spp \<and> 0 \<le> slot_start (segments d ! m) \<and>
      nat (slot_start (segments d ! m)) = (m mod spp) * w \<and> length (entries (segments d ! m)) = w"
    if "m < ?N" for m
    unfolding segment_position [OF ok that] spp_def w_def
    by (simp only: of_nat_0_le_iff nat_int refl simp_thms)
  have pages: "m div spp < pc" if "m < ?N" for m
  proof -
    have "m div spp * spp \<le> m" "(m div spp + 1) * spp = m div spp * spp + spp" by simp_all
    then have "(m div spp + 1) * spp \<le> ?N + spp - 1" using that by linarith
    then show ?thesis using pos(2) less_eq_div_iff_mult_less_eq [of spp "m div spp + 1" "?N + spp - 1"]
      by (simp add: pc_def)
  qed
  have cells: "foldl (put_segment f) (replicate pc (replicate n v)) (segments d) ! k ! i =
      (if i div w < spp \<and> k * spp + i div w < ?N
       then delta_cell f v (entries (segments d ! (k * spp + i div w)) ! (i mod w)) else v) \<and>
      length (foldl (put_segment f) (replicate pc (replicate n v)) (segments d)) = pc \<and>
      paged n (foldl (put_segment f) (replicate pc (replicate n v)) (segments d))"
    if "k < pc" "i < n" for f v k i
    using put_segments_cell [OF seg pos fit, of "replicate pc (replicate n v)" k i f] pages that
    by (simp add: paged_def)
  have npos: "0 < n" using dims by (simp add: n_def)
  have len: "length (foldl (put_segment f) (replicate pc (replicate n v)) (segments d)) = pc" for f v
  proof (cases pc)
    case 0
    then have "segments d = []" using pages by fastforce
    then show ?thesis by simp
  next
    case (Suc p')
    then show ?thesis using cells [of 0 0] npos by simp
  qed
  have lm: "length metas = pc" by (simp add: metas' len blank_def)
  show "m div spp < length metas" if "m < ?N" for m using pages [OF that] by (simp add: lm)
  show "cbm_page_id (metas ! k) = page_id_of (int k)" if "k < length metas" for k
    using that by (simp add: metas' lm len blank_def)
  show "global_column_indices (metas ! k) ! i =
      (if i div w < spp \<and> k * spp + i div w < length (segments d)
       then delta_cell se_col (-1) (entries (segments d ! (k * spp + i div w)) ! (i mod w)) else - 1)"
    if "k < length metas" "i < n" for k i
    using that cells [of k i se_col "- 1"] by (simp add: metas' lm len blank_def)
  have pv: "page_values (sd_effective_slots d) d metas =
      foldl (put_segment se_value) (replicate pc (replicate n 0)) (segments d)"
    by (simp add: page_values_def delta_page_values_put map_replicate_const lm n_def)
  show "page_values (sd_effective_slots d) d metas ! k ! i =
      (if i div w < spp \<and> k * spp + i div w < length (segments d)
       then delta_cell se_value 0 (entries (segments d ! (k * spp + i div w)) ! (i mod w)) else 0)"
    if "k < length metas" "i < n" for k i
    using that cells [of k i se_value 0] by (simp add: pv lm)
  show "length (page_values (sd_effective_slots d) d metas) = length metas" by (simp add: pv lm len)
  show "length (global_column_indices (metas ! k)) = n \<and>
      length (page_values (sd_effective_slots d) d metas ! k) = n" if "k < length metas" for k
  proof -
    have k: "k < pc" using that by (simp add: lm)
    have "length (foldl (put_segment f) (replicate pc (replicate n v)) (segments d) ! k) = n" for f v
      using cells [OF k npos, of f v] k by (simp add: paged_nth)
    then show ?thesis using k unfolding pv by (simp add: metas' len blank_def)
  qed
qed

definition entry_term :: "int list \<Rightarrow> strong_entry option \<Rightarrow> int" where
  "entry_term x entry = (case entry of None \<Rightarrow> 0 | Some e \<Rightarrow> se_value e * x ! nat (se_col e))"

definition segment_total :: "int list \<Rightarrow> strong_segment \<Rightarrow> int" where
  "segment_total x g = (\<Sum>entry \<leftarrow> entries g. entry_term x entry)"

lemma leader_lane:
  assumes ok: "delta_ok d" and metas: "client_b_page_metadata d = Inr metas" and m: "m < length (segments d)"
  defines "k \<equiv> nat (page_ordinal (segments d ! m))"
  shows "page_lane x d (page_values (sd_effective_slots d) d metas ! k) (global_column_indices (metas ! k))
    (nat (slot_start (segments d ! m))) = segment_total x (segments d ! m)"
    and "nat (slot_start (segments d ! m)) < nat (sd_effective_slots d)" and "k < length metas"
proof -
  define w where "w = nat (segment_width d)"
  define spp where "spp = nat (segments_per_page d)"
  define n where "n = nat (sd_effective_slots d)"
  define g where "g = segments d ! m"
  let ?p = "(m mod spp) * w"
  note dims = delta_dims [OF ok]
  note cells = page_metadata_cells [OF ok metas, folded w_def spp_def n_def]
  have pos: "0 < w" "0 < spp" using dims by (simp_all add: w_def spp_def)
  have wi: "segment_width d = int w" and si: "segments_per_page d = int spp"
    using dims by (simp_all add: w_def spp_def)
  have k: "k = m div spp" and p: "nat (slot_start g) = ?p" and len: "length (entries g) = w"
    using segment_position [OF ok m] unfolding k_def g_def spp_def w_def by (simp_all only: nat_int)
  show kl: "k < length metas" unfolding k by (rule cells(1) [OF m])
  have "m mod spp + 1 \<le> spp" using pos by (simp add: Suc_le_eq)
  then have room: "(m mod spp + 1) * w \<le> spp * w" by (rule mult_le_mono1)
  have "int (spp * w) \<le> int n" using dims by (simp add: n_def wi si)
  then have fit: "spp * w \<le> n" by (simp only: of_nat_le_iff)
  have in_page: "?p + j < n" if "j < w" for j using that room fit by simp
  show "nat (slot_start (segments d ! m)) < nat (sd_effective_slots d)"
    using in_page [OF pos(1)] p by (simp add: g_def n_def)
  have lead: "int ?p < segments_per_page d * segment_width d \<and> int ?p mod segment_width d = 0"
    using pos by (simp add: wi si flip: of_nat_mult)
  have cell: "page_values (sd_effective_slots d) d metas ! k ! (?p + j) *
      xval x (global_column_indices (metas ! k) ! (?p + j)) = entry_term x (entries g ! j)" if "j < w" for j
  proof -
    have at: "(?p + j) div w = m mod spp" "(?p + j) mod w = j" "k * spp + m mod spp = m"
      using that pos by (simp_all add: k)
    have "m mod spp < spp" using pos by simp
    then have c: "global_column_indices (metas ! k) ! (?p + j) = delta_cell se_col (-1) (entries g ! j)"
      and v: "page_values (sd_effective_slots d) d metas ! k ! (?p + j) = delta_cell se_value 0 (entries g ! j)"
      using cells(3) [OF kl in_page [OF that]] cells(4) [OF kl in_page [OF that]] m
      unfolding at g_def by simp_all
    have "entries g ! j \<in> set (entries g)" using that len by simp
    moreover have "segment_ok d (int m) g" using ok m by (simp add: delta_ok_def g_def)
    ultimately have "entry_ok d (owner_row g) (entries g ! j)" by (simp add: segment_ok_def)
    then show ?thesis unfolding c v
      by (auto simp: delta_cell_def entry_term_def entry_ok_def xval_def split: option.split)
  qed
  have "page_lane x d (page_values (sd_effective_slots d) d metas ! k) (global_column_indices (metas ! k)) ?p =
      (\<Sum>j < w. entry_term x (entries g ! j))"
    unfolding page_lane_def if_P [OF lead] w_def [symmetric] using cell by simp
  also have "\<dots> = segment_total x g"
    by (simp add: segment_total_def len sum_list_sum_nth atLeast0LessThan)
  finally show "page_lane x d (page_values (sd_effective_slots d) d metas ! k)
      (global_column_indices (metas ! k)) (nat (slot_start (segments d ! m))) = segment_total x (segments d ! m)"
    by (simp only: p [unfolded g_def] g_def)
qed

lemma segment_items_total:
  assumes "segment_ok d m g"
  shows "row_total (spmv_terms (segment_items g) x) r = (if owner_row g = r then segment_total x g else 0)"
proof -
  have item: "row_total (spmv_terms (entry_item entry) x) r =
      (if owner_row g = r then entry_term x entry else 0)" if "entry \<in> set (entries g)" for entry
    using assms that
    by (auto simp: segment_ok_def entry_ok_def entry_item_def entry_term_def spmv_terms_def
        se_coordinate_def split: option.split)
  have "row_total (spmv_terms (segment_items g) x) r =
      (\<Sum>entry \<leftarrow> entries g. row_total (spmv_terms (entry_item entry) x) r)"
    by (simp add: segment_items_def row_total_entries_concat comp_def)
  also have "\<dots> = (\<Sum>entry \<leftarrow> entries g. if owner_row g = r then entry_term x entry else 0)"
    by (intro arg_cong [where f = sum_list] map_cong refl) (rule item)
  finally show ?thesis by (simp add: segment_total_def)
qed

end
