(* ===== verification/Coverage_Facts.thy ===== *)
theory Coverage_Facts
  imports Delta_Facts
begin

text \<open>
  The shares of each kind of source cover its entries: if every share carries the lanes of its
  source, the mapped lanes of the shares add up, row by row, to the products of the entries.
\<close>

section \<open>Covering\<close>

definition share_sum :: "(nat \<Rightarrow> int) \<Rightarrow> output_share \<Rightarrow> int \<Rightarrow> int" where
  "share_sum f s r = (\<Sum>(p, l) \<leftarrow> slot_to_logical s. if l = r then f (nat p) else 0)"

definition covers ::
  "(string \<times> string \<Rightarrow> (nat \<Rightarrow> int) \<Rightarrow> bool) \<Rightarrow> int list \<Rightarrow> output_share list \<Rightarrow>
     ((int \<times> int) \<times> int) list \<Rightarrow> bool"
where
  "covers P x ss es \<longleftrightarrow> (\<exists>fs. list_all2 (\<lambda>s f. P (share_id s) f) ss fs \<and>
     (\<forall>r. (\<Sum>(s, f) \<leftarrow> zip ss fs. share_sum f s r) = row_total (spmv_terms es x) r))"

lemma covers_Nil [simp]: "covers P x [] []"
  by (simp add: covers_def spmv_terms_def)

lemma covers_append:
  assumes "covers P x ss es" and "covers P x ss' es'"
  shows "covers P x (ss @ ss') (es @ es')"
proof -
  obtain fs fs' where
    1: "list_all2 (\<lambda>s f. P (share_id s) f) ss fs"
      "\<forall>r. (\<Sum>(s, f) \<leftarrow> zip ss fs. share_sum f s r) = row_total (spmv_terms es x) r" and
    2: "list_all2 (\<lambda>s f. P (share_id s) f) ss' fs'"
      "\<forall>r. (\<Sum>(s, f) \<leftarrow> zip ss' fs'. share_sum f s r) = row_total (spmv_terms es' x) r"
    using assms unfolding covers_def by blast
  have "length ss = length fs" using 1(1) by (rule list_all2_lengthD)
  then show ?thesis
    unfolding covers_def using 1 2
    by (intro exI [of _ "fs @ fs'"]) (simp add: list_all2_appendI)
qed

lemma covers_concat:
  "\<forall>a \<in> set as. covers P x (S a) (T a) \<Longrightarrow> covers P x (concat (map S as)) (concat (map T as))"
  by (induction as) (simp_all add: covers_append)

lemma covers_single:
  assumes "P (share_id s) f" and "\<And>r. share_sum f s r = row_total (spmv_terms es x) r"
  shows "covers P x [s] es"
  unfolding covers_def using assms by (intro exI [of _ "[f]"]) simp

lemma sum_list_py_enumerate:
  "(\<Sum>(p, l) \<leftarrow> py_enumerate xs. g p l) = (\<Sum>i < length xs. g (int i) (xs ! i))" for g :: "int \<Rightarrow> 'a \<Rightarrow> int"
  by (simp add: sum_list_sum_nth atLeast0LessThan)

section \<open>Components\<close>

lemma block_covers:
  assumes b: "block_valid sp b" and served: "chunks b \<noteq> [] \<Longrightarrow> P (cid, output_block_id b) (block_lane x b)"
  shows "covers P x (block_share cid b) (block_entries b)"
proof (cases "chunks b = []")
  case True
  then show ?thesis by (simp add: block_share_def block_entries_def)
next
  case False
  let ?s = "\<lparr>os_component_id = cid, os_output_block_id = output_block_id b,
    slot_to_logical = py_enumerate (take (active_rows b) (row_map b))\<rparr>"
  have "share_sum (block_lane x b) ?s r = row_total (spmv_terms (block_entries b) x) r" for r
  proof -
    have "share_sum (block_lane x b) ?s r =
        (\<Sum>p < active_rows b. if take (active_rows b) (row_map b) ! p = r then block_lane x b p else 0)"
      using active_rows_prefix(2) [OF b]
      by (simp add: share_sum_def sum_list_py_enumerate [where g = "\<lambda>p l. if l = r then block_lane x b (nat p) else 0"]
          cong: if_cong)
    also have "\<dots> = (\<Sum>p < active_rows b. if row_map b ! p = r then block_lane x b p else 0)"
      by (rule sum.cong) simp_all
    finally show ?thesis by (simp add: block_entries_total [OF b])
  qed
  then have "covers P x [?s] (block_entries b)"
    using served [OF False] by (intro covers_single) simp_all
  then show ?thesis using False by (simp add: block_share_valid [OF b])
qed

lemma component_covers:
  assumes "component_valid c"
    and "\<And>b. b \<in> set (blocks c) \<Longrightarrow> chunks b \<noteq> [] \<Longrightarrow> P (component_id c, output_block_id b) (block_lane x b)"
  shows "covers P x (concat (map (block_share (component_id c)) (blocks c))) (component_entries c)"
  unfolding component_entries_def
proof (intro covers_concat ballI)
  fix b assume b: "b \<in> set (blocks c)"
  then have "block_valid (layout_spec c) b" using assms(1) by (simp add: component_valid_def)
  then show "covers P x (block_share (component_id c) b) (block_entries b)"
    using assms(2) [OF b] by (rule block_covers)
qed

section \<open>Client segments\<close>

definition client_item :: "packed_coo_entry option \<Rightarrow> ((int \<times> int) \<times> int) list" where
  "client_item entry = (case entry of None \<Rightarrow> []
     | Some e \<Rightarrow> if pe_value e \<noteq> 0 then [(pe_coordinate e, pe_value e)] else [])"

definition client_entries :: "packed_coo_segment \<Rightarrow> ((int \<times> int) \<times> int) list" where
  "client_entries g = concat (map client_item (pcs_entries g))"

definition client_share :: "packed_coo_segment \<Rightarrow> output_share" where
  "client_share g = \<lparr>os_component_id = client_lane_component_id, os_output_block_id = pcs_segment_id g,
      slot_to_logical = concat (map (\<lambda>(lane, entry). case entry of None \<Rightarrow> []
         | Some e \<Rightarrow> if pe_value e \<noteq> 0 then [(lane, fst (pe_coordinate e))] else [])
        (py_enumerate (pcs_entries g)))\<rparr>"

lemma client_lane_shares_concat:
  "client_lane_shares gs = concat (map (\<lambda>g. if segment_active g then [client_share g] else []) gs)"
  by (induction gs) (simp_all add: client_lane_shares_def segment_active_def client_share_def)

lemma inactive_no_entries: "\<not> segment_active g \<Longrightarrow> client_entries g = []"
  by (auto simp: segment_active_def client_entries_def client_item_def active_entry_def split: option.splits)

lemma client_covers:
  assumes len: "int (length (pcs_entries g)) = pcs_capacity g"
    and cols: "\<And>e. Some e \<in> set (pcs_entries g) \<Longrightarrow> 0 \<le> snd (pe_coordinate e)"
    and served: "segment_active g \<Longrightarrow> P (client_lane_component_id, pcs_segment_id g) (client_lane x g)"
  shows "covers P x (if segment_active g then [client_share g] else []) (client_entries g)"
proof (cases "segment_active g")
  case False
  then show ?thesis by (simp add: inactive_no_entries)
next
  case True
  have lane: "client_lane x g i = (case pcs_entries g ! i of None \<Rightarrow> 0
      | Some e \<Rightarrow> pe_value e * xval x (snd (pe_coordinate e)))" if "i < length (pcs_entries g)" for i
  proof -
    have "int i < pcs_capacity g" using that by (simp flip: len)
    then show ?thesis by (simp add: client_lane_def segment_lane_def)
  qed
  have "share_sum (client_lane x g) (client_share g) r = row_total (spmv_terms (client_entries g) x) r" for r
  proof -
    let ?h = "\<lambda>lane entry. case entry of None \<Rightarrow> 0 | Some e \<Rightarrow>
      if pe_value e \<noteq> 0 \<and> fst (pe_coordinate e) = r then client_lane x g (nat lane) else 0"
    have "share_sum (client_lane x g) (client_share g) r = (\<Sum>(lane, entry) \<leftarrow> py_enumerate (pcs_entries g). ?h lane entry)"
    proof -
      have "(\<Sum>(p, l) \<leftarrow> concat (map (\<lambda>(lane, entry). case entry of None \<Rightarrow> []
           | Some e \<Rightarrow> if pe_value e \<noteq> 0 then [(lane, fst (pe_coordinate e))] else []) xs).
           if l = r then client_lane x g (nat p) else 0) = (\<Sum>(lane, entry) \<leftarrow> xs. ?h lane entry)" for xs
        by (induction xs) (auto split: option.split)
      then show ?thesis by (simp add: share_sum_def client_share_def)
    qed
    also have "\<dots> = (\<Sum>i < length (pcs_entries g). ?h (int i) (pcs_entries g ! i))"
      by (rule sum_list_py_enumerate)
    also have "\<dots> = (\<Sum>i < length (pcs_entries g). row_total (spmv_terms (client_item (pcs_entries g ! i)) x) r)"
    proof (rule sum.cong [OF refl])
      fix i assume "i \<in> {..<length (pcs_entries g)}"
      then have i: "i < length (pcs_entries g)" by simp
      show "?h (int i) (pcs_entries g ! i) = row_total (spmv_terms (client_item (pcs_entries g ! i)) x) r"
      proof (cases "pcs_entries g ! i")
        case None
        then show ?thesis by (simp add: client_item_def spmv_terms_def)
      next
        case (Some e)
        then have "0 \<le> snd (pe_coordinate e)" using cols i by (metis nth_mem)
        then show ?thesis using Some
          by (auto simp: client_item_def spmv_terms_def lane [OF i] xval_def split_beta)
      qed
    qed
    also have "\<dots> = row_total (spmv_terms (client_entries g) x) r"
      by (simp add: client_entries_def row_total_entries_concat comp_def sum_list_sum_nth atLeast0LessThan)
    finally show ?thesis .
  qed
  then have "covers P x [client_share g] (client_entries g)"
    using served [OF True] by (intro covers_single) (simp_all add: client_share_def)
  then show ?thesis using True by simp
qed

section \<open>Delta pages\<close>

text \<open>Grouping a keyed list into a dictionary and summing group by group.\<close>

lemma sum_by_key:
  assumes "finite K" and "fst ` set items \<subseteq> K"
  shows "(\<Sum>k \<in> K. \<Sum>v \<leftarrow> map snd (filter (\<lambda>x. fst x = k) items). F k v) = (\<Sum>(k, v) \<leftarrow> items. F k v :: int)"
  using assms(2)
proof (induction items)
  case Nil
  then show ?case by simp
next
  case (Cons y items)
  obtain k v where y: "y = (k, v)" by (cases y)
  have "(\<Sum>k' \<in> K. \<Sum>v' \<leftarrow> map snd (filter (\<lambda>x. fst x = k') (y # items)). F k' v') =
      (\<Sum>k' \<in> K. (if k' = k then F k v else 0) +
        (\<Sum>v' \<leftarrow> map snd (filter (\<lambda>x. fst x = k') items). F k' v'))"
    by (rule sum.cong) (auto simp: y)
  also have "\<dots> = F k v + (\<Sum>(k, v) \<leftarrow> items. F k v)"
    using Cons assms(1) by (simp add: sum.distrib y)
  finally show ?case by (simp add: y)
qed

lemma list_all2_maps: "(\<And>k. k \<in> set ks \<Longrightarrow> Q (f k) (g k)) \<Longrightarrow> list_all2 Q (map f ks) (map g ks)"
  by (induction ks) simp_all

lemma delta_covers:
  assumes ok: "delta_ok d" and metas: "client_b_page_metadata d = Inr metas"
    and extra: "post_aggregation_output_shares d = Inr ss"
    and served: "\<And>k. k < length metas \<Longrightarrow> P (strong_component_id, cbm_page_id (metas ! k))
      (page_lane x d (page_values (sd_effective_slots d) d metas ! k) (global_column_indices (metas ! k)))"
  shows "covers P x ss (delta_entries d)"
proof -
  define items where "items = map (\<lambda>g. (page_ordinal g, (slot_start g, owner_row g))) (segments d)"
  define pages where "pages = foldl (\<lambda>d (k, v). dict_append d k v) [] items"
  let ?page = "\<lambda>k. page_lane x d (page_values (sd_effective_slots d) d metas ! nat k)
    (global_column_indices (metas ! nat k))"
  let ?share = "\<lambda>k. \<lparr>os_component_id = strong_component_id, os_output_block_id = page_id_of k,
    slot_to_logical = dict_get pages k []\<rparr>"
  have "foldl (\<lambda>d g. dict_append d (page_ordinal g) (slot_start g, owner_row g)) [] (segments d) = pages"
    by (simp add: pages_def items_def foldl_map)
  then have ss: "ss = map ?share (sort (map fst pages))"
    using extra by (auto simp: post_aggregation_output_shares_def rbind_eq_Inr Let_def)
  have keys: "fst ` set pages = fst ` set items"
    by (simp add: pages_def dict_keys_foldl_append)
  have "dict_ok pages" by (simp add: pages_def dict_ok_foldl_append)
  then have dist: "distinct (sort (map fst pages))" by (simp add: dict_ok_def)
  have key: "0 \<le> k \<and> nat k < length metas" if mem: "k \<in> fst ` set items" for k
  proof -
    obtain m where m: "m < length (segments d)" "k = page_ordinal (segments d ! m)"
      using mem by (fastforce simp: items_def in_set_conv_nth)
    have "0 \<le> page_ordinal (segments d ! m)" unfolding segment_position(4) [OF ok m(1)] by simp
    then show ?thesis using leader_lane(3) [OF ok metas m(1)] m(2) by blast
  qed
  have P: "list_all2 (\<lambda>s f. P (share_id s) f) ss (map ?page (sort (map fst pages)))"
  proof -
    have "P (strong_component_id, page_id_of k) (?page k)" if "k \<in> set (sort (map fst pages))" for k
    proof -
      have k: "0 \<le> k" "nat k < length metas" using key that keys by auto
      then have "cbm_page_id (metas ! nat k) = page_id_of k"
        using page_metadata_cells(2) [OF ok metas k(2)] by simp
      then show ?thesis using served [OF k(2)] by simp
    qed
    then show ?thesis unfolding ss by (intro list_all2_maps) simp
  qed
  have total: "(\<Sum>(s, f) \<leftarrow> zip ss (map ?page (sort (map fst pages))). share_sum f s r) =
      row_total (spmv_terms (delta_entries d) x) r" for r
  proof -
    let ?F = "\<lambda>k (p, l). if l = r then ?page k (nat p) else 0"
    have "zip (map ?share ks) (map ?page ks) = map (\<lambda>k. (?share k, ?page k)) ks" for ks
      by (induction ks) simp_all
    then have "(\<Sum>(s, f) \<leftarrow> zip ss (map ?page (sort (map fst pages))). share_sum f s r) =
        (\<Sum>k \<leftarrow> sort (map fst pages). \<Sum>v \<leftarrow> dict_get pages k []. ?F k v)"
      by (simp add: ss share_sum_def comp_def case_prod_unfold cong: if_cong)
    also have "\<dots> = (\<Sum>k \<in> fst ` set items. \<Sum>v \<leftarrow> dict_get pages k []. ?F k v)"
      using dist keys by (simp add: sum_list_distinct_conv_sum_set)
    also have "\<dots> = (\<Sum>k \<in> fst ` set items. \<Sum>v \<leftarrow> map snd (filter (\<lambda>x. fst x = k) items). ?F k v)"
      by (simp add: pages_def dict_get_foldl_append)
    also have "\<dots> = (\<Sum>(k, v) \<leftarrow> items. ?F k v)"
      by (rule sum_by_key) simp_all
    also have "\<dots> = (\<Sum>g \<leftarrow> segments d. if owner_row g = r then ?page (page_ordinal g) (nat (slot_start g)) else 0)"
      by (simp add: items_def comp_def)
    also have "\<dots> = (\<Sum>g \<leftarrow> segments d. row_total (spmv_terms (segment_items g) x) r)"
    proof (intro arg_cong [where f = sum_list] map_cong refl)
      fix g assume "g \<in> set (segments d)"
      then obtain m where m: "m < length (segments d)" "g = segments d ! m" by (auto simp: in_set_conv_nth)
      have "segment_ok d (int m) g" using ok m by (simp add: delta_ok_def)
      then show "(if owner_row g = r then ?page (page_ordinal g) (nat (slot_start g)) else 0) =
          row_total (spmv_terms (segment_items g) x) r"
        using leader_lane(1) [OF ok metas m(1), of x] by (simp add: segment_items_total m(2))
    qed
    also have "\<dots> = row_total (spmv_terms (delta_entries d) x) r"
      by (simp add: delta_entries_def row_total_entries_concat comp_def)
    finally show ?thesis .
  qed
  show ?thesis unfolding covers_def using P total by blast
qed

end
