(* ===== verification/Source_Facts.thy ===== *)
theory Source_Facts
  imports Coverage_Facts
begin

text \<open>
  What \<open>validated_sources\<close> establishes: the entries of the components, of the delta and of the
  client segments lie in one matrix and have pairwise distinct coordinates, so together they
  are the matrix a query multiplies.
\<close>

definition source_entries ::
  "published_component list \<Rightarrow> segmented_delta_state option \<Rightarrow> packed_coo_segment list \<Rightarrow>
     ((int \<times> int) \<times> int) list"
where
  "source_entries comps delta gs = concat (map component_entries comps) @
     (case delta of None \<Rightarrow> [] | Some d \<Rightarrow> delta_entries d) @ concat (map client_entries gs)"

section \<open>Matrices of entries\<close>

lemma matrix_ok_append [simp]:
  "matrix_ok rows cols (xs @ ys) \<longleftrightarrow> matrix_ok rows cols xs \<and> matrix_ok rows cols ys"
  unfolding matrix_ok_def by (simp add: ball_Un)

lemma matrix_ok_Nil [simp]: "matrix_ok rows cols []"
  by (simp add: matrix_ok_def)

lemma matrix_ok_concat [simp]:
  "matrix_ok rows cols (concat xss) \<longleftrightarrow> (\<forall>xs \<in> set xss. matrix_ok rows cols xs)"
  by (induction xss) simp_all

lemma lane_entry_in_matrix:
  "lane_ok sp b ch l \<Longrightarrow> matrix_ok (ls_rows sp) (ls_cols sp) (lane_entry l)"
  by (auto simp: lane_ok_def lane_entry_def matrix_ok_def split: option.splits prod.splits)

lemma component_entries_in_matrix:
  assumes "component_valid c"
  shows "matrix_ok (ls_rows (layout_spec c)) (ls_cols (layout_spec c)) (component_entries c)"
proof -
  let ?sp = "layout_spec c"
  have "matrix_ok (ls_rows ?sp) (ls_cols ?sp) (lane_entry l)"
    if "b \<in> set (blocks c)" "ch \<in> set (chunks b)" "l \<in> set (chunk_lanes ch)" for b ch l
  proof -
    have "block_valid ?sp b" using assms that(1) by (simp add: component_valid_def)
    then have "chunk_valid ?sp b ch" using that(2) by (simp add: block_valid_def)
    then have "lane_ok ?sp b ch l" using that(3) unfolding chunk_valid_def by blast
    then show ?thesis by (rule lane_entry_in_matrix)
  qed
  then show ?thesis
    by (simp add: component_entries_def block_entries_def chunk_entries_def)
qed

section \<open>Distinct coordinates\<close>

lemma coord_to_slot_keys: "set (map fst (coord_to_slot c)) = fst ` set (coordinate_slots c)"
  unfolding coord_to_slot_def by (simp add: foldl_update_keys)

lemma add_component_coordinates_Inr:
  assumes "add_component_coordinates seen c = Inr seen'" and "component_valid c"
  shows "scans (set seen) (component_entries c) (set seen')"
proof -
  have keys: "fst ` set (component_entries c) = set (map fst (coord_to_slot c))"
    "distinct (map fst (component_entries c))"
    using assms(2) unfolding component_valid_def coord_to_slot_keys by blast+
  have "set seen \<inter> set (map fst (coord_to_slot c)) = {}" "seen' = map fst (coord_to_slot c) @ seen"
    using assms(1) unfolding add_component_coordinates_def Let_def by (simp_all split: if_splits)
  then show ?thesis unfolding scans_def using keys(2) by (simp only: keys(1) set_append) blast
qed

lemma add_components_Inr:
  "rfold add_component_coordinates seen cs = Inr seen' \<Longrightarrow> \<forall>c \<in> set cs. component_valid c \<Longrightarrow>
     scans (set seen) (concat (map component_entries cs)) (set seen')"
proof (induction cs arbitrary: seen)
  case Nil
  then show ?case by simp
next
  case (Cons c cs)
  then obtain seen1 where 1: "add_component_coordinates seen c = Inr seen1"
      and 2: "rfold add_component_coordinates seen1 cs = Inr seen'"
    by (auto simp: rbind_eq_Inr)
  have "scans (set seen) (component_entries c) (set seen1)"
    using 1 Cons.prems(2) by (intro add_component_coordinates_Inr) simp_all
  moreover have "scans (set seen1) (concat (map component_entries cs)) (set seen')"
    using Cons.IH [OF 2] Cons.prems(2) by simp
  ultimately show ?case using scans_append by fastforce
qed

lemma validate_segment_entry_Inr:
  assumes "validate_segment_entry (rows, cols, n) seen entry = Inr seen'"
  shows "scans (set seen) (client_item entry) (set seen') \<and> matrix_ok rows cols (client_item entry) \<and>
    (\<forall>e. entry = Some e \<longrightarrow> 0 \<le> snd (pe_coordinate e))"
  using assms
  by (auto simp: validate_segment_entry_def client_item_def scans_def matrix_ok_def
      split: option.splits prod.splits if_splits)

lemma validate_segment_entries_Inr:
  "rfold (validate_segment_entry (rows, cols, n)) seen es = Inr seen' \<Longrightarrow>
     scans (set seen) (concat (map client_item es)) (set seen') \<and>
     matrix_ok rows cols (concat (map client_item es)) \<and>
     (\<forall>e. Some e \<in> set es \<longrightarrow> 0 \<le> snd (pe_coordinate e))"
proof (induction es arbitrary: seen)
  case Nil
  then show ?case by simp
next
  case (Cons entry es)
  then obtain seen1 where 1: "validate_segment_entry (rows, cols, n) seen entry = Inr seen1"
      and 2: "rfold (validate_segment_entry (rows, cols, n)) seen1 es = Inr seen'"
    by (auto simp: rbind_eq_Inr)
  note V = validate_segment_entry_Inr [OF 1] and R = Cons.IH [OF 2]
  have "scans (set seen) (client_item entry @ concat (map client_item es)) (set seen')"
    using V R scans_append by blast
  then show ?case using V R by auto
qed

definition client_ok :: "int \<Rightarrow> packed_coo_segment \<Rightarrow> bool" where
  "client_ok n g \<longleftrightarrow> int (length (pcs_entries g)) = pcs_capacity g \<and> 0 < pcs_capacity g \<and>
     pcs_capacity g \<le> n \<and> (\<forall>e. Some e \<in> set (pcs_entries g) \<longrightarrow> 0 \<le> snd (pe_coordinate e))"

lemma validate_client_segment_Inr:
  assumes "validate_client_segment reference seen g = Inr seen'"
    and m: "component_matrix reference = (rows, cols, n)"
  shows "scans (set seen) (client_entries g) (set seen') \<and> matrix_ok rows cols (client_entries g) \<and>
    client_ok n g"
proof -
  have shape: "int (length (pcs_entries g)) = pcs_capacity g" "0 < pcs_capacity g" "pcs_capacity g \<le> n"
    and run: "rfold (validate_segment_entry (rows, cols, n)) seen (pcs_entries g) = Inr seen'"
    using assms by (auto simp: validate_client_segment_def component_matrix_def split: if_splits)
  show ?thesis
    using validate_segment_entries_Inr [OF run] shape by (simp add: client_entries_def client_ok_def)
qed

lemma validate_client_segments_Inr:
  "rfold (validate_client_segment reference) seen gs = Inr seen' \<Longrightarrow>
     component_matrix reference = (rows, cols, n) \<Longrightarrow>
     scans (set seen) (concat (map client_entries gs)) (set seen') \<and>
     (\<forall>g \<in> set gs. matrix_ok rows cols (client_entries g) \<and> client_ok n g)"
proof (induction gs arbitrary: seen)
  case Nil
  then show ?case by simp
next
  case (Cons g gs)
  then obtain seen1 where 1: "validate_client_segment reference seen g = Inr seen1"
      and 2: "rfold (validate_client_segment reference) seen1 gs = Inr seen'"
    by (auto simp: rbind_eq_Inr)
  note V = validate_client_segment_Inr [OF 1 Cons.prems(2)] and R = Cons.IH [OF 2 Cons.prems(2)]
  have "scans (set seen) (client_entries g @ concat (map client_entries gs)) (set seen')"
    using V R scans_append by blast
  then show ?case using V R by simp
qed

section \<open>All sources\<close>

lemma validate_delta_source_Inr:
  assumes "validate_delta_source comps reference coords (Some d) = Inr ()"
    and "component_matrix reference = (rows, cols, n)"
  shows "delta_ok d \<and> sd_rows d = rows \<and> sd_cols d = cols \<and> sd_effective_slots d = n \<and>
    scans (set coords) (delta_entries d) (set coords \<union> fst ` set (delta_entries d))"
proof -
  obtain dec where dec: "decode_segmented_delta d = Inr dec"
      and rest: "(sd_rows d, sd_cols d, sd_effective_slots d) = component_matrix reference"
        "set coords \<inter> set (map fst dec) = {}"
    using assms(1) by (auto simp: validate_delta_source_def split: sum.splits if_splits)
  note D = decode_segmented_delta_Inr [OF dec]
  then have "distinct (map fst (delta_entries d))" by (simp add: delta_ok_def)
  then show ?thesis using D rest assms(2) by (auto simp: scans_def)
qed

definition sources_valid ::
  "published_component list \<Rightarrow> segmented_delta_state option \<Rightarrow> packed_coo_segment list \<Rightarrow>
     int \<Rightarrow> int \<Rightarrow> int \<Rightarrow> bool"
where
  "sources_valid comps delta gs rows cols n \<longleftrightarrow> comps \<noteq> [] \<and>
     (\<forall>c \<in> set comps. component_valid c \<and> component_matrix c = (rows, cols, n)) \<and>
     (\<forall>d. delta = Some d \<longrightarrow> delta_ok d \<and> sd_effective_slots d = n) \<and>
     (\<forall>g \<in> set gs. client_ok n g) \<and> (delta = None \<or> gs = []) \<and>
     matrix_ok rows cols (source_entries comps delta gs) \<and>
     distinct (map fst (source_entries comps delta gs))"

lemma scans_distinct: "scans K es K' \<Longrightarrow> distinct (map fst es)"
  by (simp add: scans_def)

lemma validated_sources_Inr:
  assumes "validated_sources components delta client_segments = Inr (comps, gs)"
    and m: "component_matrix (hd comps) = (rows, cols, n)"
  shows "sources_valid comps delta gs rows cols n"
proof -
  let ?r = "hd comps"
  from assms(1) obtain coords seen where
    ne: "components \<noteq> []" "\<not> (delta \<noteq> None \<and> client_segments \<noteq> [])" and
    comps: "comps = sort_key component_id components" "gs = sort_key pcs_segment_id client_segments" and
    v: "rfold (\<lambda>_ c. validate_component c) () comps = Inr ()"
      "\<forall>c \<in> set comps. component_matrix c = component_matrix ?r" and
    co: "rfold add_component_coordinates [] comps = Inr coords"
      "validate_delta_source comps ?r coords delta = Inr ()"
      "rfold (validate_client_segment ?r) coords gs = Inr seen"
    by (auto simp: validated_sources_def rbind_eq_Inr Let_def split: if_splits)
  have valid: "\<forall>c \<in> set comps. component_valid c \<and> component_matrix c = (rows, cols, n)"
    using v m validate_component_ok by (simp add: rfold_unit_iff)
  have A: "scans {} (concat (map component_entries comps)) (set coords)"
    using add_components_Inr [OF co(1)] valid by simp
  have C: "scans (set coords) (concat (map client_entries gs)) (set seen)"
    "\<forall>g \<in> set gs. matrix_ok rows cols (client_entries g) \<and> client_ok n g"
    using validate_client_segments_Inr [OF co(3) m] by simp_all
  have one: "delta = None \<or> gs = []" using ne(2) by (auto simp: comps)
  have D: "delta_ok d" "sd_rows d = rows" "sd_cols d = cols" "sd_effective_slots d = n"
      "scans (set coords) (delta_entries d) (set coords \<union> fst ` set (delta_entries d))"
    if "delta = Some d" for d
    using validate_delta_source_Inr [OF _ m, of comps coords d] co(2) that by auto
  have mat: "matrix_ok rows cols (component_entries c)" if "c \<in> set comps" for c
    using component_entries_in_matrix [of c] valid that by (auto simp: component_matrix_def)
  have "\<exists>K. scans {} (source_entries comps delta gs) K"
  proof (cases delta)
    case None
    then show ?thesis using scans_append [OF A C(1)] by (auto simp: source_entries_def)
  next
    case (Some d)
    then have "gs = []" using one by simp
    then show ?thesis using Some scans_append [OF A D(5) [OF Some]] by (auto simp: source_entries_def)
  qed
  then have "distinct (map fst (source_entries comps delta gs))" by (blast intro: scans_distinct)
  moreover have "matrix_ok rows cols (source_entries comps delta gs)"
    using mat C(2) D delta_entries_in_matrix by (auto simp: source_entries_def split: option.split)
  moreover have "comps \<noteq> []" using ne(1) arg_cong [OF comps(1), of length] by auto
  ultimately show ?thesis
    using valid one C(2) D by (auto simp: sources_valid_def)
qed

end
