(* ===== verification/Compiler_Ids.thy ===== *)
theory Compiler_Ids
  imports Query_Compiler "HOL-Library.Multiset"
begin

text \<open>
  The ciphertext identifiers of a compilation. Every declared ciphertext input is the value or
  the query operand of exactly one operand specification, or the mask of exactly one route.
\<close>

definition f1m_ids :: "result_route list \<Rightarrow> string list" where
  "f1m_ids rs = concat (map (\<lambda>r. case f1m_ciphertext_id r of None \<Rightarrow> [] | Some i \<Rightarrow> [i]) rs)"

definition owned_ids :: "operand_spec list \<Rightarrow> result_route list \<Rightarrow> string multiset" where
  "owned_ids specs routes = mset (map value_ciphertext_id specs) +
     mset (map query_ciphertext_id specs) + mset (f1m_ids routes)"

text \<open>All declared inputs are owned, except the pending ones.\<close>

definition balanced :: "string multiset \<Rightarrow> compile_state \<Rightarrow> bool" where
  "balanced P s \<longleftrightarrow> mset (map ci_id (cs_inputs s)) = owned_ids (cs_specs s) (cs_routes s) + P"

definition pending_ids :: "pending_spec list \<Rightarrow> string multiset" where
  "pending_ids ops = mset (map (\<lambda>(vid, _). vid) ops) + mset (map (\<lambda>(_, qid, _). qid) ops)"

lemma balanced_cong:
  "cs_inputs s' = cs_inputs s \<Longrightarrow> cs_specs s' = cs_specs s \<Longrightarrow> cs_routes s' = cs_routes s \<Longrightarrow>
     balanced P s' \<longleftrightarrow> balanced P s"
  by (simp add: balanced_def)

lemma append_operand_balanced:
  assumes "append_operand slots s = ((ordinal, vid, qid, rid), s')" and "balanced P s"
  shows "balanced (P + {#vid, qid#}) s'"
  using assms by (auto simp: append_operand_def Let_def balanced_def)

lemma finish_result_balanced:
  assumes "finish_result slots needs acc cid bid s = (rid, s')" and "balanced P s"
  shows "balanced P s'"
  using assms by (auto simp: finish_result_def Let_def balanced_def owned_ids_def f1m_ids_def)

lemma append_selection_balanced:
  "append_selection slots ordinal sel acc s = (sid, s') \<Longrightarrow> balanced P s' \<longleftrightarrow> balanced P s"
  by (auto simp: append_selection_def Let_def balanced_def)

lemma add_specs_balanced:
  assumes "balanced (mset (map value_ciphertext_id sps) + mset (map query_ciphertext_id sps) + P) s"
  shows "balanced P (s\<lparr>cs_specs := cs_specs s @ sps\<rparr>)"
  using assms by (simp add: balanced_def owned_ids_def ac_simps)

lemma compile_chunk_balanced:
  assumes "compile_chunk slots (s, sel, pend) ch = (s', sel', pend')"
    and "balanced (pending_ids pend + P) s"
  shows "balanced (pending_ids pend' + P) s'"
proof -
  obtain ordinal vid qid rid s1 where 1: "append_operand slots s = ((ordinal, vid, qid, rid), s1)"
    by (metis surj_pair)
  obtain acc ns shifts where 2: "append_cssc_reduction ordinal rid (width ch) (height ch)
      (cs_nodes s1) (cs_shifts s1) = (acc, ns, shifts)" by (metis surj_pair)
  let ?s2 = "s1\<lparr>cs_nodes := ns, cs_shifts := shifts\<rparr>"
  have "balanced (pending_ids pend + P + {#vid, qid#}) s1"
    using append_operand_balanced [OF 1 assms(2)] .
  then have b2: "balanced (pending_ids pend + P + {#vid, qid#}) ?s2"
    by (simp add: balanced_def)
  obtain sid s3 where 3: "append_selection slots ordinal (\<lambda>lane. lane < height ch) acc ?s2 = (sid, s3)"
    by (metis surj_pair)
  have "pending_ids (pend @ [(vid, qid, x, y, z)]) = pending_ids pend + {#vid, qid#}" for x y z
    by (simp add: pending_ids_def)
  moreover have "pend' = pend @ [(vid, qid, cs_operand s, vc_values ch, column_indices ch)] \<and> (s' = s3 \<or> s' = ?s2)"
    using assms(1) by (auto simp: compile_chunk_def 1 2 3 Let_def split: if_splits)
  ultimately show ?thesis
    using b2 append_selection_balanced [OF 3] by (auto simp: ac_simps)
qed

lemma compile_chunks_balanced:
  "foldl (compile_chunk slots) (s, sel, pend) chs = (s', sel', pend') \<Longrightarrow>
     balanced (pending_ids pend + P) s \<Longrightarrow> balanced (pending_ids pend' + P) s'"
proof (induction chs arbitrary: s sel pend)
  case (Cons ch chs)
  obtain s1 sel1 pend1 where 1: "compile_chunk slots (s, sel, pend) ch = (s1, sel1, pend1)"
    by (metis surj_pair)
  show ?case
    using Cons.IH [of s1 sel1 pend1] Cons.prems compile_chunk_balanced [OF 1] by (simp add: 1)
qed simp

lemma compile_block_balanced:
  assumes "balanced P s"
  shows "balanced P (compile_block slots masked cid s b)"
proof (cases "chunks b = []")
  case True
  then show ?thesis using assms by (simp add: compile_block_def)
next
  case False
  obtain s1 sel pend where 1: "foldl (compile_chunk slots) (s, [], []) (chunks b) = (s1, sel, pend)"
    by (metis surj_pair)
  obtain acc ns where 2: "cross_sum (cs_result s1) sel (cs_nodes s1) = (acc, ns)" by (metis surj_pair)
  obtain rid s2 where 3: "finish_result slots (masked (cid, output_block_id b)) acc cid
      (output_block_id b) (s1\<lparr>cs_nodes := ns\<rparr>) = (rid, s2)" by (metis surj_pair)
  have "balanced (pending_ids pend + P) s1"
    using compile_chunks_balanced [OF 1, of P] assms by (simp add: pending_ids_def)
  then have "balanced (pending_ids pend + P) (s1\<lparr>cs_nodes := ns\<rparr>)" by (simp add: balanced_def)
  then have b2: "balanced (pending_ids pend + P) s2" by (rule finish_result_balanced [OF 3])
  let ?sps = "map (\<lambda>(vid, qid, source, vals, cols).
         \<lparr>value_ciphertext_id = vid, query_ciphertext_id = qid, source_kind = PublishedChunk,
          source_ordinal = source, spec_result_id = rid, spec_values = vals, spec_columns = cols\<rparr>) pend"
  have "map value_ciphertext_id ?sps = map (\<lambda>(vid, _). vid) pend"
    "map query_ciphertext_id ?sps = map (\<lambda>(_, qid, _). qid) pend" by auto
  then have "balanced P (s2\<lparr>cs_specs := cs_specs s2 @ ?sps\<rparr>)"
    using b2 by (intro add_specs_balanced) (simp only: pending_ids_def)
  then show ?thesis using False by (simp add: compile_block_def 1 2 3)
qed

lemma foldl_balanced:
  "(\<And>s a. balanced P s \<Longrightarrow> balanced P (f s a)) \<Longrightarrow> balanced P s \<Longrightarrow> balanced P (foldl f s as)"
  by (induction as arbitrary: s) auto

lemma compile_component_balanced: "balanced P s \<Longrightarrow> balanced P (compile_component slots masked s c)"
  unfolding compile_component_def by (rule foldl_balanced) (auto intro: compile_block_balanced)

lemma compile_page_balanced:
  assumes "balanced P s"
  shows "balanced P (compile_page slots masked d s (page, vals, meta))"
proof -
  obtain ordinal vid qid rid s1 where 1: "append_operand slots s = ((ordinal, vid, qid, rid), s1)"
    by (metis surj_pair)
  obtain acc ns shifts where 2: "segment_reduction ordinal rid (doubling_shifts 1 (segment_width d))
      (cs_nodes s1, cs_shifts s1) = (acc, ns, shifts)" by (metis surj_pair)
  let ?s2 = "s1\<lparr>cs_nodes := ns, cs_shifts := shifts\<rparr>"
  let ?leads = "\<lambda>lane. lane < segments_per_page d * segment_width d \<and> lane mod segment_width d = 0"
  obtain sid s2 where 3: "append_selection slots ordinal ?leads acc ?s2 = (sid, s2)" by (metis surj_pair)
  obtain res s3 where 4: "finish_result slots (masked (strong_component_id, cbm_page_id meta)) sid
      strong_component_id (cbm_page_id meta) s2 = (res, s3)" by (metis surj_pair)
  have "balanced (P + {#vid, qid#}) s1" using append_operand_balanced [OF 1 assms] .
  then have "balanced (P + {#vid, qid#}) ?s2" by (simp add: balanced_def)
  then have "balanced (P + {#vid, qid#}) s2" using append_selection_balanced [OF 3] by simp
  then have b3: "balanced (P + {#vid, qid#}) s3" by (rule finish_result_balanced [OF 4])
  define sp where "sp = \<lparr>value_ciphertext_id = vid, query_ciphertext_id = qid,
    source_kind = SegmentedDeltaPage, source_ordinal = page, spec_result_id = res,
    spec_values = vals, spec_columns = global_column_indices meta\<rparr>"
  have "balanced P (s3\<lparr>cs_specs := cs_specs s3 @ [sp]\<rparr>)"
    using b3 by (intro add_specs_balanced) (simp add: sp_def ac_simps)
  then show ?thesis by (simp add: compile_page_def 1 2 3 4 sp_def)
qed

lemma compile_segment_balanced:
  assumes "balanced P s"
  shows "balanced P (compile_segment slots masked s (source, g))"
proof (cases "\<exists>e \<in> set (pcs_entries g). active_entry e")
  case False
  then show ?thesis using assms by (simp add: compile_segment_def)
next
  case True
  obtain ordinal vid qid rid s1 where 1: "append_operand slots s = ((ordinal, vid, qid, rid), s1)"
    by (metis surj_pair)
  obtain res s2 where 2: "finish_result slots (masked (client_lane_component_id, pcs_segment_id g)) rid
      client_lane_component_id (pcs_segment_id g) s1 = (res, s2)" by (metis surj_pair)
  have "balanced (P + {#vid, qid#}) s1" using append_operand_balanced [OF 1 assms] .
  then have b2: "balanced (P + {#vid, qid#}) s2" by (rule finish_result_balanced [OF 2])
  let ?vals = "map (\<lambda>lane. case segment_lane g lane of None \<Rightarrow> 0 | Some e \<Rightarrow> pe_value e) (py_range 0 slots)"
  let ?cols = "map (\<lambda>lane. case segment_lane g lane of None \<Rightarrow> - 1 | Some e \<Rightarrow> snd (pe_coordinate e))
    (py_range 0 slots)"
  have s': "compile_segment slots masked s (source, g) = s2\<lparr>cs_specs := cs_specs s2 @
      [\<lparr>value_ciphertext_id = vid, query_ciphertext_id = qid, source_kind = ClientLaneSegment,
        source_ordinal = source, spec_result_id = res, spec_values = ?vals, spec_columns = ?cols\<rparr>]\<rparr>"
    using True by (auto simp: compile_segment_def 1 2 Let_def)
  show ?thesis
    unfolding s' using b2 by (intro add_specs_balanced) (simp add: ac_simps)
qed

lemma compile_sources_balanced:
  assumes "compile_sources slots masked comps delta gs = Inr s"
  shows "mset (map ci_id (cs_inputs s)) = owned_ids (cs_specs s) (cs_routes s)"
proof -
  have "balanced {#} empty_compile" by (simp add: balanced_def empty_compile_def owned_ids_def f1m_ids_def)
  then have b1: "balanced {#} (foldl (compile_component slots masked) empty_compile comps)"
    by (rule foldl_balanced [rotated]) (rule compile_component_balanced)
  have b2: "balanced {#} (foldl (compile_page slots masked d) s1 ks)" if "balanced {#} s1" for d s1 ks
    using that by (rule foldl_balanced [rotated]) (metis compile_page_balanced prod_cases3)
  have b3: "balanced {#} (foldl (compile_segment slots masked) s2 ks)" if "balanced {#} s2" for s2 ks
    using that by (rule foldl_balanced [rotated]) (metis compile_segment_balanced surj_pair)
  show ?thesis
    using assms b1 b2 b3
    by (auto simp: compile_sources_def rbind_eq_Inr Let_def balanced_def [of "{#}", simplified, symmetric]
        split: option.splits)
qed

end
