(* ===== verification/Query_Correct.thy ===== *)
theory Query_Correct
  imports Source_Facts Compiler_Ids
begin

text \<open>
  A compiled query computes what it compiles. The results of an execution, read through the
  routes, carry the lanes of the sources plus the masks of their shares; summed by row they are
  the products of the matrix the sources hold.
\<close>

section \<open>The compilation\<close>

definition query_entries :: "compiled_query \<Rightarrow> ((int \<times> int) \<times> int) list" where
  "query_entries q = source_entries (cq_components q) (segmented_delta q) (client_lane_segments q)"

definition query_rows :: "compiled_query \<Rightarrow> int" where
  "query_rows q = ls_rows (layout_spec (hd (cq_components q)))"

text \<open>The relation between a compiled query and the state of its compilation.\<close>

definition compiled_from :: "compiled_query \<Rightarrow> int \<Rightarrow> compile_state \<Rightarrow> output_share list \<Rightarrow> bool" where
  "compiled_from q slots s extra \<longleftrightarrow>
     (\<exists>masked. compile_sources slots masked (cq_components q) (segmented_delta q)
        (client_lane_segments q) = Inr s) \<and>
     program (cloud_plan q) = program_of slots s \<and> operand_specs q = cs_specs s \<and>
     result_routes q = cs_routes s \<and>
     extra_shares (segmented_delta q) (client_lane_segments q) = Inr extra \<and>
     shares (cq_output_plan q) =
       concat (map (\<lambda>c. concat (map (block_share (component_id c)) (blocks c))) (cq_components q)) @ extra \<and>
     logical_output_size (cq_output_plan q) = query_rows q \<and> op_slot_count (cq_output_plan q) = slots \<and>
     plan_ok (cq_output_plan q) \<and> validate_compiled_parts q = Inr () \<and>
     sources_valid (cq_components q) (segmented_delta q) (client_lane_segments q)
       (query_rows q) (query_cols q) slots"

lemma plan_components_Inr:
  "rfold (plan_component reference) (ids, ss) cs = Inr (ids', ss') \<Longrightarrow>
     ss' = ss @ concat (map (\<lambda>c. concat (map (block_share (component_id c)) (blocks c))) cs)"
proof (induction cs arbitrary: ids ss)
  case (Cons c cs)
  then obtain ids1 ss1 where 1: "plan_component reference (ids, ss) c = Inr (ids1, ss1)"
      and 2: "rfold (plan_component reference) (ids1, ss1) cs = Inr (ids', ss')"
    by (auto simp: rbind_eq_Inr)
  have "ss1 = ss @ concat (map (block_share (component_id c)) (blocks c))"
    using 1 by (auto simp: plan_component_def split: if_splits)
  then show ?case using Cons.IH [OF 2] by simp
qed simp

lemma output_plan_for_Inr:
  assumes "output_plan_for comps = Inr plan"
  shows "logical_output_size plan = ls_rows (layout_spec (hd comps))"
    and "op_slot_count plan = ls_effective_slots (layout_spec (hd comps))"
    and "shares plan = concat (map (\<lambda>c. concat (map (block_share (component_id c)) (blocks c))) comps)"
proof -
  obtain reference rest where comps: "comps = reference # rest"
    using assms by (cases comps) (simp_all add: output_plan_for_def)
  then obtain ids ss where run: "rfold (plan_component reference) ([], []) comps = Inr (ids, ss)"
      and plan: "plan = \<lparr>logical_output_size = ls_rows (layout_spec reference),
        op_slot_count = ls_effective_slots (layout_spec reference), shares = ss\<rparr>"
    using assms by (auto simp: output_plan_for_def rbind_eq_Inr)
  show "logical_output_size plan = ls_rows (layout_spec (hd comps))"
    and "op_slot_count plan = ls_effective_slots (layout_spec (hd comps))"
    and "shares plan = concat (map (\<lambda>c. concat (map (block_share (component_id c)) (blocks c))) comps)"
    using plan_components_Inr [OF run] by (simp_all add: plan comps)
qed

lemma if_Inl_InrD: "(if b then Inl e else r) = Inr y \<Longrightarrow> \<not> b \<and> r = Inr y"
  by (simp split: if_splits)

lemma rbind_InrE: "rbind m f = Inr y \<Longrightarrow> (\<And>x. m = Inr x \<Longrightarrow> f x = Inr y \<Longrightarrow> thesis) \<Longrightarrow> thesis"
  by (cases m) simp_all

lemma compile_query_Inr:
  assumes "compile_query components delta client_segments policy = Inr q"
  shows "\<exists>s extra. compiled_from q (ls_effective_slots (layout_spec (hd (cq_components q)))) s extra"
    and "segmented_delta q = delta" and "f1m_policy q = policy"
    and "validated_sources components delta client_segments =
      Inr (cq_components q, client_lane_segments q)"
    and "analyze_output_plan (cq_output_plan q) = Inr (output_analysis q)"
    and "cq_output_plan_digest q = oa_output_plan_digest (output_analysis q)"
    and "execution_binding_digest (binding (cloud_plan q)) = Inr (cq_execution_binding_digest q)"
    and "eb_output_plan_digest (binding (cloud_plan q)) = cq_output_plan_digest q"
proof -
  obtain comps gs where src: "validated_sources components delta client_segments = Inr (comps, gs)"
    using assms unfolding compile_query_def by (elim rbind_InrE) (metis surj_pair)
  define slots where "slots = ls_effective_slots (layout_spec (hd comps))"
  note run = assms [unfolded compile_query_def src rbind_Inr prod.case Let_def, folded slots_def]
  obtain base where base: "output_plan_for comps = Inr base"
    using run by (cases "output_plan_for comps") simp_all
  note run = run [unfolded base rbind_Inr]
  obtain extra where extra: "extra_shares delta gs = Inr extra"
    using run by (cases "extra_shares delta gs") simp_all
  note run = run [unfolded extra rbind_Inr]
  define plan where "plan = base\<lparr>shares := shares base @ extra\<rparr>"
  define masked where "masked = (\<lambda>i. policy = UniformRandomOrZero \<or> i \<in> set (overlap_share_ids plan))"
  note run = run [folded plan_def, folded masked_def]
  obtain analysis where an: "analyze_output_plan plan = Inr analysis"
    using run by (cases "analyze_output_plan plan") simp_all
  note run = run [unfolded an rbind_Inr]
  obtain s where cs: "compile_sources slots masked comps delta gs = Inr s"
    using run by (cases "compile_sources slots masked comps delta gs") simp_all
  note run = run [unfolded cs rbind_Inr]
  obtain pd where pd: "cloud_program_digest (program_of slots s) = Inr pd"
    using run by (cases "cloud_program_digest (program_of slots s)") simp_all
  define b where "b = \<lparr>eb_format = execution_binding_format, eb_version_id = version_id (hd comps),
    eb_output_plan_digest = oa_output_plan_digest analysis, eb_cloud_program_digest = pd\<rparr>"
  note run = run [unfolded pd rbind_Inr, folded b_def]
  obtain counts where counts: "analyze_cloud_plan \<lparr>program = program_of slots s, binding = b\<rparr> = Inr counts"
    using run by (cases "analyze_cloud_plan \<lparr>program = program_of slots s, binding = b\<rparr>") simp_all
  note run = run [unfolded counts rbind_Inr]
  obtain bd where bd: "execution_binding_digest b = Inr bd"
    using run by (cases "execution_binding_digest b") simp_all
  define q' where "q' = \<lparr>cq_components = comps, segmented_delta = delta, client_lane_segments = gs,
    f1m_policy = policy, cloud_plan = \<lparr>program = program_of slots s, binding = b\<rparr>,
    cq_output_plan = plan, operand_specs = cs_specs s, result_routes = cs_routes s,
    cq_cloud_program_digest = pd, cq_output_plan_digest = oa_output_plan_digest analysis,
    cq_execution_binding_digest = bd, cloud_counts = counts, output_analysis = analysis\<rparr>"
  note run = run [unfolded bd rbind_Inr, folded q'_def]
  from run obtain u where parts: "validate_compiled_parts q' = Inr u" and "Inr q' = Inr q"
    by (rule rbind_InrE) blast
  from this(2) have q: "q = q'" by simp
  from parts have parts: "validate_compiled_parts q = Inr ()" unfolding q by simp
  show "segmented_delta q = delta" "f1m_policy q = policy"
    "validated_sources components delta client_segments = Inr (cq_components q, client_lane_segments q)"
    using src by (simp_all add: q q'_def)
  show "analyze_output_plan (cq_output_plan q) = Inr (output_analysis q)"
    "cq_output_plan_digest q = oa_output_plan_digest (output_analysis q)"
    "execution_binding_digest (binding (cloud_plan q)) = Inr (cq_execution_binding_digest q)"
    "eb_output_plan_digest (binding (cloud_plan q)) = cq_output_plan_digest q"
    using an bd by (simp_all add: q q'_def b_def)
  have valid: "sources_valid comps delta gs (query_rows q) (query_cols q) slots"
    using src by (rule validated_sources_Inr)
      (simp add: component_matrix_def query_rows_def query_cols_def q q'_def slots_def)
  note base_plan = output_plan_for_Inr [OF base] and ok = analyze_plan_ok [OF an]
  have qs: "cq_components q = comps" "segmented_delta q = delta" "client_lane_segments q = gs"
    "program (cloud_plan q) = program_of slots s" "operand_specs q = cs_specs s" "result_routes q = cs_routes s"
    "cq_output_plan q = plan"
    by (simp_all add: q q'_def)
  have "compiled_from q slots s extra"
    unfolding compiled_from_def qs query_rows_def
    using cs extra parts base_plan ok valid [unfolded query_rows_def qs]
    by (intro conjI exI [of _ masked]) (simp_all add: slots_def plan_def)
  then show "\<exists>s extra. compiled_from q (ls_effective_slots (layout_spec (hd (cq_components q)))) s extra"
    by (auto simp: qs slots_def)
qed

section \<open>The program of a compiled query is validated\<close>

lemma validate_compiled_parts_Inr:
  assumes "validate_compiled_parts q = Inr ()"
  shows "\<exists>required. validate_program (program (cloud_plan q)) required = Inr ()"
    and "distinct (map route_share_id (result_routes q))"
    and "set (map route_share_id (result_routes q)) = share_id ` set (shares (cq_output_plan q))"
proof -
  note first = assms [unfolded validate_compiled_parts_def Let_def, THEN if_Inl_InrD]
  have "length (remdups (map route_share_id (result_routes q))) = length (map route_share_id (result_routes q))"
    using first by simp
  then have "remdups (map route_share_id (result_routes q)) = map route_share_id (result_routes q)"
    by (simp only: length_remdups_eq)
  then show "distinct (map route_share_id (result_routes q))" by (simp only: remdups_id_iff_distinct)
  show "set (map route_share_id (result_routes q)) = share_id ` set (shares (cq_output_plan q))"
    using first by simp
  note last = first [THEN conjunct2, THEN if_Inl_InrD, THEN conjunct2]
  have "validate_cloud_execution_plan (cloud_plan q) = Inr () \<or>
      (\<exists>required. validate_cloud_execution_plan_with_masked_results (cloud_plan q) required = Inr ())"
  proof (cases "f1m_policy q")
    case OverlapOnly
    then show ?thesis using last
      by (cases "validate_cloud_execution_plan_with_masked_results (cloud_plan q)
            (required_overlap_mask_result_ids (cq_output_plan q) (result_routes q))") auto
  next
    case UniformRandomOrZero
    then show ?thesis using last by (cases "validate_cloud_execution_plan (cloud_plan q)") simp_all
  qed
  then show "\<exists>required. validate_program (program (cloud_plan q)) required = Inr ()"
    unfolding validate_cloud_execution_plan_def validate_cloud_program_def
      validate_cloud_execution_plan_with_masked_results_def rbind_eq_Inr by auto
qed

section \<open>The execution of a compiled query\<close>

text \<open>The operands of an execution: the columns of the vector and the masks of the routes.\<close>

definition operands_bind ::
  "(string, int list) dict \<Rightarrow> compiled_query \<Rightarrow> int list \<Rightarrow> share_masks \<Rightarrow> bool"
where
  "operands_bind inputs q x fm \<longleftrightarrow>
     (\<forall>sp \<in> set (operand_specs q).
        map_of inputs (value_ciphertext_id sp) = Some (spec_values sp) \<and>
        map_of inputs (query_ciphertext_id sp) = Some (map (xval x) (spec_columns sp))) \<and>
     (\<forall>r \<in> set (result_routes q). \<forall>i. f1m_ciphertext_id r = Some i \<longrightarrow>
        (\<exists>v. map_of inputs i = Some v \<and> (\<forall>k < length v. v ! k = fm (route_share_id r) k)))"

definition route_carries ::
  "nat \<Rightarrow> int \<Rightarrow> results \<Rightarrow> share_masks \<Rightarrow> result_route list \<Rightarrow> string \<times> string \<Rightarrow> (nat \<Rightarrow> int) \<Rightarrow> bool"
where
  "route_carries n t out fm rs i f \<longleftrightarrow> (\<exists>r \<in> set rs. route_share_id r = i \<and> result_carries n t out fm r f)"

lemma reduced_carries:
  assumes "E i = Some (reduced t v)" and "length v = n"
  shows "carries n t E i (\<lambda>k. v ! k)"
  using assms by (simp add: carries_def vec_at_def reduced_def)

lemma ciphertext_carries:
  assumes ops: "operands_ok p inputs supplied" and slots: "cp_slot_count p = int n"
    and E: "\<forall>c \<in> set (ciphertext_inputs p). E (ci_id c) = map_option (reduced t) (map_of inputs (ci_id c))"
    and i: "i \<in> ci_id ` set (ciphertext_inputs p)" and v: "map_of inputs i = Some v"
  shows "carries n t E i (\<lambda>k. v ! k) \<and> length v = n"
proof -
  obtain c where c: "c \<in> set (ciphertext_inputs p)" "i = ci_id c" using i by (rule imageE)
  have "input_ok inputs (cp_slot_count p) c" using ops c(1) by (simp add: operands_ok_defs)
  then have len: "length v = n" using v c(2) slots by (auto simp: input_ok_def)
  have "E i = Some (reduced t v)" using E c v by simp
  then show ?thesis using len by (simp add: reduced_carries)
qed

lemma owned_inputs:
  assumes "compile_sources slots masked comps delta gs = Inr s"
  shows "sp \<in> set (cs_specs s) \<Longrightarrow> value_ciphertext_id sp \<in> ci_id ` set (cs_inputs s)"
    and "sp \<in> set (cs_specs s) \<Longrightarrow> query_ciphertext_id sp \<in> ci_id ` set (cs_inputs s)"
    and "r \<in> set (cs_routes s) \<Longrightarrow> f1m_ciphertext_id r = Some i \<Longrightarrow> i \<in> ci_id ` set (cs_inputs s)"
proof -
  have "ci_id ` set (cs_inputs s) = set_mset (owned_ids (cs_specs s) (cs_routes s))"
    unfolding compile_sources_balanced [OF assms, symmetric] by simp
  also have "\<dots> = value_ciphertext_id ` set (cs_specs s) \<union> query_ciphertext_id ` set (cs_specs s) \<union>
      set (f1m_ids (cs_routes s))"
    by (simp add: owned_ids_def)
  finally have own: "ci_id ` set (cs_inputs s) = \<dots>" .
  show "value_ciphertext_id sp \<in> ci_id ` set (cs_inputs s)" if "sp \<in> set (cs_specs s)"
    unfolding own using that by blast
  show "query_ciphertext_id sp \<in> ci_id ` set (cs_inputs s)" if "sp \<in> set (cs_specs s)"
    unfolding own using that by blast
  show "i \<in> ci_id ` set (cs_inputs s)" if "r \<in> set (cs_routes s)" "f1m_ciphertext_id r = Some i"
    unfolding own f1m_ids_def using that by (force split: option.splits)
qed

lemma compiled_env_ok:
  assumes q: "compiled_from q (int n) s extra"
    and run: "execute_validated_cloud_plan (cloud_plan q) inputs supplied t = Inr out"
    and bind: "operands_bind inputs q x fm"
  shows "\<exists>rots M E. env_ok n t rots M out E x fm s"
proof -
  let ?p = "program (cloud_plan q)"
  have p: "?p = program_of (int n) s" "operand_specs q = cs_specs s" "result_routes q = cs_routes s"
    "validate_compiled_parts q = Inr ()"
    using q by (simp_all add: compiled_from_def)
  then have fields: "cp_slot_count ?p = int n" "ciphertext_inputs ?p = cs_inputs s"
      "plaintext_masks ?p = cs_masks s" "nodes ?p = cs_nodes s"
    by (simp_all add: program_of_def)
  obtain masked where cs: "compile_sources (int n) masked (cq_components q) (segmented_delta q)
      (client_lane_segments q) = Inr s"
    using q by (auto simp: compiled_from_def)
  obtain required where val: "validate_program ?p required = Inr ()"
    using validate_compiled_parts_Inr(1) [OF p(4)] by blast
  have ops: "operands_ok ?p inputs supplied" using val run by (rule execution_operands_ok)
  obtain out' E M where out': "execute_validated_cloud_plan (cloud_plan q) inputs supplied t = Inr out'"
    and holds: "\<forall>node \<in> set (cs_nodes s). node_holds n t
       (foldl (\<lambda>d (k, v). AList.update k v d) [] (rotation_catalog ?p)) M out' E node"
    and E: "\<forall>c \<in> set (ciphertext_inputs ?p). E (ci_id c) = map_option (reduced t) (map_of inputs (ci_id c))"
    and M: "\<forall>m \<in> set (cs_masks s). M (mask_id m) = Some (reduced t (mask_values m))"
    using validated_program_runs [OF val ops, of t] unfolding fields nat_int by blast
  have out: "out' = out" using out' run by simp
  note C = ciphertext_carries [OF ops fields(1) E, unfolded fields(2)]
  have "masks_carry n t M (cs_masks s)"
  proof -
    from val obtain v1 v2 where v2: "rfold (declare_mask (int n)) v1 (cs_masks s) = Inr v2"
      by (rule validate_program_Inr) (simp add: fields)
    have "rfold (declare_mask sl) w1 ms = Inr w2 \<Longrightarrow> m \<in> set ms \<Longrightarrow> int (length (mask_values m)) = sl"
      for sl w1 w2 ms m
      by (induction ms arbitrary: w1) (auto simp: rbind_eq_Inr dest!: declare_mask_Inr)
    from this [OF v2] show ?thesis
      using M by (auto simp: masks_carry_def intro!: reduced_carries)
  qed
  moreover have "operand_carries n t E x (spec_operand sp)" if sp: "sp \<in> set (cs_specs s)" for sp
  proof -
    have b: "map_of inputs (value_ciphertext_id sp) = Some (spec_values sp)"
      "map_of inputs (query_ciphertext_id sp) = Some (map (xval x) (spec_columns sp))"
      using bind sp by (simp_all add: operands_bind_def p)
    note V = C [OF owned_inputs(1) [OF cs sp] b(1)] and Q = C [OF owned_inputs(2) [OF cs sp] b(2)]
    then have "carries n t E (query_ciphertext_id sp) (\<lambda>k. xval x (spec_columns sp ! k))"
      by (auto intro: carries_cong)
    then show ?thesis using V by (simp add: operand_carries_def spec_operand_def)
  qed
  moreover have "routes_carry n t E fm (cs_routes s)"
    unfolding routes_carry_def
  proof (intro ballI allI impI)
    fix r i assume r: "r \<in> set (cs_routes s)" "f1m_ciphertext_id r = Some i"
    then obtain v where v: "map_of inputs i = Some v" "\<forall>k < length v. v ! k = fm (route_share_id r) k"
      using bind r unfolding operands_bind_def p by blast
    note F = C [OF owned_inputs(3) [OF cs r] v(1)]
    then show "carries n t E i (fm (route_share_id r))"
      using v(2) by (auto intro: carries_cong)
  qed
  ultimately have "env_ok n t (foldl (\<lambda>d (k, v). AList.update k v d) [] (rotation_catalog ?p)) M out E x fm s"
    using holds by (simp add: env_ok_def out)
  then show ?thesis by blast
qed

section \<open>The shares cover the matrix\<close>

lemma served_route: "served n t out fm s = route_carries n t out fm (cs_routes s)"
  by (intro ext) (simp add: served_def route_carries_def)

lemma sources_fit:
  assumes "sources_valid comps delta gs rows cols (int n)"
  shows "\<forall>c \<in> set comps. \<forall>b \<in> set (blocks c). \<forall>ch \<in> set (chunks b). chunk_fits n ch"
    and "delta = Some d \<Longrightarrow> (\<exists>m. segment_width d = 2 ^ m) \<and>
      segments_per_page d * segment_width d \<le> int n \<and> segment_width d \<le> int n"
proof -
  have "chunk_fits n ch" if "c \<in> set comps" "b \<in> set (blocks c)" "ch \<in> set (chunks b)" for c b ch
  proof -
    have c: "component_valid c" "component_matrix c = (rows, cols, int n)"
      using assms that(1) by (simp_all add: sources_valid_def)
    then have "block_valid (layout_spec c) b" using that(2) by (simp add: component_valid_def)
    then have "chunk_valid (layout_spec c) b ch" using that(3) by (simp add: block_valid_def)
    then have "0 < width ch \<and> 0 < height ch \<and> width ch * height ch \<le> ls_effective_slots (layout_spec c)"
      unfolding chunk_valid_def by metis
    then show ?thesis using c(2) by (simp add: chunk_fits_def component_matrix_def)
  qed
  then show "\<forall>c \<in> set comps. \<forall>b \<in> set (blocks c). \<forall>ch \<in> set (chunks b). chunk_fits n ch" by blast
  show "(\<exists>m. segment_width d = 2 ^ m) \<and> segments_per_page d * segment_width d \<le> int n \<and>
      segment_width d \<le> int n" if "delta = Some d"
  proof -
    have "delta_ok d" "sd_effective_slots d = int n" using assms that by (simp_all add: sources_valid_def)
    then show ?thesis using delta_dims [of d] by simp
  qed
qed

lemma compiled_covers:
  assumes q: "compiled_from q (int n) s extra" and ok: "env_ok n t rots M out E x fm s"
  shows "covers (route_carries n t out fm (result_routes q)) x (shares (cq_output_plan q)) (query_entries q)"
proof -
  let ?P = "route_carries n t out fm (cs_routes s)"
  obtain masked where cs: "compile_sources (int n) masked (cq_components q) (segmented_delta q)
      (client_lane_segments q) = Inr s"
    using q by (auto simp: compiled_from_def)
  have sv: "sources_valid (cq_components q) (segmented_delta q) (client_lane_segments q)
      (query_rows q) (query_cols q) (int n)"
    and extra: "extra_shares (segmented_delta q) (client_lane_segments q) = Inr extra"
    using q by (simp_all add: compiled_from_def)
  note fit = sources_fit [OF sv]
  note R = compile_sources_run [OF cs refl fit(1) _ ok, OF fit(2), unfolded served_route]
  have comps: "covers ?P x (concat (map (\<lambda>c. concat (map (block_share (component_id c)) (blocks c)))
      (cq_components q))) (concat (map component_entries (cq_components q)))"
  proof (intro covers_concat ballI)
    fix c assume c: "c \<in> set (cq_components q)"
    then have "component_valid c" using sv by (simp add: sources_valid_def)
    then show "covers ?P x (concat (map (block_share (component_id c)) (blocks c))) (component_entries c)"
      by (rule component_covers) (use R(1) c in blast)
  qed
  have rest: "covers ?P x extra ((case segmented_delta q of None \<Rightarrow> [] | Some d \<Rightarrow> delta_entries d) @
      concat (map client_entries (client_lane_segments q)))"
  proof (cases "segmented_delta q")
    case None
    have "covers ?P x (concat (map (\<lambda>g. if segment_active g then [client_share g] else []) (client_lane_segments q)))
        (concat (map client_entries (client_lane_segments q)))"
    proof (intro covers_concat ballI)
      fix g assume g: "g \<in> set (client_lane_segments q)"
      then have "client_ok (int n) g" using sv by (simp add: sources_valid_def)
      then show "covers ?P x (if segment_active g then [client_share g] else []) (client_entries g)"
        unfolding client_ok_def by (intro client_covers) (use R(3) g in blast)+
    qed
    then show ?thesis using None extra by (simp add: extra_shares_def client_lane_shares_concat)
  next
    case (Some d)
    then have none: "client_lane_segments q = []" and d: "delta_ok d" "sd_effective_slots d = int n"
      using sv by (auto simp: sources_valid_def)
    obtain metas where metas: "client_b_page_metadata d = Inr metas"
      and served: "\<forall>(page, vals, meta) \<in> set (zip [0..<length metas] (zip (page_values (int n) d metas) metas)).
        ?P (strong_component_id, cbm_page_id meta) (page_lane x d vals (global_column_indices meta))"
      using R(2) Some by blast
    have post: "post_aggregation_output_shares d = Inr extra" using extra Some by (simp add: extra_shares_def)
    have "covers ?P x extra (delta_entries d)"
    proof (rule delta_covers [OF d(1) metas post])
      fix k assume k: "k < length metas"
      then have "(k, page_values (int n) d metas ! k, metas ! k) \<in>
          set (zip [0..<length metas] (zip (page_values (int n) d metas) metas))"
        using page_metadata_cells(5) [OF d(1) metas] d(2) by (auto simp: set_zip intro!: exI [of _ k])
      then show "?P (strong_component_id, cbm_page_id (metas ! k))
          (page_lane x d (page_values (sd_effective_slots d) d metas ! k) (global_column_indices (metas ! k)))"
        using served d(2) by auto
    qed
    then show ?thesis using Some none by simp
  qed
  from covers_append [OF comps rest] show ?thesis
    using q by (simp add: compiled_from_def query_entries_def source_entries_def)
qed

section \<open>Reading the shares back\<close>

lemma rmap_returned_shares:
  assumes "rmap (returned_share out) rs = Inr items" and "distinct (map route_share_id rs)"
    and "r \<in> set rs"
  shows "map_of (dict_of items) (route_share_id r) = map_of out (rr_result_id r)"
proof -
  have keys: "map fst items = map route_share_id rs \<and>
      (\<forall>r \<in> set rs. \<exists>v. map_of out (rr_result_id r) = Some v \<and> (route_share_id r, v) \<in> set items)"
    using assms(1)
  proof (induction rs arbitrary: items)
    case Nil
    then show ?case by simp
  next
    case (Cons a rs)
    obtain y items' where y: "returned_share out a = Inr y"
        and items': "rmap (returned_share out) rs = Inr items'" "items = y # items'"
      using Cons.prems by (auto simp: rbind_eq_Inr)
    obtain v where "map_of out (rr_result_id a) = Some v" "y = (route_share_id a, v)"
      using y by (auto simp: returned_share_def split: option.splits)
    then show ?case using Cons.IH [OF items'(1)] items'(2) by auto
  qed
  then obtain v where v: "map_of out (rr_result_id r) = Some v" "(route_share_id r, v) \<in> set items"
    using assms(3) by blast
  have dist: "distinct (map fst items)" using keys assms(2) by simp
  then have "map_of items (route_share_id r) = Some v" using v(2) by simp
  then show ?thesis using v(1) dist by (simp add: map_of_dict_of)
qed

text \<open>The lane of a plan, as the sum over its shares.\<close>

lemma row_lanes_sum:
  "(\<Sum>y \<leftarrow> row_lanes plan r. g y) = (\<Sum>s \<leftarrow> shares plan. \<Sum>(p, l) \<leftarrow> slot_to_logical s.
     if l = r then g (os_component_id s, os_output_block_id s, p) else (0 :: int))"
proof -
  have "(\<Sum>y \<leftarrow> map snd (filter (\<lambda>z. fst z = r) zs). g y) = (\<Sum>(l, y) \<leftarrow> zs. if l = r then g y else 0)" for zs
    by (induction zs) auto
  then have "(\<Sum>y \<leftarrow> row_lanes plan r. g y) = (\<Sum>(l, y) \<leftarrow> plan_lanes plan. if l = r then g y else 0)"
    by (simp add: row_lanes_def)
  also have "\<dots> = (\<Sum>s \<leftarrow> shares plan. \<Sum>(p, l) \<leftarrow> slot_to_logical s.
     if l = r then g (os_component_id s, os_output_block_id s, p) else 0)"
  proof -
    have "(\<Sum>(l, y) \<leftarrow> concat (map (\<lambda>s. map (\<lambda>(p, l). (l, os_component_id s, os_output_block_id s, p))
        (slot_to_logical s)) ss). if l = r then g y else 0) = (\<Sum>s \<leftarrow> ss. \<Sum>(p, l) \<leftarrow> slot_to_logical s.
        if l = r then g (os_component_id s, os_output_block_id s, p) else 0)" for ss
      by (induction ss) (simp_all add: comp_def case_prod_unfold cong: if_cong)
    then show ?thesis by (simp add: plan_lanes_def)
  qed
  finally show ?thesis .
qed

lemma covered_row_sum:
  assumes cov: "covers P x (shares plan) es" and ok: "plan_ok plan"
    and at: "\<And>i f p. i \<in> share_id ` set (shares plan) \<Longrightarrow> P i f \<Longrightarrow> 0 \<le> p \<Longrightarrow> p < op_slot_count plan \<Longrightarrow>
      lane_value returned (fst i, snd i, p) mod t = (f (nat p) + lane_value masks (fst i, snd i, p)) mod t"
    and cancel: "(\<Sum>y \<leftarrow> row_lanes plan r. lane_value masks y) mod t = 0"
  shows "row_sum plan returned r mod t = row_total (spmv_terms es x) r mod t"
proof -
  obtain fs where fs: "list_all2 (\<lambda>s f. P (share_id s) f) (shares plan) fs"
    and total: "\<And>r. (\<Sum>(s, f) \<leftarrow> zip (shares plan) fs. share_sum f s r) = row_total (spmv_terms es x) r"
    using cov unfolding covers_def by blast
  have len: "length (shares plan) = length fs" using fs by (rule list_all2_lengthD)
  define lanes where "lanes d s = (\<Sum>(p, l) \<leftarrow> slot_to_logical s.
     if l = r then lane_value d (os_component_id s, os_output_block_id s, p) else 0)"
    for d and s :: output_share
  have spread: "(\<Sum>y \<leftarrow> row_lanes plan r. lane_value d y) = (\<Sum>(s, f) \<leftarrow> zip (shares plan) fs. lanes d s)" for d
  proof -
    have "(\<Sum>(s, f) \<leftarrow> zip ss gs. lanes d s) = (\<Sum>s \<leftarrow> ss. lanes d s)" if "length ss = length gs" for ss and gs :: "(nat \<Rightarrow> int) list"
      using that by (induction ss gs rule: list_induct2) simp_all
    then show ?thesis using len by (simp add: row_lanes_sum lanes_def)
  qed
  have share: "(\<lambda>(s, f). lanes returned s) sf mod t = (\<lambda>(s, f). share_sum f s r + lanes masks s) sf mod t"
    if sf: "sf \<in> set (zip (shares plan) fs)" for sf
  proof -
    obtain s f where s: "sf = (s, f)" by (cases sf)
    have P: "P (share_id s) f" using fs sf unfolding s list_all2_iff by fast
    have mem: "s \<in> set (shares plan)" using sf unfolding s by (rule set_zip_leftD)
    have "lanes returned s mod t = (\<Sum>(p, l) \<leftarrow> slot_to_logical s. if l = r then f (nat p) +
        lane_value masks (os_component_id s, os_output_block_id s, p) else 0) mod t"
      unfolding lanes_def
    proof (rule sum_list_mod_cong)
      fix pl assume pl: "pl \<in> set (slot_to_logical s)"
      obtain p l where pl': "pl = (p, l)" by (cases pl)
      have "share_ok (logical_output_size plan) (op_slot_count plan) s" using ok mem by (simp add: plan_ok_def)
      then have "0 \<le> p" "p < op_slot_count plan" using pl by (auto simp: share_ok_def pl')
      from at [OF _ P this] mem
      show "(case pl of (p, l) \<Rightarrow> if l = r then lane_value returned (os_component_id s, os_output_block_id s, p) else 0) mod t =
        (case pl of (p, l) \<Rightarrow> if l = r then f (nat p) +
          lane_value masks (os_component_id s, os_output_block_id s, p) else 0) mod t"
        by (simp add: pl')
    qed
    also have "(\<Sum>(p, l) \<leftarrow> xs. if l = r then f (nat p) + lane_value masks (os_component_id s, os_output_block_id s, p) else 0) =
        (\<Sum>(p, l) \<leftarrow> xs. if l = r then f (nat p) else 0) +
        (\<Sum>(p, l) \<leftarrow> xs. if l = r then lane_value masks (os_component_id s, os_output_block_id s, p) else 0)" for xs
      by (induction xs) auto
    finally show ?thesis by (simp add: s share_sum_def lanes_def)
  qed
  have "row_sum plan returned r mod t = (\<Sum>(s, f) \<leftarrow> zip (shares plan) fs. share_sum f s r + lanes masks s) mod t"
    unfolding row_sum_def spread using share by (rule sum_list_mod_cong)
  also have "(\<Sum>(s, f) \<leftarrow> zip (shares plan) fs. share_sum f s r + lanes masks s) =
      row_total (spmv_terms es x) r + (\<Sum>y \<leftarrow> row_lanes plan r. lane_value masks y)"
    unfolding spread total [symmetric] by (simp add: case_prod_unfold sum_list_addf)
  finally show ?thesis using mod_add_right_eq [of "row_total (spmv_terms es x) r"
      "\<Sum>y \<leftarrow> row_lanes plan r. lane_value masks y" t] by (simp add: cancel)
qed

text \<open>The execution of a compiled query and the reconstruction of its shares, masked or not.\<close>

lemma compiled_query_reconstructs:
  assumes q: "compiled_from q (int n) s extra"
    and run: "execute_validated_cloud_plan (cloud_plan q) inputs supplied t = Inr out"
    and bind: "operands_bind inputs q x fm"
    and items: "rmap (returned_share out) (result_routes q) = Inr items"
    and masks: "masks_ok (cq_output_plan q) t ms"
    and fm: "\<And>r k. r \<in> set (result_routes q) \<Longrightarrow> k < n \<Longrightarrow>
      (if f1m_ciphertext_id r = None then 0 else fm (route_share_id r) k) =
      lane_value (masks_dict ms) (rr_component_id r, rr_output_block_id r, int k)"
    and rec: "reconstruct_output (cq_output_plan q) (dict_of items) t = Inr ys"
    and x: "int (length x) = query_cols q"
  shows "direct_spmv (query_entries q) x (query_rows q) (query_cols q) t = Inr ys"
proof -
  let ?plan = "cq_output_plan q" and ?ret = "dict_of items"
  have ok: "plan_ok ?plan" "2 \<le> t" and ret: "returned_ok ?plan ?ret"
    using reconstruct_output_Inr [OF rec] by simp_all
  have parts: "validate_compiled_parts q = Inr ()" and slots: "op_slot_count ?plan = int n"
    and size: "logical_output_size ?plan = query_rows q"
    and sv: "sources_valid (cq_components q) (segmented_delta q) (client_lane_segments q)
      (query_rows q) (query_cols q) (int n)"
    using q by (simp_all add: compiled_from_def)
  note V = validate_compiled_parts_Inr [OF parts]
  obtain rots M E where "env_ok n t rots M out E x fm s"
    using compiled_env_ok [OF q run bind] by blast
  with q have cov: "covers (route_carries n t out fm (result_routes q)) x (shares ?plan) (query_entries q)"
    by (rule compiled_covers)
  have "row_sum ?plan ?ret r mod t = row_total (spmv_terms (query_entries q) x) r mod t" for r
    using cov ok(1)
  proof (rule covered_row_sum)
    show "(\<Sum>y \<leftarrow> row_lanes ?plan r. lane_value (masks_dict ms) y) mod t = 0"
      by (rule row_lanes_sum_zero [OF masks])
    fix i f p assume "route_carries n t out fm (result_routes q) i f" and p: "0 \<le> p" "p < op_slot_count ?plan"
    then obtain rt where rt: "rt \<in> set (result_routes q)" "route_share_id rt = i" "result_carries n t out fm rt f"
      by (auto simp: route_carries_def)
    then obtain v where v: "map_of out (rr_result_id rt) = Some v"
      "\<forall>k < n. v ! k = (f k + (if f1m_ciphertext_id rt = None then 0 else fm (route_share_id rt) k)) mod t"
      by (auto simp: result_carries_def)
    have "map_of ?ret i = Some v"
      using rmap_returned_shares [OF items V(2) rt(1)] v(1) rt(2) by simp
    moreover have k: "nat p < n" using p slots by simp
    moreover have "int (nat p) = p" using p by simp
    ultimately show "lane_value ?ret (fst i, snd i, p) mod t =
        (f (nat p) + lane_value (masks_dict ms) (fst i, snd i, p)) mod t"
      using v(2) fm [OF rt(1) k] rt(2) [symmetric] by (simp add: lane_value_def)
  qed
  then have "ys = map (\<lambda>r. row_total (spmv_terms (query_entries q) x) r mod t) (py_range 0 (query_rows q))"
    using rec reconstruct_output_ok [OF ok ret] size by simp
  moreover have "0 < query_rows q" "0 < query_cols q"
  proof -
    have "hd (cq_components q) \<in> set (cq_components q)" using sv by (simp add: sources_valid_def)
    then have "component_valid (hd (cq_components q))" using sv by (simp add: sources_valid_def)
    then show "0 < query_rows q" "0 < query_cols q"
      by (simp_all add: component_valid_def query_rows_def query_cols_def)
  qed
  ultimately show ?thesis
    using sv ok(2) x by (simp add: direct_spmv_eq query_entries_def sources_valid_def)
qed

end
