(* ===== verification/Ledger_Facts.thy ===== *)
theory Ledger_Facts
  imports Mask_Ledger Output_Plan_Facts
begin

text \<open>
  What \<open>mask_ledger.py\<close> guarantees, and what its client \<open>prepare_f1m_masks\<close> gets from it.
  The interface is two locales: a ledger that hands out each binding once, and its extension
  with a batch that is consumed once. The theory interprets both on the SQLite model, proves
  the round trip from commitment to consumption, and the at-most-once laws over whole runs.
\<close>

section \<open>The interface\<close>

locale reservation_ledger =
  fixes reserve :: "mask_binding list \<Rightarrow> 'l \<Rightarrow> 'l res"
    and reserved :: "'l \<Rightarrow> mask_binding set"
  assumes reserve_distinct: "reserve bs l = Inr l' \<Longrightarrow> distinct bs"
    and reserve_fresh: "reserve bs l = Inr l' \<Longrightarrow> set bs \<inter> reserved l = {}"
    and reserve_adds: "reserve bs l = Inr l' \<Longrightarrow> reserved l' = reserved l \<union> set bs"
begin

lemma prepare_fresh:
  assumes "prepare_f1m_masks rng reserve plan q v t l = (Inr ms, l')"
  shows "pm_binding ` set ms \<inter> reserved l = {}"
    and "reserved l' = reserved l \<union> pm_binding ` set ms"
  using reserve_fresh [OF prepare_f1m_masks_Inr(4) [OF assms]]
    reserve_adds [OF prepare_f1m_masks_Inr(4) [OF assms]] by auto

text \<open>A failed preparation never frees a binding.\<close>

lemma prepare_keeps:
  assumes "prepare_f1m_masks rng reserve plan q v t l = (r, l')"
  shows "reserved l \<subseteq> reserved l'"
proof (cases r)
  case (Inl e)
  then show ?thesis using prepare_f1m_masks_Inl [of rng reserve plan q v t l e l'] assms reserve_adds
    by (metis Un_upper1 order_refl)
next
  case (Inr ms)
  then show ?thesis using prepare_fresh(2) assms by blast
qed

text \<open>The masks of one query on one plan are prepared at most once.\<close>

lemma prepare_once:
  assumes first: "prepare_f1m_masks rng reserve plan q v t l = (Inr ms, l1)"
    and later: "reserved l1 \<subseteq> reserved l2" and overlap: "overlap_ids plan \<noteq> {}"
  shows "\<exists>e. fst (prepare_f1m_masks rng' reserve plan q v t' l2) = Inl e"
proof (rule ccontr)
  assume "\<not> ?thesis"
  then obtain ms' l3 where second: "prepare_f1m_masks rng' reserve plan q v t' l2 = (Inr ms', l3)"
    by (metis eq_fst_iff obj_sumE)
  note F = prepare_f1m_masks_Inr [OF first] and S = prepare_f1m_masks_Inr [OF second]
  obtain c b where cb: "(c, b) \<in> overlap_ids plan" using overlap by auto
  obtain m where m: "m \<in> set ms" "pm_component_id m = c" "pm_output_block_id m = b"
    using cb unfolding F(6) [symmetric] by auto
  obtain m' where m': "m' \<in> set ms'" "pm_component_id m' = c" "pm_output_block_id m' = b"
    using cb unfolding S(6) [symmetric] by auto
  have "pm_binding m' = pm_binding m"
    using F(7,8) S(7,8) m m' by (auto simp: pm_binding_def)
  moreover have "pm_binding m \<in> reserved l2" using prepare_fresh(2) [OF first] later m(1) by auto
  ultimately show False using prepare_fresh(1) [OF second] m'(1) by auto
qed

end

text \<open>The extension: batches of commitments, each consumed at most once.\<close>

locale consumption_ledger = reservation_ledger reserve reserved
  for reserve :: "mask_binding list \<Rightarrow> 'l \<Rightarrow> 'l res" and reserved :: "'l \<Rightarrow> mask_binding set" +
  fixes consume :: "'c \<Rightarrow> string \<Rightarrow> 'k \<Rightarrow> 'l \<Rightarrow> 'l res"
    and consumed :: "'l \<Rightarrow> string set"
  assumes consume_fresh: "consume cs token k l = Inr l' \<Longrightarrow> token \<notin> consumed l"
    and consume_adds: "consume cs token k l = Inr l' \<Longrightarrow> consumed l' = insert token (consumed l)"
    and consume_reserved: "consume cs token k l = Inr l' \<Longrightarrow> reserved l' = reserved l"
    and reserve_consumed: "reserve bs l = Inr l' \<Longrightarrow> consumed l' = consumed l"
begin

lemma consume_once:
  assumes "consume cs token k l = Inr l1" and "consumed l1 \<subseteq> consumed l2"
  shows "\<exists>e. consume cs' token k' l2 = Inl e"
proof (cases "consume cs' token k' l2")
  case (Inr l3)
  then show ?thesis using consume_fresh consume_adds assms by blast
qed simp

end

section \<open>Reservations\<close>

lemma require_writable_Inr [simp]: "require_writable l = Inr u \<longleftrightarrow> \<not> read_only l"
  by (simp add: require_writable_def)

lemma reserve_all_eq:
  "reserve_all bs l = Inr l' \<longleftrightarrow> \<not> read_only l \<and> distinct bs \<and> set bs \<inter> set (reservations l) = {} \<and>
     l' = l\<lparr>reservations := reservations l @ bs\<rparr>"
  by (auto simp: reserve_all_def rbind_eq_Inr)

section \<open>Batches\<close>

text \<open>What the primary keys and the unique index of the schema maintain.\<close>

definition ledger_ok :: "ledger \<Rightarrow> bool" where
  "ledger_ok l \<longleftrightarrow> distinct (reservations l) \<and> distinct (map br_token (batches l)) \<and>
     distinct (map batch_identity (batches l)) \<and> distinct (map commitment_key (commitments l)) \<and>
     fst ` set (commitments l) \<subseteq> br_token ` set (batches l)"

definition consumed_tokens :: "ledger \<Rightarrow> string set" where
  "consumed_tokens l = {t. \<exists>b. find_batch t l = Some b \<and> br_consumed b}"

lemma validate_commitment_Inr:
  "validate_commitment k ids c = Inr ids' \<longleftrightarrow>
     commitment_ok k c \<and> (fc_component_id c, fc_output_block_id c) \<notin> set ids \<and>
     (fc_kind c = EncryptedZeroDummy \<longrightarrow> (\<forall>v \<in> set (fc_values c). v = 0)) \<and>
     ids' = (fc_component_id c, fc_output_block_id c) # ids"
  by (auto simp: validate_commitment_def Let_def)

lemma validate_commitment_fold:
  "(\<exists>ids'. rfold (validate_commitment k) ids cs = Inr ids') \<longleftrightarrow>
     distinct (map (\<lambda>c. (fc_component_id c, fc_output_block_id c)) cs) \<and>
     set ids \<inter> (\<lambda>c. (fc_component_id c, fc_output_block_id c)) ` set cs = {} \<and>
     (\<forall>c \<in> set cs. commitment_ok k c \<and>
        (fc_kind c = EncryptedZeroDummy \<longrightarrow> (\<forall>v \<in> set (fc_values c). v = 0)))"
proof (induction cs arbitrary: ids)
  case (Cons c cs)
  have "(\<exists>ids'. rfold (validate_commitment k) ids (c # cs) = Inr ids') \<longleftrightarrow>
    (\<exists>ids1. validate_commitment k ids c = Inr ids1 \<and>
       (\<exists>ids'. rfold (validate_commitment k) ids1 cs = Inr ids'))"
    by (auto simp: rbind_eq_Inr)
  then show ?case unfolding Cons.IH validate_commitment_Inr by auto
qed simp

definition batch_key_ok :: "batch_key \<Rightarrow> bool" where
  "batch_key_ok k \<longleftrightarrow> valid_id (bk_query_id k) \<and> valid_id (bk_version_id k) \<and>
     valid_sha256 (bk_output_plan_digest k) \<and> valid_sha256 (bk_private_plan_digest k) \<and>
     valid_sha256 (bk_execution_binding_digest k) \<and> 2 \<le> bk_modulus k"

lemma validate_commitments_Inr:
  "validate_commitments k cs = Inr () \<longleftrightarrow> batch_key_ok k \<and>
     distinct (map (\<lambda>c. (fc_component_id c, fc_output_block_id c)) cs) \<and>
     (\<forall>c \<in> set cs. commitment_ok k c \<and>
        (fc_kind c = EncryptedZeroDummy \<longrightarrow> (\<forall>v \<in> set (fc_values c). v = 0)))"
  using validate_commitment_fold [of k "[]" cs]
  by (auto simp: validate_commitments_def batch_key_ok_def rbind_eq_Inr)

lemma commit_Inr:
  "commit_prepared_f1m token cs k l = Inr (issued, l') \<longleftrightarrow>
     \<not> read_only l \<and> validate_commitments k cs = Inr () \<and> valid_sha256 token \<and>
     (\<forall>c \<in> set cs. fc_kind c = RandomZeroSum \<longrightarrow> fc_binding c \<in> set (reservations l)) \<and>
     token \<notin> br_token ` set (batches l) \<and>
     batch_identity (new_batch token k) \<notin> batch_identity ` set (batches l) \<and>
     commitment_key ` set (map (\<lambda>c. (token, commitment_row_of (bk_modulus k) c)) cs) \<inter>
       commitment_key ` set (commitments l) = {} \<and>
     issued = token \<and>
     l' = l\<lparr>batches := batches l @ [new_batch token k],
            commitments := commitments l @ map (\<lambda>c. (token, commitment_row_of (bk_modulus k) c)) cs\<rparr>"
  unfolding commit_prepared_f1m_def Let_def by (auto simp: rbind_eq_Inr)

lemma consume_Inr:
  "verify_and_consume_prepared_f1m cs token k l = Inr l' \<longleftrightarrow>
     \<not> read_only l \<and> validate_commitments k cs = Inr () \<and> valid_sha256 token \<and>
     (\<exists>b. find_batch token l = Some b \<and> b = new_batch token k) \<and>
     stored_rows token l = expected_rows (bk_modulus k) cs \<and> l' = mark_consumed token l"
  (is "?L \<longleftrightarrow> ?R")
proof -
  have tok: "br_token b = token" if "find_batch token l = Some b" for b
    using that by (auto simp: find_batch_def find_Some_iff)
  have row: "b = new_batch token k \<longleftrightarrow> batch_identity b = (bk_query_id k, bk_version_id k, bk_output_plan_digest k) \<and>
      br_modulus b = json_int (bk_modulus k) \<and> br_private_plan_digest b = bk_private_plan_digest k \<and>
      br_execution_binding_digest b = bk_execution_binding_digest k \<and> \<not> br_consumed b"
    if "find_batch token l = Some b" for b
    using tok [OF that] by (cases b) (auto simp: new_batch_def batch_identity_def)
  show ?thesis
    by (auto simp: verify_and_consume_prepared_f1m_def rbind_eq_Inr row split: option.splits if_splits)
qed

lemma find_batch_unique:
  "distinct (map br_token (batches l)) \<Longrightarrow> b \<in> set (batches l) \<Longrightarrow> find_batch (br_token b) l = Some b"
proof -
  assume d: "distinct (map br_token (batches l))" and b: "b \<in> set (batches l)"
  have "\<exists>b'. find_batch (br_token b) l = Some b'"
    using b by (cases "find_batch (br_token b) l") (auto simp: find_batch_def find_None_iff)
  then obtain b' where b': "find_batch (br_token b) l = Some b'" by blast
  then have "b' \<in> set (batches l)" "br_token b' = br_token b"
    by (auto simp: find_batch_def find_Some_iff)
  then show ?thesis using d b b' by (metis distinct_map inj_onD)
qed

text \<open>The rows of a token, in the two orders the code sorts them by.\<close>

lemma filter_same_key:
  "distinct (map f xs) \<Longrightarrow> k \<in> set xs \<Longrightarrow> filter (\<lambda>x. f k = f x) xs = [k]"
proof (induction xs)
  case (Cons x xs)
  show ?case
  proof (cases "k = x")
    case True
    then have "filter (\<lambda>y. f k = f y) xs = []"
      using Cons.prems(1) by (auto simp: filter_empty_conv)
    then show ?thesis using True by simp
  next
    case False
    then have "f k \<noteq> f x" using Cons.prems by (auto simp: image_iff)
    then show ?thesis using Cons False by simp
  qed
qed simp

lemma sort_key_eq_sort:
  fixes xs :: "'a::linorder list"
  assumes mono: "\<And>x y. x \<le> y \<Longrightarrow> f x \<le> f y" and dist: "distinct (map f xs)"
  shows "sort_key f xs = sort xs"
proof (rule properties_for_sort_key)
  have d: "distinct (map f (sort xs))" using dist by (simp add: distinct_map)
  show "filter (\<lambda>x. f k = f x) (sort xs) = filter (\<lambda>x. f k = f x) xs" if "k \<in> set (sort xs)" for k
    using filter_same_key [OF d that] filter_same_key [OF dist] that by simp
  show "sorted (map f (sort xs))"
    unfolding sorted_map by (rule sorted_wrt_mono_rel [OF _ sorted_sort [of xs]]) (rule mono)
qed simp

lemma sort_rows_by_key:
  assumes "distinct (map (\<lambda>(c, b, _). (c, b)) rows)"
  shows "sort_key (\<lambda>(c, b, _). (c, b)) rows = sort (rows :: commitment_row list)"
proof (rule sort_key_eq_sort [OF _ assms])
  show "(case x of (c, b, _) \<Rightarrow> (c, b)) \<le> (case y of (c, b, _) \<Rightarrow> (c, b))"
    if "x \<le> y" for x y :: commitment_row
    using that by (cases x; cases y) (auto simp: less_eq_prod_def)
qed

section \<open>The ledger is an instance of the interface\<close>

lemma find_map_token:
  "(\<And>b. br_token (f b) = br_token b) \<Longrightarrow>
     List.find (\<lambda>b. br_token b = t) (map f bs) = map_option f (List.find (\<lambda>b. br_token b = t) bs)"
  by (induction bs) auto

lemma find_batch_mark_consumed:
  "find_batch t (mark_consumed token l) =
     map_option (\<lambda>b. if t = token then b\<lparr>br_consumed := True\<rparr> else b) (find_batch t l)"
proof -
  have tok: "br_token b = t" if "List.find (\<lambda>b. br_token b = t) (batches l) = Some b" for b t
    using that by (auto simp: find_Some_iff)
  show ?thesis
    unfolding find_batch_def mark_consumed_def
    by (simp add: find_map_token cong: option.map_cong)
      (auto simp: map_option_case split: option.splits dest: tok)
qed

lemma mark_consumed_fields [simp]:
  "reservations (mark_consumed token l) = reservations l"
  "commitments (mark_consumed token l) = commitments l"
  "stored_rows t (mark_consumed token l) = stored_rows t l"
  "read_only (mark_consumed token l) = read_only l"
  by (simp_all add: mark_consumed_def stored_rows_def)

lemma consumed_mark_consumed:
  assumes "find_batch token l = Some b"
  shows "consumed_tokens (mark_consumed token l) = insert token (consumed_tokens l)"
proof (rule set_eqI)
  show "t \<in> consumed_tokens (mark_consumed token l) \<longleftrightarrow> t \<in> insert token (consumed_tokens l)" for t
    using assms by (cases "t = token") (simp_all add: consumed_tokens_def find_batch_mark_consumed)
qed

interpretation rl: reservation_ledger reserve_all "\<lambda>l. set (reservations l)"
  by unfold_locales (auto simp: reserve_all_eq)

interpretation cl: consumption_ledger reserve_all "\<lambda>l. set (reservations l)"
  verify_and_consume_prepared_f1m consumed_tokens
proof unfold_locales
  fix cs token k l l'
  assume c: "verify_and_consume_prepared_f1m cs token k l = Inr l'"
  show "token \<notin> consumed_tokens l"
    using c by (auto simp: consume_Inr consumed_tokens_def new_batch_def)
  show "consumed_tokens l' = insert token (consumed_tokens l)"
    using c consumed_mark_consumed by (auto simp: consume_Inr)
  show "set (reservations l') = set (reservations l)"
    using c by (auto simp: consume_Inr)
next
  fix bs l l'
  assume "reserve_all bs l = Inr l'"
  then show "consumed_tokens l' = consumed_tokens l"
    by (auto simp: reserve_all_eq consumed_tokens_def find_batch_def)
qed

section \<open>From commitment to consumption\<close>

lemma expected_rows_stored:
  assumes "distinct (map (\<lambda>c. (fc_component_id c, fc_output_block_id c)) cs)"
  shows "sort_key (\<lambda>(c, b, _). (c, b)) (map (commitment_row_of m) cs) = expected_rows m cs"
proof -
  have "map (\<lambda>(c, b, _). (c, b)) (map (commitment_row_of m) cs) =
      map (\<lambda>c. (fc_component_id c, fc_output_block_id c)) cs"
    by (simp add: commitment_row_of_def)
  then have "distinct (map (\<lambda>(c, b, _). (c, b)) (map (commitment_row_of m) cs))"
    using assms by (simp only:)
  then show ?thesis by (simp add: sort_rows_by_key expected_rows_def)
qed

lemma find_append_None: "List.find p xs = None \<Longrightarrow> List.find p (xs @ ys) = List.find p ys"
  by (induction xs) (auto split: if_splits)

lemma find_append_cases: "List.find p (xs @ ys) =
    (case List.find p xs of Some x \<Rightarrow> Some x | None \<Rightarrow> List.find p ys)"
  by (induction xs) auto

lemma commit_stored:
  assumes "ledger_ok l" and "commit_prepared_f1m token cs k l = Inr (issued, l1)"
  shows "find_batch token l1 = Some (new_batch token k)"
    and "stored_rows token l1 = expected_rows (bk_modulus k) cs"
proof -
  from assms(2) have fresh: "token \<notin> br_token ` set (batches l)"
    and l1: "l1 = l\<lparr>batches := batches l @ [new_batch token k],
      commitments := commitments l @ map (\<lambda>c. (token, commitment_row_of (bk_modulus k) c)) cs\<rparr>"
    and v: "validate_commitments k cs = Inr ()"
    by (simp_all add: commit_Inr)
  have "List.find (\<lambda>b. br_token b = token) (batches l) = None"
    using fresh by (auto simp: find_None_iff)
  then have "List.find (\<lambda>b. br_token b = token) (batches l @ bs) = List.find (\<lambda>b. br_token b = token) bs" for bs
    by (rule find_append_None)
  then show "find_batch token l1 = Some (new_batch token k)"
    by (simp add: find_batch_def l1 new_batch_def)
  have "token \<notin> fst ` set (commitments l)" using assms(1) fresh by (auto simp: ledger_ok_def)
  then have "filter (\<lambda>(t, _). t = token) (commitments l) = []"
    by (force simp: filter_empty_conv)
  then have "map snd (filter (\<lambda>(t, _). t = token) (commitments l1)) =
      map (commitment_row_of (bk_modulus k)) cs"
    by (simp add: l1 filter_map comp_def)
  then show "stored_rows token l1 = expected_rows (bk_modulus k) cs"
    using v expected_rows_stored by (simp add: stored_rows_def validate_commitments_Inr)
qed

lemma commit_consume:
  assumes "ledger_ok l" and "commit_prepared_f1m token cs k l = Inr (issued, l1)"
  shows "verify_and_consume_prepared_f1m cs issued k l1 = Inr (mark_consumed token l1)"
  using commit_stored [OF assms] assms(2)
  by (simp add: consume_Inr commit_Inr)

text \<open>A consumed batch is verified by the read-only replay check, and only that batch.\<close>

lemma consume_verified:
  assumes "verify_and_consume_prepared_f1m cs token k l = Inr l1"
  shows "verify_consumed_prepared_f1m cs token k l1 = Inr ()"
  using assms
  by (auto simp: consume_Inr verify_consumed_prepared_f1m_def find_batch_mark_consumed)

lemma verify_consumed_Inr:
  "verify_consumed_prepared_f1m cs token k l = Inr u \<longleftrightarrow>
     validate_commitments k cs = Inr () \<and> valid_sha256 token \<and>
     find_batch token l = Some (new_batch token k\<lparr>br_consumed := True\<rparr>) \<and>
     stored_rows token l = expected_rows (bk_modulus k) cs"
  by (auto simp: verify_consumed_prepared_f1m_def rbind_eq_Inr)

section \<open>The invariant of the tables\<close>

lemma empty_ledger_ok [simp]: "ledger_ok empty_ledger"
  by (simp add: ledger_ok_def empty_ledger_def)

lemma reserve_all_ok: "ledger_ok l \<Longrightarrow> reserve_all bs l = Inr l' \<Longrightarrow> ledger_ok l'"
  by (auto simp: ledger_ok_def reserve_all_eq)

lemma commit_keys_distinct:
  assumes "distinct (map (\<lambda>c. (fc_component_id c, fc_output_block_id c)) cs)"
  shows "distinct (map commitment_key (map (\<lambda>c. (token, commitment_row_of m c)) cs))"
proof -
  have "map commitment_key (map (\<lambda>c. (token, commitment_row_of m c)) cs) =
      map (Pair token) (map (\<lambda>c. (fc_component_id c, fc_output_block_id c)) cs)"
    by (simp add: commitment_key_def commitment_row_of_def)
  moreover have "distinct (map (Pair token) xs) \<longleftrightarrow> distinct xs" for xs :: "(string \<times> string) list"
    by (simp add: distinct_map inj_on_def)
  ultimately show ?thesis using assms by (simp only:)
qed

lemma commit_ok:
  assumes "ledger_ok l" and "commit_prepared_f1m token cs k l = Inr (issued, l')"
  shows "ledger_ok l'"
proof -
  let ?rows = "map (\<lambda>c. (token, commitment_row_of (bk_modulus k) c)) cs"
  from assms(2) have c: "token \<notin> br_token ` set (batches l)"
      "batch_identity (new_batch token k) \<notin> batch_identity ` set (batches l)"
      "commitment_key ` set ?rows \<inter> commitment_key ` set (commitments l) = {}"
      "l' = l\<lparr>batches := batches l @ [new_batch token k], commitments := commitments l @ ?rows\<rparr>"
      "validate_commitments k cs = Inr ()"
    unfolding commit_Inr by blast+
  have "distinct (map commitment_key ?rows)"
    using c(5) by (intro commit_keys_distinct) (simp add: validate_commitments_Inr)
  moreover have "fst ` set ?rows \<subseteq> {token}" by auto
  moreover have "br_token (new_batch token k) = token" by (simp add: new_batch_def)
  ultimately show ?thesis
    using assms(1) c(1-3) unfolding ledger_ok_def c(4)
    by (auto simp del: map_map simp: Int_commute)
qed

lemma mark_consumed_ok: "ledger_ok l \<Longrightarrow> ledger_ok (mark_consumed token l)"
proof -
  let ?f = "\<lambda>b. if br_token b = token \<and> \<not> br_consumed b then b\<lparr>br_consumed := True\<rparr> else b"
  have "map br_token (map ?f bs) = map br_token bs" "map batch_identity (map ?f bs) = map batch_identity bs"
    for bs by (auto simp: batch_identity_def)
  moreover have "batches (mark_consumed token l) = map ?f (batches l)" by (simp add: mark_consumed_def)
  ultimately have m: "map br_token (batches (mark_consumed token l)) = map br_token (batches l)"
    "map batch_identity (batches (mark_consumed token l)) = map batch_identity (batches l)"
    by simp_all
  have "br_token ` set (batches (mark_consumed token l)) = br_token ` set (batches l)"
    using m(1) by (metis list.set_map)
  with m show "ledger_ok l \<Longrightarrow> ledger_ok (mark_consumed token l)"
    by (simp add: ledger_ok_def)
qed

section \<open>Runs of the ledger\<close>

text \<open>
  Transactions that commit, in any order and from any client. A transaction that raises leaves
  the database as it was, so it is no step.
\<close>

datatype ledger_op = Reserve "mask_binding list"
  | Commit string "prepared_f1m_commitment list" batch_key
  | Consume "prepared_f1m_commitment list" string batch_key

inductive ledger_step :: "ledger \<Rightarrow> ledger_op \<Rightarrow> ledger \<Rightarrow> bool" where
  step_reserve: "reserve_all bs l = Inr l' \<Longrightarrow> ledger_step l (Reserve bs) l'"
| step_commit: "commit_prepared_f1m token cs k l = Inr (issued, l') \<Longrightarrow>
    ledger_step l (Commit token cs k) l'"
| step_consume: "verify_and_consume_prepared_f1m cs token k l = Inr l' \<Longrightarrow>
    ledger_step l (Consume cs token k) l'"

inductive_simps ledger_step_simps [simp]:
  "ledger_step l (Reserve bs) l'" "ledger_step l (Commit token cs k) l'"
  "ledger_step l (Consume cs token k) l'"

inductive ledger_run :: "ledger \<Rightarrow> ledger_op list \<Rightarrow> ledger \<Rightarrow> bool" where
  run_nil: "ledger_run l [] l"
| run_snoc: "ledger_run l ops l1 \<Longrightarrow> ledger_step l1 op l2 \<Longrightarrow> ledger_run l (ops @ [op]) l2"

fun consumes :: "string \<Rightarrow> ledger_op \<Rightarrow> bool" where
  "consumes t (Consume _ token _) \<longleftrightarrow> token = t"
| "consumes t _ \<longleftrightarrow> False"

fun reserves :: "ledger_op \<Rightarrow> mask_binding list" where
  "reserves (Reserve bs) = bs"
| "reserves _ = []"

lemma step_ok: "ledger_step l op l' \<Longrightarrow> ledger_ok l \<Longrightarrow> ledger_ok l'"
  by (cases op) (auto intro: reserve_all_ok commit_ok simp: consume_Inr intro!: mark_consumed_ok)

lemma commit_consumed_tokens:
  assumes "commit_prepared_f1m token cs k l = Inr (issued, l')"
  shows "consumed_tokens l' = consumed_tokens l"
proof -
  have fresh: "token \<notin> br_token ` set (batches l)"
    and b: "batches l' = batches l @ [new_batch token k]"
    using assms by (auto simp: commit_Inr)
  have "find_batch t l' = (case find_batch t l of Some b \<Rightarrow> Some b
      | None \<Rightarrow> if t = token then Some (new_batch token k) else None)" for t
    unfolding find_batch_def b find_append_cases by (auto simp: new_batch_def split: option.splits)
  then show ?thesis
    by (auto simp: consumed_tokens_def new_batch_def split: option.splits if_splits)
qed

lemma run_invariant:
  "ledger_run l ops l' \<Longrightarrow> ledger_ok l \<Longrightarrow> ledger_ok l' \<and>
     reservations l' = reservations l @ concat (map reserves ops) \<and>
     (\<forall>t. t \<in> consumed_tokens l \<longrightarrow> t \<in> consumed_tokens l') \<and>
     (\<forall>t. length (filter (consumes t) ops) =
        (if t \<in> consumed_tokens l' \<and> t \<notin> consumed_tokens l then 1 else 0))"
proof (induction rule: ledger_run.induct)
  case (run_nil l)
  then show ?case by simp
next
  case (run_snoc l ops l1 op l2)
  then have IH: "ledger_ok l1" "reservations l1 = reservations l @ concat (map reserves ops)"
    "\<forall>t. t \<in> consumed_tokens l \<longrightarrow> t \<in> consumed_tokens l1"
    "\<forall>t. length (filter (consumes t) ops) =
        (if t \<in> consumed_tokens l1 \<and> t \<notin> consumed_tokens l then 1 else 0)"
    by blast+
  have ok: "ledger_ok l2" using step_ok run_snoc(2) IH(1) by blast
  show ?case
  proof (cases op)
    case (Reserve bs)
    then show ?thesis
      using run_snoc(2) ok IH cl.reserve_consumed [of bs l1 l2] by (auto simp: reserve_all_eq)
  next
    case (Commit token cs k)
    then show ?thesis
      using run_snoc(2) ok IH commit_consumed_tokens [of token cs k l1 _ l2]
      by (auto simp: commit_Inr)
  next
    case (Consume cs token k)
    then have c: "verify_and_consume_prepared_f1m cs token k l1 = Inr l2" using run_snoc(2) by simp
    have "reservations l2 = reservations l1" using c by (simp add: consume_Inr)
    then show ?thesis
      using ok IH cl.consume_fresh [OF c] cl.consume_adds [OF c] Consume by auto
  qed
qed

section \<open>What the ledger guarantees\<close>

text \<open>
  C33. Once the masks of a plan with overlapping rows have been prepared for a query and a
  version, no later preparation for the same query, version and plan succeeds on any ledger that
  kept the reservations, whatever the samples and the modulus.
\<close>

theorem masks_prepared_once:
  assumes "prepare_f1m_masks rng reserve_all plan q v t l = (Inr ms, l1)"
    and "set (reservations l1) \<subseteq> set (reservations l2)" and "overlap_ids plan \<noteq> {}"
  shows "\<exists>e. fst (prepare_f1m_masks rng' reserve_all plan q v t' l2) = Inl e"
  using assms by (rule rl.prepare_once)

theorem masks_prepared_once_witness:
  "\<exists>ms l1. prepare_f1m_masks (\<lambda>_. 3) reserve_all sample_plan ''q'' ''v'' 7 empty_ledger = (Inr ms, l1) \<and>
     (\<exists>e. fst (prepare_f1m_masks (\<lambda>_. 4) reserve_all sample_plan ''q'' ''v'' 11 l1) = Inl e)"
proof -
  have "\<exists>ms l'. prepare_f1m_masks (\<lambda>_. 3) reserve_all sample_plan ''q'' ''v'' 7 empty_ledger = (Inr ms, l')"
    by (rule prepare_f1m_masks_total [OF sample_plan_ok])
      (simp_all add: valid_id_def id_char_def reserve_all_eq empty_ledger_def)
  then obtain ms l1 where run:
    "prepare_f1m_masks (\<lambda>_. 3) reserve_all sample_plan ''q'' ''v'' 7 empty_ledger = (Inr ms, l1)"
    by blast
  have "(''b'', ''b-h000000'') \<in> overlap_ids sample_plan"
    by (auto simp: overlap_ids_of_shares shared_rows_def logical_rows_def sample_plan_def image_iff
        intro!: exI [of _ "\<lparr>os_component_id = ''b'', os_output_block_id = ''b-h000000'',
          slot_to_logical = [(0, 0)]\<rparr>"])
  then have "overlap_ids sample_plan \<noteq> {}" by blast
  then show ?thesis using masks_prepared_once [OF run subset_refl] run by blast
qed

text \<open>
  C34. In any sequence of successful transactions from an empty ledger, every mask binding is
  reserved at most once, every commitment token is consumed at most once, and the tables keep
  their keys: one batch per token and per query, version and plan, and commitment rows only for
  existing batches.
\<close>

theorem ledger_runs_once:
  assumes "ledger_run empty_ledger ops l"
  shows "distinct (concat (map reserves ops)) \<and> (\<forall>t. length (filter (consumes t) ops) \<le> 1) \<and>
    ledger_ok l"
proof -
  have "reservations empty_ledger = []" by (simp add: empty_ledger_def)
  with run_invariant [OF assms empty_ledger_ok] have inv: "ledger_ok l"
      "reservations l = concat (map reserves ops)"
      "\<forall>t. length (filter (consumes t) ops) = (if t \<in> consumed_tokens l \<and>
         t \<notin> consumed_tokens empty_ledger then 1 else 0)"
    by simp_all
  then show ?thesis by (simp add: ledger_ok_def)
qed

text \<open>
  C35. What commits can be executed once: on a well-formed ledger, a batch that was committed is
  accepted by the consumption with the same key and commitments, the consumed batch passes the
  read-only replay check, and every further consumption of its token is refused.
\<close>

theorem commit_consume_once:
  assumes "ledger_ok l" and "commit_prepared_f1m token cs k l = Inr (issued, l1)"
  shows "\<exists>l2. verify_and_consume_prepared_f1m cs issued k l1 = Inr l2 \<and>
    verify_consumed_prepared_f1m cs issued k l2 = Inr () \<and>
    (\<forall>cs' k'. \<exists>e. verify_and_consume_prepared_f1m cs' issued k' l2 = Inl e)"
proof -
  let ?l2 = "mark_consumed token l1"
  have c: "verify_and_consume_prepared_f1m cs issued k l1 = Inr ?l2"
    using assms by (rule commit_consume)
  have "\<exists>e. verify_and_consume_prepared_f1m cs' issued k' ?l2 = Inl e" for cs' k'
    using cl.consume_once [OF c] by blast
  then show ?thesis using c consume_verified [OF c] by blast
qed

definition sample_key :: batch_key where
  "sample_key = \<lparr>bk_query_id = ''q'', bk_version_id = ''v'',
     bk_output_plan_digest = replicate 64 (CHR ''a''), bk_private_plan_digest = replicate 64 (CHR ''b''),
     bk_execution_binding_digest = replicate 64 (CHR ''c''), bk_modulus = 7\<rparr>"

definition sample_commitment :: prepared_f1m_commitment where
  "sample_commitment = \<lparr>fc_query_id = ''q'', fc_version_id = ''v'',
     fc_output_plan_digest = replicate 64 (CHR ''a''), fc_component_id = ''a'',
     fc_output_block_id = ''a-h000000'', fc_kind = RandomZeroSum, fc_values = [3, 0]\<rparr>"

definition sample_token :: string where
  "sample_token = replicate 64 (CHR ''d'')"

definition reserved_ledger :: ledger where
  "reserved_ledger = empty_ledger\<lparr>reservations := [fc_binding sample_commitment]\<rparr>"

lemma sample_reserved: "reserve_all [fc_binding sample_commitment] empty_ledger = Inr reserved_ledger"
  by (simp add: reserve_all_eq reserved_ledger_def empty_ledger_def)

lemma sample_committed:
  "\<exists>l1. commit_prepared_f1m sample_token [sample_commitment] sample_key reserved_ledger =
     Inr (sample_token, l1)"
  by (simp add: commit_Inr validate_commitments_Inr batch_key_ok_def commitment_ok_def sample_key_def
      sample_commitment_def sample_token_def reserved_ledger_def empty_ledger_def valid_id_def
      id_char_def valid_sha256_def hex_chars_def list_all_iff)

theorem commit_consume_once_witness:
  "\<exists>l1 l2. commit_prepared_f1m sample_token [sample_commitment] sample_key reserved_ledger =
      Inr (sample_token, l1) \<and>
     verify_and_consume_prepared_f1m [sample_commitment] sample_token sample_key l1 = Inr l2 \<and>
     verify_consumed_prepared_f1m [sample_commitment] sample_token sample_key l2 = Inr ()"
proof -
  have ok: "ledger_ok reserved_ledger"
    using reserve_all_ok [OF empty_ledger_ok sample_reserved] .
  obtain l1 where c: "commit_prepared_f1m sample_token [sample_commitment] sample_key reserved_ledger =
      Inr (sample_token, l1)"
    using sample_committed by blast
  from commit_consume_once [OF ok c] c show ?thesis by blast
qed

theorem ledger_runs_once_witness:
  "\<exists>l. ledger_run empty_ledger [Reserve [fc_binding sample_commitment],
      Commit sample_token [sample_commitment] sample_key] l \<and> ledger_ok l"
proof -
  obtain l1 where c: "commit_prepared_f1m sample_token [sample_commitment] sample_key reserved_ledger =
      Inr (sample_token, l1)"
    using sample_committed by blast
  have "ledger_run empty_ledger ([] @ [Reserve [fc_binding sample_commitment]]) reserved_ledger"
    by (rule run_snoc [OF run_nil]) (simp add: sample_reserved)
  then have "ledger_run empty_ledger (([] @ [Reserve [fc_binding sample_commitment]]) @
      [Commit sample_token [sample_commitment] sample_key]) l1"
    by (rule run_snoc) (use c in auto)
  then have run: "ledger_run empty_ledger [Reserve [fc_binding sample_commitment],
      Commit sample_token [sample_commitment] sample_key] l1" by simp
  show ?thesis using run ledger_runs_once [OF run] by blast
qed

end
