(* ===== verification/Lifecycle_Correct.thy ===== *)
theory Lifecycle_Correct
  imports Query_Correct Ledger_Facts
begin

text \<open>
  The private life of a query, end to end: what a successful binding and preparation establish,
  that the prepared operands are the ones the compiled program expects, and hence that the
  output of the lifecycle is the direct product of the source matrix and the vector.
\<close>

section \<open>Binding\<close>

lemma bind_ordinary_execution_Inr:
  assumes "bind_ordinary_execution q = Inr b"
  shows "ob_compiled b = q" and "ob_private_plan_digest b = private_plan_digest q"
    and "validate_compiled_query q = Inr ()" and "f1m_policy q = OverlapOnly"
  using assms by (auto simp: bind_ordinary_execution_def rbind_eq_Inr split: if_splits)

lemma validate_compiled_query_Inr:
  assumes "validate_compiled_query q = Inr ()"
  shows "compile_query (cq_components q) (segmented_delta q) (client_lane_segments q) (f1m_policy q) = Inr q"
proof -
  obtain e where e: "compile_query (cq_components q) (segmented_delta q) (client_lane_segments q)
      (f1m_policy q) = Inr e" and eq: "\<not> q \<noteq> e"
    using assms unfolding validate_compiled_query_def
    by (elim rbind_InrE) (auto dest: if_Inl_InrD)
  then show ?thesis by simp
qed

lemma query_slots_pos:
  assumes "compiled_from q slots s extra"
  shows "0 < slots"
proof -
  have "plan_ok (cq_output_plan q)" "op_slot_count (cq_output_plan q) = slots"
    using assms by (simp_all add: compiled_from_def)
  then show ?thesis by (auto simp: plan_ok_def)
qed

lemma bound_query_compiled:
  assumes "bind_ordinary_execution q = Inr b"
  shows "\<exists>n s extra. compiled_from q (int n) s extra"
proof -
  note c = compile_query_Inr(1) [OF validate_compiled_query_Inr [OF bind_ordinary_execution_Inr(3) [OF assms]]]
  then obtain s extra where s: "compiled_from q (ls_effective_slots (layout_spec (hd (cq_components q)))) s extra"
    by blast
  from query_slots_pos [OF this] obtain n where "ls_effective_slots (layout_spec (hd (cq_components q))) = int n"
    by (metis nonneg_int_cases order_less_imp_le)
  then show ?thesis using s by auto
qed

section \<open>Preparation\<close>

lemma rmap_list_all2: "rmap f xs = Inr ys \<Longrightarrow> list_all2 (\<lambda>x y. f x = Inr y) xs ys"
  by (induction xs arbitrary: ys) (auto simp: rbind_eq_Inr)

text \<open>The prepared operand of a masked route: its identifiers and the values of its mask.\<close>

definition route_operand ::
  "compiled_query \<Rightarrow> string \<Rightarrow> prepared_mask list \<Rightarrow> result_route \<Rightarrow> prepared_f1m_operand \<Rightarrow> bool"
where
  "route_operand q query_id ms r w \<longleftrightarrow> f1m_ciphertext_id r = Some (po_ciphertext_id w) \<and>
     po_result_id w = rr_result_id r \<and> po_kind w = RandomZeroSum \<and> po_query_id w = query_id \<and>
     po_version_id w = eb_version_id (binding (cloud_plan q)) \<and>
     po_output_plan_digest w = cq_output_plan_digest q \<and> po_share_id w = route_share_id r \<and>
     map_of (masks_dict ms) (route_share_id r) = Some (po_values w)"

lemma masks_by_share_eq:
  assumes "distinct (map fst (masks_dict ms))"
  shows "map_option pm_values (map_of (masks_by_share ms) i) = map_of (masks_dict ms) i"
proof -
  have "map fst (map (\<lambda>m. ((pm_component_id m, pm_output_block_id m), m)) ms) = map fst (masks_dict ms)"
    by (simp add: masks_dict_def comp_def)
  then have "map_of (masks_by_share ms) = map_of (map (\<lambda>m. ((pm_component_id m, pm_output_block_id m), m)) ms)"
    unfolding masks_by_share_def using assms by (intro map_of_dict_of) simp
  moreover have "map_option pm_values (map_of (map (\<lambda>m. ((pm_component_id m, pm_output_block_id m), m)) xs) i) =
      map_of (masks_dict xs) i" for xs
    by (induction xs) (simp_all add: masks_dict_def)
  ultimately show ?thesis by simp
qed

lemma masks_by_share_keys: "fst ` set (masks_by_share ms) = fst ` set (masks_dict ms)"
  by (simp add: masks_by_share_def masks_dict_def image_image)

lemma masks_dict_distinct: "masks_ok plan t ms \<Longrightarrow> distinct (map fst (masks_dict ms))"
  by (simp add: masks_ok_def masks_inv_def vals_ok_def dict_ok_def)

lemma f1m_operand_of_Inr:
  assumes "f1m_operand_of q query_id (masks_by_share ms) r = Inr w"
    and "distinct (map fst (masks_dict ms))"
  shows "route_operand q query_id ms r w"
  using assms(1) masks_by_share_eq [OF assms(2), of "route_share_id r"]
  by (auto simp: f1m_operand_of_def route_operand_def split: option.splits)

definition prepared_for ::
  "compiled_query \<Rightarrow> string \<Rightarrow> int list \<Rightarrow> int \<Rightarrow> prepared_mask list \<Rightarrow> prepared_query \<Rightarrow> bool"
where
  "prepared_for q query_id x t ms p \<longleftrightarrow>
     int (length x) = query_cols q \<and> 2 \<le> t \<and> masks_ok (cq_output_plan q) t ms \<and>
     fst ` set (masks_dict ms) = overlap_ids (cq_output_plan q) \<and>
     list_all2 (route_operand q query_id ms) (masked_routes q) (pr_f1m_operands p) \<and>
     fst ` set (masks_dict ms) = route_share_id ` set (masked_routes q) \<and>
     pr_query_operands p = query_operands_of q x \<and> pr_vector p = x \<and> pr_modulus p = t \<and>
     pr_query_id p = query_id \<and> pr_version_id p = eb_version_id (binding (cloud_plan q)) \<and>
     pr_cloud_program_digest p = cq_cloud_program_digest q \<and>
     pr_output_plan_digest p = cq_output_plan_digest q \<and>
     pr_execution_binding_digest p = cq_execution_binding_digest q"

lemma list_all2_image:
  "list_all2 P xs ys \<Longrightarrow> (\<And>x y. P x y \<Longrightarrow> f x = g y) \<Longrightarrow> f ` set xs = g ` set ys"
  by (induction rule: list_all2_induct) auto

lemma prepare_ordinary_Inr:
  assumes "prepare_ordinary_for_validated_bundle rng token b query_id x t l = (Inr p, l')"
  defines "q \<equiv> ob_compiled b"
  shows "\<exists>ms l1 issued. prepare_f1m_masks rng reserve_all (cq_output_plan q) query_id
      (eb_version_id (binding (cloud_plan q))) t l = (Inr ms, l1) \<and> prepared_for q query_id x t ms p \<and>
    commit_prepared_f1m token (prepared_f1m_commitments (pr_f1m_operands p))
      (query_batch_key b query_id t) l1 = Inr (issued, l') \<and>
    pr_ledger_commitment_token p = issued \<and> pr_private_plan_digest p = ob_private_plan_digest b"
proof -
  let ?v = "eb_version_id (binding (cloud_plan q))"
  obtain ms l1 f1m issued where
    len: "int (length x) = query_cols q" and t: "2 \<le> t" and
    ms: "prepare_f1m_masks rng reserve_all (cq_output_plan q) query_id ?v t l = (Inr ms, l1)" and
    f1m: "rmap (f1m_operand_of q query_id (masks_by_share ms)) (masked_routes q) = Inr f1m" and
    keys: "fst ` set (masks_by_share ms) = po_share_id ` set f1m" and
    commit: "commit_prepared_f1m token (prepared_f1m_commitments f1m) (query_batch_key b query_id t) l1 =
      Inr (issued, l')" and
    p: "p = \<lparr>pr_query_id = query_id, pr_version_id = ?v, pr_modulus = t, pr_vector = x,
        pr_cloud_program_digest = cq_cloud_program_digest q,
        pr_output_plan_digest = cq_output_plan_digest q,
        pr_execution_binding_digest = cq_execution_binding_digest q,
        pr_private_plan_digest = ob_private_plan_digest b, pr_ledger_commitment_token = issued,
        pr_query_operands = query_operands_of q x, pr_f1m_operands = f1m\<rparr>"
    using assms(1)
    by (auto simp: prepare_ordinary_for_validated_bundle_def Let_def sbind_Inr validated_vector_def
        simp flip: q_def split: if_split_asm)
  note M = prepare_f1m_masks_Inr [OF ms]
  note dist = masks_dict_distinct [OF M(3)]
  have ops: "list_all2 (route_operand q query_id ms) (masked_routes q) f1m"
    using rmap_list_all2 [OF f1m] by (rule list_all2_mono) (rule f1m_operand_of_Inr [OF _ dist])
  then have "route_share_id ` set (masked_routes q) = po_share_id ` set f1m"
    by (rule list_all2_image) (simp add: route_operand_def)
  then have "fst ` set (masks_dict ms) = route_share_id ` set (masked_routes q)"
    using keys by (simp add: masks_by_share_keys)
  moreover have "fst ` set (masks_dict ms) = overlap_ids (cq_output_plan q)"
    using M(6) by (simp add: masks_dict_def image_image)
  ultimately have "prepared_for q query_id x t ms p"
    using len t M(3) ops by (simp add: prepared_for_def p)
  then show ?thesis using ms commit by (auto simp: p)
qed

section \<open>The operands of the execution\<close>

lemma declared_inputs_distinct:
  "rfold (declare_input slots) v cs = Inr v' \<Longrightarrow>
     distinct (map ci_id cs) \<and> ci_id ` set cs \<inter> set (v_declared v) = {}"
proof (induction cs arbitrary: v)
  case (Cons c cs)
  then obtain v1 where 1: "declare_input slots v c = Inr v1"
      and 2: "rfold (declare_input slots) v1 cs = Inr v'"
    by (auto simp: rbind_eq_Inr)
  show ?case using declare_input_Inr [OF 1] Cons.IH [OF 2] by auto
qed simp

lemma f1m_ids_masked:
  "f1m_ids rs = map (\<lambda>r. the (f1m_ciphertext_id r)) (filter (\<lambda>r. f1m_ciphertext_id r \<noteq> None) rs)"
  by (induction rs) (auto simp: f1m_ids_def)

lemma list_all2_map_eq: "list_all2 P xs ys \<Longrightarrow> (\<And>x y. P x y \<Longrightarrow> f x = g y) \<Longrightarrow> map f xs = map g ys"
  by (induction rule: list_all2_induct) auto

lemma compiled_ids_distinct:
  assumes q: "compiled_from q slots s extra"
  shows "distinct (map value_ciphertext_id (operand_specs q) @ map query_ciphertext_id (operand_specs q) @
    f1m_ids (result_routes q))" (is "distinct ?ids")
proof -
  obtain masked where cs: "compile_sources slots masked (cq_components q) (segmented_delta q)
      (client_lane_segments q) = Inr s"
    using q by (auto simp: compiled_from_def)
  have p: "program (cloud_plan q) = program_of slots s" "operand_specs q = cs_specs s"
      "result_routes q = cs_routes s" "validate_compiled_parts q = Inr ()"
    using q by (simp_all add: compiled_from_def)
  obtain required where val: "validate_program (program (cloud_plan q)) required = Inr ()"
    using validate_compiled_parts_Inr(1) [OF p(4)] by blast
  then obtain v1 where "rfold (declare_input (cp_slot_count (program (cloud_plan q)))) empty_validation
      (ciphertext_inputs (program (cloud_plan q))) = Inr v1"
    by (rule validate_program_Inr)
  then have "distinct (map ci_id (cs_inputs s))"
    using declared_inputs_distinct by (fastforce simp: p(1) program_of_def)
  moreover have "mset (map ci_id (cs_inputs s)) = mset ?ids"
    using compile_sources_balanced [OF cs] by (simp add: p owned_ids_def ac_simps)
  ultimately show ?thesis by (metis mset_eq_imp_distinct_iff)
qed

lemma mask_value_length:
  assumes "masks_ok plan t ms" and "map_of (masks_dict ms) i = Some v"
  shows "length v = nat (op_slot_count plan) \<and> (\<forall>y \<in> set v. 0 \<le> y \<and> y < t)"
proof -
  have "vals_ok (op_slot_count plan) t (masks_dict ms)" using assms(1) by (simp add: masks_ok_def masks_inv_def)
  then show ?thesis using assms(2) by (cases i) (auto simp: vals_ok_def)
qed

text \<open>
  What an execution needs of the prepared operands, whatever the lifecycle: a vector per query
  operand, and per masked route a vector that carries the mask of its share - zero where the
  share has none.
\<close>

definition route_value :: "compiled_query \<Rightarrow> prepared_mask list \<Rightarrow> result_route \<Rightarrow> prepared_f1m_operand \<Rightarrow> bool" where
  "route_value q ms r w \<longleftrightarrow> f1m_ciphertext_id r = Some (po_ciphertext_id w) \<and>
     length (po_values w) = nat (op_slot_count (cq_output_plan q)) \<and>
     (\<forall>k < length (po_values w).
        po_values w ! k = lane_value (masks_dict ms) (rr_component_id r, rr_output_block_id r, int k))"

definition operands_for :: "compiled_query \<Rightarrow> int list \<Rightarrow> int \<Rightarrow> prepared_mask list \<Rightarrow> prepared_query \<Rightarrow> bool" where
  "operands_for q x t ms p \<longleftrightarrow> int (length x) = query_cols q \<and> 2 \<le> t \<and> masks_ok (cq_output_plan q) t ms \<and>
     pr_query_operands p = query_operands_of q x \<and>
     fst ` set (masks_dict ms) \<subseteq> route_share_id ` set (masked_routes q) \<and>
     list_all2 (route_value q ms) (masked_routes q) (pr_f1m_operands p)"

lemma prepared_operands_for:
  assumes "prepared_for q query_id x t ms p"
  shows "operands_for q x t ms p"
proof -
  have m: "masks_ok (cq_output_plan q) t ms" using assms by (simp add: prepared_for_def)
  have "list_all2 (route_operand q query_id ms) (masked_routes q) (pr_f1m_operands p)"
    using assms by (simp add: prepared_for_def)
  then have "list_all2 (route_value q ms) (masked_routes q) (pr_f1m_operands p)"
    by (rule list_all2_mono)
      (use mask_value_length [OF m] in \<open>auto simp: route_operand_def route_value_def lane_value_def\<close>)
  then show ?thesis using assms unfolding prepared_for_def operands_for_def by blast
qed

lemma ciphertext_inputs_bind:
  assumes q: "compiled_from q slots s extra" and p: "operands_for q x t ms p"
  shows "operands_bind (ciphertext_inputs_of q p) q x
    (\<lambda>(c, b) k. lane_value (masks_dict ms) (c, b, int k))"
proof -
  let ?vals = "map (\<lambda>spec. (value_ciphertext_id spec, spec_values spec)) (operand_specs q)"
  let ?cols = "map (\<lambda>w. (pq_ciphertext_id w, pq_values w)) (pr_query_operands p)"
  let ?f1m = "map (\<lambda>w. (po_ciphertext_id w, po_values w)) (pr_f1m_operands p)"
  have cols: "?cols = map (\<lambda>spec. (query_ciphertext_id spec, map (xval x) (spec_columns spec))) (operand_specs q)"
    using p by (simp add: operands_for_def query_operands_of_def xval_def [abs_def])
  have ops: "list_all2 (route_value q ms) (masked_routes q) (pr_f1m_operands p)"
    using p by (simp add: operands_for_def)
  then have "map (\<lambda>r. the (f1m_ciphertext_id r)) (masked_routes q) = map po_ciphertext_id (pr_f1m_operands p)"
    by (rule list_all2_map_eq) (simp add: route_value_def)
  then have "f1m_ids (result_routes q) = map fst ?f1m"
    by (simp add: f1m_ids_masked masked_routes_def comp_def)
  then have dist: "distinct (map fst (?vals @ ?cols @ ?f1m))"
    using compiled_ids_distinct [OF q] by (simp add: cols comp_def)
  have at: "map_of (ciphertext_inputs_of q p) i = Some v" if "(i, v) \<in> set (?vals @ ?cols @ ?f1m)" for i v
    unfolding ciphertext_inputs_of_def map_of_dict_of [OF dist] using dist that by (rule map_of_is_SomeI)
  have "\<exists>v. map_of (ciphertext_inputs_of q p) i = Some v \<and>
      (\<forall>k < length v. v ! k = (\<lambda>(c, b) k. lane_value (masks_dict ms) (c, b, int k)) (route_share_id r) k)"
    if r: "r \<in> set (result_routes q)" "f1m_ciphertext_id r = Some i" for r i
  proof -
    have "r \<in> set (masked_routes q)" using r by (simp add: masked_routes_def)
    then obtain w where w: "w \<in> set (pr_f1m_operands p)" "route_value q ms r w"
      using ops by (metis in_set_conv_nth list_all2_conv_all_nth)
    then have "map_of (ciphertext_inputs_of q p) i = Some (po_values w)"
      using r(2) by (intro at) (auto simp: route_value_def)
    then show ?thesis using w(2) by (simp add: route_value_def)
  qed
  then show ?thesis
    unfolding operands_bind_def using at by (auto simp: cols)
qed

lemma route_mask_lane:
  assumes q: "compiled_from q (int n) s extra" and p: "operands_for q x t ms p"
    and r: "r \<in> set (result_routes q)"
  shows "(if f1m_ciphertext_id r = None then 0
      else (\<lambda>(c, b) k. lane_value (masks_dict ms) (c, b, int k)) (route_share_id r) k) =
    lane_value (masks_dict ms) (rr_component_id r, rr_output_block_id r, int k)"
proof (cases "f1m_ciphertext_id r")
  case None
  have "route_share_id r \<notin> route_share_id ` set (masked_routes q)"
  proof
    assume "route_share_id r \<in> route_share_id ` set (masked_routes q)"
    then obtain r' where r': "r' \<in> set (masked_routes q)" "route_share_id r = route_share_id r'" by (rule imageE)
    have "distinct (map route_share_id (result_routes q))"
      using q by (intro validate_compiled_parts_Inr(2)) (simp add: compiled_from_def)
    then have inj: "inj_on (\<lambda>r. route_share_id r) (set (result_routes q))" by (simp add: distinct_map)
    have "r' \<in> set (result_routes q)" using r'(1) by (simp add: masked_routes_def)
    then have "r = r'" by (rule inj_onD [OF inj r'(2) r])
    then show False using r'(1) None by (simp add: masked_routes_def)
  qed
  then have "map_of (masks_dict ms) (route_share_id r) = None"
    using p unfolding operands_for_def map_of_eq_None_iff by blast
  then show ?thesis using None by (simp add: lane_value_def)
qed simp

text \<open>The execution both lifecycles end with, on the compiled query itself.\<close>

definition run_query :: "compiled_query \<Rightarrow> prepared_query \<Rightarrow> int \<Rightarrow> int list res" where
  "run_query q p t =
     rbind (execute_validated_cloud_plan (cloud_plan q) (ciphertext_inputs_of q p)
       (dict_of (map (\<lambda>m. (mask_id m, mask_values m)) (plaintext_masks (program (cloud_plan q))))) t) (\<lambda>returned.
     rbind (rmap (returned_share returned) (result_routes q)) (\<lambda>items.
     reconstruct_output (cq_output_plan q) (dict_of items) t))"

lemma execute_ordinary_run:
  "execute_ordinary_plaintext_for_validated_query b p t = Inr ys \<longleftrightarrow> run_query (ob_compiled b) p t = Inr ys"
  by (simp add: execute_ordinary_plaintext_for_validated_query_def run_query_def Let_def)

lemma run_query_is_spmv:
  assumes q: "compiled_from q (int n) s extra" and p: "operands_for q x t ms p"
    and run: "run_query q p t = Inr ys"
  shows "direct_spmv (query_entries q) x (query_rows q) (query_cols q) t = Inr ys"
proof -
  obtain out items where
    out: "execute_validated_cloud_plan (cloud_plan q) (ciphertext_inputs_of q p)
        (dict_of (map (\<lambda>m. (mask_id m, mask_values m)) (plaintext_masks (program (cloud_plan q))))) t = Inr out"
    and items: "rmap (returned_share out) (result_routes q) = Inr items"
    and rec: "reconstruct_output (cq_output_plan q) (dict_of items) t = Inr ys"
    using run unfolding run_query_def by (elim rbind_InrE) blast
  show ?thesis
  proof (rule compiled_query_reconstructs [OF q out ciphertext_inputs_bind [OF q p] items _ _ rec])
    show "masks_ok (cq_output_plan q) t ms" "int (length x) = query_cols q"
      using p by (simp_all add: operands_for_def)
    show "(if f1m_ciphertext_id r = None then 0
        else (\<lambda>(c, b) k. lane_value (masks_dict ms) (c, b, int k)) (route_share_id r) k) =
      lane_value (masks_dict ms) (rr_component_id r, rr_output_block_id r, int k)"
      if "r \<in> set (result_routes q)" for r k
      using that by (rule route_mask_lane [OF q p])
  qed
qed

lemma executed_query_is_spmv:
  assumes b: "bind_ordinary_execution q = Inr b" and p: "prepared_for q query_id x t ms p"
    and run: "execute_ordinary_plaintext_for_validated_query b p t = Inr ys"
  shows "direct_spmv (query_entries q) x (query_rows q) (query_cols q) t = Inr ys"
proof -
  obtain n s extra where "compiled_from q (int n) s extra" using bound_query_compiled [OF b] by blast
  then show ?thesis
    using run_query_is_spmv prepared_operands_for [OF p] run bind_ordinary_execution_Inr(1) [OF b]
    by (simp add: execute_ordinary_run)
qed

text \<open>A lifecycle that returns, taken apart.\<close>

lemma lifecycle_Inr:
  assumes "execute_ordinary_query_lifecycle rng token q query_id x t l = (Inr r, l')"
  shows "\<exists>b l1. bind_ordinary_execution q = Inr b \<and>
    prepare_ordinary_for_validated_bundle rng token b query_id x t l = (Inr (lr_prepared r), l1) \<and>
    verify_and_consume_prepared_f1m (prepared_f1m_commitments (pr_f1m_operands (lr_prepared r)))
      (pr_ledger_commitment_token (lr_prepared r)) (prepared_batch_key (lr_prepared r)) l1 = Inr l' \<and>
    execute_ordinary_plaintext_for_validated_query b (lr_prepared r) t = Inr (lr_output r) \<and>
    lr_preparation_bytes r = preparation_bytes (lr_prepared r)"
  using assms
  by (auto simp: execute_ordinary_query_lifecycle_def admit_and_execute_def
      authorize_for_validated_query_def sbind_Inr Let_def)

end
