(* ===== verification/Compiler_Shape.thy ===== *)
theory Compiler_Shape
  imports Query_Correct
begin

text \<open>
  The shape of a compilation, independent of any execution: every operand specification has one
  value and one column per slot, and every rotation of the catalog is positive and below the
  slot count.
\<close>

definition shaped :: "nat \<Rightarrow> compile_state \<Rightarrow> bool" where
  "shaped n s \<longleftrightarrow> (\<forall>sp \<in> set (cs_specs s). length (spec_values sp) = n \<and> length (spec_columns sp) = n) \<and>
     shifts_below (int n) (cs_shifts s)"

lemma shaped_empty [simp]: "shaped n empty_compile"
  by (simp add: shaped_def empty_compile_def shifts_below_def)

lemma shaped_grows:
  "shaped n s \<Longrightarrow> grows (int n) s s' \<Longrightarrow> cs_specs s' = cs_specs s @ sps \<Longrightarrow>
     \<forall>sp \<in> set sps. length (spec_values sp) = n \<and> length (spec_columns sp) = n \<Longrightarrow> shaped n s'"
  by (auto simp: shaped_def grows_def)

definition chunk_long :: "nat \<Rightarrow> value_chunk \<Rightarrow> bool" where
  "chunk_long n ch \<longleftrightarrow> length (vc_values ch) = n \<and> length (column_indices ch) = n"

text \<open>The pending specifications of the chunks of a block.\<close>

definition pending_long :: "nat \<Rightarrow> pending_spec list \<Rightarrow> bool" where
  "pending_long n ops \<longleftrightarrow> (\<forall>(_, _, _, vals, cols) \<in> set ops. length vals = n \<and> length cols = n)"

lemma compile_chunks_long:
  "foldl (compile_chunk (int n)) (s, sel, pend) chs = (s', sel', pend') \<Longrightarrow>
     \<forall>ch \<in> set chs. chunk_fits n ch \<and> chunk_long n ch \<Longrightarrow> pending_long n pend \<Longrightarrow>
     pending_long n pend' \<and> cs_specs s' = cs_specs s \<and> grows (int n) s s'"
proof (induction chs arbitrary: s sel pend)
  case Nil
  then show ?case by simp
next
  case (Cons ch chs)
  obtain s1 sel1 pend1 where 1: "compile_chunk (int n) (s, sel, pend) ch = (s1, sel1, pend1)"
    by (metis surj_pair)
  have ch: "chunk_fits n ch" "chunk_long n ch" using Cons.prems by simp_all
  obtain vid qid src where "pend1 = pend @ [(vid, qid, src, vc_values ch, column_indices ch)]"
    and s1: "cs_specs s1 = cs_specs s" "grows (int n) s s1"
    using compile_chunk_run [OF 1 refl ch(1), of 0 "[]" Map.empty "[]" Map.empty "[]"] by blast
  then have "pending_long n pend1"
    using Cons.prems(3) ch(2) unfolding pending_long_def chunk_long_def by simp
  then show ?case using Cons.IH [of s1 sel1 pend1] Cons.prems s1 by (auto simp: 1 intro: grows_trans)
qed

lemma compile_block_shaped:
  assumes "\<forall>ch \<in> set (chunks b). chunk_fits n ch \<and> chunk_long n ch" and s: "shaped n s"
  shows "shaped n (compile_block (int n) masked cid s b)"
proof (cases "chunks b = []")
  case True
  then show ?thesis using s by (simp add: compile_block_def)
next
  case False
  obtain s1 sel pend where 1: "foldl (compile_chunk (int n)) (s, [], []) (chunks b) = (s1, sel, pend)"
    by (metis surj_pair)
  obtain acc ns where 2: "cross_sum (cs_result s1) sel (cs_nodes s1) = (acc, ns)" by (metis surj_pair)
  obtain rid s2 where 3: "finish_result (int n) (masked (cid, output_block_id b)) acc cid
      (output_block_id b) (s1\<lparr>cs_nodes := ns\<rparr>) = (rid, s2)" by (metis surj_pair)
  note F = finish_result_run [OF 3]
  have long: "pending_long n pend" and s2: "cs_specs s2 = cs_specs s"
    using compile_chunks_long [OF 1 assms(1)] F(2) by (simp_all add: pending_long_def)
  have "\<forall>ch \<in> set (chunks b). chunk_fits n ch" using assms(1) by blast
  then have "grows (int n) s (compile_block (int n) masked cid s b)"
    using compile_block_run [OF refl] by blast
  then show ?thesis
    using s long s2 False
    by (intro shaped_grows [OF s, where sps = "map (\<lambda>(vid, qid, source, vals, cols).
         \<lparr>value_ciphertext_id = vid, query_ciphertext_id = qid, source_kind = PublishedChunk,
          source_ordinal = source, spec_result_id = rid, spec_values = vals, spec_columns = cols\<rparr>) pend"])
      (auto simp: compile_block_def 1 2 3 pending_long_def)
qed

lemma compile_page_shaped:
  assumes width: "segment_width d = 2 ^ m"
    and fits: "segments_per_page d * segment_width d \<le> int n" "segment_width d \<le> int n"
    and len: "length vals = n" "length (global_column_indices meta) = n" and s: "shaped n s"
  shows "shaped n (compile_page (int n) masked d s (page, vals, meta))"
proof -
  have g: "grows (int n) s (compile_page (int n) masked d s (page, vals, meta))"
    using compile_page_run [OF refl width fits] by blast
  have "\<exists>sp. cs_specs (compile_page (int n) masked d s (page, vals, meta)) = cs_specs s @ [sp] \<and>
      spec_values sp = vals \<and> spec_columns sp = global_column_indices meta"
    by (auto simp: compile_page_def append_operand_def append_selection_def finish_result_def Let_def
        split: prod.split)
  then show ?thesis using shaped_grows [OF s g] len by auto
qed

lemma compile_segment_shaped:
  assumes s: "shaped n s"
  shows "shaped n (compile_segment (int n) masked s kg)"
proof -
  obtain source g where kg: "kg = (source, g)" by (cases kg)
  have gr: "grows (int n) s (compile_segment (int n) masked s kg)"
    using compile_segment_run [OF refl] unfolding kg by blast
  have "\<exists>sps. cs_specs (compile_segment (int n) masked s kg) = cs_specs s @ sps \<and>
      (\<forall>sp \<in> set sps. length (spec_values sp) = n \<and> length (spec_columns sp) = n)"
    by (auto simp: kg compile_segment_def append_operand_def finish_result_def Let_def)
  then show ?thesis using shaped_grows [OF s gr] by blast
qed

lemma foldl_invariant: "P s \<Longrightarrow> (\<And>s a. a \<in> set as \<Longrightarrow> P s \<Longrightarrow> P (f s a)) \<Longrightarrow> P (foldl f s as)"
  by (induction as arbitrary: s) auto

lemma compile_sources_shaped:
  assumes run: "compile_sources (int n) masked comps delta gs = Inr s"
    and sv: "sources_valid comps delta gs rows cols (int n)"
  shows "shaped n s"
proof -
  note fit = sources_fit [OF sv]
  have long: "chunk_long n ch" if "c \<in> set comps" "b \<in> set (blocks c)" "ch \<in> set (chunks b)" for c b ch
  proof -
    have c: "component_valid c" "ls_effective_slots (layout_spec c) = int n"
      using sv that(1) by (auto simp: sources_valid_def component_matrix_def)
    then have "block_valid (layout_spec c) b" using that(2) by (simp add: component_valid_def)
    then have "chunk_valid (layout_spec c) b ch" using that(3) by (simp add: block_valid_def)
    then show ?thesis using c(2) unfolding chunk_valid_def chunk_long_def by simp
  qed
  define s1 where "s1 = foldl (compile_component (int n) masked) empty_compile comps"
  have 1: "shaped n s1"
    unfolding s1_def
  proof (rule foldl_invariant [where P = "shaped n", OF shaped_empty])
    fix s0 c assume c: "c \<in> set comps" and s0: "shaped n s0"
    show "shaped n (compile_component (int n) masked s0 c)"
      unfolding compile_component_def
    proof (rule foldl_invariant [where P = "shaped n", OF s0])
      fix s0 b assume b: "b \<in> set (blocks c)" and s0: "shaped n s0"
      have "\<forall>ch \<in> set (chunks b). chunk_fits n ch \<and> chunk_long n ch"
        using fit(1) long c b by blast
      then show "shaped n (compile_block (int n) masked (component_id c) s0 b)"
        using s0 by (rule compile_block_shaped)
    qed
  qed
  obtain s2 where s2: "(case delta of None \<Rightarrow> Inr s1 | Some d \<Rightarrow>
          rbind (client_b_page_metadata d) (\<lambda>metadata.
          let pages = delta_page_values d (map (\<lambda>_. replicate (nat (int n)) 0) metadata)
          in Inr (foldl (compile_page (int n) masked d) s1
                   (zip [0..<length metadata] (zip pages metadata))))) = Inr s2"
      and s: "s = foldl (compile_segment (int n) masked) s2 (zip [0..<length gs] gs)"
    using run that unfolding compile_sources_def s1_def [symmetric] Let_def rbind_eq_Inr by blast
  have 2: "shaped n s2"
  proof (cases delta)
    case None
    then show ?thesis using s2 1 by simp
  next
    case (Some d)
    then obtain metas where metas: "client_b_page_metadata d = Inr metas"
        and s2': "s2 = foldl (compile_page (int n) masked d) s1
          (zip [0..<length metas] (zip (page_values (int n) d metas) metas))"
      using s2 by (auto simp: rbind_eq_Inr Let_def page_values_def)
    obtain m where w: "segment_width d = 2 ^ m" "segments_per_page d * segment_width d \<le> int n"
        "segment_width d \<le> int n"
      using fit(2) [OF Some] by blast
    have d: "delta_ok d" "sd_effective_slots d = int n" using sv Some by (simp_all add: sources_valid_def)
    note C = page_metadata_cells(5,6) [OF d(1) metas, unfolded d(2) nat_int]
    show ?thesis
      unfolding s2'
    proof (rule foldl_invariant [where P = "shaped n", OF 1])
      fix s0 kvm assume mem: "kvm \<in> set (zip [0..<length metas] (zip (page_values (int n) d metas) metas))"
        and s0: "shaped n s0"
      then obtain k where k: "k < length metas" "kvm = (k, page_values (int n) d metas ! k, metas ! k)"
        using C(1) by (auto simp: set_zip)
      show "shaped n (compile_page (int n) masked d s0 kvm)"
        unfolding k(2) using C(2) [OF k(1)] by (intro compile_page_shaped [OF w _ _ s0]) simp_all
    qed
  qed
  show ?thesis
    unfolding s by (rule foldl_invariant [where P = "shaped n", OF 2]) (rule compile_segment_shaped)
qed

end
