(* ===== verification/Lifecycle_Total.thy ===== *)
theory Lifecycle_Total
  imports Lifecycle_Correct Compiler_Shape
begin

text \<open>
  The lifecycle returns. On a bound query, a vector of the matrix's width, samples in range and
  a writable ledger that does not know the query identifier and the token yet, every step of the
  lifecycle succeeds: preparation, commitment, consumption, execution and reconstruction.
\<close>

section \<open>Execution\<close>

lemma result_ids_distinct:
  assumes "validate_program p required = Inr ()"
  shows "distinct (result_ids p)"
proof -
  have nodes: "rfold (validate_node rotations required) v ns = Inr v' \<Longrightarrow>
      distinct (map node_result_id (filter is_return ns)) \<and>
      set (map node_result_id (filter is_return ns)) \<inter> set (v_declared v) = {} \<and>
      set (v_declared v) \<subseteq> set (v_declared v')" for rotations v ns v'
  proof (induction ns arbitrary: v)
    case (Cons node ns)
    then obtain v1 where 1: "validate_node rotations required v node = Inr v1"
        and 2: "rfold (validate_node rotations required) v1 ns = Inr v'"
      by (auto simp: rbind_eq_Inr)
    note IH = Cons.IH [OF 2]
    have "set (v_declared v) \<subseteq> set (v_declared v1) \<and>
        (is_return node \<longrightarrow> node_result_id node \<notin> set (v_declared v) \<and> node_result_id node \<in> set (v_declared v1))"
      using 1 by (cases node)
        (auto simp: rbind_eq_Inr define_result_Inr dest: validate_return_Inr(2,4) split: if_splits option.splits)
    then show ?case using IH by auto
  qed simp
  from assms obtain rotations v2 v3 where "rfold (validate_node rotations required) v2 (nodes p) = Inr v3"
    by (rule validate_program_Inr)
  from nodes [OF this] show ?thesis unfolding validated_result_ids [OF assms] by simp
qed

lemma rmap_total: "(\<And>x. x \<in> set xs \<Longrightarrow> \<exists>y. f x = Inr y) \<Longrightarrow> \<exists>ys. rmap f xs = Inr ys"
proof (induction xs)
  case (Cons x xs)
  then obtain y ys where "f x = Inr y" "rmap f xs = Inr ys" by (metis list.set_intros)
  then show ?case by simp
qed simp

lemma executed_results:
  assumes q: "compiled_from q (int n) s extra" and ops: "operands_ok (program (cloud_plan q)) inputs supplied"
  shows "\<exists>out. execute_validated_cloud_plan (cloud_plan q) inputs supplied t = Inr out \<and>
    (\<forall>r \<in> set (result_routes q). \<exists>v. map_of out (rr_result_id r) = Some v \<and> length v = n)"
proof -
  let ?p = "program (cloud_plan q)"
  have p: "?p = program_of (int n) s" and parts: "validate_compiled_parts q = Inr ()"
    using q by (simp_all add: compiled_from_def)
  obtain required where val: "validate_program ?p required = Inr ()"
    using validate_compiled_parts_Inr(1) [OF parts] by blast
  have slots: "nat (cp_slot_count ?p) = n" by (simp add: p program_of_def)
  obtain out E M where out: "execute_validated_cloud_plan (cloud_plan q) inputs supplied t = Inr out"
    and holds: "\<forall>node \<in> set (nodes ?p). node_holds n t
       (foldl (\<lambda>d (k, v). AList.update k v d) [] (rotation_catalog ?p)) M out E node"
    using validated_program_runs [OF val ops, of t] unfolding slots by blast
  have ids: "map rr_result_id (result_routes q) = result_ids ?p"
    using parts unfolding validate_compiled_parts_def Let_def by (auto dest: if_Inl_InrD)
  have "\<exists>v. map_of out (rr_result_id r) = Some v \<and> length v = n" if "r \<in> set (result_routes q)" for r
  proof -
    have "rr_result_id r \<in> set (result_ids ?p)" unfolding ids [symmetric] using that by simp
    then obtain node where node: "node \<in> set (nodes ?p)" "is_return node" "node_result_id node = rr_result_id r"
      unfolding validated_result_ids [OF val] by auto
    have "node_holds n t (foldl (\<lambda>d (k, v). AList.update k v d) [] (rotation_catalog ?p)) M out E node"
      using holds node(1) by (rule bspec)
    then show ?thesis using node(2,3) by (cases node) (auto simp: vec_at_def node_holds.simps)
  qed
  then show ?thesis using out by blast
qed

lemma validated_masks_distinct:
  assumes "validate_program p required = Inr ()"
  shows "distinct (map mask_id (plaintext_masks p))"
proof -
  have masks: "rfold (declare_mask slots) v ms = Inr v' \<Longrightarrow>
      distinct (map mask_id ms) \<and> mask_id ` set ms \<inter> set (v_declared v) = {}" for slots v ms v'
  proof (induction ms arbitrary: v)
    case (Cons m ms)
    then obtain v1 where 1: "declare_mask slots v m = Inr v1"
        and 2: "rfold (declare_mask slots) v1 ms = Inr v'"
      by (auto simp: rbind_eq_Inr)
    show ?case using declare_mask_Inr [OF 1] Cons.IH [OF 2] by auto
  qed simp
  from assms obtain v1 v2 where "rfold (declare_mask (cp_slot_count p)) v1 (plaintext_masks p) = Inr v2"
    by (rule validate_program_Inr)
  then show ?thesis using masks by blast
qed

lemma foldl_update_subset: "set (foldl (\<lambda>d (k, v). AList.update k v d) d xs) \<subseteq> set d \<union> set xs"
proof (induction xs arbitrary: d)
  case (Cons y xs)
  obtain k v where y: "y = (k, v)" by (cases y)
  have "set (AList.update k v d) \<subseteq> insert (k, v) (set d)" by (induction d) auto
  then show ?case using Cons [of "AList.update k v d"] by (auto simp: y)
qed simp

lemma dict_of_subset: "set (dict_of xs) \<subseteq> set xs"
  using foldl_update_subset [of "[]" xs] by (simp add: dict_of_def)

lemma list_all2_ex: "list_all2 P xs ys \<Longrightarrow> y \<in> set ys \<Longrightarrow> \<exists>x \<in> set xs. P x y"
  by (metis in_set_conv_nth list_all2_conv_all_nth)

lemma prepared_operands_ok:
  assumes q: "compiled_from q (int n) s extra" and p: "operands_for q x t ms p"
  shows "operands_ok (program (cloud_plan q)) (ciphertext_inputs_of q p)
    (dict_of (map (\<lambda>m. (mask_id m, mask_values m)) (plaintext_masks (program (cloud_plan q)))))"
proof -
  let ?p = "program (cloud_plan q)" and ?in = "ciphertext_inputs_of q p"
  have pr: "?p = program_of (int n) s" "operand_specs q = cs_specs s" "result_routes q = cs_routes s"
    and parts: "validate_compiled_parts q = Inr ()"
    and sv: "sources_valid (cq_components q) (segmented_delta q) (client_lane_segments q)
      (query_rows q) (query_cols q) (int n)"
    and slots: "op_slot_count (cq_output_plan q) = int n"
    using q by (simp_all add: compiled_from_def)
  then have fields: "cp_slot_count ?p = int n" "ciphertext_inputs ?p = cs_inputs s"
      "rotation_catalog ?p = map (\<lambda>shift. (shift, shift)) (sort (cs_shifts s))"
    by (simp_all add: program_of_def)
  obtain masked where cs: "compile_sources (int n) masked (cq_components q) (segmented_delta q)
      (client_lane_segments q) = Inr s"
    using q by (auto simp: compiled_from_def)
  have sh: "shaped n s" using cs sv by (rule compile_sources_shaped)
  obtain required where val: "validate_program ?p required = Inr ()"
    using validate_compiled_parts_Inr(1) [OF parts] by blast
  have ops: "list_all2 (route_value q ms) (masked_routes q) (pr_f1m_operands p)"
    and qo: "pr_query_operands p = query_operands_of q x"
    using p by (simp_all add: operands_for_def)
  have "map (\<lambda>r. the (f1m_ciphertext_id r)) (masked_routes q) = map po_ciphertext_id (pr_f1m_operands p)"
    using ops by (rule list_all2_map_eq) (simp add: route_value_def)
  then have f1m: "set (f1m_ids (result_routes q)) = po_ciphertext_id ` set (pr_f1m_operands p)"
    by (metis f1m_ids_masked list.set_map masked_routes_def)
  have "fst ` set ?in = value_ciphertext_id ` set (cs_specs s) \<union> query_ciphertext_id ` set (cs_specs s) \<union>
      set (f1m_ids (cs_routes s))"
    using f1m by (simp add: ciphertext_inputs_of_def image_Un image_image qo query_operands_of_def pr Un_assoc)
  also have "\<dots> = ci_id ` set (cs_inputs s)"
    using arg_cong [OF compile_sources_balanced [OF cs], of set_mset] by (simp add: owned_ids_def)
  finally have keys: "fst ` set ?in = ci_id ` set (ciphertext_inputs ?p)" by (simp add: fields)
  have len: "length v = n" if mem: "(i, v) \<in> set ?in" for i v
  proof -
    have sub: "set ?in \<subseteq> set (map (\<lambda>spec. (value_ciphertext_id spec, spec_values spec)) (operand_specs q) @
      map (\<lambda>w. (pq_ciphertext_id w, pq_values w)) (pr_query_operands p) @
      map (\<lambda>w. (po_ciphertext_id w, po_values w)) (pr_f1m_operands p))"
      unfolding ciphertext_inputs_of_def by (rule dict_of_subset)
    have "(i, v) \<in> set (map (\<lambda>spec. (value_ciphertext_id spec, spec_values spec)) (operand_specs q)) \<or>
        (i, v) \<in> set (map (\<lambda>w. (pq_ciphertext_id w, pq_values w)) (pr_query_operands p)) \<or>
        (i, v) \<in> set (map (\<lambda>w. (po_ciphertext_id w, po_values w)) (pr_f1m_operands p))"
      using subsetD [OF sub mem] by (simp only: set_append Un_iff)
    then consider (spec) sp where "sp \<in> set (cs_specs s)" "v = spec_values sp"
      | (query) sp where "sp \<in> set (cs_specs s)" "length v = length (spec_columns sp)"
      | (f1m) w where "w \<in> set (pr_f1m_operands p)" "v = po_values w"
      by (elim disjE) (auto simp: qo query_operands_of_def pr)
    then show ?thesis
    proof cases
      case f1m
      then obtain r where "route_value q ms r w" using list_all2_ex [OF ops] by blast
      then show ?thesis using f1m(2) slots by (simp add: route_value_def)
    qed (use sh in \<open>auto simp: shaped_def\<close>)
  qed
  have "input_ok ?in (int n) c" if "c \<in> set (ciphertext_inputs ?p)" for c
  proof -
    have "ci_id c \<in> dom (map_of ?in)" using keys that by (simp add: dom_map_of_conv_image_fst)
    then show ?thesis using len by (auto simp: input_ok_def dest: map_of_SomeD)
  qed
  moreover have "\<forall>(_, index) \<in> set (rotation_catalog ?p). \<bar>index\<bar> < int n"
    using sh by (auto simp: fields shaped_def shifts_below_def)
  moreover have "map_of (dict_of (map (\<lambda>m. (mask_id m, mask_values m)) (plaintext_masks ?p))) (mask_id m) =
      Some (mask_values m)" if "m \<in> set (plaintext_masks ?p)" for m
  proof -
    have "distinct (map mask_id (plaintext_masks ?p))" using val by (rule validated_masks_distinct)
    then have "distinct (map fst (map (\<lambda>m. (mask_id m, mask_values m)) (plaintext_masks ?p)))" by (simp add: comp_def)
    then show ?thesis using that by (simp add: map_of_dict_of)
  qed
  ultimately show ?thesis
    using keys by (simp add: operands_ok_defs fields(1) image_image)
qed

lemma run_query_total:
  assumes q: "compiled_from q (int n) s extra" and p: "operands_for q x t ms p"
  shows "\<exists>ys. run_query q p t = Inr ys"
proof -
  let ?supplied = "dict_of (map (\<lambda>m. (mask_id m, mask_values m)) (plaintext_masks (program (cloud_plan q))))"
  obtain out where out: "execute_validated_cloud_plan (cloud_plan q) (ciphertext_inputs_of q p) ?supplied t = Inr out"
    and res: "\<forall>r \<in> set (result_routes q). \<exists>v. map_of out (rr_result_id r) = Some v \<and> length v = n"
    using executed_results [OF q prepared_operands_ok [OF q p], of t] by blast
  obtain items where items: "rmap (returned_share out) (result_routes q) = Inr items"
    using rmap_total [of "result_routes q" "returned_share out"] res by (force simp: returned_share_def)
  have parts: "validate_compiled_parts q = Inr ()" and ok: "plan_ok (cq_output_plan q)"
    and slots: "op_slot_count (cq_output_plan q) = int n"
    using q by (simp_all add: compiled_from_def)
  note V = validate_compiled_parts_Inr [OF parts]
  have item: "\<exists>r \<in> set (result_routes q). fst iv = route_share_id r" if "iv \<in> set items" for iv
    using list_all2_ex [OF rmap_list_all2 [OF items] that]
    by (force simp: returned_share_def split: option.splits)
  have share: "\<exists>iv \<in> set items. fst iv = route_share_id r" if r: "r \<in> set (result_routes q)" for r
  proof -
    have "map_of (dict_of items) (route_share_id r) \<noteq> None"
      using rmap_returned_shares [OF items V(2) r] res r by force
    then have "route_share_id r \<in> fst ` set items"
      using dict_of_keys [of items] by (simp add: map_of_eq_None_iff)
    then show ?thesis by force
  qed
  have keys: "fst ` set items = (\<lambda>r. route_share_id r) ` set (result_routes q)"
  proof (intro subset_antisym subsetI)
    fix i assume "i \<in> fst ` set items"
    then obtain iv where iv: "iv \<in> set items" "i = fst iv" by (rule imageE)
    obtain r where "r \<in> set (result_routes q)" "fst iv = route_share_id r" using item [OF iv(1)] by (rule bexE)
    then show "i \<in> (\<lambda>r. route_share_id r) ` set (result_routes q)" unfolding iv(2) by (intro image_eqI)
  next
    fix i assume "i \<in> (\<lambda>r. route_share_id r) ` set (result_routes q)"
    then obtain r where r: "r \<in> set (result_routes q)" "i = route_share_id r" by (rule imageE)
    obtain iv where "iv \<in> set items" "fst iv = route_share_id r" using share [OF r(1)] by (rule bexE)
    then show "i \<in> fst ` set items" unfolding r(2) by (intro image_eqI [of _ fst iv]) simp_all
  qed
  have "returned_ok (cq_output_plan q) (dict_of items)"
    unfolding returned_ok_def
  proof (intro conjI allI impI)
    show "fst ` set (dict_of items) = share_id ` set (shares (cq_output_plan q))"
      using keys V(3) by simp
    fix i v assume iv: "map_of (dict_of items) i = Some v"
    then have "i \<in> fst ` set (dict_of items)" by (metis domI dom_map_of_conv_image_fst)
    then obtain r where r: "r \<in> set (result_routes q)" "i = route_share_id r" using keys by auto
    then have "map_of out (rr_result_id r) = Some v"
      using rmap_returned_shares [OF items V(2) r(1)] iv by simp
    then show "int (length v) = op_slot_count (cq_output_plan q)" using res r(1) slots by fastforce
  qed
  moreover have "2 \<le> t" using p by (simp add: operands_for_def)
  ultimately have "\<exists>ys. reconstruct_output (cq_output_plan q) (dict_of items) t = Inr ys"
    using reconstruct_output_ok [OF ok] by blast
  then show ?thesis
    by (auto simp: run_query_def out items)
qed

lemma prepared_executes:
  assumes b: "bind_ordinary_execution q = Inr b" and p: "prepared_for q query_id x t ms p"
  shows "\<exists>ys. execute_ordinary_plaintext_for_validated_query b p t = Inr ys"
  using bound_query_compiled [OF b] run_query_total prepared_operands_for [OF p] bind_ordinary_execution_Inr(1) [OF b]
  by (metis execute_ordinary_run)

section \<open>Masked routes\<close>

lemma set_overlap_share_ids: "set (overlap_share_ids plan) = overlap_ids plan"
proof -
  have "concat (map (\<lambda>s. map snd (slot_to_logical s)) (shares plan)) = logical_rows plan"
    by (simp add: logical_rows_def)
  then show ?thesis
    unfolding overlap_ids_of_shares overlap_share_ids_def Let_def shared_rows_def
    by (auto simp: split_beta)
qed

lemma masked_routes_overlap:
  assumes parts: "validate_compiled_parts q = Inr ()" and policy: "f1m_policy q = OverlapOnly"
  shows "(\<lambda>r. route_share_id r) ` set (masked_routes q) = overlap_ids (cq_output_plan q)"
proof -
  let ?over = "overlap_ids (cq_output_plan q)"
  obtain required where val: "validate_program (program (cloud_plan q)) required = Inr ()"
    using validate_compiled_parts_Inr(1) [OF parts] by blast
  note first = parts [unfolded validate_compiled_parts_def Let_def, THEN if_Inl_InrD]
  have ids: "map rr_result_id (result_routes q) = result_ids (program (cloud_plan q))" using first by simp
  have inj: "inj_on rr_result_id (set (result_routes q))"
    using result_ids_distinct [OF val] unfolding ids [symmetric] by (simp add: distinct_map)
  have "rr_result_id ` set (masked_routes q) =
      rr_result_id ` {r \<in> set (result_routes q). route_share_id r \<in> ?over}"
    using first [THEN conjunct2, THEN if_Inl_InrD, THEN conjunct1] policy
    by (simp add: masked_routes_def required_overlap_mask_result_ids_def set_overlap_share_ids)
  then have eq: "set (masked_routes q) = {r \<in> set (result_routes q). route_share_id r \<in> ?over}"
    using inj by (subst (asm) inj_on_image_eq_iff) (auto simp: masked_routes_def)
  have "?over \<subseteq> share_id ` set (shares (cq_output_plan q))"
    unfolding overlap_ids_of_shares by blast
  also have "\<dots> = (\<lambda>r. route_share_id r) ` set (result_routes q)"
    using validate_compiled_parts_Inr(3) [OF parts] by simp
  finally show ?thesis unfolding eq by auto
qed

section \<open>Preparation\<close>

text \<open>What the ledger must not know yet.\<close>

definition ledger_fresh :: "string \<Rightarrow> string \<Rightarrow> ledger \<Rightarrow> bool" where
  "ledger_fresh query_id token l \<longleftrightarrow> ledger_ok l \<and> \<not> read_only l \<and>
     token \<notin> br_token ` set (batches l) \<and> query_id \<notin> br_query_id ` set (batches l) \<and>
     query_id \<notin> fst ` set (reservations l)"

lemma reserve_all_total:
  assumes "\<not> read_only l" and "query_id \<notin> fst ` set (reservations l)"
    and "distinct bs" and "fst ` set bs \<subseteq> {query_id}"
  shows "\<exists>l'. reserve_all bs l = Inr l'"
proof -
  have "set bs \<inter> set (reservations l) = {}" using assms(2,4) by force
  then show ?thesis using assms(1,3) by (simp add: reserve_all_eq)
qed

lemma f1m_operands_total:
  assumes "map_of (masks_by_share ms) (route_share_id r) \<noteq> None" and "f1m_ciphertext_id r \<noteq> None"
  shows "\<exists>w. f1m_operand_of q query_id (masks_by_share ms) r = Inr w"
  using assms by (auto simp: f1m_operand_of_def)

lemma bound_query_digests:
  assumes "bind_ordinary_execution q = Inr b"
  shows "valid_id (eb_version_id (binding (cloud_plan q)))" and "valid_sha256 (cq_output_plan_digest q)"
    and "valid_sha256 (cq_execution_binding_digest q)" and "valid_sha256 (ob_private_plan_digest b)"
    and "analyze_output_plan (cq_output_plan q) = Inr (output_analysis q)"
    and "cq_output_plan_digest q = oa_output_plan_digest (output_analysis q)"
proof -
  note B = bind_ordinary_execution_Inr [OF assms]
  note C = compile_query_Inr [OF validate_compiled_query_Inr [OF B(3)]]
  show "analyze_output_plan (cq_output_plan q) = Inr (output_analysis q)"
    "cq_output_plan_digest q = oa_output_plan_digest (output_analysis q)" by (fact C(5) C(6))+
  then show "valid_sha256 (cq_output_plan_digest q)" using analyze_digest by simp
  show "valid_sha256 (ob_private_plan_digest b)"
    by (simp add: B(2) private_plan_digest_def query_private_plan_digest_def)
  obtain bs where bytes: "canonical_execution_binding_bytes (binding (cloud_plan q)) = Inr bs"
      and "Inr (sha256_hex bs) = (Inr (cq_execution_binding_digest q) :: string res)"
    using C(7) unfolding execution_binding_digest_def by (elim rbind_InrE) blast
  from this(2) show "valid_sha256 (cq_execution_binding_digest q)" by (metis Inr_inject valid_sha256_hex)
  have "validate_execution_binding (binding (cloud_plan q)) = Inr ()"
    using bytes unfolding canonical_execution_binding_bytes_def canonical_execution_binding_payload_def
    by (elim rbind_InrE) simp
  then show "valid_id (eb_version_id (binding (cloud_plan q)))"
    by (auto simp: validate_execution_binding_def rbind_eq_Inr split: if_splits)
qed

lemma prepared_commitments_ok:
  assumes b: "bind_ordinary_execution q = Inr b" and p: "prepared_for q query_id x t ms p"
    and qid: "valid_id query_id"
  shows "validate_commitments (query_batch_key b query_id t)
    (prepared_f1m_commitments (pr_f1m_operands p)) = Inr ()"
proof -
  note D = bound_query_digests [OF b]
  have ob: "ob_compiled b = q" using b by (rule bind_ordinary_execution_Inr)
  obtain n s extra where q: "compiled_from q (int n) s extra" using bound_query_compiled [OF b] by blast
  have parts: "validate_compiled_parts q = Inr ()" and ok: "plan_ok (cq_output_plan q)"
    and slots: "op_slot_count (cq_output_plan q) = int n"
    using q by (simp_all add: compiled_from_def)
  note V = validate_compiled_parts_Inr [OF parts]
  have ops: "list_all2 (route_operand q query_id ms) (masked_routes q) (pr_f1m_operands p)"
    and mok: "masks_ok (cq_output_plan q) t ms" and t: "2 \<le> t"
    using p by (simp_all add: prepared_for_def)
  let ?cs = "prepared_f1m_commitments (pr_f1m_operands p)" and ?k = "query_batch_key b query_id t"
  have "map (\<lambda>r. route_share_id r) (masked_routes q) = map (\<lambda>w. po_share_id w) (pr_f1m_operands p)"
    using ops by (rule list_all2_map_eq) (simp add: route_operand_def)
  moreover have "distinct (map (\<lambda>r. route_share_id r) (masked_routes q))"
    using V(2) unfolding masked_routes_def by (simp add: distinct_map_filter)
  ultimately have dist: "distinct (map (\<lambda>c. (fc_component_id c, fc_output_block_id c)) ?cs)"
    by (simp add: prepared_f1m_commitments_def comp_def)
  have "commitment_ok ?k c \<and> fc_kind c = RandomZeroSum" if mem: "c \<in> set ?cs" for c
  proof -
    obtain w where w: "w \<in> set (pr_f1m_operands p)" and c: "c = \<lparr>fc_query_id = po_query_id w,
      fc_version_id = po_version_id w, fc_output_plan_digest = po_output_plan_digest w,
      fc_component_id = po_component_id w, fc_output_block_id = po_output_block_id w,
      fc_kind = po_kind w, fc_values = po_values w\<rparr>"
      using mem unfolding prepared_f1m_commitments_def by auto
    obtain r where r: "r \<in> set (masked_routes q)" "route_operand q query_id ms r w"
      using list_all2_ex [OF ops w] by blast
    have vals: "length (po_values w) = n" "\<forall>y \<in> set (po_values w). 0 \<le> y \<and> y < t"
      using mask_value_length [OF mok] r(2) slots by (auto simp: route_operand_def)
    have "0 < n" using query_slots_pos [OF q] by simp
    have "r \<in> set (result_routes q)" using r(1) by (simp add: masked_routes_def)
    then have "route_share_id r \<in> share_id ` set (shares (cq_output_plan q))"
      unfolding V(3) [symmetric] by simp
    then obtain sh where "sh \<in> set (shares (cq_output_plan q))" "route_share_id r = share_id sh" by (rule imageE)
    then have "valid_id (rr_component_id r)" "valid_id (rr_output_block_id r)"
      using ok by (auto simp: plan_ok_def share_ok_def)
    then show ?thesis
      using r(2) vals \<open>0 < n\<close> by (auto simp: c commitment_ok_def route_operand_def query_batch_key_def ob)
  qed
  moreover have "batch_key_ok ?k"
    using D qid t by (simp add: batch_key_ok_def query_batch_key_def ob)
  ultimately show ?thesis
    using dist by (auto simp: validate_commitments_Inr)
qed

lemma prepared_masks_reserved:
  assumes b: "bind_ordinary_execution q = Inr b"
    and ms: "prepare_f1m_masks rng reserve_all (cq_output_plan q) query_id
      (eb_version_id (binding (cloud_plan q))) t l = (Inr ms, l1)"
    and ops: "list_all2 (route_operand q query_id ms) (masked_routes q) f1m"
    and c: "c \<in> set (prepared_f1m_commitments f1m)"
  shows "fc_binding c \<in> set (reservations l1)"
proof -
  note M = prepare_f1m_masks_Inr [OF ms] and D = bound_query_digests [OF b]
  obtain w where w: "w \<in> set f1m" and c': "fc_binding c = (po_query_id w, po_version_id w,
      po_output_plan_digest w, po_component_id w, po_output_block_id w)"
    using c by (auto simp: prepared_f1m_commitments_def fc_binding_def)
  obtain r where r: "route_operand q query_id ms r w" using list_all2_ex [OF ops w] by blast
  then have "route_share_id r \<in> fst ` set (masks_dict ms)"
    by (metis domI dom_map_of_conv_image_fst route_operand_def)
  then obtain m where m: "m \<in> set ms" "(pm_component_id m, pm_output_block_id m) = route_share_id r"
    by (auto simp: masks_dict_def)
  have "pm_output_plan_digest m = cq_output_plan_digest q" using M(8) m(1) D(5,6) by auto
  then have "pm_binding m = fc_binding c"
    using M(7) m r by (auto simp: pm_binding_def c' route_operand_def)
  then show ?thesis using M(4) m(1) by (force simp: reserve_all_eq)
qed

lemma batch_modulus: "bk_modulus (query_batch_key b query_id t) = t"
  by (simp add: query_batch_key_def Let_def)

lemma prepare_ordinary_total:
  assumes b: "bind_ordinary_execution q = Inr b" and qid: "valid_id query_id"
    and len: "int (length x) = query_cols q" and t: "2 \<le> t" and rng: "\<forall>i. 0 \<le> rng i \<and> rng i < t"
    and token: "valid_sha256 token" and fresh: "ledger_fresh query_id token l"
  shows "\<exists>p l1. prepare_ordinary_for_validated_bundle rng token b query_id x t l = (Inr p, l1)"
proof -
  let ?v = "eb_version_id (binding (cloud_plan q))" and ?plan = "cq_output_plan q"
  have ob: "ob_compiled b = q" and policy: "f1m_policy q = OverlapOnly"
    using bind_ordinary_execution_Inr [OF b] by simp_all
  obtain n s extra where q: "compiled_from q (int n) s extra" using bound_query_compiled [OF b] by blast
  have parts: "validate_compiled_parts q = Inr ()" and ok: "plan_ok ?plan"
    using q by (simp_all add: compiled_from_def)
  note D = bound_query_digests [OF b]
  obtain ms l1 where ms: "prepare_f1m_masks rng reserve_all ?plan query_id ?v t l = (Inr ms, l1)"
    using prepare_f1m_masks_total [OF ok qid D(1) t rng, of reserve_all l] reserve_all_total [of l query_id] fresh
    unfolding ledger_fresh_def by blast
  note M = prepare_f1m_masks_Inr [OF ms]
  note dist = masks_dict_distinct [OF M(3)]
  have keys: "fst ` set (masks_dict ms) = (\<lambda>r. route_share_id r) ` set (masked_routes q)"
    using M(6) masked_routes_overlap [OF parts policy] by (simp add: masks_dict_def image_image)
  have "\<exists>w. f1m_operand_of q query_id (masks_by_share ms) r = Inr w" if "r \<in> set (masked_routes q)" for r
  proof (rule f1m_operands_total)
    have "route_share_id r \<in> fst ` set (masks_by_share ms)"
      unfolding masks_by_share_keys keys using that by (rule imageI)
    then show "map_of (masks_by_share ms) (route_share_id r) \<noteq> None" by (simp add: map_of_eq_None_iff)
    show "f1m_ciphertext_id r \<noteq> None" using that by (simp add: masked_routes_def)
  qed
  then obtain f1m where f1m: "rmap (f1m_operand_of q query_id (masks_by_share ms)) (masked_routes q) = Inr f1m"
    using rmap_total by blast
  have ops: "list_all2 (route_operand q query_id ms) (masked_routes q) f1m"
    using rmap_list_all2 [OF f1m] by (rule list_all2_mono) (rule f1m_operand_of_Inr [OF _ dist])
  have "(\<lambda>r. route_share_id r) ` set (masked_routes q) = (\<lambda>w. po_share_id w) ` set f1m"
    using ops by (rule list_all2_image) (simp add: route_operand_def)
  then have shares: "fst ` set (masks_by_share ms) = (\<lambda>w. po_share_id w) ` set f1m"
    by (simp only: masks_by_share_keys keys)
  define p where "p = \<lparr>pr_query_id = query_id, pr_version_id = ?v, pr_modulus = t, pr_vector = x,
        pr_cloud_program_digest = cq_cloud_program_digest q,
        pr_output_plan_digest = cq_output_plan_digest q,
        pr_execution_binding_digest = cq_execution_binding_digest q,
        pr_private_plan_digest = ob_private_plan_digest b, pr_ledger_commitment_token = token,
        pr_query_operands = query_operands_of q x, pr_f1m_operands = f1m\<rparr>"
  have "prepared_for q query_id x t ms p"
    using len t M(3,6) ops keys by (simp add: prepared_for_def p_def masks_dict_def image_image)
  from prepared_commitments_ok [OF b this qid]
  have cs: "validate_commitments (query_batch_key b query_id t) (prepared_f1m_commitments f1m) = Inr ()"
    by (simp add: p_def)
  have l1: "\<not> read_only l1" "batches l1 = batches l" "commitments l1 = commitments l"
    using M(4) by (auto simp: reserve_all_eq)
  have "\<exists>l2. commit_prepared_f1m token (prepared_f1m_commitments f1m) (query_batch_key b query_id t) l1 =
      Inr (token, l2)"
  proof -
    let ?rows = "map (\<lambda>c. (token, commitment_row_of t c)) (prepared_f1m_commitments f1m)"
    have "br_query_id ` set (batches l) \<subseteq> UNIV - {query_id}" "token \<notin> br_token ` set (batches l)"
      using fresh by (auto simp: ledger_fresh_def)
    moreover have "token \<notin> fst ` set (commitments l)"
      using fresh by (auto simp: ledger_fresh_def ledger_ok_def)
    then have "commitment_key ` set ?rows \<inter> commitment_key ` set (commitments l) = {}"
      by (force simp: commitment_key_def)
    moreover have "batch_identity (new_batch token (query_batch_key b query_id t)) \<notin> batch_identity ` set (batches l)"
      using fresh by (auto simp: ledger_fresh_def batch_identity_def new_batch_def query_batch_key_def Let_def)
    ultimately show ?thesis
      using cs l1 token prepared_masks_reserved [OF b ms ops] by (simp add: commit_Inr batch_modulus)
  qed
  then obtain l2 where "commit_prepared_f1m token (prepared_f1m_commitments f1m)
      (query_batch_key b query_id t) l1 = Inr (token, l2)" by blast
  then have "prepare_ordinary_for_validated_bundle rng token b query_id x t l = (Inr p, l2)"
    using len t ms f1m shares
    by (simp add: prepare_ordinary_for_validated_bundle_def ob Let_def sbind_Inr validated_vector_def p_def)
  then show ?thesis by blast
qed

section \<open>The lifecycle\<close>

lemma sbind_run: "m l = (Inr x, l1) \<Longrightarrow> sbind m f l = f x l1"
  by (simp add: sbind_def)

lemma sbind_slift: "sbind (slift (Inr x)) f l = f x l"
  by (simp add: sbind_run)

lemma prepared_batch_key_eq:
  "prepared_for q query_id x t ms p \<Longrightarrow> ob_compiled b = q \<Longrightarrow>
     pr_private_plan_digest p = ob_private_plan_digest b \<Longrightarrow>
     prepared_batch_key p = query_batch_key b query_id t"
  by (simp add: prepared_for_def prepared_batch_key_def query_batch_key_def)

lemma lifecycle_total:
  assumes "bind_ordinary_execution q = Inr b" and "valid_id query_id"
    and "int (length x) = query_cols q" and "2 \<le> t" and "\<forall>i. 0 \<le> rng i \<and> rng i < t"
    and "valid_sha256 token" and "ledger_fresh query_id token l"
  shows "\<exists>r l'. execute_ordinary_query_lifecycle rng token q query_id x t l = (Inr r, l') \<and>
    token \<in> consumed_tokens l' \<and> ledger_ok l'"
proof -
  obtain p l2 where prep: "prepare_ordinary_for_validated_bundle rng token b query_id x t l = (Inr p, l2)"
    using prepare_ordinary_total [OF assms] by blast
  have ob: "ob_compiled b = q" using assms(1) by (rule bind_ordinary_execution_Inr)
  obtain ms l1 issued where
    ms: "prepare_f1m_masks rng reserve_all (cq_output_plan q) query_id
      (eb_version_id (binding (cloud_plan q))) t l = (Inr ms, l1)" and p: "prepared_for q query_id x t ms p" and
    commit: "commit_prepared_f1m token (prepared_f1m_commitments (pr_f1m_operands p))
      (query_batch_key b query_id t) l1 = Inr (issued, l2)" and
    token: "pr_ledger_commitment_token p = issued" and
    priv: "pr_private_plan_digest p = ob_private_plan_digest b"
    using prepare_ordinary_Inr [OF prep] unfolding ob by blast
  have issued: "issued = token" using commit by (simp add: commit_Inr)
  have ok1: "ledger_ok l1"
    using prepare_f1m_masks_Inr(4) [OF ms] assms(7) reserve_all_ok unfolding ledger_fresh_def by blast
  note consume = commit_consume [OF ok1 commit]
  obtain ys where ys: "execute_ordinary_plaintext_for_validated_query b p t = Inr ys"
    using prepared_executes [OF assms(1) p] by blast
  let ?l' = "mark_consumed token l2"
  have "transact_unit (verify_and_consume_prepared_f1m (prepared_f1m_commitments (pr_f1m_operands p))
      (pr_ledger_commitment_token p) (prepared_batch_key p)) l2 = (Inr (), ?l')"
    using consume prepared_batch_key_eq [OF p ob priv] token by simp
  then have admit: "sbind (srewrap is_caught e (transact_unit (verify_and_consume_prepared_f1m
      (prepared_f1m_commitments (pr_f1m_operands p)) (pr_ledger_commitment_token p) (prepared_batch_key p)))) f l2 =
      f () ?l'" for e and f :: "unit \<Rightarrow> (ledger, execution_capability) action"
    by (intro sbind_run) simp
  have "admit_and_execute b p (preparation_bytes p) t l2 = (Inr ys, ?l')"
    by (simp add: admit_and_execute_def authorize_for_validated_query_def sbind_Inr Let_def admit
        take_binding_def verify_binding_def ys)
  then have "execute_ordinary_query_lifecycle rng token q query_id x t l =
      (Inr \<lparr>lr_prepared = p, lr_preparation_bytes = preparation_bytes p, lr_output = ys\<rparr>, ?l')"
    using assms(1) prep by (simp add: execute_ordinary_query_lifecycle_def sbind_slift sbind_run)
  moreover have "token \<in> consumed_tokens ?l'"
    using cl.consume_adds [OF consume] by (simp add: issued)
  moreover have "ledger_ok ?l'" using commit_ok [OF ok1 commit] by (rule mark_consumed_ok)
  ultimately show ?thesis by blast
qed

end
