(* ===== verification/Sample_Query.thy ===== *)
theory Sample_Query
  imports Lifecycle_Total
begin

text \<open>
  When compilation succeeds, and a concrete bound query: two components that share a row, so
  their shares are masked. The witnesses of the lifecycle theorems run on it.
\<close>

section \<open>Compilation succeeds\<close>

text \<open>
  The checks of \<open>compile_query\<close> on what it has built, without the digests, which never fail.
\<close>

definition compiles_to ::
  "f1m_policy \<Rightarrow> published_component list \<Rightarrow> segmented_delta_state option \<Rightarrow> packed_coo_segment list \<Rightarrow> bool"
where
  "compiles_to policy comps delta gs =
     (case (output_plan_for comps, extra_shares delta gs) of
        (Inr base, Inr extra) \<Rightarrow>
          let plan = base\<lparr>shares := shares base @ extra\<rparr>;
              slots = ls_effective_slots (layout_spec (hd comps))
          in (case (validate_output_plan plan,
                 compile_sources slots (case policy of UniformRandomOrZero \<Rightarrow> \<lambda>i. True
                   | OverlapOnly \<Rightarrow> \<lambda>i. i \<in> set (overlap_share_ids plan)) comps delta gs) of
                (Inr _, Inr s) \<Rightarrow>
                  let p = program_of slots s;
                      required = (case policy of UniformRandomOrZero \<Rightarrow> result_ids p
                        | OverlapOnly \<Rightarrow> required_overlap_mask_result_ids plan (cs_routes s));
                      ids = map route_share_id (cs_routes s)
                  in valid_id (version_id (hd comps)) \<and> distinct ids \<and>
                     set ids = set (map share_id (shares plan)) \<and>
                     map rr_result_id (cs_routes s) = result_ids p \<and>
                     set (map rr_result_id (filter (\<lambda>r. f1m_ciphertext_id r \<noteq> None) (cs_routes s))) = set required \<and>
                     validate_program p (Some (masked_return_result_ids p)) = Inr () \<and>
                     (case policy of UniformRandomOrZero \<Rightarrow> validate_cloud_program p = Inr ()
                      | OverlapOnly \<Rightarrow> validate_program p (Some required) = Inr ())
              | _ \<Rightarrow> False)
      | _ \<Rightarrow> False)"

lemma cloud_program_digest_total:
  assumes "validate_program p (Some (masked_return_result_ids p)) = Inr ()"
  shows "\<exists>d. cloud_program_digest p = Inr d \<and> valid_sha256 d"
  using assms by (simp add: cloud_program_digest_def canonical_cloud_program_bytes_def
      canonical_cloud_program_payload_def del: dumps.simps)

lemma compile_query_returns:
  assumes src: "validated_sources components delta segs = Inr (comps, gs)"
    and ok: "compiles_to policy comps delta gs"
  shows "\<exists>q. compile_query components delta segs policy = Inr q \<and> cq_components q = comps \<and>
    segmented_delta q = delta \<and> client_lane_segments q = gs \<and> f1m_policy q = policy"
proof -
  define slots where "slots = ls_effective_slots (layout_spec (hd comps))"
  obtain base extra where base: "output_plan_for comps = Inr base" and extra: "extra_shares delta gs = Inr extra"
    using ok by (auto simp: compiles_to_def split: sum.splits)
  define plan where "plan = base\<lparr>shares := shares base @ extra\<rparr>"
  define masked where "masked = (case policy of UniformRandomOrZero \<Rightarrow> \<lambda>i. True
    | OverlapOnly \<Rightarrow> \<lambda>i. i \<in> set (overlap_share_ids plan))"
  have masked: "(\<lambda>i. policy = UniformRandomOrZero \<or> i \<in> set (overlap_share_ids plan)) = masked"
    by (cases policy) (simp_all add: masked_def)
  note ok1 = ok [unfolded compiles_to_def base extra prod.case sum.case Let_def, folded plan_def slots_def, folded masked_def]
  obtain m s where plan_ok: "validate_output_plan plan = Inr m"
      and cs: "compile_sources slots masked comps delta gs = Inr s"
    using ok1 by (cases "validate_output_plan plan"; cases "compile_sources slots masked comps delta gs") simp_all
  define p where "p = program_of slots s"
  define required where "required = (case policy of UniformRandomOrZero \<Rightarrow> result_ids p
    | OverlapOnly \<Rightarrow> required_overlap_mask_result_ids plan (cs_routes s))"
  have C: "valid_id (version_id (hd comps))" "distinct (map route_share_id (cs_routes s))"
      "set (map route_share_id (cs_routes s)) = set (map share_id (shares plan))"
      "map rr_result_id (cs_routes s) = result_ids p"
      "set (map rr_result_id (filter (\<lambda>r. f1m_ciphertext_id r \<noteq> None) (cs_routes s))) = set required"
      "validate_program p (Some (masked_return_result_ids p)) = Inr ()"
      "case policy of UniformRandomOrZero \<Rightarrow> validate_cloud_program p = Inr ()
        | OverlapOnly \<Rightarrow> validate_program p (Some required) = Inr ()"
    using ok1 unfolding plan_ok cs prod.case sum.case p_def required_def by blast+
  obtain analysis where an: "analyze_output_plan plan = Inr analysis"
    using analyze_total [of plan] plan_ok by (auto simp: validate_output_plan_eq)
  obtain pd where pd: "cloud_program_digest p = Inr pd" "valid_sha256 pd"
    using cloud_program_digest_total [OF C(6)] by blast
  define b where "b = \<lparr>eb_format = execution_binding_format, eb_version_id = version_id (hd comps),
    eb_output_plan_digest = oa_output_plan_digest analysis, eb_cloud_program_digest = pd\<rparr>"
  have vb: "validate_execution_binding b = Inr ()"
    using C(1) pd(2) analyze_digest [OF an]
    by (simp add: validate_execution_binding_def b_def rbind_eq_Inr)
  define cplan where "cplan = \<lparr>program = p, binding = b\<rparr>"
  have cb: "check_program_binding cplan = Inr ()"
    using vb pd(1) by (simp add: check_program_binding_def cplan_def) (simp add: b_def)
  have "validate_cloud_execution_plan_for_serialization cplan = Inr ()"
    using C(6) cb by (simp add: validate_cloud_execution_plan_for_serialization_def
        validate_cloud_execution_plan_with_masked_results_def cplan_def)
  then obtain counts where counts: "analyze_cloud_plan cplan = Inr counts"
    by (simp add: analyze_cloud_plan_def Let_def)
  obtain bd where bd: "execution_binding_digest b = Inr bd"
    using vb by (simp add: execution_binding_digest_def canonical_execution_binding_bytes_def
        canonical_execution_binding_payload_def del: dumps.simps)
  define q where "q = \<lparr>cq_components = comps, segmented_delta = delta, client_lane_segments = gs,
    f1m_policy = policy, cloud_plan = cplan, cq_output_plan = plan, operand_specs = cs_specs s,
    result_routes = cs_routes s, cq_cloud_program_digest = pd,
    cq_output_plan_digest = oa_output_plan_digest analysis, cq_execution_binding_digest = bd,
    cloud_counts = counts, output_analysis = analysis\<rparr>"
  have wm: "(case policy of UniformRandomOrZero \<Rightarrow> validate_cloud_execution_plan cplan
      | OverlapOnly \<Rightarrow> validate_cloud_execution_plan_with_masked_results cplan required) = Inr ()"
    using C(7) cb by (cases policy)
      (simp_all add: validate_cloud_execution_plan_with_masked_results_def validate_cloud_execution_plan_def cplan_def)
  have fields: "result_routes q = cs_routes s" "cq_output_plan q = plan" "f1m_policy q = policy"
      "cloud_plan q = cplan" "program cplan = p"
    by (simp_all add: q_def cplan_def)
  have parts: "validate_compiled_parts q = Inr ()"
    unfolding validate_compiled_parts_def Let_def fields f1m_policy.case required_def [symmetric]
      C(3,4) using C(2,5) wm by (simp add: distinct_remdups_id)
  have "compile_query components delta segs policy = Inr q"
    unfolding compile_query_def src rbind_Inr prod.case Let_def base extra
    unfolding plan_def [symmetric] an rbind_Inr masked slots_def [symmetric] cs p_def [symmetric] pd(1)
      b_def [symmetric] cplan_def [symmetric] counts bd q_def [symmetric] parts ..
  then show ?thesis by (auto simp: q_def)
qed

lemma bind_returns:
  assumes "compile_query (cq_components q) (segmented_delta q) (client_lane_segments q) OverlapOnly = Inr q"
    and "f1m_policy q = OverlapOnly" and "validate_compiled_parts q = Inr ()"
  shows "\<exists>b. bind_ordinary_execution q = Inr b"
  using assms by (simp add: bind_ordinary_execution_def validate_compiled_query_def rewrap_def)

section \<open>A concrete query\<close>

definition sample_component :: "string \<Rightarrow> (coord, int) dict \<Rightarrow> published_component" where
  "sample_component cid state = projr (publish_component state 2 2 2 ''v1'' cid None None NoCapability)"

definition sample_components :: "published_component list" where
  "sample_components = [sample_component ''a'' [((0, 0), 3), ((1, 1), 2)], sample_component ''b'' [((0, 1), 4)]]"

lemma sample_sources: "validated_sources sample_components None [] = Inr (sample_components, [])"
  by code_simp

lemma sample_compiles: "compiles_to OverlapOnly sample_components None []"
  by code_simp

lemma sample_entries:
  "source_entries sample_components None [] = [((0, 0), 3), ((1, 1), 2), ((0, 1), 4)]"
  by code_simp

lemma sample_dims:
  "ls_rows (layout_spec (hd sample_components)) = 2" "ls_cols (layout_spec (hd sample_components)) = 2"
  by code_simp+

lemma sample_bound:
  "\<exists>q b. bind_ordinary_execution q = Inr b \<and> query_entries q = [((0, 0), 3), ((1, 1), 2), ((0, 1), 4)] \<and>
     query_rows q = 2 \<and> query_cols q = 2"
proof -
  obtain q where q: "compile_query sample_components None [] OverlapOnly = Inr q"
      "cq_components q = sample_components" "segmented_delta q = None" "client_lane_segments q = []"
      "f1m_policy q = OverlapOnly"
    using compile_query_returns [OF sample_sources sample_compiles] by blast
  obtain s extra where "compiled_from q (ls_effective_slots (layout_spec (hd (cq_components q)))) s extra"
    using compile_query_Inr(1) [OF q(1)] by blast
  then have "validate_compiled_parts q = Inr ()" by (simp add: compiled_from_def)
  then obtain b where "bind_ordinary_execution q = Inr b"
    using bind_returns [of q] q by (auto simp: q)
  moreover have "query_rows q = 2" "query_cols q = 2"
    by (simp_all add: query_rows_def query_cols_def q(2) sample_dims)
  moreover have "query_entries q = [((0, 0), 3), ((1, 1), 2), ((0, 1), 4)]"
    by (simp add: query_entries_def q(2-4) sample_entries)
  ultimately show ?thesis by blast
qed

text \<open>A token and a ledger for the witnesses.\<close>

definition run_token :: string where
  "run_token = replicate 64 (CHR ''a'')"

lemma run_token_valid: "valid_sha256 run_token"
  by code_simp

lemma sample_ledger_fresh: "ledger_fresh query_id token empty_ledger"
  by (simp add: ledger_fresh_def) (simp add: empty_ledger_def)

lemma sample_lifecycle:
  assumes "bind_ordinary_execution q = Inr b" and "query_cols q = 2"
  shows "\<exists>r l'. execute_ordinary_query_lifecycle (\<lambda>_. 1) run_token q ''q1'' [5, 6] 97 empty_ledger = (Inr r, l') \<and> ledger_ok l'"
proof -
  have "valid_id ''q1''" by code_simp
  with assms show ?thesis
    using lifecycle_total [OF assms(1), of "''q1''" "[5, 6]" 97 "\<lambda>_. 1" run_token empty_ledger]
      run_token_valid sample_ledger_fresh by auto
qed

end
