(* ===== verification/Lifecycle_Checks.thy ===== *)
theory Lifecycle_Checks
  imports Lifecycle_Total
begin

text \<open>
  The checks that stand between the steps of the lifecycle: what preparation produces always
  passes \<open>validate_prepared\<close>, so the paths that skip the check skip nothing.
\<close>

section \<open>The prepared operands pass their checks\<close>

lemma set_overlap_rows: "set (overlap_rows plan) = {r. 1 < length (row_lanes plan r)}"
  unfolding overlap_rows_def overlapping_counter(2) length_row_lanes
  by (simp add: logical_rows_def)

lemma nonzero_lane_overlaps:
  assumes mok: "masks_ok plan t ms" and s: "s \<in> set (shares plan)" and ok: "plan_ok plan"
    and nz: "lane_value (masks_dict ms) (os_component_id s, os_output_block_id s, p) \<noteq> 0"
    and p: "0 \<le> p" "p < op_slot_count plan"
  shows "\<exists>row. (p, row) \<in> set (slot_to_logical s) \<and> row \<in> set (overlap_rows plan)"
proof -
  let ?x = "(os_component_id s, os_output_block_id s, p)"
  have "lane_value (masks_dict ms) ?x = 0"
    if "\<forall>r \<in> set (sort (map fst (contributors_of plan))). ?x \<in> set (row_lanes plan r) \<longrightarrow> length (row_lanes plan r) \<le> 1"
    using masks_inv_zero [OF mok [unfolded masks_ok_def], of ?x] that p by simp
  then obtain r where r: "?x \<in> set (row_lanes plan r)" "1 < length (row_lanes plan r)"
    using nz by force
  from r(1) obtain s' where s': "s' \<in> set (shares plan)" "share_id s' = share_id s" "(p, r) \<in> set (slot_to_logical s')"
    by (auto simp: row_lanes_def plan_lanes_mem)
  have "inj_on (\<lambda>s. share_id s) (set (shares plan))" using ok by (simp add: plan_ok_def distinct_map)
  then have "s' = s" by (rule inj_onD) (use s' s in simp_all)
  then show ?thesis using s'(3) r(2) by (auto simp: set_overlap_rows)
qed

lemma share_lookup:
  assumes "plan_ok plan" and "s \<in> set (shares plan)"
  shows "map_of (dict_of (map (\<lambda>s. (share_id s, s)) (shares plan))) (share_id s) = Some s"
proof -
  have d: "distinct (map fst (map (\<lambda>s. (share_id s, s)) (shares plan)))"
    using assms(1) by (simp add: plan_ok_def comp_def)
  have "(share_id s, s) \<in> set (map (\<lambda>s. (share_id s, s)) (shares plan))" using assms(2) by simp
  with d show ?thesis unfolding map_of_dict_of [OF d] by (rule map_of_is_SomeI)
qed

lemma prepared_operand_ok:
  assumes q: "compiled_from q slots s0 extra" and p: "prepared_for q query_id x t ms p"
    and r: "r \<in> set (masked_routes q)" and w: "route_operand q query_id ms r w"
  shows "\<exists>s. map_of (dict_of (map (\<lambda>s. (share_id s, s)) (shares (cq_output_plan q)))) (route_share_id r) = Some s \<and>
    f1m_operand_ok (cq_output_plan q) p r s w"
proof -
  let ?plan = "cq_output_plan q"
  have parts: "validate_compiled_parts q = Inr ()" and ok: "plan_ok ?plan"
    using q by (simp_all add: compiled_from_def)
  have mok: "masks_ok ?plan t ms" using p by (simp add: prepared_for_def)
  have "r \<in> set (result_routes q)" using r by (simp add: masked_routes_def)
  then have "route_share_id r \<in> share_id ` set (shares ?plan)"
    unfolding validate_compiled_parts_Inr(3) [OF parts, symmetric] by simp
  then obtain s where s: "s \<in> set (shares ?plan)" "route_share_id r = share_id s" by (rule imageE)
  have v: "map_of (masks_dict ms) (share_id s) = Some (po_values w)" using w s(2) by (simp add: route_operand_def)
  note V = mask_value_length [OF mok v]
  have pos: "0 < op_slot_count ?plan" using ok by (simp add: plan_ok_def)
  have lane: "\<exists>(l, row) \<in> set (slot_to_logical s). l = lane \<and> row \<in> set (overlap_rows ?plan)"
    if mem: "(lane, y) \<in> set (py_enumerate (po_values w))" and y: "y \<noteq> 0" for lane y
  proof -
    obtain i where i: "lane = int i" "y = po_values w ! i" "i < length (po_values w)"
      using mem by (auto simp: set_py_enumerate)
    have "lane_value (masks_dict ms) (os_component_id s, os_output_block_id s, lane) \<noteq> 0"
      using v y i by (simp add: lane_value_def)
    moreover have "0 \<le> lane" "lane < op_slot_count ?plan" using i V by simp_all
    ultimately show ?thesis using nonzero_lane_overlaps [OF mok s(1) ok] by auto
  qed
  have "f1m_operand_ok ?plan p r s w"
    unfolding f1m_operand_ok_def
  proof (intro conjI)
    show "Some (po_ciphertext_id w) = f1m_ciphertext_id r" "po_result_id w = rr_result_id r"
      "po_kind w = RandomZeroSum" "po_query_id w = pr_query_id p" "po_version_id w = pr_version_id p"
      "po_output_plan_digest w = pr_output_plan_digest p"
      using w p by (simp_all add: route_operand_def prepared_for_def)
    show "po_share_id w = route_share_id r" using w by (simp add: route_operand_def)
    show "int (length (po_values w)) = op_slot_count ?plan" using V pos by simp
    show "\<forall>v \<in> set (po_values w). 0 \<le> v \<and> v < pr_modulus p" using V p by (simp add: prepared_for_def)
    show "\<forall>(lane, v) \<in> set (py_enumerate (po_values w)). v \<noteq> 0 \<longrightarrow>
        (\<exists>(l, row) \<in> set (slot_to_logical s). l = lane \<and> row \<in> set (overlap_rows ?plan))"
      using lane by blast
  qed
  then show ?thesis using share_lookup [OF ok s(1)] s(2) by auto
qed

text \<open>The dictionary the check builds: the mask of every masked share.\<close>

lemma check_operands_total:
  assumes ok: "\<And>r w. r \<in> set rs \<Longrightarrow> route_operand q query_id ms r w \<Longrightarrow>
      \<exists>s. map_of (dict_of (map (\<lambda>s. (share_id s, s)) (shares plan))) (route_share_id r) = Some s \<and>
        f1m_operand_ok plan p r s w"
    and ops: "list_all2 (route_operand q query_id ms) rs ws"
  shows "\<exists>vals'. rfold (check_f1m_operand plan p) vals (zip ws rs) = Inr vals' \<and>
    (\<forall>i. map_of vals' i = (if i \<in> (\<lambda>r. route_share_id r) ` set rs then map_of (masks_dict ms) i else map_of vals i))"
  using ops ok
proof (induction arbitrary: vals rule: list_all2_induct)
  case Nil
  then show ?case by simp
next
  case (Cons r rs w ws)
  obtain s where s: "map_of (dict_of (map (\<lambda>s. (share_id s, s)) (shares plan))) (route_share_id r) = Some s"
    "f1m_operand_ok plan p r s w"
    using Cons.prems [of r w] Cons.hyps(1) by auto
  have step: "check_f1m_operand plan p vals (w, r) = Inr (AList.update (route_share_id r) (po_values w) vals)"
    using s by (simp add: check_f1m_operand_def)
  obtain vals' where v: "rfold (check_f1m_operand plan p) (AList.update (route_share_id r) (po_values w) vals)
      (zip ws rs) = Inr vals'"
    "\<forall>i. map_of vals' i = (if i \<in> (\<lambda>r. route_share_id r) ` set rs then map_of (masks_dict ms) i
      else map_of (AList.update (route_share_id r) (po_values w) vals) i)"
    using Cons.IH [of "AList.update (route_share_id r) (po_values w) vals"] Cons.prems by auto
  have "map_of (masks_dict ms) (route_share_id r) = Some (po_values w)"
    using Cons.hyps(1) by (simp add: route_operand_def)
  then have "\<forall>i. map_of vals' i = (if i \<in> (\<lambda>r. route_share_id r) ` set (r # rs) then map_of (masks_dict ms) i
      else map_of vals i)"
    using v(2) by (auto simp: map_of_update)
  then show ?case using step v(1) by (intro exI [of _ vals']) simp
qed

lemma overlap_lanes_eq: "overlap_lanes plan r = map (\<lambda>(c, b, p). ((c, b), p)) (row_lanes plan r)"
proof -
  have "concat (map (\<lambda>s. concat (map (\<lambda>(lane, row). if row = r then [(share_id s, lane)] else [])
      (slot_to_logical s))) ss) = map (\<lambda>(c, b, p). ((c, b), p)) (map snd (filter (\<lambda>x. fst x = r)
      (concat (map (\<lambda>s. map (\<lambda>(p, l). (l, os_component_id s, os_output_block_id s, p)) (slot_to_logical s)) ss))))" for ss
  proof (induction ss)
    case (Cons s ss)
    have "concat (map (\<lambda>(lane, row). if row = r then [(share_id s, lane)] else []) xs) =
      map (\<lambda>(c, b, p). ((c, b), p)) (map snd (filter (\<lambda>x. fst x = r)
        (map (\<lambda>(p, l). (l, os_component_id s, os_output_block_id s, p)) xs)))" for xs
      by (induction xs) auto
    with Cons show ?case by simp
  qed simp
  then show ?thesis by (simp add: overlap_lanes_def row_lanes_def plan_lanes_def)
qed

lemma cancellation_fold:
  assumes "\<And>c b p. (c, b, p) \<in> set xs \<Longrightarrow> map_of vals (c, b) = map_of d (c, b) \<and> map_of d (c, b) \<noteq> None"
  shows "rfold (\<lambda>acc (i, lane). case map_of vals i of None \<Rightarrow> Inl KeyError
        | Some v \<Rightarrow> Inr (acc + v ! nat lane)) acc (map (\<lambda>(c, b, p). ((c, b), p)) xs) =
    Inr (acc + (\<Sum>x \<leftarrow> xs. lane_value d x))"
  using assms
proof (induction xs arbitrary: acc)
  case (Cons x xs)
  obtain c b p where x: "x = (c, b, p)" by (cases x)
  obtain v where "map_of d (c, b) = Some v" "map_of vals (c, b) = Some v"
    using Cons.prems [of c b p] x by auto
  moreover have "rfold (\<lambda>acc (i, lane). case map_of vals i of None \<Rightarrow> Inl KeyError
        | Some v \<Rightarrow> Inr (acc + v ! nat lane)) a (map (\<lambda>(c, b, p). ((c, b), p)) xs) =
      Inr (a + (\<Sum>x \<leftarrow> xs. lane_value d x))" for a
    by (rule Cons.IH) (rule Cons.prems, erule list.set_intros(2))
  ultimately show ?case by (simp add: x lane_value_def)
qed simp

lemma prepared_is_valid:
  assumes b: "bind_ordinary_execution q = Inr b" and p: "prepared_for q query_id x t ms p"
    and qid: "valid_id query_id" and priv: "pr_private_plan_digest p = ob_private_plan_digest b"
    and token: "valid_sha256 (pr_ledger_commitment_token p)"
  shows "validate_prepared b p = Inr ()"
proof -
  let ?plan = "cq_output_plan q"
  have ob: "ob_compiled b = q" and policy: "f1m_policy q = OverlapOnly"
    using bind_ordinary_execution_Inr [OF b] by simp_all
  obtain n s extra where q: "compiled_from q (int n) s extra" using bound_query_compiled [OF b] by blast
  note D = bound_query_digests [OF b]
  have f: "int (length x) = query_cols q" "2 \<le> t" "masks_ok ?plan t ms"
    "list_all2 (route_operand q query_id ms) (masked_routes q) (pr_f1m_operands p)"
    "fst ` set (masks_dict ms) = overlap_ids ?plan"
    "fst ` set (masks_dict ms) = (\<lambda>r. route_share_id r) ` set (masked_routes q)"
    "pr_query_operands p = query_operands_of q x" "pr_vector p = x" "pr_modulus p = t"
    using p unfolding prepared_for_def by blast+
  have bind: "prepared_binding_ok b p"
    using p D(1) qid priv token f(2) by (simp add: prepared_binding_ok_def ob Let_def prepared_for_def)
  obtain vals where vals: "rfold (check_f1m_operand ?plan p) [] (zip (pr_f1m_operands p) (masked_routes q)) = Inr vals"
    and at: "\<forall>i. map_of vals i = (if i \<in> (\<lambda>r. route_share_id r) ` set (masked_routes q)
      then map_of (masks_dict ms) i else map_of [] i)"
    using check_operands_total [OF prepared_operand_ok [OF q p] f(4), of "[]"] by blast
  have "check_cancellation ?plan p vals r = Inr ()" if "r \<in> set (overlap_rows ?plan)" for r
  proof -
    have "map_of vals (c, i) = map_of (masks_dict ms) (c, i) \<and> map_of (masks_dict ms) (c, i) \<noteq> None"
      if "(c, i, l) \<in> set (row_lanes ?plan r)" for c i l
    proof -
      have "(c, i) \<in> overlap_ids ?plan"
        using that \<open>r \<in> set (overlap_rows ?plan)\<close> unfolding overlap_ids_def set_overlap_rows by force
      then have "(c, i) \<in> fst ` set (masks_dict ms)" by (simp only: f(5))
      then show ?thesis using at f(6) by (simp add: map_of_eq_None_iff)
    qed
    note lanes = this
    have "rfold (\<lambda>acc (i, lane). case map_of vals i of None \<Rightarrow> Inl KeyError
        | Some v \<Rightarrow> Inr (acc + v ! nat lane)) 0 (overlap_lanes ?plan r) =
      Inr (\<Sum>x \<leftarrow> row_lanes ?plan r. lane_value (masks_dict ms) x)"
      using cancellation_fold [of "row_lanes ?plan r" vals "masks_dict ms" 0, OF lanes]
      by (simp add: overlap_lanes_eq)
    then show ?thesis
      using row_lanes_sum_zero [OF f(3), of r] f(9) by (simp add: check_cancellation_def)
  qed
  then have "rfold (\<lambda>_ row. check_cancellation ?plan p vals row) () (overlap_rows ?plan) = Inr ()"
    by (simp add: rfold_unit_iff)
  then show ?thesis
    using bind vals f(1,7,8) list_all2_lengthD [OF f(4)]
    by (simp add: validate_prepared_def ob Let_def validated_vector_def)
qed

text \<open>So everything that preparation returns is accepted by the checks it skips.\<close>

lemma bound_bundle_is_valid: "bind_ordinary_execution q = Inr b \<Longrightarrow> validate_bundle b = Inr ()"
  using bind_ordinary_execution_Inr(1) [of q b] by (simp add: validate_bundle_def)

lemma prepare_is_valid:
  assumes b: "bind_ordinary_execution q = Inr b"
    and run: "prepare_ordinary_for_validated_bundle rng token b query_id x t l = (Inr p, l')"
  shows "validate_prepared b p = Inr ()" and "pr_modulus p = t"
    and "pr_ledger_commitment_token p = token"
proof -
  have ob: "ob_compiled b = q" using b by (rule bind_ordinary_execution_Inr)
  obtain ms l1 issued where p: "prepared_for q query_id x t ms p" and
    commit: "commit_prepared_f1m token (prepared_f1m_commitments (pr_f1m_operands p))
      (query_batch_key b query_id t) l1 = Inr (issued, l')" and
    tok: "pr_ledger_commitment_token p = issued" and
    priv: "pr_private_plan_digest p = ob_private_plan_digest b"
    using prepare_ordinary_Inr [OF run] unfolding ob by blast
  have c: "issued = token" "valid_sha256 token" "valid_id query_id"
    using commit by (auto simp: commit_Inr validate_commitments_Inr batch_key_ok_def query_batch_key_def Let_def)
  show "validate_prepared b p = Inr ()"
    using prepared_is_valid [OF b p c(3) priv] tok c(1,2) by simp
  show "pr_modulus p = t" using p by (simp add: prepared_for_def)
  show "pr_ledger_commitment_token p = token" using tok c(1) by simp
qed

lemma sbind_run_Inl: "m l = (Inl e, l1) \<Longrightarrow> sbind m f l = (Inl e, l1)"
  by (simp add: sbind_def)

lemma prepare_ordinary_query_eq:
  assumes "bind_ordinary_execution q = Inr b"
  shows "prepare_ordinary_query rng token b query_id x t =
    prepare_ordinary_for_validated_bundle rng token b query_id x t"
proof
  fix l
  obtain r l1 where run: "prepare_ordinary_for_validated_bundle rng token b query_id x t l = (r, l1)"
    by (cases "prepare_ordinary_for_validated_bundle rng token b query_id x t l") blast
  show "prepare_ordinary_query rng token b query_id x t l =
      prepare_ordinary_for_validated_bundle rng token b query_id x t l"
  proof (cases r)
    case (Inl e)
    then show ?thesis using run
      by (simp add: prepare_ordinary_query_def bound_bundle_is_valid [OF assms] sbind_slift sbind_run_Inl)
  next
    case (Inr p)
    then show ?thesis using run prepare_is_valid(1) [OF assms, of rng token query_id x t l p l1]
      by (simp add: prepare_ordinary_query_def bound_bundle_is_valid [OF assms] sbind_slift sbind_run)
  qed
qed

lemma execute_prepared_eq:
  assumes "bind_ordinary_execution q = Inr b" and "validate_prepared b p = Inr ()"
  shows "execute_ordinary_plaintext b p (pr_modulus p) =
    admit_and_execute b p (preparation_bytes p) (pr_modulus p)"
  by (rule ext) (simp add: execute_ordinary_plaintext_def bound_bundle_is_valid [OF assms(1)] assms(2) sbind_slift)

text \<open>An execution admitted by the ledger consumes its batch, and refused ones change nothing.\<close>

lemma admit_and_execute_consumes:
  assumes "admit_and_execute b p bytes t l = (Inr out, l')"
  shows "verify_and_consume_prepared_f1m (prepared_f1m_commitments (pr_f1m_operands p))
      (pr_ledger_commitment_token p) (prepared_batch_key p) l = Inr l'"
  using assms by (auto simp: admit_and_execute_def authorize_for_validated_query_def sbind_Inr Let_def)

lemma admit_refused:
  assumes "verify_and_consume_prepared_f1m (prepared_f1m_commitments (pr_f1m_operands p))
      (pr_ledger_commitment_token p) (prepared_batch_key p) l = Inl e"
  shows "\<exists>e'. admit_and_execute b p bytes t l = (Inl e', l)"
  using assms
  by (simp add: admit_and_execute_def authorize_for_validated_query_def sbind_def Let_def srewrap_def rewrap_def transact_unit_def)

lemma execute_refused:
  assumes "verify_and_consume_prepared_f1m (prepared_f1m_commitments (pr_f1m_operands p))
      (pr_ledger_commitment_token p) (prepared_batch_key p) l = Inl e"
  shows "\<exists>e'. execute_ordinary_plaintext b p t l = (Inl e', l)"
  using admit_refused [OF assms, of b "preparation_bytes p" t]
  by (auto simp: execute_ordinary_plaintext_def sbind_def slift_def split: sum.splits)

end
