(* ===== verification/Lifecycle_Properties.thy ===== *)
theory Lifecycle_Properties
  imports Sample_Query Lifecycle_Checks
begin

text \<open>
  The properties of the lifecycle as a whole: it computes the product, it returns, its fast path
  is the checked path, and what it consumed can be replayed but not executed again.
\<close>

section \<open>The lifecycle computes the product\<close>

text \<open>
  C1. The correctness of the protocol. Whenever the ordinary lifecycle returns - whatever random
  samples, token and ledger it ran with - its output is the sparse matrix-vector product, modulo
  the plaintext modulus, of the matrix held by the published components, the delta and the client
  segments; and that matrix has no coordinate twice.
\<close>

theorem lifecycle_computes_spmv:
  assumes "execute_ordinary_query_lifecycle rng token q query_id x t l = (Inr r, l')"
  shows "direct_spmv (query_entries q) x (query_rows q) (query_cols q) t = Inr (lr_output r) \<and>
    distinct (map fst (query_entries q))"
proof -
  obtain b l1 where b: "bind_ordinary_execution q = Inr b"
    and prep: "prepare_ordinary_for_validated_bundle rng token b query_id x t l = (Inr (lr_prepared r), l1)"
    and run: "execute_ordinary_plaintext_for_validated_query b (lr_prepared r) t = Inr (lr_output r)"
    using lifecycle_Inr [OF assms] by blast
  have ob: "ob_compiled b = q" using b by (rule bind_ordinary_execution_Inr)
  obtain ms where "prepared_for q query_id x t ms (lr_prepared r)"
    using prepare_ordinary_Inr [OF prep] unfolding ob by blast
  then have "direct_spmv (query_entries q) x (query_rows q) (query_cols q) t = Inr (lr_output r)"
    using executed_query_is_spmv [OF b _ run] by blast
  moreover obtain n s extra where "compiled_from q (int n) s extra"
    using bound_query_compiled [OF b] by blast
  ultimately show ?thesis
    by (simp add: compiled_from_def sources_valid_def query_entries_def)
qed

theorem lifecycle_computes_spmv_witness:
  "\<exists>q r l'. execute_ordinary_query_lifecycle (\<lambda>_. 1) run_token q ''q1'' [5, 6] 97 empty_ledger = (Inr r, l') \<and>
     lr_output r = [39, 12]"
proof -
  obtain q b where b: "bind_ordinary_execution q = Inr b"
    and q: "query_entries q = [((0, 0), 3), ((1, 1), 2), ((0, 1), 4)]" "query_rows q = 2" "query_cols q = 2"
    using sample_bound by blast
  obtain r l' where r: "execute_ordinary_query_lifecycle (\<lambda>_. 1) run_token q ''q1'' [5, 6] 97 empty_ledger = (Inr r, l')"
    using sample_lifecycle [OF b] q(3) by auto
  have "direct_spmv (query_entries q) [5, 6] (query_rows q) (query_cols q) 97 = Inr (lr_output r)"
    using lifecycle_computes_spmv [OF r] by blast
  then have "lr_output r = [39, 12]"
    unfolding q by (simp add: direct_spmv_eq spmv_terms_def py_range_def numeral_2_eq_2)
  then show ?thesis using r by blast
qed

text \<open>
  C2. The lifecycle returns. A bound query on a vector of the matrix's width, a modulus of at
  least two, samples within it and a ledger that is writable and knows neither the query
  identifier nor the token: every step succeeds, and the batch of the query ends up consumed.
\<close>

theorem lifecycle_returns:
  assumes "bind_ordinary_execution q = Inr b" and "valid_id query_id"
    and "int (length x) = query_cols q" and "2 \<le> t" and "\<forall>i. 0 \<le> rng i \<and> rng i < t"
    and "valid_sha256 token" and "ledger_fresh query_id token l"
  shows "\<exists>r l'. execute_ordinary_query_lifecycle rng token q query_id x t l = (Inr r, l') \<and>
    token \<in> consumed_tokens l' \<and> ledger_ok l'"
  using assms by (rule lifecycle_total)

theorem lifecycle_returns_witness:
  "\<exists>q b r l'. bind_ordinary_execution q = Inr b \<and>
     execute_ordinary_query_lifecycle (\<lambda>i. int i mod 97) run_token q ''q1'' [5, 6] 97 empty_ledger = (Inr r, l') \<and>
     run_token \<in> consumed_tokens l' \<and> ledger_ok l'"
proof -
  obtain q b where b: "bind_ordinary_execution q = Inr b" and q: "query_cols q = 2"
    using sample_bound by blast
  have "valid_id ''q1''" by code_simp
  then have "\<exists>r l'. execute_ordinary_query_lifecycle (\<lambda>i. int i mod 97) run_token q ''q1'' [5, 6] 97 empty_ledger =
      (Inr r, l') \<and> run_token \<in> consumed_tokens l' \<and> ledger_ok l'"
    using q run_token_valid sample_ledger_fresh
    by (intro lifecycle_returns [OF b]) simp_all
  then show ?thesis using b by blast
qed

section \<open>The fast path is the checked path\<close>

text \<open>
  C3. The lifecycle, which validates the compiled query once and nothing after that, has on every
  input and ledger the outcome and the effect of the public operations run one after the other,
  each of which validates its bundle and its prepared query again: the checks it omits cannot fail.
\<close>

theorem lifecycle_is_checked:
  assumes "bind_ordinary_execution q = Inr b"
  shows "execute_ordinary_query_lifecycle rng token q query_id x t l =
    sbind (prepare_ordinary_query rng token b query_id x t) (\<lambda>p.
    sbind (execute_ordinary_plaintext b p t) (\<lambda>out.
    slift (Inr \<lparr>lr_prepared = p, lr_preparation_bytes = preparation_bytes p, lr_output = out\<rparr>))) l"
proof -
  obtain r l1 where run: "prepare_ordinary_for_validated_bundle rng token b query_id x t l = (r, l1)"
    by (cases "prepare_ordinary_for_validated_bundle rng token b query_id x t l") blast
  show ?thesis
  proof (cases r)
    case (Inl e)
    then show ?thesis using run assms
      by (simp add: execute_ordinary_query_lifecycle_def prepare_ordinary_query_eq [OF assms] sbind_slift sbind_run_Inl)
  next
    case (Inr p)
    note p = prepare_is_valid [OF assms run [unfolded Inr]]
    show ?thesis using execute_prepared_eq [OF assms p(1)] run assms
      by (simp add: Inr p(2) execute_ordinary_query_lifecycle_def prepare_ordinary_query_eq [OF assms]
          sbind_slift sbind_run)
  qed
qed

theorem lifecycle_is_checked_witness:
  "\<exists>q b. bind_ordinary_execution q = Inr b \<and>
     execute_ordinary_query_lifecycle (\<lambda>_. 1) run_token q ''q1'' [5, 6] 97 empty_ledger =
     sbind (prepare_ordinary_query (\<lambda>_. 1) run_token b ''q1'' [5, 6] 97) (\<lambda>p.
     sbind (execute_ordinary_plaintext b p 97) (\<lambda>out.
     slift (Inr \<lparr>lr_prepared = p, lr_preparation_bytes = preparation_bytes p, lr_output = out\<rparr>))) empty_ledger"
proof -
  obtain q b where b: "bind_ordinary_execution q = Inr b" using sample_bound by blast
  show ?thesis using b lifecycle_is_checked [OF b] by blast
qed

section \<open>Replay and second execution\<close>

text \<open>
  C4. The read-only replay. After a lifecycle returned, the replay of its prepared query on the
  ledger it left passes every check and yields the output of the lifecycle again.
\<close>

theorem lifecycle_replays:
  assumes "bind_ordinary_execution q = Inr b"
    and "execute_ordinary_query_lifecycle rng token q query_id x t l = (Inr r, l')"
  shows "replay_ordinary_plaintext_read_only b (lr_prepared r) t l' = Inr (lr_output r)"
proof -
  obtain l1 where prep: "prepare_ordinary_for_validated_bundle rng token b query_id x t l = (Inr (lr_prepared r), l1)"
    and consume: "verify_and_consume_prepared_f1m (prepared_f1m_commitments (pr_f1m_operands (lr_prepared r)))
      (pr_ledger_commitment_token (lr_prepared r)) (prepared_batch_key (lr_prepared r)) l1 = Inr l'"
    and run: "execute_ordinary_plaintext_for_validated_query b (lr_prepared r) t = Inr (lr_output r)"
    using lifecycle_Inr [OF assms(2)] assms(1) by auto
  show ?thesis
    using prepare_is_valid [OF assms(1) prep] consume_verified [OF consume] run
    by (simp add: replay_ordinary_plaintext_read_only_def bound_bundle_is_valid [OF assms(1)]
        replay_for_validated_query_def rewrap_def)
qed

theorem lifecycle_replays_witness:
  "\<exists>q b r l'. execute_ordinary_query_lifecycle (\<lambda>_. 1) run_token q ''q1'' [5, 6] 97 empty_ledger = (Inr r, l') \<and>
     replay_ordinary_plaintext_read_only b (lr_prepared r) 97 l' = Inr (lr_output r)"
proof -
  obtain q b where b: "bind_ordinary_execution q = Inr b" and q: "query_cols q = 2"
    using sample_bound by blast
  obtain r l' where "execute_ordinary_query_lifecycle (\<lambda>_. 1) run_token q ''q1'' [5, 6] 97 empty_ledger = (Inr r, l')"
    using sample_lifecycle [OF b q] by auto
  then show ?thesis using lifecycle_replays [OF b] by blast
qed

text \<open>
  C5. No second execution. Once a lifecycle returned, every later execution of any prepared query
  that presents its commitment token - on the ledger it left or on any ledger reached from there
  by further transactions - raises and leaves the ledger as it is.
\<close>

theorem executed_once:
  assumes "execute_ordinary_query_lifecycle rng token q query_id x t l = (Inr r, l1)"
    and "ledger_ok l1" and "ledger_run l1 ops l2"
    and "pr_ledger_commitment_token p = pr_ledger_commitment_token (lr_prepared r)"
  shows "\<exists>e. execute_ordinary_plaintext b p t' l2 = (Inl e, l2)"
proof -
  obtain l0 where c: "verify_and_consume_prepared_f1m (prepared_f1m_commitments (pr_f1m_operands (lr_prepared r)))
      (pr_ledger_commitment_token (lr_prepared r)) (prepared_batch_key (lr_prepared r)) l0 = Inr l1"
    using lifecycle_Inr [OF assms(1)] by blast
  have "consumed_tokens l1 \<subseteq> consumed_tokens l2" using run_invariant [OF assms(3,2)] by blast
  then obtain e where "verify_and_consume_prepared_f1m (prepared_f1m_commitments (pr_f1m_operands p))
      (pr_ledger_commitment_token p) (prepared_batch_key p) l2 = Inl e"
    using cl.consume_once [OF c] unfolding assms(4) by blast
  then show ?thesis by (rule execute_refused)
qed

theorem executed_once_witness:
  "\<exists>q b r l'. execute_ordinary_query_lifecycle (\<lambda>_. 1) run_token q ''q1'' [5, 6] 97 empty_ledger = (Inr r, l') \<and>
     (\<exists>e. execute_ordinary_plaintext b (lr_prepared r) 97 l' = (Inl e, l'))"
proof -
  obtain q b where b: "bind_ordinary_execution q = Inr b" and q: "query_cols q = 2"
    using sample_bound by blast
  obtain r l' where r: "execute_ordinary_query_lifecycle (\<lambda>_. 1) run_token q ''q1'' [5, 6] 97 empty_ledger = (Inr r, l')"
    and ok: "ledger_ok l'"
    using sample_lifecycle [OF b q] by auto
  have "\<exists>e. execute_ordinary_plaintext b (lr_prepared r) 97 l' = (Inl e, l')"
    by (rule executed_once [OF r ok run_nil refl])
  then show ?thesis using r by blast
qed

text \<open>
  C40. A capability is claimed at most once: after a claim, successful or not, the capability is
  spent, and every further claim for whatever bundle and query raises and leaves it spent.
\<close>

theorem capability_claimed_once:
  "\<exists>e. claim_ordinary_execution b' p' (snd (claim_ordinary_execution b p c)) =
     (Inl e, snd (claim_ordinary_execution b p c)) \<and> cap_claimed (snd (claim_ordinary_execution b p c))"
  by (auto simp: claim_ordinary_execution_def take_binding_def sbind_def slift_def split: sum.splits)

end
