(* ===== verification/Strong_Execution.thy ===== *)
theory Strong_Execution
  imports Ordinary_Lifecycle
begin

text \<open>
  \<open>strong_execution.py\<close>: the whole-query lifecycle of the strong strategy. One base component
  and its segmented delta are compiled with a mask on every result; results without overlap
  carry an encrypted zero. The classes of prepared queries, operands, receipts and capabilities
  have the fields of their counterparts in \<open>ordinary_query_lifecycle.py\<close>, so the records of
  \<open>Ordinary_Lifecycle\<close> serve for both. The decoder of retained preparation bytes
  (\<open>json.loads\<close>) is not modelled.
\<close>

section \<open>Data\<close>

datatype strong_source_kind = BaseChunk | DeltaPage

record private_operand_spec =
  ps_value_ciphertext_id :: string
  ps_query_ciphertext_id :: string
  ps_source_kind :: strong_source_kind
  ps_source_ordinal :: nat
  ps_result_id :: string
  ps_spec_values :: "int list"
  ps_global_column_indices :: "int list"

record private_result_route =
  pr_route_result_id :: string
  pr_f1m_ciphertext_id :: string
  pr_component_id :: string
  pr_output_block_id :: string

definition output_share_id :: "private_result_route \<Rightarrow> string \<times> string" where
  "output_share_id r = (pr_component_id r, pr_output_block_id r)"

record f1m_operand_counts =
  random_zero_sum_ciphertexts :: int
  encrypted_zero_dummy_ciphertexts :: int
  random_elements :: int
  ciphertext_additions :: int

record strong_bundle =
  sb_base :: published_component
  sb_delta :: segmented_delta_state
  sb_cloud_plan :: cloud_execution_plan
  sb_output_plan :: output_plan
  sb_result_routes :: "private_result_route list"
  sb_value_operand_specs :: "private_operand_spec list"
  sb_cloud_program_digest :: string
  sb_output_plan_digest :: string
  sb_execution_binding_digest :: string
  sb_private_plan_digest :: string
  sb_cloud_counts :: cloud_plan_counts
  sb_output_analysis :: output_plan_analysis
  sb_f1m_counts :: f1m_operand_counts

definition strong_preparation_schema :: string where
  "strong_preparation_schema = ''dynamic-cssc-common-strong-query-preparation-v1''"

definition strong_authorization_schema :: string where
  "strong_authorization_schema = ''dynamic-cssc-common-strong-execution-authorization-v1''"

definition strong_receipt_document :: "authorization_receipt \<Rightarrow> json" where
  "strong_receipt_document r = JObj [
     (''authorization_transition_sha256'', JStr (ar_authorization_transition_sha256 r)),
     (''execution_binding_digest'', JStr (ar_execution_binding_digest r)),
     (''ledger_commitment_token'', JStr (ar_ledger_commitment_token r)),
     (''query_id'', JStr (ar_query_id r)),
     (''query_preparation_sha256'', JStr (ar_query_preparation_sha256 r)),
     (''schema_version'', JStr strong_authorization_schema),
     (''version_id'', JStr (ar_version_id r))]"

abbreviation se_error :: "string \<Rightarrow> 'a res" where
  "se_error m \<equiv> Inl (StrongExecutionError m)"

section \<open>The private plan\<close>

definition strong_source_string :: "strong_source_kind \<Rightarrow> string" where
  "strong_source_string k = (case k of BaseChunk \<Rightarrow> ''base-chunk'' | DeltaPage \<Rightarrow> ''delta-page'')"

definition strong_private_plan_payload ::
  "private_operand_spec list \<Rightarrow> private_result_route list \<Rightarrow> string \<Rightarrow> json"
where
  "strong_private_plan_payload specs routes digest = JObj [
     (''format'', JStr ''dynamic-cssc-private-strong-plan-v1''),
     (''operands'', JList (map (\<lambda>x. JObj [
        (''global_column_indices'', jints (ps_global_column_indices x)),
        (''query_ciphertext_id'', JStr (ps_query_ciphertext_id x)),
        (''result_id'', JStr (ps_result_id x)),
        (''source_kind'', JStr (strong_source_string (ps_source_kind x))),
        (''source_ordinal'', JInt (int (ps_source_ordinal x))),
        (''value_ciphertext_id'', JStr (ps_value_ciphertext_id x)),
        (''values'', jints (ps_spec_values x))]) specs)),
     (''output_plan_digest'', JStr digest),
     (''routes'', JList (map (\<lambda>r. JObj [
        (''component_id'', JStr (pr_component_id r)),
        (''f1m_ciphertext_id'', JStr (pr_f1m_ciphertext_id r)),
        (''output_block_id'', JStr (pr_output_block_id r)),
        (''result_id'', JStr (pr_route_result_id r))]) routes))]"

definition strong_private_plan_digest ::
  "private_operand_spec list \<Rightarrow> private_result_route list \<Rightarrow> string \<Rightarrow> string"
where
  "strong_private_plan_digest specs routes digest =
     sha256_hex (dumps True (strong_private_plan_payload specs routes digest))"

section \<open>Compilation\<close>

definition strong_message :: "string \<Rightarrow> string" where
  "strong_message m =
     (if m = ''PublishedComponent is invalid'' then ''base PublishedComponent is invalid''
      else if m = ''active source coordinates must not overlap'' then
        ''active base and delta coordinates must be disjoint''
      else m)"

definition strong_source_of :: "operand_source_kind \<Rightarrow> strong_source_kind res" where
  "strong_source_of k = (case k of PublishedChunk \<Rightarrow> Inr BaseChunk
     | SegmentedDeltaPage \<Rightarrow> Inr DeltaPage | ClientLaneSegment \<Rightarrow> Inl KeyError)"

definition strong_spec_of :: "operand_spec \<Rightarrow> private_operand_spec res" where
  "strong_spec_of x = rbind (strong_source_of (source_kind x)) (\<lambda>k. Inr
     \<lparr>ps_value_ciphertext_id = value_ciphertext_id x, ps_query_ciphertext_id = query_ciphertext_id x,
      ps_source_kind = k, ps_source_ordinal = source_ordinal x, ps_result_id = spec_result_id x,
      ps_spec_values = spec_values x, ps_global_column_indices = spec_columns x\<rparr>)"

definition strong_route_of :: "result_route \<Rightarrow> private_result_route list" where
  "strong_route_of r = (case f1m_ciphertext_id r of None \<Rightarrow> []
     | Some i \<Rightarrow> [\<lparr>pr_route_result_id = rr_result_id r, pr_f1m_ciphertext_id = i,
         pr_component_id = rr_component_id r, pr_output_block_id = rr_output_block_id r\<rparr>])"

definition strong_compiled ::
  "published_component \<Rightarrow> segmented_delta_state \<Rightarrow> compiled_query res"
where
  "strong_compiled base delta =
     (case compile_query [base] (Some delta) [] UniformRandomOrZero of
        Inl (QueryCompilerError m) \<Rightarrow> se_error (strong_message m)
      | r \<Rightarrow> r)"

definition compile_strong_execution ::
  "published_component \<Rightarrow> segmented_delta_state \<Rightarrow> strong_bundle res"
where
  "compile_strong_execution base delta =
     rbind (strong_compiled base delta) (\<lambda>q.
     rbind (rmap strong_spec_of (operand_specs q)) (\<lambda>specs.
     let routes = concat (map strong_route_of (result_routes q));
         random = masked_result_ciphertexts (output_analysis q) in
     if length routes \<noteq> length (result_routes q) then
       Inl (AssertionError ''the strong adapter requires uniform F1M operands'')
     else Inr
       \<lparr>sb_base = base, sb_delta = delta, sb_cloud_plan = cloud_plan q,
        sb_output_plan = cq_output_plan q, sb_result_routes = routes,
        sb_value_operand_specs = specs, sb_cloud_program_digest = cq_cloud_program_digest q,
        sb_output_plan_digest = cq_output_plan_digest q,
        sb_execution_binding_digest = cq_execution_binding_digest q,
        sb_private_plan_digest = strong_private_plan_digest specs routes (cq_output_plan_digest q),
        sb_cloud_counts = cloud_counts q, sb_output_analysis = output_analysis q,
        sb_f1m_counts = \<lparr>random_zero_sum_ciphertexts = random,
          encrypted_zero_dummy_ciphertexts = int (length routes) - random,
          random_elements = mask_random_elements (output_analysis q),
          ciphertext_additions = n_add_f1m_masks (cloud_counts q)\<rparr>\<rparr>))"

definition validate_strong_bundle :: "strong_bundle \<Rightarrow> unit res" where
  "validate_strong_bundle b =
     rbind (compile_strong_execution (sb_base b) (sb_delta b)) (\<lambda>expected.
     if b \<noteq> expected then
       se_error ''bundle does not match its deterministically derived plans''
     else Inr ())"

definition canonical_private_plan_payload :: "strong_bundle \<Rightarrow> json res" where
  "canonical_private_plan_payload b =
     rbind (validate_strong_bundle b) (\<lambda>_. Inr (strong_private_plan_payload
       (sb_value_operand_specs b) (sb_result_routes b) (sb_output_plan_digest b)))"

section \<open>Preparation\<close>

definition strong_validated_vector :: "int list \<Rightarrow> int \<Rightarrow> int list res" where
  "strong_validated_vector v len =
     (if int (length v) \<noteq> len
      then se_error (''vector must be a tuple of length '' @ json_int len) else Inr v)"

definition strong_query_operands ::
  "private_operand_spec list \<Rightarrow> int list \<Rightarrow> prepared_query_operand list"
where
  "strong_query_operands specs x = map (\<lambda>spec.
     \<lparr>pq_ciphertext_id = ps_query_ciphertext_id spec,
      pq_values = map (\<lambda>c. if c \<ge> 0 then x ! nat c else 0) (ps_global_column_indices spec)\<rparr>) specs"

definition strong_f1m_operand ::
  "strong_bundle \<Rightarrow> string \<Rightarrow> (string \<times> string, prepared_mask) dict \<Rightarrow> private_result_route \<Rightarrow>
     prepared_f1m_operand"
where
  "strong_f1m_operand b query_id random_by_share r =
     (let mask = map_of random_by_share (output_share_id r) in
      \<lparr>po_ciphertext_id = pr_f1m_ciphertext_id r, po_result_id = pr_route_result_id r,
       po_kind = (if mask \<noteq> None then RandomZeroSum else EncryptedZeroDummy),
       po_query_id = query_id, po_version_id = version_id (sb_base b),
       po_output_plan_digest = sb_output_plan_digest b, po_component_id = pr_component_id r,
       po_output_block_id = pr_output_block_id r,
       po_values = (case mask of Some m \<Rightarrow> pm_values m
         | None \<Rightarrow> replicate (nat (op_slot_count (sb_output_plan b))) 0)\<rparr>)"

definition strong_batch_key :: "strong_bundle \<Rightarrow> string \<Rightarrow> int \<Rightarrow> batch_key" where
  "strong_batch_key b query_id modulus =
     \<lparr>bk_query_id = query_id, bk_version_id = version_id (sb_base b),
      bk_output_plan_digest = sb_output_plan_digest b,
      bk_private_plan_digest = sb_private_plan_digest b,
      bk_execution_binding_digest = sb_execution_binding_digest b, bk_modulus = modulus\<rparr>"

definition prepare_strong_for_validated_bundle ::
  "(nat \<Rightarrow> int) \<Rightarrow> string \<Rightarrow> strong_bundle \<Rightarrow> string \<Rightarrow> int list \<Rightarrow> int \<Rightarrow>
     (ledger, prepared_query) action"
where
  "prepare_strong_for_validated_bundle rng token b query_id vector modulus =
     sbind (slift (strong_validated_vector vector (ls_cols (layout_spec (sb_base b))))) (\<lambda>dense.
     if modulus < 2 then
       slift (se_error ''modulus must be a strict integer of at least two'')
     else
     sbind (prepare_f1m_masks rng reserve_all (sb_output_plan b) query_id (version_id (sb_base b)) modulus)
       (\<lambda>masks.
     let queries = strong_query_operands (sb_value_operand_specs b) dense;
         f1m = map (strong_f1m_operand b query_id (masks_by_share masks)) (sb_result_routes b) in
     sbind (transact (commit_prepared_f1m token (prepared_f1m_commitments f1m)
              (strong_batch_key b query_id modulus))) (\<lambda>issued.
     slift (Inr
       \<lparr>pr_query_id = query_id, pr_version_id = version_id (sb_base b), pr_modulus = modulus,
        pr_vector = dense, pr_cloud_program_digest = sb_cloud_program_digest b,
        pr_output_plan_digest = sb_output_plan_digest b,
        pr_execution_binding_digest = sb_execution_binding_digest b,
        pr_private_plan_digest = sb_private_plan_digest b, pr_ledger_commitment_token = issued,
        pr_query_operands = queries, pr_f1m_operands = f1m\<rparr>))))"

section \<open>Validation of a prepared query\<close>

definition strong_binding_ok :: "strong_bundle \<Rightarrow> prepared_query \<Rightarrow> bool" where
  "strong_binding_ok b p \<longleftrightarrow>
     pr_version_id p = version_id (sb_base b) \<and>
     pr_cloud_program_digest p = sb_cloud_program_digest b \<and>
     pr_output_plan_digest p = sb_output_plan_digest b \<and>
     pr_execution_binding_digest p = sb_execution_binding_digest b \<and>
     pr_private_plan_digest p = sb_private_plan_digest b \<and>
     pr_query_id p \<noteq> [] \<and> pr_version_id p \<noteq> [] \<and>
     valid_sha256 (pr_ledger_commitment_token p) \<and> 2 \<le> pr_modulus p"

definition strong_operand_ok ::
  "strong_bundle \<Rightarrow> prepared_query \<Rightarrow> private_result_route \<Rightarrow> output_share \<Rightarrow> prepared_f1m_operand \<Rightarrow> bool"
where
  "strong_operand_ok b p r s w \<longleftrightarrow>
     po_ciphertext_id w = pr_f1m_ciphertext_id r \<and> po_result_id w = pr_route_result_id r \<and>
     po_kind w = (if \<exists>(_, row) \<in> set (slot_to_logical s). row \<in> set (overlap_rows (sb_output_plan b))
                  then RandomZeroSum else EncryptedZeroDummy) \<and>
     po_query_id w = pr_query_id p \<and> po_version_id w = version_id (sb_base b) \<and>
     po_output_plan_digest w = sb_output_plan_digest b \<and> po_share_id w = output_share_id r \<and>
     int (length (po_values w)) = op_slot_count (sb_output_plan b) \<and>
     (\<forall>v \<in> set (po_values w). 0 \<le> v \<and> v < pr_modulus p)"

definition strong_lanes_ok :: "strong_bundle \<Rightarrow> output_share \<Rightarrow> prepared_f1m_operand \<Rightarrow> bool" where
  "strong_lanes_ok b s w \<longleftrightarrow>
     (\<forall>(lane, v) \<in> set (py_enumerate (po_values w)). v \<noteq> 0 \<longrightarrow>
        (\<exists>(l, row) \<in> set (slot_to_logical s). l = lane \<and> row \<in> set (overlap_rows (sb_output_plan b))))"

definition check_strong_operand ::
  "strong_bundle \<Rightarrow> prepared_query \<Rightarrow> (string \<times> string, int list) dict \<Rightarrow>
     prepared_f1m_operand \<times> private_result_route \<Rightarrow> (string \<times> string, int list) dict res"
where
  "check_strong_operand b p vals = (\<lambda>(w, r).
     case map_of (dict_of (map (\<lambda>s. (share_id s, s)) (shares (sb_output_plan b)))) (output_share_id r) of
       None \<Rightarrow> Inl KeyError
     | Some s \<Rightarrow>
         if \<not> strong_operand_ok b p r s w then
           se_error ''prepared F1-M operand does not match its result binding''
         else if po_kind w = EncryptedZeroDummy \<and> (\<exists>v \<in> set (po_values w). v \<noteq> 0) then
           se_error ''encrypted-zero dummy F1-M operand must be exactly zero''
         else if \<not> strong_lanes_ok b s w then
           se_error ''random F1-M values may occupy only overlapping lanes''
         else Inr (AList.update (output_share_id r) (po_values w) vals))"

definition check_strong_cancellation ::
  "output_plan \<Rightarrow> prepared_query \<Rightarrow> (string \<times> string, int list) dict \<Rightarrow> int \<Rightarrow> unit res"
where
  "check_strong_cancellation plan p vals logical =
     rbind (rfold (\<lambda>acc (i, lane). case map_of vals i of None \<Rightarrow> Inl KeyError
        | Some v \<Rightarrow> Inr (acc + v ! nat lane)) 0 (overlap_lanes plan logical)) (\<lambda>acc.
     if acc mod pr_modulus p \<noteq> 0 then
       se_error ''random F1-M values must sum to zero per coordinate''
     else Inr ())"

definition validate_strong_prepared :: "strong_bundle \<Rightarrow> prepared_query \<Rightarrow> unit res" where
  "validate_strong_prepared b p =
     (if \<not> strong_binding_ok b p then
        se_error ''prepared query does not match the execution bundle binding''
      else
      rbind (strong_validated_vector (pr_vector p) (ls_cols (layout_spec (sb_base b)))) (\<lambda>dense.
      if pr_query_operands p \<noteq> strong_query_operands (sb_value_operand_specs b) dense then
        se_error ''prepared query operands do not match private global CI''
      else if length (pr_f1m_operands p) \<noteq> length (sb_result_routes b) then
        se_error ''prepared query must contain one F1-M operand per result''
      else
      rbind (rfold (check_strong_operand b p) [] (zip (pr_f1m_operands p) (sb_result_routes b)))
        (\<lambda>vals. rfold (\<lambda>_ row. check_strong_cancellation (sb_output_plan b) p vals row) ()
           (overlap_rows (sb_output_plan b)))))"

definition prepare_strong_query ::
  "(nat \<Rightarrow> int) \<Rightarrow> string \<Rightarrow> strong_bundle \<Rightarrow> string \<Rightarrow> int list \<Rightarrow> int \<Rightarrow>
     (ledger, prepared_query) action"
where
  "prepare_strong_query rng token b query_id vector modulus =
     sbind (slift (validate_strong_bundle b)) (\<lambda>_.
     sbind (prepare_strong_for_validated_bundle rng token b query_id vector modulus) (\<lambda>p.
     sbind (slift (validate_strong_prepared b p)) (\<lambda>_. slift (Inr p))))"

section \<open>Serialization\<close>

definition strong_preparation_payload :: "prepared_query \<Rightarrow> json" where
  "strong_preparation_payload p = JObj [
     (''bindings'', JObj [
        (''cloud_program_digest'', JStr (pr_cloud_program_digest p)),
        (''execution_binding_digest'', JStr (pr_execution_binding_digest p)),
        (''output_plan_digest'', JStr (pr_output_plan_digest p)),
        (''private_plan_digest'', JStr (pr_private_plan_digest p))]),
     (''f1m_operands'', JList (map (\<lambda>w. JObj [
        (''ciphertext_id'', JStr (po_ciphertext_id w)),
        (''component_id'', JStr (po_component_id w)),
        (''kind'', JStr (kind_string (po_kind w))),
        (''output_block_id'', JStr (po_output_block_id w)),
        (''result_id'', JStr (po_result_id w)),
        (''values'', jints (po_values w))]) (pr_f1m_operands p))),
     (''format'', JStr strong_preparation_schema),
     (''ledger_commitment_token'', JStr (pr_ledger_commitment_token p)),
     (''modulus'', JInt (pr_modulus p)),
     (''query_id'', JStr (pr_query_id p)),
     (''query_operands'', JList (map (\<lambda>w. JObj [
        (''ciphertext_id'', JStr (pq_ciphertext_id w)),
        (''values'', jints (pq_values w))]) (pr_query_operands p))),
     (''version_id'', JStr (pr_version_id p))]"

definition strong_preparation_bytes :: "prepared_query \<Rightarrow> string" where
  "strong_preparation_bytes p = dumps True (strong_preparation_payload p)"

definition canonical_strong_query_preparation_bytes ::
  "strong_bundle \<Rightarrow> prepared_query \<Rightarrow> string res"
where
  "canonical_strong_query_preparation_bytes b p =
     rbind (validate_strong_bundle b) (\<lambda>_. rbind (validate_strong_prepared b p) (\<lambda>_.
     Inr (strong_preparation_bytes p)))"

section \<open>Authorization\<close>

text \<open>The arguments of the ledger calls: the digests are the bundle's, the rest the query's.\<close>

definition strong_prepared_key :: "strong_bundle \<Rightarrow> prepared_query \<Rightarrow> batch_key" where
  "strong_prepared_key b p =
     \<lparr>bk_query_id = pr_query_id p, bk_version_id = pr_version_id p,
      bk_output_plan_digest = pr_output_plan_digest p,
      bk_private_plan_digest = sb_private_plan_digest b,
      bk_execution_binding_digest = sb_execution_binding_digest b, bk_modulus = pr_modulus p\<rparr>"

definition strong_authorization_transition :: "prepared_query \<Rightarrow> string \<Rightarrow> json" where
  "strong_authorization_transition p preparation_sha256 = JObj [
     (''execution_binding_digest'', JStr (pr_execution_binding_digest p)),
     (''ledger_commitment_token'', JStr (pr_ledger_commitment_token p)),
     (''query_id'', JStr (pr_query_id p)),
     (''query_preparation_sha256'', JStr preparation_sha256),
     (''schema_version'', JStr strong_authorization_schema),
     (''transition'', JStr ''prepared-to-consumed''),
     (''version_id'', JStr (pr_version_id p))]"

definition consume_strong_query :: "strong_bundle \<Rightarrow> prepared_query \<Rightarrow> (ledger, unit) action" where
  "consume_strong_query b p =
     transact_unit (verify_and_consume_prepared_f1m (prepared_f1m_commitments (pr_f1m_operands p))
       (pr_ledger_commitment_token p) (strong_prepared_key b p))"

definition authorize_strong_execution ::
  "strong_bundle \<Rightarrow> prepared_query \<Rightarrow> (ledger, execution_capability) action"
where
  "authorize_strong_execution b p =
     sbind (slift (validate_strong_bundle b)) (\<lambda>_.
     sbind (slift (validate_strong_prepared b p)) (\<lambda>_.
     sbind (slift (canonical_strong_query_preparation_bytes b p)) (\<lambda>bytes.
     let preparation_sha256 = sha256_hex bytes in
     sbind (srewrap is_caught (StrongExecutionError ''strong F1-M commitment consumption failed'')
       (consume_strong_query b p)) (\<lambda>_.
     slift (Inr \<lparr>cap_binding =
       \<lparr>ar_query_id = pr_query_id p, ar_version_id = pr_version_id p,
        ar_ledger_commitment_token = pr_ledger_commitment_token p,
        ar_query_preparation_sha256 = preparation_sha256,
        ar_execution_binding_digest = pr_execution_binding_digest p,
        ar_authorization_transition_sha256 =
          sha256_hex (dumps True (strong_authorization_transition p preparation_sha256))\<rparr>,
       cap_claimed = False\<rparr>)))))"

definition take_strong_binding :: "(execution_capability, authorization_receipt) action" where
  "take_strong_binding c =
     (if cap_claimed c then
        (se_error ''strong execution capability is absent or consumed'', c)
      else (Inr (cap_binding c), c\<lparr>cap_claimed := True\<rparr>))"

definition verify_strong_binding ::
  "authorization_receipt \<Rightarrow> prepared_query \<Rightarrow> string \<Rightarrow> authorization_receipt res"
where
  "verify_strong_binding r p bytes =
     (if ar_query_id r \<noteq> pr_query_id p \<or> ar_version_id r \<noteq> pr_version_id p \<or>
         ar_ledger_commitment_token r \<noteq> pr_ledger_commitment_token p \<or>
         ar_query_preparation_sha256 r \<noteq> sha256_hex bytes \<or>
         ar_execution_binding_digest r \<noteq> pr_execution_binding_digest p
      then se_error ''strong execution capability differs from its prepared query''
      else Inr r)"

definition claim_strong_execution ::
  "strong_bundle \<Rightarrow> prepared_query \<Rightarrow> (execution_capability, authorization_receipt) action"
where
  "claim_strong_execution b p =
     sbind take_strong_binding (\<lambda>r.
     sbind (slift (validate_strong_bundle b)) (\<lambda>_.
     sbind (slift (validate_strong_prepared b p)) (\<lambda>_.
     sbind (slift (canonical_strong_query_preparation_bytes b p)) (\<lambda>bytes.
     slift (verify_strong_binding r p bytes)))))"

section \<open>Execution\<close>

definition strong_ciphertext_inputs ::
  "strong_bundle \<Rightarrow> prepared_query \<Rightarrow> (string, int list) dict"
where
  "strong_ciphertext_inputs b p = dict_of
     (map (\<lambda>spec. (ps_value_ciphertext_id spec, ps_spec_values spec)) (sb_value_operand_specs b) @
      map (\<lambda>w. (pq_ciphertext_id w, pq_values w)) (pr_query_operands p) @
      map (\<lambda>w. (po_ciphertext_id w, po_values w)) (pr_f1m_operands p))"

definition strong_returned_share ::
  "results \<Rightarrow> private_result_route \<Rightarrow> ((string \<times> string) \<times> int list) res"
where
  "strong_returned_share returned r = (case map_of returned (pr_route_result_id r) of
     None \<Rightarrow> Inl KeyError | Some v \<Rightarrow> Inr (output_share_id r, v))"

definition execute_strong_for_validated_query ::
  "strong_bundle \<Rightarrow> prepared_query \<Rightarrow> int \<Rightarrow> int list res"
where
  "execute_strong_for_validated_query b p modulus =
     rbind (execute_validated_cloud_plan (sb_cloud_plan b) (strong_ciphertext_inputs b p)
         (dict_of (map (\<lambda>m. (mask_id m, mask_values m)) (plaintext_masks (program (sb_cloud_plan b)))))
         modulus) (\<lambda>returned.
     rbind (rmap (strong_returned_share returned) (sb_result_routes b)) (\<lambda>items.
     reconstruct_output (sb_output_plan b) (dict_of items) modulus))"

definition strong_modulus_ok :: "prepared_query \<Rightarrow> int \<Rightarrow> bool" where
  "strong_modulus_ok p modulus \<longleftrightarrow> 2 \<le> modulus \<and> modulus = pr_modulus p"

definition execute_strong_plaintext ::
  "strong_bundle \<Rightarrow> prepared_query \<Rightarrow> int \<Rightarrow> (ledger, int list) action"
where
  "execute_strong_plaintext b p modulus =
     sbind (slift (validate_strong_bundle b)) (\<lambda>_.
     if \<not> strong_modulus_ok p modulus then
       slift (se_error ''execution modulus must match the prepared query modulus'')
     else
     sbind (slift (validate_strong_prepared b p)) (\<lambda>_.
     sbind (consume_strong_query b p) (\<lambda>_.
     slift (execute_strong_for_validated_query b p modulus))))"

definition execute_strong_query_lifecycle ::
  "(nat \<Rightarrow> int) \<Rightarrow> string \<Rightarrow> strong_bundle \<Rightarrow> string \<Rightarrow> int list \<Rightarrow> int \<Rightarrow>
     (ledger, lifecycle_result) action"
where
  "execute_strong_query_lifecycle rng token b query_id vector modulus =
     sbind (slift (validate_strong_bundle b)) (\<lambda>_.
     sbind (prepare_strong_for_validated_bundle rng token b query_id vector modulus) (\<lambda>p.
     sbind (consume_strong_query b p) (\<lambda>_.
     sbind (slift (execute_strong_for_validated_query b p modulus)) (\<lambda>output.
     slift (Inr \<lparr>lr_prepared = p, lr_preparation_bytes = strong_preparation_bytes p,
       lr_output = output\<rparr>)))))"

section \<open>Replay\<close>

definition verify_strong_query :: "strong_bundle \<Rightarrow> prepared_query \<Rightarrow> ledger \<Rightarrow> unit res" where
  "verify_strong_query b p l =
     rewrap is_caught (StrongExecutionError ''strong read-only replay ledger verification failed'')
       (verify_consumed_prepared_f1m (prepared_f1m_commitments (pr_f1m_operands p))
          (pr_ledger_commitment_token p) (strong_prepared_key b p) l)"

definition replay_strong_plaintext_read_only ::
  "strong_bundle \<Rightarrow> prepared_query \<Rightarrow> int \<Rightarrow> ledger \<Rightarrow> int list res"
where
  "replay_strong_plaintext_read_only b p modulus l =
     rbind (validate_strong_bundle b) (\<lambda>_.
     if \<not> strong_modulus_ok p modulus then
       se_error ''replay modulus must match the prepared query modulus''
     else
     rbind (validate_strong_prepared b p) (\<lambda>_.
     rbind (verify_strong_query b p l) (\<lambda>_.
     execute_strong_for_validated_query b p modulus)))"

end
