(* ===== verification/Strong_Correct.thy ===== *)
theory Strong_Correct
  imports Strong_Execution Lifecycle_Total
begin

text \<open>
  The strong lifecycle against the compiled query: a bundle is the compilation of its base and
  delta with a mask on every route, a prepared query carries the mask of each share - zero where
  rows do not overlap - and the execution is the one of the ordinary lifecycle. So its output is
  the product of the matrix of base and delta.
\<close>

section \<open>The bundle\<close>

definition private_route :: "result_route \<Rightarrow> private_result_route" where
  "private_route r = \<lparr>pr_route_result_id = rr_result_id r, pr_f1m_ciphertext_id = the (f1m_ciphertext_id r),
     pr_component_id = rr_component_id r, pr_output_block_id = rr_output_block_id r\<rparr>"

lemma strong_routes:
  "length (concat (map strong_route_of rs)) = length rs \<Longrightarrow>
     concat (map strong_route_of rs) = map private_route rs \<and> (\<forall>r \<in> set rs. f1m_ciphertext_id r \<noteq> None)"
proof (induction rs)
  case (Cons r rs)
  have "length (concat (map strong_route_of rs)) \<le> length rs" for rs
    by (induction rs) (auto simp: strong_route_of_def split: option.split)
  note le = this [of rs]
  have "strong_route_of r \<noteq> []" using Cons.prems le by auto
  then have "f1m_ciphertext_id r \<noteq> None"
    by (cases "f1m_ciphertext_id r") (simp_all add: strong_route_of_def)
  then show ?case using Cons by (auto simp: strong_route_of_def private_route_def)
qed simp

definition strong_of :: "strong_bundle \<Rightarrow> compiled_query \<Rightarrow> bool" where
  "strong_of b q \<longleftrightarrow>
     compile_query [sb_base b] (Some (sb_delta b)) [] UniformRandomOrZero = Inr q \<and>
     sb_cloud_plan b = cloud_plan q \<and> sb_output_plan b = cq_output_plan q \<and>
     sb_result_routes b = map private_route (result_routes q) \<and>
     (\<forall>r \<in> set (result_routes q). f1m_ciphertext_id r \<noteq> None) \<and>
     rmap strong_spec_of (operand_specs q) = Inr (sb_value_operand_specs b) \<and>
     sb_output_plan_digest b = cq_output_plan_digest q \<and>
     sb_execution_binding_digest b = cq_execution_binding_digest q \<and>
     valid_sha256 (sb_private_plan_digest b)"

lemma compile_strong_execution_Inr:
  assumes "compile_strong_execution base delta = Inr b"
  shows "sb_base b = base \<and> sb_delta b = delta \<and> (\<exists>q. strong_of b q)"
proof -
  obtain q specs where q: "strong_compiled base delta = Inr q" and
    specs: "rmap strong_spec_of (operand_specs q) = Inr specs" and
    len: "length (concat (map strong_route_of (result_routes q))) = length (result_routes q)" and
    b: "b = \<lparr>sb_base = base, sb_delta = delta, sb_cloud_plan = cloud_plan q,
        sb_output_plan = cq_output_plan q, sb_result_routes = concat (map strong_route_of (result_routes q)),
        sb_value_operand_specs = specs, sb_cloud_program_digest = cq_cloud_program_digest q,
        sb_output_plan_digest = cq_output_plan_digest q,
        sb_execution_binding_digest = cq_execution_binding_digest q,
        sb_private_plan_digest = strong_private_plan_digest specs (concat (map strong_route_of (result_routes q)))
          (cq_output_plan_digest q),
        sb_cloud_counts = cloud_counts q, sb_output_analysis = output_analysis q,
        sb_f1m_counts = sb_f1m_counts b\<rparr>"
    using assms
    by (auto simp: compile_strong_execution_def rbind_eq_Inr Let_def split: if_splits)
  have "compile_query [base] (Some delta) [] UniformRandomOrZero = Inr q"
    using q by (auto simp: strong_compiled_def split: sum.splits py_exc.splits)
  then have "strong_of b q"
    using specs strong_routes [OF len] by (subst b) (auto simp: strong_of_def strong_private_plan_digest_def)
  then show ?thesis by (subst b, subst (2) b) auto
qed

lemma validate_strong_bundle_Inr:
  assumes "validate_strong_bundle b = Inr ()"
  obtains q where "strong_of b q"
proof -
  obtain e where "compile_strong_execution (sb_base b) (sb_delta b) = Inr e" "\<not> b \<noteq> e"
    using assms unfolding validate_strong_bundle_def by (elim rbind_InrE) (auto dest: if_Inl_InrD)
  then show thesis using compile_strong_execution_Inr that by blast
qed

lemma strong_query:
  assumes "strong_of b q"
  shows "\<exists>n s extra. compiled_from q (int n) s extra" "cq_components q = [sb_base b]"
    "segmented_delta q = Some (sb_delta b)" "client_lane_segments q = []" "masked_routes q = result_routes q"
proof -
  have c: "compile_query [sb_base b] (Some (sb_delta b)) [] UniformRandomOrZero = Inr q"
    using assms by (simp add: strong_of_def)
  note C = compile_query_Inr [OF c]
  from C(1) obtain s extra where s: "compiled_from q (ls_effective_slots (layout_spec (hd (cq_components q)))) s extra"
    by blast
  from query_slots_pos [OF this] obtain n where "ls_effective_slots (layout_spec (hd (cq_components q))) = int n"
    by (metis nonneg_int_cases order_less_imp_le)
  then show "\<exists>n s extra. compiled_from q (int n) s extra" using s by auto
  show "segmented_delta q = Some (sb_delta b)" by (fact C(2))
  show "cq_components q = [sb_base b]" "client_lane_segments q = []"
    using C(4) by (auto simp: validated_sources_def rbind_eq_Inr Let_def split: if_splits)
  show "masked_routes q = result_routes q"
    using assms by (simp add: strong_of_def masked_routes_def filter_id_conv)
qed

section \<open>Execution\<close>

lemma rmap_map: "rmap f (map g xs) = rmap (\<lambda>x. f (g x)) xs"
  by (induction xs) simp_all

lemma strong_spec_fields:
  assumes "rmap strong_spec_of xs = Inr ys"
  shows "map (\<lambda>y. (ps_value_ciphertext_id y, ps_spec_values y)) ys = map (\<lambda>x. (value_ciphertext_id x, spec_values x)) xs"
    and "map (\<lambda>y. (ps_query_ciphertext_id y, ps_global_column_indices y)) ys =
      map (\<lambda>x. (query_ciphertext_id x, spec_columns x)) xs"
  using assms by (induction xs arbitrary: ys) (auto simp: rbind_eq_Inr strong_spec_of_def)

lemma strong_query_operands_eq:
  assumes "strong_of b q"
  shows "strong_query_operands (sb_value_operand_specs b) x = query_operands_of q x"
proof -
  define f where "f = (\<lambda>(i :: string, cs). \<lparr>pq_ciphertext_id = i, pq_values = map (\<lambda>c. if c \<ge> 0 then x ! nat c else 0) cs\<rparr>)"
  have "strong_query_operands (sb_value_operand_specs b) x =
      map f (map (\<lambda>y. (ps_query_ciphertext_id y, ps_global_column_indices y)) (sb_value_operand_specs b))"
    by (simp add: strong_query_operands_def f_def)
  also have "\<dots> = map f (map (\<lambda>x. (query_ciphertext_id x, spec_columns x)) (operand_specs q))"
    using assms by (subst strong_spec_fields(2)) (auto simp: strong_of_def)
  finally show ?thesis by (simp add: query_operands_of_def f_def)
qed

lemma execute_strong_run:
  assumes "strong_of b q"
  shows "execute_strong_for_validated_query b p t = run_query q p t"
proof -
  have i: "strong_ciphertext_inputs b p = ciphertext_inputs_of q p"
    unfolding strong_ciphertext_inputs_def ciphertext_inputs_of_def
    using assms by (subst strong_spec_fields(1)) (auto simp: strong_of_def)
  have "strong_returned_share out (private_route r) = returned_share out r" for out r
    by (simp add: strong_returned_share_def returned_share_def private_route_def output_share_id_def split: option.split)
  then have "rmap (strong_returned_share out) (sb_result_routes b) = rmap (returned_share out) (result_routes q)" for out
    using assms by (simp add: strong_of_def rmap_map)
  then show ?thesis
    using assms by (simp add: execute_strong_for_validated_query_def run_query_def i strong_of_def)
qed

section \<open>Preparation\<close>

definition strong_prepared_for ::
  "strong_bundle \<Rightarrow> compiled_query \<Rightarrow> string \<Rightarrow> int list \<Rightarrow> int \<Rightarrow> prepared_mask list \<Rightarrow> string \<Rightarrow> prepared_query \<Rightarrow> bool"
where
  "strong_prepared_for b q query_id x t ms issued p \<longleftrightarrow>
     p = \<lparr>pr_query_id = query_id, pr_version_id = version_id (sb_base b), pr_modulus = t,
        pr_vector = x, pr_cloud_program_digest = sb_cloud_program_digest b,
        pr_output_plan_digest = sb_output_plan_digest b,
        pr_execution_binding_digest = sb_execution_binding_digest b,
        pr_private_plan_digest = sb_private_plan_digest b, pr_ledger_commitment_token = issued,
        pr_query_operands = query_operands_of q x,
        pr_f1m_operands = map (\<lambda>r. strong_f1m_operand b query_id (masks_by_share ms) (private_route r)) (result_routes q)\<rparr>"

lemma strong_operand_value:
  assumes b: "strong_of b q" and m: "masks_ok (cq_output_plan q) t ms" and r: "r \<in> set (result_routes q)"
  shows "route_value q ms r (strong_f1m_operand b query_id (masks_by_share ms) (private_route r))"
proof -
  let ?m = "map_of (masks_by_share ms) (route_share_id r)"
  have eq: "map_option pm_values ?m = map_of (masks_dict ms) (route_share_id r)"
    by (rule masks_by_share_eq [OF masks_dict_distinct [OF m]])
  have "f1m_ciphertext_id r \<noteq> None" "sb_output_plan b = cq_output_plan q"
    using b r by (simp_all add: strong_of_def)
  then show ?thesis
    using eq mask_value_length [OF m, of "route_share_id r"]
    by (cases ?m)
      (auto simp: route_value_def strong_f1m_operand_def Let_def private_route_def output_share_id_def lane_value_def
        split: option.split)
qed

lemma prepare_strong_Inr:
  assumes b: "strong_of b q"
    and run: "prepare_strong_for_validated_bundle rng token b query_id x t l = (Inr p, l')"
  shows "\<exists>ms l1 issued. prepare_f1m_masks rng reserve_all (cq_output_plan q) query_id (version_id (sb_base b)) t l =
      (Inr ms, l1) \<and> strong_prepared_for b q query_id x t ms issued p \<and> operands_for q x t ms p \<and>
    commit_prepared_f1m token (prepared_f1m_commitments (pr_f1m_operands p)) (strong_batch_key b query_id t) l1 =
      Inr (issued, l')"
proof -
  have f: "sb_output_plan b = cq_output_plan q" "sb_result_routes b = map private_route (result_routes q)"
    using b by (simp_all add: strong_of_def)
  obtain ms l1 issued where
    len: "int (length x) = ls_cols (layout_spec (sb_base b))" and t: "2 \<le> t" and
    ms: "prepare_f1m_masks rng reserve_all (cq_output_plan q) query_id (version_id (sb_base b)) t l = (Inr ms, l1)" and
    commit: "commit_prepared_f1m token (prepared_f1m_commitments (pr_f1m_operands p)) (strong_batch_key b query_id t) l1 =
      Inr (issued, l')" and
    p: "strong_prepared_for b q query_id x t ms issued p"
    using run
    by (auto simp: prepare_strong_for_validated_bundle_def Let_def sbind_Inr strong_validated_vector_def f
        strong_prepared_for_def strong_query_operands_eq [OF b] comp_def split: if_split_asm)
  note M = prepare_f1m_masks_Inr [OF ms] and S = strong_query [OF b]
  obtain n s extra where q: "compiled_from q (int n) s extra" using S(1) by blast
  have parts: "validate_compiled_parts q = Inr ()" using q by (simp add: compiled_from_def)
  have "overlap_ids (cq_output_plan q) \<subseteq> share_id ` set (shares (cq_output_plan q))"
    unfolding overlap_ids_of_shares by blast
  also have "\<dots> = (\<lambda>r. route_share_id r) ` set (result_routes q)" using validate_compiled_parts_Inr(3) [OF parts] by simp
  finally have "fst ` set (masks_dict ms) \<subseteq> (\<lambda>r. route_share_id r) ` set (masked_routes q)"
    using M(6) by (simp add: masks_dict_def image_image S(5))
  moreover have "list_all2 (route_value q ms) (result_routes q) (pr_f1m_operands p)"
    using p strong_operand_value [OF b M(3)] by (simp add: strong_prepared_for_def list_all2_map2 list_all2_same)
  ultimately have "operands_for q x t ms p"
    using len t M(3) p unfolding operands_for_def S(5)
    by (simp add: query_cols_def S(2) strong_prepared_for_def)
  then show ?thesis using ms commit p by blast
qed

section \<open>The lifecycle\<close>

lemma strong_lifecycle_Inr:
  assumes "execute_strong_query_lifecycle rng token b query_id x t l = (Inr r, l')"
  shows "\<exists>l1. validate_strong_bundle b = Inr () \<and>
    prepare_strong_for_validated_bundle rng token b query_id x t l = (Inr (lr_prepared r), l1) \<and>
    verify_and_consume_prepared_f1m (prepared_f1m_commitments (pr_f1m_operands (lr_prepared r)))
      (pr_ledger_commitment_token (lr_prepared r)) (strong_prepared_key b (lr_prepared r)) l1 = Inr l' \<and>
    execute_strong_for_validated_query b (lr_prepared r) t = Inr (lr_output r)"
  using assms
  by (auto simp: execute_strong_query_lifecycle_def consume_strong_query_def sbind_Inr)

lemma strong_lifecycle_spmv:
  assumes "execute_strong_query_lifecycle rng token b query_id x t l = (Inr r, l')"
  shows "direct_spmv (component_entries (sb_base b) @ delta_entries (sb_delta b)) x
      (ls_rows (layout_spec (sb_base b))) (ls_cols (layout_spec (sb_base b))) t = Inr (lr_output r) \<and>
    distinct (map fst (component_entries (sb_base b) @ delta_entries (sb_delta b)))"
proof -
  obtain l1 where v: "validate_strong_bundle b = Inr ()"
    and prep: "prepare_strong_for_validated_bundle rng token b query_id x t l = (Inr (lr_prepared r), l1)"
    and run: "execute_strong_for_validated_query b (lr_prepared r) t = Inr (lr_output r)"
    using strong_lifecycle_Inr [OF assms] by blast
  obtain q where q: "strong_of b q" using v by (rule validate_strong_bundle_Inr)
  note S = strong_query [OF q]
  obtain n s extra where cf: "compiled_from q (int n) s extra" using S(1) by blast
  obtain ms where "operands_for q x t ms (lr_prepared r)" using prepare_strong_Inr [OF q prep] by blast
  from run_query_is_spmv [OF cf this] run
  have "direct_spmv (query_entries q) x (query_rows q) (query_cols q) t = Inr (lr_output r)"
    by (simp add: execute_strong_run [OF q])
  moreover have "query_entries q = component_entries (sb_base b) @ delta_entries (sb_delta b)"
    by (simp add: query_entries_def source_entries_def S)
  moreover have "distinct (map fst (query_entries q))"
    using cf by (simp add: compiled_from_def sources_valid_def query_entries_def)
  ultimately show ?thesis by (simp add: query_rows_def query_cols_def S)
qed

end
