(* ===== verification/Strong_Total.thy ===== *)
theory Strong_Total
  imports Strong_Correct Lifecycle_Checks
begin

text \<open>
  The strong lifecycle returns on every valid bundle and fresh ledger, and what its preparation
  produces passes the checks that its replay performs.
\<close>

section \<open>The facts of a bundle\<close>

lemma strong_bundle_facts:
  assumes b: "strong_of b q"
  shows "valid_id (version_id (sb_base b))" "valid_sha256 (sb_output_plan_digest b)"
    "valid_sha256 (sb_execution_binding_digest b)" "valid_sha256 (sb_private_plan_digest b)"
    "analyze_output_plan (cq_output_plan q) = Inr (output_analysis q)"
    "sb_output_plan_digest b = oa_output_plan_digest (output_analysis q)"
proof -
  have c: "compile_query [sb_base b] (Some (sb_delta b)) [] UniformRandomOrZero = Inr q"
    using b by (simp add: strong_of_def)
  note C = compile_query_Inr [OF c]
  show "analyze_output_plan (cq_output_plan q) = Inr (output_analysis q)" by (fact C(5))
  show d: "sb_output_plan_digest b = oa_output_plan_digest (output_analysis q)"
    using b C(6) by (simp add: strong_of_def)
  show "valid_sha256 (sb_output_plan_digest b)" unfolding d using analyze_digest [OF C(5)] .
  show "valid_sha256 (sb_private_plan_digest b)" using b by (simp add: strong_of_def)
  obtain bs where "Inr (sha256_hex bs) = (Inr (cq_execution_binding_digest q) :: string res)"
    using C(7) unfolding execution_binding_digest_def by (elim rbind_InrE) blast
  then show "valid_sha256 (sb_execution_binding_digest b)"
    using b by (metis Inr_inject strong_of_def valid_sha256_hex)
  have "validate_component (sb_base b) = Inr ()"
    using C(4) by (auto simp: validated_sources_def rbind_eq_Inr Let_def split: if_splits)
  then show "valid_id (version_id (sb_base b))"
    unfolding validate_component_def Let_def by (auto dest: if_Inl_InrD)
qed

lemma strong_route_share:
  assumes q: "compiled_from q (int n) s extra" and r: "r \<in> set (result_routes q)"
  obtains sh where "sh \<in> set (shares (cq_output_plan q))" "share_id sh = route_share_id r"
    "valid_id (rr_component_id r)" "valid_id (rr_output_block_id r)"
proof -
  have parts: "validate_compiled_parts q = Inr ()" and ok: "plan_ok (cq_output_plan q)"
    using q by (simp_all add: compiled_from_def)
  have "route_share_id r \<in> share_id ` set (shares (cq_output_plan q))"
    unfolding validate_compiled_parts_Inr(3) [OF parts, symmetric] using r by simp
  then obtain sh where sh: "sh \<in> set (shares (cq_output_plan q))" "route_share_id r = share_id sh" by (rule imageE)
  then have "valid_id (rr_component_id r)" "valid_id (rr_output_block_id r)"
    using ok by (auto simp: plan_ok_def share_ok_def)
  then show thesis using that sh by metis
qed

section \<open>The operand of a route\<close>

definition strong_w :: "strong_bundle \<Rightarrow> string \<Rightarrow> prepared_mask list \<Rightarrow> result_route \<Rightarrow> prepared_f1m_operand" where
  "strong_w b query_id ms r = strong_f1m_operand b query_id (masks_by_share ms) (private_route r)"

lemma strong_w_fields [simp]:
  "po_ciphertext_id (strong_w b query_id ms r) = the (f1m_ciphertext_id r)"
  "po_result_id (strong_w b query_id ms r) = rr_result_id r"
  "po_query_id (strong_w b query_id ms r) = query_id"
  "po_version_id (strong_w b query_id ms r) = version_id (sb_base b)"
  "po_output_plan_digest (strong_w b query_id ms r) = sb_output_plan_digest b"
  "po_component_id (strong_w b query_id ms r) = rr_component_id r"
  "po_output_block_id (strong_w b query_id ms r) = rr_output_block_id r"
  by (simp_all add: strong_w_def strong_f1m_operand_def Let_def private_route_def)

lemma strong_w_masked:
  assumes "masks_ok plan t ms"
  shows "po_kind (strong_w b query_id ms r) =
      (if route_share_id r \<in> fst ` set (masks_dict ms) then RandomZeroSum else EncryptedZeroDummy)"
    and "po_values (strong_w b query_id ms r) = (case map_of (masks_dict ms) (route_share_id r) of
      Some v \<Rightarrow> v | None \<Rightarrow> replicate (nat (op_slot_count (sb_output_plan b))) 0)"
proof -
  let ?m = "map_of (masks_by_share ms) (route_share_id r)"
  have eq: "map_option pm_values ?m = map_of (masks_dict ms) (route_share_id r)"
    by (rule masks_by_share_eq [OF masks_dict_distinct [OF assms]])
  have "?m \<noteq> None \<longleftrightarrow> route_share_id r \<in> fst ` set (masks_dict ms)"
    using masks_by_share_keys [of ms] by (metis map_of_eq_None_iff)
  then show "po_kind (strong_w b query_id ms r) =
      (if route_share_id r \<in> fst ` set (masks_dict ms) then RandomZeroSum else EncryptedZeroDummy)"
    by (simp add: strong_w_def strong_f1m_operand_def Let_def private_route_def output_share_id_def)
  show "po_values (strong_w b query_id ms r) = (case map_of (masks_dict ms) (route_share_id r) of
      Some v \<Rightarrow> v | None \<Rightarrow> replicate (nat (op_slot_count (sb_output_plan b))) 0)"
    unfolding eq [symmetric]
    by (cases ?m) (simp_all add: strong_w_def strong_f1m_operand_def Let_def private_route_def output_share_id_def)
qed

lemma strong_w_values:
  assumes m: "masks_ok plan t ms" and "sb_output_plan b = plan" and "2 \<le> t"
  shows "length (po_values (strong_w b query_id ms r)) = nat (op_slot_count plan)"
    and "\<forall>v \<in> set (po_values (strong_w b query_id ms r)). 0 \<le> v \<and> v < t"
    and "po_kind (strong_w b query_id ms r) = EncryptedZeroDummy \<Longrightarrow> \<forall>v \<in> set (po_values (strong_w b query_id ms r)). v = 0"
  using mask_value_length [OF m, of "route_share_id r"] assms(2,3)
  by (auto simp: strong_w_masked [OF m] map_of_eq_None_iff split: option.splits if_splits)
    (metis map_of_eq_None_iff option.distinct(1))

section \<open>The ledger accepts the preparation\<close>

lemma strong_commitments_ok:
  assumes b: "strong_of b q" and q: "compiled_from q (int n) s extra"
    and m: "masks_ok (cq_output_plan q) t ms" and t: "2 \<le> t" and qid: "valid_id query_id"
  shows "validate_commitments (strong_batch_key b query_id t)
    (prepared_f1m_commitments (map (strong_w b query_id ms) (result_routes q))) = Inr ()"
proof -
  let ?ops = "map (strong_w b query_id ms) (result_routes q)" and ?k = "strong_batch_key b query_id t"
  have plan: "sb_output_plan b = cq_output_plan q" using b by (simp add: strong_of_def)
  have slots: "op_slot_count (cq_output_plan q) = int n" "validate_compiled_parts q = Inr ()"
    using q by (simp_all add: compiled_from_def)
  have "0 < n" using query_slots_pos [OF q] by simp
  have "distinct (map (\<lambda>r. route_share_id r) (result_routes q))" by (rule validate_compiled_parts_Inr(2) [OF slots(2)])
  then have "distinct (map (\<lambda>c. (fc_component_id c, fc_output_block_id c)) (prepared_f1m_commitments ?ops))"
    by (simp add: prepared_f1m_commitments_def comp_def)
  moreover have "commitment_ok ?k c \<and> (fc_kind c = EncryptedZeroDummy \<longrightarrow> (\<forall>v \<in> set (fc_values c). v = 0))"
    if mem: "c \<in> set (prepared_f1m_commitments ?ops)" for c
  proof -
    obtain r where r: "r \<in> set (result_routes q)" and c: "c = \<lparr>fc_query_id = query_id,
        fc_version_id = version_id (sb_base b), fc_output_plan_digest = sb_output_plan_digest b,
        fc_component_id = rr_component_id r, fc_output_block_id = rr_output_block_id r,
        fc_kind = po_kind (strong_w b query_id ms r), fc_values = po_values (strong_w b query_id ms r)\<rparr>"
      using mem by (auto simp: prepared_f1m_commitments_def)
    have ids: "valid_id (rr_component_id r)" "valid_id (rr_output_block_id r)"
      using strong_route_share [OF q r] by blast+
    note V = strong_w_values [OF m plan t, of query_id r]
    have "po_values (strong_w b query_id ms r) \<noteq> []" using V(1) slots \<open>0 < n\<close> by auto
    then show ?thesis using ids V(2,3) by (simp add: c commitment_ok_def strong_batch_key_def)
  qed
  moreover have "batch_key_ok ?k"
    using strong_bundle_facts [OF b] qid t by (simp add: batch_key_ok_def strong_batch_key_def)
  ultimately show ?thesis by (auto simp: validate_commitments_Inr)
qed

lemma strong_masks_reserved:
  assumes b: "strong_of b q"
    and ms: "prepare_f1m_masks rng reserve_all (cq_output_plan q) query_id (version_id (sb_base b)) t l = (Inr ms, l1)"
    and c: "c \<in> set (prepared_f1m_commitments (map (strong_w b query_id ms) (result_routes q)))"
    and k: "fc_kind c = RandomZeroSum"
  shows "fc_binding c \<in> set (reservations l1)"
proof -
  note M = prepare_f1m_masks_Inr [OF ms] and D = strong_bundle_facts [OF b]
  obtain r where c': "fc_binding c = (query_id, version_id (sb_base b), sb_output_plan_digest b,
      rr_component_id r, rr_output_block_id r)" and "fc_kind c = po_kind (strong_w b query_id ms r)"
    using c by (auto simp: prepared_f1m_commitments_def fc_binding_def)
  then have "route_share_id r \<in> fst ` set (masks_dict ms)"
    using k strong_w_masked(1) [OF M(3), of b query_id r] by (simp split: if_splits)
  then obtain m where m: "m \<in> set ms" "(pm_component_id m, pm_output_block_id m) = route_share_id r"
    by (auto simp: masks_dict_def)
  have "pm_output_plan_digest m = sb_output_plan_digest b" using M(8) m(1) D(5,6) by auto
  then have "pm_binding m = fc_binding c" using M(7) m by (auto simp: pm_binding_def c')
  then show ?thesis using M(4) m(1) by (force simp: reserve_all_eq)
qed

lemma strong_commit_total:
  assumes b: "strong_of b q" and q: "compiled_from q (int n) s extra" and fresh: "ledger_fresh query_id token l"
    and token: "valid_sha256 token" and t: "2 \<le> t" and qid: "valid_id query_id"
    and ms: "prepare_f1m_masks rng reserve_all (cq_output_plan q) query_id (version_id (sb_base b)) t l = (Inr ms, l1)"
  shows "\<exists>l2. commit_prepared_f1m token (prepared_f1m_commitments (map (strong_w b query_id ms) (result_routes q)))
    (strong_batch_key b query_id t) l1 = Inr (token, l2)"
proof -
  note M = prepare_f1m_masks_Inr [OF ms]
  let ?cs = "prepared_f1m_commitments (map (strong_w b query_id ms) (result_routes q))"
  have l1: "\<not> read_only l1" "batches l1 = batches l" "commitments l1 = commitments l"
    using M(4) by (auto simp: reserve_all_eq)
  have "token \<notin> fst ` set (commitments l)" using fresh by (auto simp: ledger_fresh_def ledger_ok_def)
  then have "commitment_key ` set (map (\<lambda>c. (token, commitment_row_of t c)) ?cs) \<inter> commitment_key ` set (commitments l) = {}"
    by (force simp: commitment_key_def)
  moreover have "batch_identity (new_batch token (strong_batch_key b query_id t)) \<notin> batch_identity ` set (batches l)"
    using fresh by (auto simp: ledger_fresh_def batch_identity_def new_batch_def strong_batch_key_def)
  moreover have "bk_modulus (strong_batch_key b query_id t) = t" by (simp add: strong_batch_key_def)
  moreover have "token \<notin> br_token ` set (batches l)" using fresh by (simp add: ledger_fresh_def)
  ultimately show ?thesis
    using strong_commitments_ok [OF b q M(3) t qid] l1 token strong_masks_reserved [OF b ms] by (simp add: commit_Inr)
qed

lemma strong_prepare_total:
  assumes b: "strong_of b q" and q: "compiled_from q (int n) s extra" and fresh: "ledger_fresh query_id token l"
    and token: "valid_sha256 token" and t: "2 \<le> t" and qid: "valid_id query_id"
    and len: "int (length x) = ls_cols (layout_spec (sb_base b))" and rng: "\<forall>i. 0 \<le> rng i \<and> rng i < t"
  shows "\<exists>p l2. prepare_strong_for_validated_bundle rng token b query_id x t l = (Inr p, l2)"
proof -
  have plan: "sb_output_plan b = cq_output_plan q" "sb_result_routes b = map private_route (result_routes q)"
    using b by (simp_all add: strong_of_def)
  have ok: "plan_ok (cq_output_plan q)" using q by (simp add: compiled_from_def)
  obtain ms l1 where ms: "prepare_f1m_masks rng reserve_all (cq_output_plan q) query_id (version_id (sb_base b)) t l = (Inr ms, l1)"
    using prepare_f1m_masks_total [OF ok qid strong_bundle_facts(1) [OF b] t rng, of reserve_all l]
      reserve_all_total [of l query_id] fresh unfolding ledger_fresh_def by blast
  obtain l2 where "commit_prepared_f1m token (prepared_f1m_commitments (map (strong_w b query_id ms) (result_routes q)))
      (strong_batch_key b query_id t) l1 = Inr (token, l2)"
    using strong_commit_total [OF b q fresh token t qid ms] by blast
  moreover have "map (strong_f1m_operand b query_id (masks_by_share ms)) (sb_result_routes b) =
      map (strong_w b query_id ms) (result_routes q)"
    by (simp add: plan(2) strong_w_def)
  ultimately show ?thesis
    using len t ms by (simp add: prepare_strong_for_validated_bundle_def Let_def sbind_Inr strong_validated_vector_def plan(1))
qed

lemma strong_key_eq:
  "strong_prepared_for b q query_id x t ms issued p \<Longrightarrow> strong_prepared_key b p = strong_batch_key b query_id t"
  by (simp add: strong_prepared_for_def strong_prepared_key_def strong_batch_key_def)

lemma strong_lifecycle_total:
  assumes v: "validate_strong_bundle b = Inr ()" and qid: "valid_id query_id"
    and len: "int (length x) = ls_cols (layout_spec (sb_base b))" and t: "2 \<le> t"
    and rng: "\<forall>i. 0 \<le> rng i \<and> rng i < t" and token: "valid_sha256 token" and fresh: "ledger_fresh query_id token l"
  shows "\<exists>r l'. execute_strong_query_lifecycle rng token b query_id x t l = (Inr r, l') \<and>
    token \<in> consumed_tokens l' \<and> ledger_ok l'"
proof -
  obtain q where b: "strong_of b q" using v by (rule validate_strong_bundle_Inr)
  obtain n s extra where q: "compiled_from q (int n) s extra" using strong_query(1) [OF b] by blast
  obtain p l2 where prep: "prepare_strong_for_validated_bundle rng token b query_id x t l = (Inr p, l2)"
    using strong_prepare_total [OF b q fresh token t qid len rng] by blast
  obtain ms l1 issued where
    ms: "prepare_f1m_masks rng reserve_all (cq_output_plan q) query_id (version_id (sb_base b)) t l = (Inr ms, l1)" and
    p: "strong_prepared_for b q query_id x t ms issued p" "operands_for q x t ms p" and
    commit: "commit_prepared_f1m token (prepared_f1m_commitments (pr_f1m_operands p)) (strong_batch_key b query_id t) l1 =
      Inr (issued, l2)"
    using prepare_strong_Inr [OF b prep] by blast
  have issued: "issued = token" "pr_ledger_commitment_token p = issued"
    using commit p(1) by (simp_all add: commit_Inr strong_prepared_for_def)
  have ok1: "ledger_ok l1"
    using prepare_f1m_masks_Inr(4) [OF ms] fresh reserve_all_ok unfolding ledger_fresh_def by blast
  note consume = commit_consume [OF ok1 commit]
  obtain ys where ys: "run_query q p t = Inr ys" using run_query_total [OF q p(2)] by blast
  have "execute_strong_query_lifecycle rng token b query_id x t l =
      (Inr \<lparr>lr_prepared = p, lr_preparation_bytes = strong_preparation_bytes p, lr_output = ys\<rparr>, mark_consumed token l2)"
    using v prep consume strong_key_eq [OF p(1)] issued ys
    by (simp add: execute_strong_query_lifecycle_def consume_strong_query_def sbind_Inr execute_strong_run [OF b])
  moreover have "token \<in> consumed_tokens (mark_consumed token l2)"
    using cl.consume_adds [OF consume] by (simp add: issued)
  moreover have "ledger_ok (mark_consumed token l2)" using commit_ok [OF ok1 commit] by (rule mark_consumed_ok)
  ultimately show ?thesis by blast
qed

end
