(* ===== verification/Strong_Checks.thy ===== *)
theory Strong_Checks
  imports Strong_Total
begin

text \<open>
  What the strong preparation produces passes \<open>validate_strong_prepared\<close>: masks where rows
  overlap, exact zeros elsewhere, and masks that cancel on every shared row.
\<close>

lemma strong_kind_of_share:
  assumes ok: "plan_ok plan" and s: "s \<in> set (shares plan)" and keys: "fst ` set (masks_dict ms) = overlap_ids plan"
  shows "share_id s \<in> fst ` set (masks_dict ms) \<longleftrightarrow>
    (\<exists>(_, row) \<in> set (slot_to_logical s). row \<in> set (overlap_rows plan))"
proof -
  have rows: "row \<in> set (overlap_rows plan) \<longleftrightarrow> row \<in> shared_rows plan" for row
    by (simp add: set_overlap_rows shared_rows_def length_row_lanes)
  have inj: "inj_on (\<lambda>s. share_id s) (set (shares plan))" using ok by (simp add: plan_ok_def distinct_map)
  show ?thesis
    unfolding keys overlap_ids_of_shares rows
    using inj s by (auto dest: inj_onD)
qed

lemma strong_operand_checked:
  assumes b: "strong_of b q" and q: "compiled_from q (int n) s0 extra"
    and m: "masks_ok (cq_output_plan q) t ms" and keys: "fst ` set (masks_dict ms) = overlap_ids (cq_output_plan q)"
    and p: "strong_prepared_for b q query_id x t ms issued p" and t: "2 \<le> t" and r: "r \<in> set (result_routes q)"
  shows "check_strong_operand b p vals (strong_w b query_id ms r, private_route r) =
    Inr (AList.update (route_share_id r) (po_values (strong_w b query_id ms r)) vals)"
proof -
  let ?plan = "cq_output_plan q" and ?w = "strong_w b query_id ms r"
  have plan: "sb_output_plan b = ?plan" and cid: "f1m_ciphertext_id r \<noteq> None"
    using b r by (simp_all add: strong_of_def)
  have ok: "plan_ok ?plan" using q by (simp add: compiled_from_def)
  have pos: "0 < op_slot_count ?plan" using ok by (simp add: plan_ok_def)
  obtain s where s: "s \<in> set (shares ?plan)" "share_id s = route_share_id r"
    using strong_route_share [OF q r] by blast
  have look: "map_of (dict_of (map (\<lambda>s. (share_id s, s)) (shares ?plan))) (route_share_id r) = Some s"
    using share_lookup [OF ok s(1)] s(2) by simp
  note V = strong_w_values [OF m plan t, of query_id r] and W = strong_w_masked [OF m, of b query_id r]
  have kind: "po_kind ?w = (if \<exists>(_, row) \<in> set (slot_to_logical s). row \<in> set (overlap_rows ?plan)
      then RandomZeroSum else EncryptedZeroDummy)"
    using strong_kind_of_share [OF ok s(1) keys] s(2) by (simp add: W(1))
  have modulus: "pr_modulus p = t" "pr_query_id p = query_id" using p by (simp_all add: strong_prepared_for_def)
  have operand: "strong_operand_ok b p (private_route r) s ?w"
    using kind V(1,2) pos by (simp add: strong_operand_ok_def plan modulus private_route_def output_share_id_def)
  have "\<exists>(l, row) \<in> set (slot_to_logical s). l = lane \<and> row \<in> set (overlap_rows ?plan)"
    if mem: "(lane, y) \<in> set (py_enumerate (po_values ?w))" and y: "y \<noteq> 0" for lane y
  proof -
    obtain i where i: "lane = int i" "y = po_values ?w ! i" "i < length (po_values ?w)"
      using mem by (auto simp: set_py_enumerate)
    have "map_of (masks_dict ms) (route_share_id r) = Some (po_values ?w)"
      using y i by (simp add: W(2) split: option.splits)
    then have "lane_value (masks_dict ms) (os_component_id s, os_output_block_id s, lane) \<noteq> 0"
      using y i s(2) by (simp add: lane_value_def)
    moreover have "0 \<le> lane" "lane < op_slot_count ?plan" using i V(1) by simp_all
    ultimately show ?thesis using nonzero_lane_overlaps [OF m s(1) ok] by auto
  qed
  then have "strong_lanes_ok b s ?w" by (auto simp: strong_lanes_ok_def plan)
  then show ?thesis
    using look operand V(3)
    by (auto simp: check_strong_operand_def plan private_route_def output_share_id_def)
qed

lemma strong_operands_checked:
  assumes "\<And>r vals. r \<in> set rs \<Longrightarrow> check_strong_operand b p vals (f r, private_route r) =
      Inr (AList.update (route_share_id r) (po_values (f r)) vals)"
  shows "\<exists>vals'. rfold (check_strong_operand b p) vals (zip (map f rs) (map private_route rs)) = Inr vals' \<and>
    (\<forall>r \<in> set rs. \<exists>r' \<in> set rs. route_share_id r' = route_share_id r \<and>
      map_of vals' (route_share_id r) = Some (po_values (f r'))) \<and>
    (\<forall>i. i \<notin> (\<lambda>r. route_share_id r) ` set rs \<longrightarrow> map_of vals' i = map_of vals i)"
  using assms
proof (induction rs arbitrary: vals)
  case (Cons r rs)
  let ?v = "AList.update (route_share_id r) (po_values (f r)) vals"
  obtain vals' where v: "rfold (check_strong_operand b p) ?v (zip (map f rs) (map private_route rs)) = Inr vals'"
    "\<forall>r \<in> set rs. \<exists>r' \<in> set rs. route_share_id r' = route_share_id r \<and>
      map_of vals' (route_share_id r) = Some (po_values (f r'))"
    "\<forall>i. i \<notin> (\<lambda>r. route_share_id r) ` set rs \<longrightarrow> map_of vals' i = map_of ?v i"
    using Cons.IH [of ?v] Cons.prems by auto
  have "\<exists>r' \<in> set (r # rs). route_share_id r' = route_share_id r \<and> map_of vals' (route_share_id r) = Some (po_values (f r'))"
  proof (cases "route_share_id r \<in> (\<lambda>r. route_share_id r) ` set rs")
    case True
    then show ?thesis using v(2) by (metis (no_types, lifting) image_iff list.set_intros(2))
  next
    case False
    then show ?thesis using v(3) by (simp add: map_of_update)
  qed
  then show ?case using v Cons.prems [of r] by (intro exI [of _ vals']) (auto simp: map_of_update)
qed simp

lemma strong_prepared_is_valid:
  assumes b: "strong_of b q" and q: "compiled_from q (int n) s0 extra"
    and m: "masks_ok (cq_output_plan q) t ms" and keys: "fst ` set (masks_dict ms) = overlap_ids (cq_output_plan q)"
    and p: "strong_prepared_for b q query_id x t ms issued p" and t: "2 \<le> t" and qid: "valid_id query_id"
    and len: "int (length x) = ls_cols (layout_spec (sb_base b))" and token: "valid_sha256 issued"
  shows "validate_strong_prepared b p = Inr ()"
proof -
  let ?plan = "cq_output_plan q" and ?rs = "result_routes q"
  have plan: "sb_output_plan b = ?plan" "sb_result_routes b = map private_route ?rs"
    using b by (simp_all add: strong_of_def)
  have ok: "plan_ok ?plan" and parts: "validate_compiled_parts q = Inr ()" using q by (simp_all add: compiled_from_def)
  have ops: "pr_f1m_operands p = map (strong_w b query_id ms) ?rs"
    using p by (simp add: strong_prepared_for_def strong_w_def)
  have bind: "strong_binding_ok b p"
    using p qid t token strong_bundle_facts(1) [OF b]
    by (simp add: strong_binding_ok_def strong_prepared_for_def valid_id_def)
  obtain vals where vals: "rfold (check_strong_operand b p) [] (zip (map (strong_w b query_id ms) ?rs) (map private_route ?rs)) = Inr vals"
    and at: "\<forall>r \<in> set ?rs. \<exists>r' \<in> set ?rs. route_share_id r' = route_share_id r \<and>
      map_of vals (route_share_id r) = Some (po_values (strong_w b query_id ms r'))"
    using strong_operands_checked [OF strong_operand_checked [OF b q m keys p t], of ?rs "[]"] by blast
  have masked: "map_of vals i = map_of (masks_dict ms) i \<and> map_of (masks_dict ms) i \<noteq> None" if i: "i \<in> overlap_ids ?plan" for i
  proof -
    have "overlap_ids ?plan \<subseteq> share_id ` set (shares ?plan)" unfolding overlap_ids_of_shares by blast
    then have "i \<in> (\<lambda>r. route_share_id r) ` set ?rs" using i validate_compiled_parts_Inr(3) [OF parts] by auto
    then obtain r where r: "r \<in> set ?rs" "i = route_share_id r" by (rule imageE)
    obtain r' where r': "r' \<in> set ?rs" "route_share_id r' = route_share_id r"
      "map_of vals (route_share_id r) = Some (po_values (strong_w b query_id ms r'))"
      using at r(1) by blast
    have "i \<in> fst ` set (masks_dict ms)" using i by (simp only: keys)
    then obtain v where "map_of (masks_dict ms) i = Some v" by (metis map_of_eq_None_iff not_None_eq)
    then show ?thesis using r r' strong_w_masked(2) [OF m, of b query_id r'] by simp
  qed
  have "check_strong_cancellation ?plan p vals r = Inr ()" if "r \<in> set (overlap_rows ?plan)" for r
  proof -
    have "map_of vals (c, i) = map_of (masks_dict ms) (c, i) \<and> map_of (masks_dict ms) (c, i) \<noteq> None"
      if "(c, i, l) \<in> set (row_lanes ?plan r)" for c i l
      using that \<open>r \<in> set (overlap_rows ?plan)\<close> unfolding overlap_ids_def set_overlap_rows
      by (intro masked) (force simp: overlap_ids_def)
    note lanes = this
    have "rfold (\<lambda>acc (i, lane). case map_of vals i of None \<Rightarrow> Inl KeyError
        | Some v \<Rightarrow> Inr (acc + v ! nat lane)) 0 (overlap_lanes ?plan r) =
      Inr (\<Sum>x \<leftarrow> row_lanes ?plan r. lane_value (masks_dict ms) x)"
      using cancellation_fold [of "row_lanes ?plan r" vals "masks_dict ms" 0, OF lanes]
      by (simp add: overlap_lanes_eq)
    moreover have "pr_modulus p = t" using p by (simp add: strong_prepared_for_def)
    ultimately show ?thesis
      using row_lanes_sum_zero [OF m, of r] by (simp add: check_strong_cancellation_def)
  qed
  then have "rfold (\<lambda>_ row. check_strong_cancellation ?plan p vals row) () (overlap_rows ?plan) = Inr ()"
    by (simp add: rfold_unit_iff)
  moreover have "pr_vector p = x" "pr_query_operands p = strong_query_operands (sb_value_operand_specs b) x"
    using p strong_query_operands_eq [OF b] by (simp_all add: strong_prepared_for_def)
  ultimately show ?thesis
    using bind vals len by (simp add: validate_strong_prepared_def strong_validated_vector_def ops plan)
qed

lemma strong_prepare_is_valid:
  assumes b: "strong_of b q"
    and run: "prepare_strong_for_validated_bundle rng token b query_id x t l = (Inr p, l')"
  shows "validate_strong_prepared b p = Inr () \<and> pr_modulus p = t \<and> pr_ledger_commitment_token p = token"
proof -
  obtain n s extra where q: "compiled_from q (int n) s extra" using strong_query(1) [OF b] by blast
  obtain ms l1 issued where
    ms: "prepare_f1m_masks rng reserve_all (cq_output_plan q) query_id (version_id (sb_base b)) t l = (Inr ms, l1)" and
    p: "strong_prepared_for b q query_id x t ms issued p" "operands_for q x t ms p" and
    commit: "commit_prepared_f1m token (prepared_f1m_commitments (pr_f1m_operands p)) (strong_batch_key b query_id t) l1 =
      Inr (issued, l')"
    using prepare_strong_Inr [OF b run] by blast
  note M = prepare_f1m_masks_Inr [OF ms]
  have keys: "fst ` set (masks_dict ms) = overlap_ids (cq_output_plan q)"
    using M(6) by (simp add: masks_dict_def image_image)
  have c: "issued = token" "valid_sha256 token" "valid_id query_id"
    using commit by (auto simp: commit_Inr validate_commitments_Inr batch_key_ok_def strong_batch_key_def)
  have len: "int (length x) = ls_cols (layout_spec (sb_base b))"
    using p(2) by (simp add: operands_for_def query_cols_def strong_query(2) [OF b])
  show ?thesis
    using strong_prepared_is_valid [OF b q M(3) keys p(1) M(2) c(3) len] c(1,2) p(1)
    by (simp add: strong_prepared_for_def)
qed

end
