(* ===== verification/Sample_Strong.thy ===== *)
theory Sample_Strong
  imports Strong_Checks Sample_Query
begin

text \<open>
  When \<open>compile_strong_execution\<close> succeeds, and a concrete bundle: a base and a delta that share a
  row. The witnesses of the strong lifecycle's theorems run on it.
\<close>

section \<open>The bundle exists when the query compiles\<close>

definition no_client_specs :: "compile_state \<Rightarrow> bool" where
  "no_client_specs s \<longleftrightarrow> (\<forall>x \<in> set (cs_specs s). source_kind x \<noteq> ClientLaneSegment)"

lemma append_operand_specs: "append_operand slots s = (ids, s') \<Longrightarrow> cs_specs s' = cs_specs s"
  by (auto simp: append_operand_def Let_def)

lemma append_selection_specs: "append_selection slots ordinal sel acc s = (i, s') \<Longrightarrow> cs_specs s' = cs_specs s"
  by (auto simp: append_selection_def Let_def)

lemma finish_result_specs: "finish_result slots needs acc cid bid s = (i, s') \<Longrightarrow> cs_specs s' = cs_specs s"
  by (auto simp: finish_result_def Let_def)

lemma compile_chunks_specs:
  "foldl (compile_chunk slots) (s, sel, pend) chs = (s', sel', pend') \<Longrightarrow> cs_specs s' = cs_specs s"
proof (induction chs arbitrary: s sel pend)
  case (Cons ch chs)
  obtain s1 sel1 pend1 where 1: "compile_chunk slots (s, sel, pend) ch = (s1, sel1, pend1)" by (metis surj_pair)
  have "cs_specs s1 = cs_specs s"
    using 1 by (auto simp: compile_chunk_def Let_def dest!: append_operand_specs append_selection_specs
        split: prod.splits if_splits)
  then show ?case using Cons 1 by simp
qed simp

lemma compile_block_no_client:
  assumes "no_client_specs s"
  shows "no_client_specs (compile_block slots masked cid s b)"
proof (cases "chunks b = []")
  case False
  obtain s1 sel pend where 1: "foldl (compile_chunk slots) (s, [], []) (chunks b) = (s1, sel, pend)" by (metis surj_pair)
  obtain acc ns where 2: "cross_sum (cs_result s1) sel (cs_nodes s1) = (acc, ns)" by (metis surj_pair)
  obtain rid s2 where 3: "finish_result slots (masked (cid, output_block_id b)) acc cid
      (output_block_id b) (s1\<lparr>cs_nodes := ns\<rparr>) = (rid, s2)" by (metis surj_pair)
  have "cs_specs s2 = cs_specs s" using compile_chunks_specs [OF 1] finish_result_specs [OF 3] by simp
  then show ?thesis using assms False by (auto simp: compile_block_def 1 2 3 no_client_specs_def)
qed (use assms in \<open>simp add: compile_block_def\<close>)

lemma compile_page_no_client:
  assumes "no_client_specs s"
  shows "no_client_specs (compile_page slots masked d s (page, vals, meta))"
proof -
  obtain ordinal vid qid rid s1 where 1: "append_operand slots s = ((ordinal, vid, qid, rid), s1)" by (metis surj_pair)
  obtain acc ns shifts where 2: "segment_reduction ordinal rid (doubling_shifts 1 (segment_width d))
      (cs_nodes s1, cs_shifts s1) = (acc, ns, shifts)" by (metis surj_pair)
  let ?leads = "\<lambda>lane. lane < segments_per_page d * segment_width d \<and> lane mod segment_width d = 0"
  obtain sid s2 where 3: "append_selection slots ordinal ?leads acc (s1\<lparr>cs_nodes := ns, cs_shifts := shifts\<rparr>) = (sid, s2)"
    by (metis surj_pair)
  obtain res s3 where 4: "finish_result slots (masked (strong_component_id, cbm_page_id meta)) sid
      strong_component_id (cbm_page_id meta) s2 = (res, s3)" by (metis surj_pair)
  have "cs_specs s3 = cs_specs s"
    using append_operand_specs [OF 1] append_selection_specs [OF 3] finish_result_specs [OF 4] by simp
  then show ?thesis using assms by (simp add: compile_page_def 1 2 3 4 no_client_specs_def)
qed

lemma foldl_keeps: "(\<And>s a. P s \<Longrightarrow> P (f s a)) \<Longrightarrow> P s \<Longrightarrow> P (foldl f s as)"
  by (induction as arbitrary: s) auto

lemma compile_sources_no_client:
  assumes "compile_sources slots masked comps delta [] = Inr s"
  shows "no_client_specs s"
proof -
  have "no_client_specs (compile_component slots masked s c)" if "no_client_specs s" for s c
    unfolding compile_component_def using that by (rule foldl_keeps [rotated]) (rule compile_block_no_client)
  moreover have "no_client_specs empty_compile" by (simp add: no_client_specs_def empty_compile_def)
  ultimately have 1: "no_client_specs (foldl (compile_component slots masked) empty_compile comps)"
    by (rule foldl_keeps)
  have 2: "no_client_specs (foldl (compile_page slots masked d) s1 ks)" if "no_client_specs s1" for d s1 ks
    using that by (rule foldl_keeps [rotated]) (metis compile_page_no_client prod_cases3)
  show ?thesis
    using assms 1 2 by (auto simp: compile_sources_def rbind_eq_Inr Let_def split: option.splits)
qed

lemma strong_compiles:
  assumes q: "compile_query [base] (Some delta) [] UniformRandomOrZero = Inr q"
  shows "\<exists>b. compile_strong_execution base delta = Inr b"
proof -
  note C = compile_query_Inr [OF q]
  obtain s extra where cf: "compiled_from q (ls_effective_slots (layout_spec (hd (cq_components q)))) s extra" using C(1) by blast
  have gs: "client_lane_segments q = []"
    using C(4) by (auto simp: validated_sources_def rbind_eq_Inr Let_def split: if_splits)
  have "no_client_specs s" "operand_specs q = cs_specs s" and parts: "validate_compiled_parts q = Inr ()"
    using cf compile_sources_no_client by (auto simp: compiled_from_def gs)
  then have "\<exists>y. strong_spec_of x = Inr y" if "x \<in> set (operand_specs q)" for x
    using that by (cases "source_kind x") (auto simp: strong_spec_of_def strong_source_of_def no_client_specs_def)
  then obtain specs where specs: "rmap strong_spec_of (operand_specs q) = Inr specs" using rmap_total by blast
  obtain required where val: "validate_program (program (cloud_plan q)) required = Inr ()"
    using validate_compiled_parts_Inr(1) [OF parts] by blast
  note first = parts [unfolded validate_compiled_parts_def Let_def, THEN if_Inl_InrD]
  have ids: "map rr_result_id (result_routes q) = result_ids (program (cloud_plan q))" using first by simp
  have inj: "inj_on rr_result_id (set (result_routes q))"
    using result_ids_distinct [OF val] unfolding ids [symmetric] by (simp add: distinct_map)
  have "rr_result_id ` {r \<in> set (result_routes q). f1m_ciphertext_id r \<noteq> None} = rr_result_id ` set (result_routes q)"
    using first [THEN conjunct2, THEN if_Inl_InrD, THEN conjunct1] C(3) ids
    by simp (metis list.set_map)
  then have "{r \<in> set (result_routes q). f1m_ciphertext_id r \<noteq> None} = set (result_routes q)"
    using inj by (subst (asm) inj_on_image_eq_iff) auto
  then have all: "\<forall>r \<in> set (result_routes q). f1m_ciphertext_id r \<noteq> None" by blast
  have "length (concat (map strong_route_of rs)) = length rs" if "\<forall>r \<in> set rs. f1m_ciphertext_id r \<noteq> None" for rs
    using that by (induction rs) (auto simp: strong_route_of_def)
  with all have len: "length (concat (map strong_route_of (result_routes q))) = length (result_routes q)" by blast
  have "strong_compiled base delta = Inr q" using q by (simp add: strong_compiled_def)
  then show ?thesis using specs len by (simp add: compile_strong_execution_def Let_def)
qed

lemma strong_bundle_valid:
  assumes "compile_strong_execution base delta = Inr b"
  shows "validate_strong_bundle b = Inr ()" "sb_base b = base" "sb_delta b = delta"
  using compile_strong_execution_Inr [OF assms] assms by (simp_all add: validate_strong_bundle_def)

section \<open>A concrete bundle\<close>

text \<open>
  A base and a delta with one entry each, both in row 0. The compiled state is written out, so
  that it is evaluated once and the checks run on its value.
\<close>

definition sample_base :: published_component where
  "sample_base = sample_component ''base'' [((0, 0), 3)]"

definition sample_delta :: segmented_delta_state where
  "sample_delta = sdt_state (projr (advance_segmented_delta
     (projr (initialize_segmented_delta 2 2 2 2 100 ''v0'')) [] [\<lparr>se_row = 0, se_col = 1, se_value = 4\<rparr>] ''v1''))"

definition sample_strong_plan :: output_plan where
  "sample_strong_plan = (let base = projr (output_plan_for [sample_base]) in
     base\<lparr>shares := shares base @ projr (extra_shares (Some sample_delta) [])\<rparr>)"

definition strong_sample_state :: compile_state where
  "strong_sample_state =
    \<lparr>cs_inputs = [\<lparr>ci_id = ''ct-value-000000'', ci_role = ''value'', ci_length = 2\<rparr>, \<lparr>ci_id
    = ''ct-query-000000'', ci_role = ''query'', ci_length = 2\<rparr>, \<lparr>ci_id = ''ct-f1m-000000'', ci_role =
    ''f1m-mask'', ci_length = 2\<rparr>, \<lparr>ci_id = ''ct-value-000001'', ci_role = ''value'', ci_length =
    2\<rparr>, \<lparr>ci_id = ''ct-query-000001'', ci_role = ''query'', ci_length = 2\<rparr>, \<lparr>ci_id =
    ''ct-f1m-000001'', ci_role = ''f1m-mask'', ci_length = 2\<rparr>], cs_masks = [\<lparr>mask_id =
    ''pt-selection-000000'', mask_role = ''selection'', mask_length = 2, mask_values = [1, 0]\<rparr>, \<lparr>mask_id =
    ''pt-selection-000001'', mask_role = ''selection'', mask_length = 2, mask_values = [1, 0]\<rparr>], cs_nodes =
    [MultiplyCiphertexts ''ssa-product-000000'' ''ct-value-000000'' ''ct-query-000000'', Relinearize
    ''ssa-relinearized-000000'' ''ssa-product-000000'', MultiplyPlaintextMask ''ssa-selected-000000''
    ''ssa-relinearized-000000'' ''pt-selection-000000'', AddF1MMask ''ssa-masked-000000'' ''ssa-selected-000000''
    ''ct-f1m-000000'' ''opaque-zero-sum'', ReturnResult ''result-000000'' ''ssa-masked-000000'', MultiplyCiphertexts
    ''ssa-product-000001'' ''ct-value-000001'' ''ct-query-000001'', Relinearize ''ssa-relinearized-000001''
    ''ssa-product-000001'', Rotate ''ssa-rotate-000001-000001'' ''ssa-relinearized-000001'' 1 1, AddCiphertexts
    ''ssa-segment-sum-000001-000002'' ''ssa-relinearized-000001'' ''ssa-rotate-000001-000001'', MultiplyPlaintextMask
    ''ssa-selected-000001'' ''ssa-segment-sum-000001-000002'' ''pt-selection-000001'', AddF1MMask ''ssa-masked-000001''
    ''ssa-selected-000001'' ''ct-f1m-000001'' ''opaque-zero-sum'', ReturnResult ''result-000001''
    ''ssa-masked-000001''], cs_result_ids = [''result-000000'', ''result-000001''], cs_specs =
    [\<lparr>value_ciphertext_id = ''ct-value-000000'', query_ciphertext_id = ''ct-query-000000'', source_kind =
    PublishedChunk, source_ordinal = 0, spec_result_id = ''result-000000'', spec_values = [3, 0], spec_columns = [0, -
    1]\<rparr>, \<lparr>value_ciphertext_id = ''ct-value-000001'', query_ciphertext_id = ''ct-query-000001'',
    source_kind = SegmentedDeltaPage, source_ordinal = 0, spec_result_id = ''result-000001'', spec_values = [4, 0],
    spec_columns = [1, - 1]\<rparr>], cs_routes = [\<lparr>rr_result_id = ''result-000000'', f1m_ciphertext_id = Some
    ''ct-f1m-000000'', rr_component_id = ''base'', rr_output_block_id = ''base-h000000''\<rparr>, \<lparr>rr_result_id =
    ''result-000001'', f1m_ciphertext_id = Some ''ct-f1m-000001'', rr_component_id = ''strong-packed-coo-delta'',
    rr_output_block_id = ''page-000000''\<rparr>], cs_shifts = [1], cs_operand = 2, cs_result = 2\<rparr>"

definition strong_sample_program :: cloud_program where
  "strong_sample_program = program_of 2 strong_sample_state"

lemma sample_strong_sources: "validated_sources [sample_base] (Some sample_delta) [] = Inr ([sample_base], [])"
  by code_simp

lemma sample_slots: "ls_effective_slots (layout_spec sample_base) = 2"
  by code_simp

lemma sample_compile_sources:
  "compile_sources 2 (\<lambda>i. True) [sample_base] (Some sample_delta) [] = Inr strong_sample_state"
  by code_simp

lemma sample_plans: "\<exists>base extra. output_plan_for [sample_base] = Inr base \<and>
    extra_shares (Some sample_delta) [] = Inr extra \<and> sample_strong_plan = base\<lparr>shares := shares base @ extra\<rparr>"
proof -
  have "\<not> isl (output_plan_for [sample_base])" "\<not> isl (extra_shares (Some sample_delta) [])" by code_simp+
  then show ?thesis by (cases "output_plan_for [sample_base]"; cases "extra_shares (Some sample_delta) []")
    (simp_all add: sample_strong_plan_def Let_def)
qed

lemma sample_plan_valid: "\<not> isl (validate_output_plan sample_strong_plan)"
  by code_simp

lemma sample_routes_distinct: "distinct (map route_share_id (cs_routes strong_sample_state))"
  by code_simp

lemma sample_routes_complete:
  "set (map route_share_id (cs_routes strong_sample_state)) = set (map share_id (shares sample_strong_plan))"
  by code_simp

lemma sample_routes_ids: "map rr_result_id (cs_routes strong_sample_state) = result_ids strong_sample_program"
  by code_simp

lemma sample_routes_masked:
  "set (map rr_result_id (filter (\<lambda>r. f1m_ciphertext_id r \<noteq> None) (cs_routes strong_sample_state))) = set (result_ids strong_sample_program)"
  by code_simp

lemma strong_sample_program_valid:
  "validate_program strong_sample_program (Some (masked_return_result_ids strong_sample_program)) = Inr ()"
  "validate_cloud_program strong_sample_program = Inr ()"
  by code_simp+

lemma sample_version: "valid_id (version_id sample_base)"
  by code_simp

lemma sample_strong_compiles: "compiles_to UniformRandomOrZero [sample_base] (Some sample_delta) []"
proof -
  obtain base extra where "output_plan_for [sample_base] = Inr base" "extra_shares (Some sample_delta) [] = Inr extra"
      and plan: "sample_strong_plan = base\<lparr>shares := shares base @ extra\<rparr>"
    using sample_plans by blast
  moreover obtain m where "validate_output_plan sample_strong_plan = Inr m"
    using sample_plan_valid by (cases "validate_output_plan sample_strong_plan") auto
  ultimately show ?thesis
    unfolding compiles_to_def list.sel sample_slots
    by (simp add: sample_compile_sources strong_sample_program_def [symmetric] sample_version strong_sample_program_valid
        sample_routes_distinct sample_routes_complete [unfolded plan] sample_routes_ids sample_routes_masked
        del: set_map not_None_eq)
qed

lemma sample_strong_entries:
  "component_entries sample_base @ delta_entries sample_delta = [((0, 0), 3), ((0, 1), 4)]"
  "ls_rows (layout_spec sample_base) = 2" "ls_cols (layout_spec sample_base) = 2"
  by code_simp+

lemma sample_strong_bundle:
  "\<exists>b. validate_strong_bundle b = Inr () \<and> sb_base b = sample_base \<and> sb_delta b = sample_delta"
proof -
  obtain q where "compile_query [sample_base] (Some sample_delta) [] UniformRandomOrZero = Inr q"
    using compile_query_returns [OF sample_strong_sources sample_strong_compiles] by blast
  then obtain b where "compile_strong_execution sample_base sample_delta = Inr b" using strong_compiles by blast
  then show ?thesis using strong_bundle_valid by blast
qed

lemma sample_strong_lifecycle:
  assumes "validate_strong_bundle b = Inr ()" and "sb_base b = sample_base"
  shows "\<exists>r l'. execute_strong_query_lifecycle (\<lambda>_. 1) run_token b ''q1'' [5, 6] 97 empty_ledger = (Inr r, l') \<and> ledger_ok l'"
proof -
  have "valid_id ''q1''" by code_simp
  with assms show ?thesis
    using strong_lifecycle_total [OF assms(1), of "''q1''" "[5, 6]" 97 "\<lambda>_. 1" run_token empty_ledger]
      run_token_valid sample_ledger_fresh sample_strong_entries(3) by auto
qed

end
