(* ===== verification/Strong_Properties.thy ===== *)
theory Strong_Properties
  imports Sample_Strong
begin

text \<open>
  The properties of the strong lifecycle: it computes the product of base and delta, it returns,
  its fast path is the checked path, its read-only replay agrees, and a batch is executed once.
\<close>

section \<open>The lifecycle computes the product\<close>

text \<open>
  C6. The correctness of the strong protocol. Whenever the strong lifecycle returns, its output is
  the product, modulo the plaintext modulus, of the vector with the matrix that the base and the
  packed delta hold together; and no coordinate is in both.
\<close>

theorem strong_lifecycle_computes_spmv:
  assumes "execute_strong_query_lifecycle rng token b query_id x t l = (Inr r, l')"
  shows "direct_spmv (component_entries (sb_base b) @ delta_entries (sb_delta b)) x
      (ls_rows (layout_spec (sb_base b))) (ls_cols (layout_spec (sb_base b))) t = Inr (lr_output r) \<and>
    distinct (map fst (component_entries (sb_base b) @ delta_entries (sb_delta b)))"
  using assms by (rule strong_lifecycle_spmv)

theorem strong_lifecycle_computes_spmv_witness:
  "\<exists>b r l'. execute_strong_query_lifecycle (\<lambda>_. 1) run_token b ''q1'' [5, 6] 97 empty_ledger = (Inr r, l') \<and>
     lr_output r = [39, 0]"
proof -
  obtain b where b: "validate_strong_bundle b = Inr ()" "sb_base b = sample_base" "sb_delta b = sample_delta"
    using sample_strong_bundle by blast
  obtain r l' where r: "execute_strong_query_lifecycle (\<lambda>_. 1) run_token b ''q1'' [5, 6] 97 empty_ledger = (Inr r, l')"
    using sample_strong_lifecycle [OF b(1,2)] by blast
  have "direct_spmv (component_entries (sb_base b) @ delta_entries (sb_delta b)) [5, 6]
      (ls_rows (layout_spec (sb_base b))) (ls_cols (layout_spec (sb_base b))) 97 = Inr (lr_output r)"
    using strong_lifecycle_computes_spmv [OF r] by blast
  then have "lr_output r = [39, 0]"
    unfolding b sample_strong_entries by (simp add: direct_spmv_eq spmv_terms_def py_range_def numeral_2_eq_2)
  then show ?thesis using r by blast
qed

text \<open>
  C7. The strong lifecycle returns: a valid bundle, a vector of the base's width, a modulus of at
  least two with samples within it, and a ledger that knows neither the query nor the token.
\<close>

theorem strong_lifecycle_returns:
  assumes "validate_strong_bundle b = Inr ()" and "valid_id query_id"
    and "int (length x) = ls_cols (layout_spec (sb_base b))" and "2 \<le> t"
    and "\<forall>i. 0 \<le> rng i \<and> rng i < t" and "valid_sha256 token" and "ledger_fresh query_id token l"
  shows "\<exists>r l'. execute_strong_query_lifecycle rng token b query_id x t l = (Inr r, l') \<and>
    token \<in> consumed_tokens l' \<and> ledger_ok l'"
  using assms by (rule strong_lifecycle_total)

theorem strong_lifecycle_returns_witness:
  "\<exists>b r l'. validate_strong_bundle b = Inr () \<and>
     execute_strong_query_lifecycle (\<lambda>i. int i mod 97) run_token b ''q1'' [5, 6] 97 empty_ledger = (Inr r, l') \<and>
     run_token \<in> consumed_tokens l'"
proof -
  obtain b where b: "validate_strong_bundle b = Inr ()" "sb_base b = sample_base"
    using sample_strong_bundle by blast
  have "valid_id ''q1''" by code_simp
  then have "\<exists>r l'. execute_strong_query_lifecycle (\<lambda>i. int i mod 97) run_token b ''q1'' [5, 6] 97 empty_ledger =
      (Inr r, l') \<and> run_token \<in> consumed_tokens l' \<and> ledger_ok l'"
    using run_token_valid sample_ledger_fresh
    by (intro strong_lifecycle_returns [OF b(1)]) (simp_all add: b(2) sample_strong_entries)
  then show ?thesis using b(1) by blast
qed

section \<open>The fast path is the checked path\<close>

lemma strong_prepare_modulus:
  assumes "prepare_strong_for_validated_bundle rng token b query_id x t l = (Inr p, l')"
  shows "2 \<le> t"
  using assms by (auto simp: prepare_strong_for_validated_bundle_def sbind_Inr slift_def split: if_splits)

text \<open>
  C8. The strong lifecycle, which validates its bundle once and its prepared query not at all, has
  on every input and ledger the outcome and the effect of the two public operations run one after
  the other, each of which validates the bundle and the prepared query again.
\<close>

theorem strong_lifecycle_is_checked:
  assumes "validate_strong_bundle b = Inr ()"
  shows "execute_strong_query_lifecycle rng token b query_id x t l =
    sbind (prepare_strong_query rng token b query_id x t) (\<lambda>p.
    sbind (execute_strong_plaintext b p t) (\<lambda>out.
    slift (Inr \<lparr>lr_prepared = p, lr_preparation_bytes = strong_preparation_bytes p, lr_output = out\<rparr>))) l"
proof -
  obtain q where q: "strong_of b q" using assms by (rule validate_strong_bundle_Inr)
  obtain r l1 where run: "prepare_strong_for_validated_bundle rng token b query_id x t l = (r, l1)"
    by (cases "prepare_strong_for_validated_bundle rng token b query_id x t l") blast
  show ?thesis
  proof (cases r)
    case (Inl e)
    then show ?thesis using run assms
      by (simp add: execute_strong_query_lifecycle_def prepare_strong_query_def sbind_slift sbind_run_Inl)
  next
    case (Inr p)
    note p = strong_prepare_is_valid [OF q run [unfolded Inr]]
    have "2 \<le> t" using run strong_prepare_modulus unfolding Inr by blast
    then have "execute_strong_plaintext b p t l1 =
        sbind (consume_strong_query b p) (\<lambda>_. slift (execute_strong_for_validated_query b p t)) l1"
      using p assms by (simp add: execute_strong_plaintext_def strong_modulus_ok_def sbind_slift)
    then show ?thesis using p run assms
      by (simp add: Inr execute_strong_query_lifecycle_def prepare_strong_query_def sbind_slift sbind_run)
        (simp add: sbind_def split: prod.split sum.split)
  qed
qed

theorem strong_lifecycle_is_checked_witness:
  "\<exists>b. validate_strong_bundle b = Inr () \<and>
     execute_strong_query_lifecycle (\<lambda>_. 1) run_token b ''q1'' [5, 6] 97 empty_ledger =
     sbind (prepare_strong_query (\<lambda>_. 1) run_token b ''q1'' [5, 6] 97) (\<lambda>p.
     sbind (execute_strong_plaintext b p 97) (\<lambda>out.
     slift (Inr \<lparr>lr_prepared = p, lr_preparation_bytes = strong_preparation_bytes p, lr_output = out\<rparr>))) empty_ledger"
proof -
  obtain b where b: "validate_strong_bundle b = Inr ()" using sample_strong_bundle by blast
  show ?thesis using b strong_lifecycle_is_checked [OF b] by blast
qed

section \<open>Replay and second execution\<close>

text \<open>
  C9. The strong read-only replay. After a strong lifecycle returned, the replay of its prepared
  query on the ledger it left passes every check and yields the lifecycle's output again.
\<close>

theorem strong_lifecycle_replays:
  assumes "execute_strong_query_lifecycle rng token b query_id x t l = (Inr r, l')"
  shows "replay_strong_plaintext_read_only b (lr_prepared r) t l' = Inr (lr_output r)"
proof -
  obtain l1 where v: "validate_strong_bundle b = Inr ()"
    and prep: "prepare_strong_for_validated_bundle rng token b query_id x t l = (Inr (lr_prepared r), l1)"
    and consume: "verify_and_consume_prepared_f1m (prepared_f1m_commitments (pr_f1m_operands (lr_prepared r)))
      (pr_ledger_commitment_token (lr_prepared r)) (strong_prepared_key b (lr_prepared r)) l1 = Inr l'"
    and run: "execute_strong_for_validated_query b (lr_prepared r) t = Inr (lr_output r)"
    using strong_lifecycle_Inr [OF assms] by blast
  obtain q where q: "strong_of b q" using v by (rule validate_strong_bundle_Inr)
  have "2 \<le> t" using prep by (rule strong_prepare_modulus)
  then show ?thesis
    using v strong_prepare_is_valid [OF q prep] consume_verified [OF consume] run
    by (simp add: replay_strong_plaintext_read_only_def verify_strong_query_def strong_modulus_ok_def rewrap_def)
qed

theorem strong_lifecycle_replays_witness:
  "\<exists>b r l'. execute_strong_query_lifecycle (\<lambda>_. 1) run_token b ''q1'' [5, 6] 97 empty_ledger = (Inr r, l') \<and>
     replay_strong_plaintext_read_only b (lr_prepared r) 97 l' = Inr (lr_output r)"
proof -
  obtain b where b: "validate_strong_bundle b = Inr ()" "sb_base b = sample_base"
    using sample_strong_bundle by blast
  obtain r l' where "execute_strong_query_lifecycle (\<lambda>_. 1) run_token b ''q1'' [5, 6] 97 empty_ledger = (Inr r, l')"
    using sample_strong_lifecycle [OF b] by blast
  then show ?thesis using strong_lifecycle_replays by blast
qed

text \<open>
  C10. No second strong execution. Once a strong lifecycle returned, no execution of a prepared
  query that presents its token succeeds on the ledger it left or on one reached from there by
  further transactions, and none changes that ledger.
\<close>

theorem strong_executed_once:
  assumes "execute_strong_query_lifecycle rng token b query_id x t l = (Inr r, l1)"
    and "ledger_ok l1" and "ledger_run l1 ops l2"
    and "pr_ledger_commitment_token p = pr_ledger_commitment_token (lr_prepared r)"
  shows "\<exists>e. execute_strong_plaintext b' p t' l2 = (Inl e, l2)"
proof -
  obtain l0 where c: "verify_and_consume_prepared_f1m (prepared_f1m_commitments (pr_f1m_operands (lr_prepared r)))
      (pr_ledger_commitment_token (lr_prepared r)) (strong_prepared_key b (lr_prepared r)) l0 = Inr l1"
    using strong_lifecycle_Inr [OF assms(1)] by blast
  have "consumed_tokens l1 \<subseteq> consumed_tokens l2" using run_invariant [OF assms(3,2)] by blast
  then obtain e where "verify_and_consume_prepared_f1m (prepared_f1m_commitments (pr_f1m_operands p))
      (pr_ledger_commitment_token p) (strong_prepared_key b' p) l2 = Inl e"
    using cl.consume_once [OF c] unfolding assms(4) by blast
  then show ?thesis
    by (auto simp: execute_strong_plaintext_def consume_strong_query_def transact_unit_def sbind_def slift_def
        split: sum.splits)
qed

theorem strong_executed_once_witness:
  "\<exists>b r l'. execute_strong_query_lifecycle (\<lambda>_. 1) run_token b ''q1'' [5, 6] 97 empty_ledger = (Inr r, l') \<and>
     (\<exists>e. execute_strong_plaintext b (lr_prepared r) 97 l' = (Inl e, l'))"
proof -
  obtain b where b: "validate_strong_bundle b = Inr ()" "sb_base b = sample_base"
    using sample_strong_bundle by blast
  obtain r l' where r: "execute_strong_query_lifecycle (\<lambda>_. 1) run_token b ''q1'' [5, 6] 97 empty_ledger = (Inr r, l')"
    and ok: "ledger_ok l'"
    using sample_strong_lifecycle [OF b] by blast
  have "\<exists>e. execute_strong_plaintext b (lr_prepared r) 97 l' = (Inl e, l')"
    by (rule strong_executed_once [OF r ok run_nil refl])
  then show ?thesis using r by blast
qed

end
