(* ===== verification/Fill_Facts.thy ===== *)
theory Fill_Facts
  imports Component_Facts
begin

text \<open>
  The lanes of one published chunk in closed form: lane \<open>s\<close> of a rectangle of height \<open>h\<close> that
  starts at a column holds the cell of physical row \<open>s mod h\<close> at rank \<open>column + s div h\<close>, and
  the lanes past the rectangle are a tail.
\<close>

section \<open>Cells\<close>

type_synonym cell = "int \<times> int \<times> coord option \<times> int option \<times> lane_kind"

definition cell :: "(int \<times> int) list list \<Rightarrow> int list \<Rightarrow> int \<Rightarrow> int \<Rightarrow> cell" where
  "cell ents caps row rank =
     (if caps ! nat row \<le> rank then (0, -1, None, Some row, NaturalPadding)
      else if int (length (ents ! nat row)) \<le> rank then (0, -1, None, Some row, Reserved)
      else let (gc, v) = ents ! nat row ! nat rank in (v, gc, Some (row, gc), Some row, Actual))"

definition tail_cell :: cell where
  "tail_cell = (0, -1, None, None, Tail)"

text \<open>The lane \<open>s\<close> once the first \<open>n\<close> lanes are filled.\<close>

definition filled ::
  "(int \<times> int) list list \<Rightarrow> int list \<Rightarrow> int list \<Rightarrow> int \<Rightarrow> nat \<Rightarrow> nat \<Rightarrow> nat \<Rightarrow> cell"
where
  "filled ents caps rowmap column h n s =
     (if s < n then cell ents caps (rowmap ! (s mod h)) (column + int (s div h)) else tail_cell)"

definition cell_lane :: "nat \<Rightarrow> cell \<Rightarrow> lane_row" where
  "cell_lane s c = (int s, c)"

text \<open>What a lane contributes to the two indices of the component.\<close>

definition lane_placement :: "string \<Rightarrow> string \<Rightarrow> lane_row \<Rightarrow> (coord \<times> slot_location) list" where
  "lane_placement cid chid = (\<lambda>(s, _, _, coordinate, _, k).
     case coordinate of Some rc \<Rightarrow> if k = Actual then [(rc, cid, chid, s)] else [] | None \<Rightarrow> [])"

definition lane_available ::
  "string \<Rightarrow> string \<Rightarrow> lane_row \<Rightarrow> (int \<times> lane_kind \<times> slot_location) list"
where
  "lane_available cid chid = (\<lambda>(s, _, _, _, ow, k).
     case ow of Some r \<Rightarrow> if k = Tombstone \<or> k = NaturalPadding \<or> k = Reserved
       then [(r, k, cid, chid, s)] else [] | None \<Rightarrow> [])"

definition lane_kind_of :: "lane_row \<Rightarrow> lane_kind" where
  "lane_kind_of = (\<lambda>(_, _, _, _, _, k). k)"

definition kind_count :: "lane_kind \<Rightarrow> lane_row list \<Rightarrow> int" where
  "kind_count k ls = int (length (filter (\<lambda>l. lane_kind_of l = k) ls))"

lemma kind_count_simps [simp]: "kind_count k [] = 0"
  "kind_count k (ls @ ms) = kind_count k ls + kind_count k ms"
  "kind_count k (l # ls) = (if lane_kind_of l = k then 1 else 0) + kind_count k ls"
  by (simp_all add: kind_count_def)

definition filled_lanes ::
  "(int \<times> int) list list \<Rightarrow> int list \<Rightarrow> int list \<Rightarrow> int \<Rightarrow> nat \<Rightarrow> nat \<Rightarrow> lane_row list"
where
  "filled_lanes ents caps rowmap column h n =
     map (\<lambda>s. cell_lane s (filled ents caps rowmap column h n s)) [0..<n]"

definition fill_of ::
  "string \<Rightarrow> string \<Rightarrow> (int \<times> int) list list \<Rightarrow> int list \<Rightarrow> int list \<Rightarrow> int \<Rightarrow> nat \<Rightarrow> nat \<Rightarrow>
     (coord \<times> slot_location) list \<Rightarrow> (int \<times> lane_kind \<times> slot_location) list \<Rightarrow> nat \<Rightarrow> fill_state"
where
  "fill_of cid chid ents caps rowmap column h slots P A n =
     (let c = filled ents caps rowmap column h n; ls = filled_lanes ents caps rowmap column h n in
      \<lparr>f_values = map (\<lambda>s. fst (c s)) [0..<slots],
       f_columns = map (\<lambda>s. fst (snd (c s))) [0..<slots],
       f_coordinates = map (\<lambda>s. fst (snd (snd (c s)))) [0..<slots],
       f_owner_rows = map (\<lambda>s. fst (snd (snd (snd (c s))))) [0..<slots],
       f_kinds = map (\<lambda>s. snd (snd (snd (snd (c s))))) [0..<slots],
       f_used = kind_count Actual ls, f_reserved = kind_count Reserved ls,
       f_placements = P @ concat (map (lane_placement cid chid) ls),
       f_available = A @ concat (map (lane_available cid chid) ls)\<rparr>)"

section \<open>One lane at a time\<close>

lemma list_update_map_upt:
  "n < N \<Longrightarrow> (\<And>s. s \<noteq> n \<Longrightarrow> g s = f s) \<Longrightarrow> (map f [0..<N])[n := x] = map g [0..<N] \<longleftrightarrow> g n = x"
  by (auto simp: list_eq_iff_nth_eq nth_list_update)

lemma map_upt_same:
  "(\<And>s. s \<noteq> n \<Longrightarrow> g s = f s) \<Longrightarrow> g n = f n \<Longrightarrow> map f [0..<N] = map g [0..<N]"
  by (intro map_cong refl) metis

lemma filled_Suc:
  "filled ents caps rowmap column h (Suc n) s =
     (if s = n then cell ents caps (rowmap ! (n mod h)) (column + int (n div h))
      else filled ents caps rowmap column h n s)"
  by (auto simp: filled_def)

lemma filled_lanes_Suc:
  "filled_lanes ents caps rowmap column h (Suc n) =
     filled_lanes ents caps rowmap column h n @
       [cell_lane n (cell ents caps (rowmap ! (n mod h)) (column + int (n div h)))]"
proof -
  have "map (\<lambda>s. cell_lane s (filled ents caps rowmap column h (Suc n) s)) [0..<n] =
      map (\<lambda>s. cell_lane s (filled ents caps rowmap column h n s)) [0..<n]"
    by (intro map_cong) (simp_all add: filled_Suc)
  then show ?thesis by (simp add: filled_lanes_def filled_Suc)
qed

lemma place_lane_step:
  assumes "n < slots" and "0 < h"
  shows "place_lane cid chid ents caps rowmap column h (fill_of cid chid ents caps rowmap column h slots P A n)
      (n div h, n mod h) = fill_of cid chid ents caps rowmap column h slots P A (Suc n)"
proof -
  let ?f = "filled ents caps rowmap column h n" and ?g = "filled ents caps rowmap column h (Suc n)"
  let ?row = "rowmap ! (n mod h)" and ?rank = "column + int (n div h)"
  have slot: "n div h * h + n mod h = n" by simp
  have upd: "(map (\<lambda>s. \<pi> (?f s)) [0..<slots])[n := x] = map (\<lambda>s. \<pi> (?g s)) [0..<slots] \<longleftrightarrow>
      \<pi> (cell ents caps ?row ?rank) = x" for \<pi> :: "cell \<Rightarrow> 'x" and x
    using list_update_map_upt [OF assms(1), of "\<lambda>s. \<pi> (?g s)" "\<lambda>s. \<pi> (?f s)" x]
    by (simp add: filled_Suc)
  have same: "map (\<lambda>s. \<pi> (?f s)) [0..<slots] = map (\<lambda>s. \<pi> (?g s)) [0..<slots]"
    if "\<pi> (cell ents caps ?row ?rank) = \<pi> tail_cell" for \<pi> :: "cell \<Rightarrow> 'x"
    using that by (intro map_upt_same [of n]) (simp_all add: filled_Suc filled_def)
  note U = upd [of fst] upd [of "\<lambda>c. fst (snd c)"] upd [of "\<lambda>c. fst (snd (snd c))"]
    upd [of "\<lambda>c. fst (snd (snd (snd c)))"] upd [of "\<lambda>c. snd (snd (snd (snd c)))"]
  note S = same [of fst] same [of "\<lambda>c. fst (snd c)"] same [of "\<lambda>c. fst (snd (snd c))"]
  show ?thesis
  proof (cases "caps ! nat ?row \<le> ?rank")
    case True
    then have c: "cell ents caps ?row ?rank = (0, -1, None, Some ?row, NaturalPadding)" by (simp add: cell_def)
    show ?thesis using True
      by (simp add: place_lane_def Let_def fill_of_def slot U S c tail_cell_def filled_lanes_Suc
          lane_placement_def lane_available_def cell_lane_def lane_kind_of_def del: map_eq_conv)
  next
    case caps: False
    show ?thesis
    proof (cases "int (length (ents ! nat ?row)) \<le> ?rank")
      case True
      then have c: "cell ents caps ?row ?rank = (0, -1, None, Some ?row, Reserved)" using caps by (simp add: cell_def)
      show ?thesis using True caps
        by (simp add: place_lane_def Let_def fill_of_def slot U S c tail_cell_def filled_lanes_Suc
            lane_placement_def lane_available_def cell_lane_def lane_kind_of_def del: map_eq_conv)
    next
      case False
      obtain gc v where e: "ents ! nat ?row ! nat ?rank = (gc, v)" by (cases "ents ! nat ?row ! nat ?rank")
      have c: "cell ents caps ?row ?rank = (v, gc, Some (?row, gc), Some ?row, Actual)"
        using caps False e by (simp add: cell_def)
      show ?thesis using False caps e
        by (simp add: place_lane_def Let_def fill_of_def slot U c filled_lanes_Suc
            lane_placement_def lane_available_def cell_lane_def lane_kind_of_def del: map_eq_conv)
    qed
  qed
qed

section \<open>The chunk\<close>

lemma rectangle_eq:
  assumes "0 < h"
  shows "rectangle w h = map (\<lambda>s. (s div h, s mod h)) [0..<w * h]"
proof (induction w)
  case 0
  then show ?case by (simp add: rectangle_def)
next
  case (Suc w)
  have "map (\<lambda>s. (s div h, s mod h)) [w * h..<w * h + h] = map (\<lambda>r. (w, r)) [0..<h]"
    using assms by (auto simp: list_eq_iff_nth_eq)
  moreover have "[0..<Suc w * h] = [0..<w * h] @ [w * h..<w * h + h]"
    using upt_add_eq_append [of 0 "w * h" h] by (simp add: add.commute)
  ultimately show ?case using Suc by (simp add: rectangle_def)
qed

lemma place_lanes_eq:
  assumes "0 < h" and "n \<le> slots"
  shows "foldl (place_lane cid chid ents caps rowmap column h)
      (fill_of cid chid ents caps rowmap column h slots P A 0) (map (\<lambda>s. (s div h, s mod h)) [0..<n]) =
    fill_of cid chid ents caps rowmap column h slots P A n"
  using assms(2)
proof (induction n)
  case 0
  then show ?case by simp
next
  case (Suc n)
  then show ?case using place_lane_step [OF _ assms(1), of n slots] by simp
qed

lemma empty_fill_eq:
  "empty_fill (int slots) P A = fill_of cid chid ents caps rowmap column h slots P A 0"
  by (simp add: empty_fill_def fill_of_def filled_def filled_lanes_def tail_cell_def map_replicate_const)

definition published_chunk ::
  "string \<Rightarrow> nat \<Rightarrow> (int \<times> int) list list \<Rightarrow> int list \<Rightarrow> int list \<Rightarrow> int \<Rightarrow> nat \<Rightarrow> nat \<Rightarrow> value_chunk"
where
  "published_chunk chid slots ents caps rowmap column w h =
     (let c = filled ents caps rowmap column h (w * h);
          ls = filled_lanes ents caps rowmap column h (w * h) in
      \<lparr>chunk_id = chid, start_column = column, width = int w, height = int h,
       used_slots = kind_count Actual ls, reserved_slots = kind_count Reserved ls,
       rectangular_slots = int h * int w,
       vc_values = map (\<lambda>s. fst (c s)) [0..<slots],
       column_indices = map (\<lambda>s. fst (snd (c s))) [0..<slots],
       slot_coordinates = map (\<lambda>s. fst (snd (snd (c s)))) [0..<slots],
       slot_owner_rows = map (\<lambda>s. fst (snd (snd (snd (c s))))) [0..<slots],
       slot_kinds = map (\<lambda>s. snd (snd (snd (snd (c s))))) [0..<slots]\<rparr>)"

lemma published_chunk_fields [simp]:
  "chunk_id (published_chunk chid slots ents caps rowmap column w h) = chid"
  "start_column (published_chunk chid slots ents caps rowmap column w h) = column"
  "width (published_chunk chid slots ents caps rowmap column w h) = int w"
  "height (published_chunk chid slots ents caps rowmap column w h) = int h"
  "rectangular_slots (published_chunk chid slots ents caps rowmap column w h) = int h * int w"
  "length (vc_values (published_chunk chid slots ents caps rowmap column w h)) = slots"
  "length (column_indices (published_chunk chid slots ents caps rowmap column w h)) = slots"
  "length (slot_coordinates (published_chunk chid slots ents caps rowmap column w h)) = slots"
  "length (slot_owner_rows (published_chunk chid slots ents caps rowmap column w h)) = slots"
  "length (slot_kinds (published_chunk chid slots ents caps rowmap column w h)) = slots"
  by (simp_all add: published_chunk_def Let_def)

lemma zip_cells:
  "zip (map int [0..<n]) (zip (map (\<lambda>s. fst (c s)) [0..<n]) (zip (map (\<lambda>s. fst (snd (c s))) [0..<n])
    (zip (map (\<lambda>s. fst (snd (snd (c s)))) [0..<n]) (zip (map (\<lambda>s. fst (snd (snd (snd (c s))))) [0..<n])
      (map (\<lambda>s. snd (snd (snd (snd (c s))))) [0..<n]))))) = map (\<lambda>s. cell_lane s (c s)) [0..<n]"
  by (simp_all add: list_eq_iff_nth_eq cell_lane_def)

lemma published_chunk_lanes:
  "chunk_lanes (published_chunk chid slots ents caps rowmap column w h) =
     map (\<lambda>s. cell_lane s (filled ents caps rowmap column h (w * h) s)) [0..<slots]"
  unfolding chunk_lanes_def published_chunk_fields
  by (simp add: published_chunk_def Let_def zip_cells)

text \<open>The tail lanes contribute nothing, so sums over the rectangle are sums over the chunk.\<close>

lemma published_chunk_split:
  assumes "w * h \<le> slots"
  shows "chunk_lanes (published_chunk chid slots ents caps rowmap column w h) =
    filled_lanes ents caps rowmap column h (w * h) @ map (\<lambda>s. cell_lane s tail_cell) [w * h..<slots]"
proof -
  have "[0..<slots] = [0..<w * h] @ [w * h..<slots]"
    using assms upt_add_eq_append [of 0 "w * h" "slots - w * h"] by simp
  then show ?thesis
    by (simp add: published_chunk_lanes filled_lanes_def filled_def)
qed

lemma tail_lane [simp]:
  "lane_placement cid chid (cell_lane s tail_cell) = []" "lane_available cid chid (cell_lane s tail_cell) = []"
  "lane_entry (cell_lane s tail_cell) = []" "lane_kind_of (cell_lane s tail_cell) = Tail"
  by (simp_all add: lane_placement_def lane_available_def lane_entry_def lane_kind_of_def cell_lane_def tail_cell_def)

lemma concat_tail: "(\<And>s. f (cell_lane s tail_cell) = []) \<Longrightarrow> concat (map f (map (\<lambda>s. cell_lane s tail_cell) xs)) = []"
  by (induction xs) simp_all

lemma kind_count_tail [simp]: "k \<noteq> Tail \<Longrightarrow> kind_count k (map (\<lambda>s. cell_lane s tail_cell) xs) = 0"
  by (induction xs) simp_all

lemma published_chunk_sums:
  fixes ents :: "(int \<times> int) list list" and caps rowmap :: "int list" and column :: int and chid :: string
  assumes "w * h \<le> slots"
  defines "ch \<equiv> published_chunk chid slots ents caps rowmap column w h"
    and "ls \<equiv> filled_lanes ents caps rowmap column h (w * h)"
  shows "concat (map (lane_placement cid chid') (chunk_lanes ch)) = concat (map (lane_placement cid chid') ls)"
    and "concat (map (lane_available cid chid') (chunk_lanes ch)) = concat (map (lane_available cid chid') ls)"
    and "chunk_entries ch = concat (map lane_entry ls)"
    and "used_slots ch = kind_count Actual (chunk_lanes ch)"
    and "reserved_slots ch = kind_count Reserved (chunk_lanes ch)"
  unfolding ch_def ls_def chunk_entries_def published_chunk_split [OF assms(1)] map_append concat_append
  by (simp_all add: concat_tail published_chunk_def Let_def)

lemma make_chunk_eq:
  fixes ents :: "(int \<times> int) list list" and caps rowmap :: "int list" and column :: int and chid :: string
  assumes "0 < h" and "w * h \<le> slots"
  defines "ch \<equiv> published_chunk chid slots ents caps rowmap column w h"
  shows "make_chunk cid chid (int slots) ents caps rowmap column (int w) (int h) P A =
    (ch, P @ concat (map (lane_placement cid chid) (chunk_lanes ch)),
     A @ concat (map (lane_available cid chid) (chunk_lanes ch)))"
  unfolding make_chunk_def Let_def nat_int rectangle_eq [OF assms(1)]
    empty_fill_eq [of slots P A cid chid ents caps rowmap column h] place_lanes_eq [OF assms(1,2)]
    ch_def published_chunk_sums [OF assms(2)]
  by (simp add: fill_of_def published_chunk_def Let_def)

section \<open>The chunks of a block\<close>

lemma foldl_max_ge: "(x :: int) \<le> foldl max x xs" "y \<in> set xs \<Longrightarrow> y \<le> foldl max x xs"
proof (induction xs arbitrary: x)
  case (Cons a xs)
  { case 1 then show ?case using Cons(1) [of "max x a"] by simp }
  { case 2 then show ?case using Cons(1) [of "max x a"] Cons(2) [of "max x a"] by auto }
qed simp_all

lemma foldl_max_mem: "foldl max x xs \<in> insert (x :: int) (set xs)"
proof (induction xs arbitrary: x)
  case (Cons a xs)
  then show ?case using Cons [of "max x a"] by (auto simp: max_def split: if_splits)
qed simp

lemma max_default_ge: "y \<in> set xs \<Longrightarrow> y \<le> max_default d xs"
  by (cases xs) (auto simp: max_default_def foldl_max_ge)

lemma max_default_mem: "xs \<noteq> [] \<Longrightarrow> max_default d xs \<in> set xs"
  using foldl_max_mem by (cases xs) (auto simp: max_default_def)

lemma max_default_nonneg: "\<forall>x \<in> set xs. 0 \<le> x \<Longrightarrow> 0 \<le> max_default 0 xs"
  using max_default_mem [of xs 0] by (cases "xs = []") (simp_all add: max_default_def)

lemma column_height_bounds:
  "column_height phys column \<le> int (length phys)"
  "0 \<le> column \<Longrightarrow> column < max_default 0 phys \<Longrightarrow> 1 \<le> column_height phys column"
proof -
  show "column_height phys column \<le> int (length phys)" by (simp add: column_height_def)
  assume lt: "0 \<le> column" "column < max_default 0 phys"
  then have "phys \<noteq> []" by (auto simp: max_default_def)
  then have "max_default 0 phys \<in> set (filter (\<lambda>c. c > column) phys)" using max_default_mem lt by simp
  then have "filter (\<lambda>c. c > column) phys \<noteq> []" by (metis empty_iff list.set(1))
  then have "0 < length (filter (\<lambda>c. c > column) phys)" by blast
  then show "1 \<le> column_height phys column" unfolding column_height_def by linarith
qed

text \<open>The width the loop computes is positive as long as the guard of the source holds.\<close>

lemma publish_chunk_width_pos:
  assumes "0 \<le> column" and "column < max_default 0 phys" and "int (length phys) \<le> slots"
  shows "0 < min (max_default 0 phys - column) (slots div column_height phys column)"
  using column_height_bounds(2) [OF assms(1,2)] column_height_bounds(1) [of phys column] assms
  by (simp add: pos_imp_zdiv_pos_iff)

text \<open>Chunks that tile the columns from a given one on, with consecutive identifiers.\<close>

primrec tiled ::
  "string \<Rightarrow> nat \<Rightarrow> (int \<times> int) list list \<Rightarrow> int list \<Rightarrow> int list \<Rightarrow> int list \<Rightarrow> value_chunk list \<Rightarrow>
     int \<Rightarrow> nat \<Rightarrow> bool"
where
  "tiled bid slots ents caps rowmap phys [] column k \<longleftrightarrow> column = max_default 0 phys"
| "tiled bid slots ents caps rowmap phys (ch # chs) column k \<longleftrightarrow>
     (\<exists>w h. ch = published_chunk (bid @ ''-c'' @ fmt06 k) slots ents caps rowmap column w h \<and>
        0 < w \<and> 0 < h \<and> w * h \<le> slots \<and> int h = column_height phys column \<and>
        int w = min (max_default 0 phys - column) (int slots div int h) \<and>
        tiled bid slots ents caps rowmap phys chs (column + int w) (Suc k))"

definition placements_of :: "string \<Rightarrow> value_chunk list \<Rightarrow> (coord \<times> slot_location) list" where
  "placements_of cid chs = concat (map (\<lambda>ch. concat (map (lane_placement cid (chunk_id ch)) (chunk_lanes ch))) chs)"

definition availables_of :: "string \<Rightarrow> value_chunk list \<Rightarrow> (int \<times> lane_kind \<times> slot_location) list" where
  "availables_of cid chs = concat (map (\<lambda>ch. concat (map (lane_available cid (chunk_id ch)) (chunk_lanes ch))) chs)"

lemma publish_chunks_tiled:
  assumes "0 \<le> column" and "column \<le> max_default 0 phys" and "length phys \<le> slots"
  shows "\<exists>chs. publish_chunks cid bid (int slots) ents caps rowmap phys (max_default 0 phys) column k acc P A =
      (acc @ chs, P @ placements_of cid chs, A @ availables_of cid chs) \<and>
    tiled bid slots ents caps rowmap phys chs column k"
  using assms(1,2)
proof (induction "nat (max_default 0 phys - column)" arbitrary: column k acc P A rule: less_induct)
  case less
  let ?m = "max_default 0 phys"
  show ?case
  proof (cases "column < ?m")
    case False
    then have "publish_chunks cid bid (int slots) ents caps rowmap phys ?m column k acc P A = (acc, P, A)"
      by (subst publish_chunks.simps) (simp add: Let_def)
    then show ?thesis using less.prems False
      by (intro exI [of _ "[]"]) (simp add: placements_of_def availables_of_def)
  next
    case True
    define h where "h = nat (column_height phys column)"
    define w where "w = nat (min (?m - column) (int slots div int h))"
    have h: "int h = column_height phys column" "0 < h" "h \<le> slots"
      using column_height_bounds(2) [OF less.prems(1) True] column_height_bounds(1) [of phys column] assms(3)
      by (simp_all add: h_def)
    have w: "int w = min (?m - column) (int slots div int h)" "0 < w"
      using publish_chunk_width_pos [OF less.prems(1) True, of "int slots"] assms(3) h(1)
      by (simp_all add: w_def)
    have "w \<le> slots div h" using w(1) by (simp flip: of_nat_div)
    then have wh: "w * h \<le> slots" using h(2) by (meson le_trans div_times_less_eq_dividend mult_le_mono1)
    let ?ch = "published_chunk (bid @ ''-c'' @ fmt06 k) slots ents caps rowmap column w h"
    let ?P = "P @ placements_of cid [?ch]" and ?A = "A @ availables_of cid [?ch]"
    have step: "publish_chunks cid bid (int slots) ents caps rowmap phys ?m column k acc P A =
        publish_chunks cid bid (int slots) ents caps rowmap phys ?m (column + int w) (Suc k) (acc @ [?ch]) ?P ?A"
    proof -
      have "column < ?m \<and> 0 < int w" using True w(2) by simp
      then show ?thesis
        by (subst publish_chunks.simps)
          (simp only: Let_def h(1) [symmetric] w(1) [symmetric] make_chunk_eq [OF h(2) wh] prod.case if_True
            simp_thms placements_of_def availables_of_def list.map concat.simps append_Nil2 published_chunk_fields)
    qed
    have "nat (?m - (column + int w)) < nat (?m - column)" using w(2) True by simp
    moreover have "0 \<le> column + int w" "column + int w \<le> ?m" using less.prems(1) w(1) by simp_all
    ultimately obtain chs where chs:
      "publish_chunks cid bid (int slots) ents caps rowmap phys ?m (column + int w) (Suc k) (acc @ [?ch]) ?P ?A =
        ((acc @ [?ch]) @ chs, ?P @ placements_of cid chs, ?A @ availables_of cid chs)"
      "tiled bid slots ents caps rowmap phys chs (column + int w) (Suc k)"
      using less.hyps by blast
    have "tiled bid slots ents caps rowmap phys (?ch # chs) column k"
      unfolding tiled.simps using chs(2) w h(1,2) wh by blast
    moreover have "placements_of cid (?ch # chs) = placements_of cid [?ch] @ placements_of cid chs"
      "availables_of cid (?ch # chs) = availables_of cid [?ch] @ availables_of cid chs"
      by (simp_all add: placements_of_def availables_of_def)
    ultimately show ?thesis
      unfolding step chs(1) by (intro exI [of _ "?ch # chs"]) simp
  qed
qed

end
