(* ===== verification/Layout_Facts.thy ===== *)
theory Layout_Facts
  imports Fill_Facts
begin

text \<open>
  Well-formed components, stated over the lanes themselves: every lane sits where the geometry
  of its rectangle says and is consistent in itself, the chunks of a block tile its columns, each
  row's capacity is the last rank it materializes, and the indices list exactly the lanes. The
  scans of \<open>query_compiler.py\<close> and \<open>strategy_state.py\<close> accept every such component.
\<close>

section \<open>Well-formed lanes, chunks and blocks\<close>

definition lane_content_ok :: "layout_spec \<Rightarrow> lane_row \<Rightarrow> bool" where
  "lane_content_ok sp = (\<lambda>(_, v, column, coordinate, ow, k). case (k, ow) of
       (Actual, Some r) \<Rightarrow> coordinate = Some (r, column) \<and> v \<noteq> 0 \<and> 0 \<le> r \<and> r < ls_rows sp \<and>
          0 \<le> column \<and> column < ls_cols sp
     | (Tombstone, Some r) \<Rightarrow> coordinate = None \<and> v = 0 \<and> 0 \<le> column \<and> column < ls_cols sp
     | (NaturalPadding, Some r) \<Rightarrow> coordinate = None \<and> v = 0 \<and> column = - 1
     | (Reserved, Some r) \<Rightarrow> coordinate = None \<and> v = 0 \<and> column = - 1
     | (Tail, None) \<Rightarrow> coordinate = None \<and> v = 0 \<and> column = - 1
     | _ \<Rightarrow> False)"

definition lane_good :: "layout_spec \<Rightarrow> output_block_layout \<Rightarrow> value_chunk \<Rightarrow> lane_row \<Rightarrow> bool" where
  "lane_good sp b ch l \<longleftrightarrow> lane_content_ok sp l \<and>
     lane_geometry_ok b ch (fst l) (lane_owner l) (lane_kind_of l)"

definition full_length :: "int \<Rightarrow> value_chunk \<Rightarrow> bool" where
  "full_length slots ch \<longleftrightarrow> int (length (vc_values ch)) = slots \<and>
     int (length (column_indices ch)) = slots \<and> int (length (slot_coordinates ch)) = slots \<and>
     int (length (slot_owner_rows ch)) = slots \<and> int (length (slot_kinds ch)) = slots"

definition chunk_good :: "layout_spec \<Rightarrow> output_block_layout \<Rightarrow> value_chunk \<Rightarrow> bool" where
  "chunk_good sp b ch \<longleftrightarrow> valid_id (chunk_id ch) \<and> 0 < width ch \<and> 0 < height ch \<and>
     rectangular_slots ch = width ch * height ch \<and> rectangular_slots ch \<le> ls_effective_slots sp \<and>
     0 \<le> start_column ch \<and> height ch \<le> int (length (row_map b)) \<and>
     (\<forall>i < length (row_map b). int i < height ch \<longleftrightarrow> start_column ch < physical_row_capacities b ! i) \<and>
     width ch = min (max_default 0 (physical_row_capacities b) - start_column ch)
       (ls_effective_slots sp div height ch) \<and>
     full_length (ls_effective_slots sp) ch \<and> (\<forall>l \<in> set (chunk_lanes ch). lane_good sp b ch l) \<and>
     used_slots ch = kind_count Actual (chunk_lanes ch) \<and>
     reserved_slots ch = kind_count Reserved (chunk_lanes ch)"

text \<open>A lane that makes a row as wide as a given capacity.\<close>

definition materialized :: "lane_kind \<Rightarrow> bool" where
  "materialized k \<longleftrightarrow> k = Actual \<or> k = Tombstone \<or> k = Reserved"

definition lane_reach :: "value_chunk \<Rightarrow> lane_row \<Rightarrow> int" where
  "lane_reach ch l = start_column ch + fst l div height ch + 1"

definition reaches :: "output_block_layout \<Rightarrow> int \<Rightarrow> int \<Rightarrow> bool" where
  "reaches b row capacity \<longleftrightarrow> (\<exists>ch \<in> set (chunks b). \<exists>l \<in> set (chunk_lanes ch).
     lane_owner l = Some row \<and> materialized (lane_kind_of l) \<and> lane_reach ch l = capacity)"

primrec tiles :: "int \<Rightarrow> value_chunk list \<Rightarrow> int \<Rightarrow> bool" where
  "tiles m [] column \<longleftrightarrow> column = m"
| "tiles m (ch # chs) column \<longleftrightarrow> start_column ch = column \<and> tiles m chs (column + width ch)"

definition block_good :: "layout_spec \<Rightarrow> int \<times> int \<Rightarrow> output_block_layout \<Rightarrow> bool" where
  "block_good sp bounds b \<longleftrightarrow> valid_id (output_block_id b) \<and>
     (logical_row_start b, logical_row_stop b) = bounds \<and>
     set (row_map b) = {fst bounds..<snd bounds} \<and> int (length (row_map b)) = snd bounds - fst bounds \<and>
     distinct (row_map b) \<and> length (physical_row_capacities b) = length (row_map b) \<and>
     (\<forall>c \<in> set (physical_row_capacities b). 0 \<le> c \<and> c \<le> ls_cols sp) \<and>
     (\<forall>i < length (row_map b). physical_row_capacities b ! i = 0 \<or>
        reaches b (row_map b ! i) (physical_row_capacities b ! i)) \<and>
     tiles (max_default 0 (physical_row_capacities b)) (chunks b) 0 \<and>
     (\<forall>ch \<in> set (chunks b). chunk_good sp b ch)"

definition component_good :: "published_component \<Rightarrow> bool" where
  "component_good c \<longleftrightarrow> (let sp = layout_spec c in
     valid_id (component_id c) \<and> valid_id (version_id c) \<and>
     0 < ls_rows sp \<and> 0 < ls_cols sp \<and> 0 < ls_effective_slots sp \<and> 0 < ls_partition_rows sp \<and>
     ls_partition_rows sp \<le> ls_effective_slots sp \<and>
     list_all2 (\<lambda>b bounds. block_good sp bounds b) (blocks c) (expected_ranges sp) \<and>
     distinct (map output_block_id (blocks c)) \<and> distinct (map chunk_id (component_chunks c)) \<and>
     distinct (map fst (component_entries c)) \<and>
     coordinate_slots c = sort (placements_of (component_id c) (component_chunks c)) \<and>
     available_slots c = availables_of (component_id c) (component_chunks c))"

section \<open>The scan of \<open>validate_component\<close> accepts them\<close>

lemma update_new: "k \<notin> fst ` set d \<Longrightarrow> AList.update k v d = d @ [(k, v)]"
  by (induction d) auto

definition widen_lane :: "value_chunk \<Rightarrow> (int, int) dict \<Rightarrow> lane_row \<Rightarrow> (int, int) dict" where
  "widen_lane ch widths l = (case lane_owner l of None \<Rightarrow> widths
     | Some r \<Rightarrow> if materialized (lane_kind_of l) then widen ch (fst l) r widths else widths)"

lemma placement_entry:
  "lane_content_ok sp l \<Longrightarrow> map fst (lane_placement cid chid l) = map fst (lane_entry l)"
  by (cases l) (auto simp: lane_content_ok_def lane_placement_def lane_entry_def
      split: lane_kind.splits option.splits)

lemma validate_lane_total:
  assumes "lane_good sp b ch l" and "fst ` set (lane_entry l) \<inter> fst ` set coords = {}"
  shows "validate_lane cid sp b ch (coords, avail, widths, used, res) l =
    Inr (coords @ lane_placement cid (chunk_id ch) l, avail @ lane_available cid (chunk_id ch) l,
      widen_lane ch widths l, used + kind_count Actual [l], res + kind_count Reserved [l])"
proof -
  obtain lane v column coordinate ow k where l: "l = (lane, v, column, coordinate, ow, k)" by (cases l)
  show ?thesis
    using assms
    by (cases k; cases ow)
      (auto simp: l lane_good_def lane_content_ok_def validate_lane_def Let_def lane_owner_def lane_kind_of_def
        lane_placement_def lane_available_def widen_lane_def materialized_def lane_entry_def update_new)
qed

lemma validate_lanes_total:
  "\<forall>l \<in> set ls. lane_good sp b ch l \<Longrightarrow> distinct (map fst coords @ map fst (concat (map lane_entry ls))) \<Longrightarrow>
   rfold (validate_lane cid sp b ch) (coords, avail, widths, used, res) ls =
     Inr (coords @ concat (map (lane_placement cid (chunk_id ch)) ls),
       avail @ concat (map (lane_available cid (chunk_id ch)) ls), foldl (widen_lane ch) widths ls,
       used + kind_count Actual ls, res + kind_count Reserved ls)"
proof (induction ls arbitrary: coords avail widths used res)
  case Nil
  then show ?case by simp
next
  case (Cons l ls)
  have good: "lane_good sp b ch l" using Cons.prems(1) by simp
  then have p: "map fst (lane_placement cid (chunk_id ch) l) = map fst (lane_entry l)"
    by (intro placement_entry [of sp]) (simp add: lane_good_def)
  have "fst ` set (lane_entry l) \<inter> fst ` set coords = {}" using Cons.prems(2) by auto
  note step = validate_lane_total [OF good this, of cid avail widths used res]
  have "distinct (map fst (coords @ lane_placement cid (chunk_id ch) l) @ map fst (concat (map lane_entry ls)))"
    using Cons.prems(2) by (simp only: map_append p) simp
  note rest = Cons.IH [OF _ this]
  show ?case using rest Cons.prems(1) by (simp add: step add.assoc)
qed

text \<open>What the rows of a block are widened to.\<close>

lemma widen_get: "dict_get (widen ch lane r widths) row 0 =
    (if row = r then max (dict_get widths r 0) (start_column ch + lane div height ch + 1) else dict_get widths row 0)"
  by (simp add: widen_def)

definition chunk_widen :: "value_chunk list \<Rightarrow> (int, int) dict \<Rightarrow> (int, int) dict" where
  "chunk_widen chs widths = foldl (\<lambda>w ch. foldl (widen_lane ch) w (chunk_lanes ch)) widths chs"

lemma widen_lanes_get:
  "dict_get (foldl (widen_lane ch) widths ls) row 0 = foldl max (dict_get widths row 0)
     (map (lane_reach ch) (filter (\<lambda>l. lane_owner l = Some row \<and> materialized (lane_kind_of l)) ls))"
proof (induction ls arbitrary: widths)
  case (Cons l ls)
  have "dict_get (widen_lane ch widths l) row 0 =
      (if lane_owner l = Some row \<and> materialized (lane_kind_of l)
       then max (dict_get widths row 0) (lane_reach ch l) else dict_get widths row 0)"
    by (simp add: widen_lane_def widen_get lane_reach_def split: option.split)
  then show ?case by (simp add: Cons.IH)
qed simp

lemma chunk_widen_bounds:
  assumes "\<forall>ch \<in> set chs. \<forall>l \<in> set (chunk_lanes ch). lane_owner l = Some row \<and> materialized (lane_kind_of l) \<longrightarrow>
      lane_reach ch l \<le> C" and "dict_get widths row 0 \<le> C"
  shows "dict_get (chunk_widen chs widths) row 0 \<le> C"
  using assms
proof (induction chs arbitrary: widths)
  case (Cons ch chs)
  let ?w = "foldl (widen_lane ch) widths (chunk_lanes ch)"
  have "dict_get ?w row 0 \<in> insert (dict_get widths row 0) (set (map (lane_reach ch)
      (filter (\<lambda>l. lane_owner l = Some row \<and> materialized (lane_kind_of l)) (chunk_lanes ch))))"
    unfolding widen_lanes_get by (rule foldl_max_mem)
  then have "dict_get ?w row 0 \<le> C" using Cons.prems by auto
  then show ?case using Cons by (simp add: chunk_widen_def)
qed (simp add: chunk_widen_def)

lemma chunk_widen_mono: "dict_get widths row 0 \<le> dict_get (chunk_widen chs widths) row 0"
proof (induction chs arbitrary: widths)
  case (Cons ch chs)
  have "dict_get widths row 0 \<le> dict_get (foldl (widen_lane ch) widths (chunk_lanes ch)) row 0"
    unfolding widen_lanes_get by (rule foldl_max_ge)
  then show ?case using Cons [of "foldl (widen_lane ch) widths (chunk_lanes ch)"] by (simp add: chunk_widen_def)
qed (simp add: chunk_widen_def)

lemma chunk_widen_reached:
  assumes "ch \<in> set chs" and "l \<in> set (chunk_lanes ch)" and "lane_owner l = Some row"
    and "materialized (lane_kind_of l)"
  shows "lane_reach ch l \<le> dict_get (chunk_widen chs widths) row 0"
  using assms(1)
proof (induction chs arbitrary: widths)
  case (Cons ch' chs)
  let ?w = "foldl (widen_lane ch') widths (chunk_lanes ch')"
  show ?case
  proof (cases "ch = ch'")
    case True
    have "lane_reach ch l \<le> dict_get ?w row 0"
      unfolding widen_lanes_get True using assms(2-4) by (intro foldl_max_ge(2)) (auto simp: True)
    then show ?thesis using chunk_widen_mono [of ?w row chs] by (simp add: chunk_widen_def)
  next
    case False
    then show ?thesis using Cons by (simp add: chunk_widen_def)
  qed
qed simp

text \<open>Chunk by chunk.\<close>

definition entries_of :: "value_chunk list \<Rightarrow> (coord \<times> int) list" where
  "entries_of chs = concat (map chunk_entries chs)"

lemma block_entries_of: "concat (map block_entries bs) = entries_of (concat (map chunks bs))"
  by (induction bs) (simp_all add: block_entries_def entries_of_def)

lemma component_entries_of: "component_entries c = entries_of (component_chunks c)"
  by (simp add: component_entries_def component_chunks_def block_entries_of)

lemma column_height_good:
  assumes "chunk_good sp b ch" and "length (physical_row_capacities b) = length (row_map b)"
  shows "height ch = column_height (physical_row_capacities b) (start_column ch)"
proof -
  let ?caps = "physical_row_capacities b" and ?h = "nat (height ch)"
  have at: "i < ?h \<longleftrightarrow> start_column ch < ?caps ! i" if "i < length ?caps" for i
    using assms that unfolding chunk_good_def zless_nat_eq_int_zless by metis
  have "?h \<le> length ?caps" using assms by (simp add: chunk_good_def nat_le_iff)
  then have "filter (\<lambda>c. c > start_column ch) ?caps = take ?h ?caps"
    using at by (intro filter_prefix) (meson less_le_trans not_less)+
  moreover have "0 < height ch" using assms(1) unfolding chunk_good_def by blast
  ultimately show ?thesis using \<open>?h \<le> length ?caps\<close> by (simp add: column_height_def min_def)
qed

lemma placements_fst:
  assumes "\<forall>ch \<in> set chs. \<forall>l \<in> set (chunk_lanes ch). lane_content_ok sp l"
  shows "map fst (placements_of cid chs) = map fst (entries_of chs)"
proof -
  have "map fst (concat (map (lane_placement cid chid) ls)) = map fst (concat (map lane_entry ls))"
    if "\<forall>l \<in> set ls. lane_content_ok sp l" for chid ls
    using that by (induction ls) (auto simp: placement_entry [of sp])
  then show ?thesis
    using assms by (induction chs) (simp_all add: placements_of_def entries_of_def chunk_entries_def)
qed

lemma chunk_lanes_content: "chunk_good sp b ch \<Longrightarrow> \<forall>l \<in> set (chunk_lanes ch). lane_content_ok sp l"
  by (simp add: chunk_good_def lane_good_def)

lemma validate_chunk_total:
  assumes g: "chunk_good sp b ch" and len: "length (physical_row_capacities b) = length (row_map b)"
    and fresh: "chunk_id ch \<notin> set ids" and dist: "distinct (map fst coords @ map fst (chunk_entries ch))"
  shows "validate_chunk cid sp b (max_default 0 (physical_row_capacities b))
      (start_column ch, ids, coords, avail, widths) ch =
    Inr (start_column ch + width ch, chunk_id ch # ids, coords @ placements_of cid [ch],
      avail @ availables_of cid [ch], chunk_widen [ch] widths)"
proof -
  have "chunk_shape_ok sp b (max_default 0 (physical_row_capacities b)) (start_column ch) ids ch"
    unfolding chunk_shape_ok_def column_height_good [OF g len, symmetric]
    using g fresh unfolding chunk_good_def full_length_def by blast
  then show ?thesis
    using validate_lanes_total [of "chunk_lanes ch" sp b ch coords cid avail widths 0 0] g dist
    by (simp add: validate_chunk_def chunk_good_def chunk_entries_def placements_of_def availables_of_def
        chunk_widen_def)
qed

lemma validate_chunks_total:
  "tiles (max_default 0 (physical_row_capacities b)) chs column \<Longrightarrow> \<forall>ch \<in> set chs. chunk_good sp b ch \<Longrightarrow>
   length (physical_row_capacities b) = length (row_map b) \<Longrightarrow>
   distinct (map chunk_id chs) \<Longrightarrow> set ids \<inter> chunk_id ` set chs = {} \<Longrightarrow>
   distinct (map fst coords @ map fst (entries_of chs)) \<Longrightarrow>
   rfold (validate_chunk cid sp b (max_default 0 (physical_row_capacities b)))
     (column, ids, coords, avail, widths) chs =
   Inr (max_default 0 (physical_row_capacities b), rev (map chunk_id chs) @ ids,
     coords @ placements_of cid chs, avail @ availables_of cid chs, chunk_widen chs widths)"
proof (induction chs arbitrary: column ids coords avail widths)
  case Nil
  then show ?case by (simp add: placements_of_def availables_of_def chunk_widen_def)
next
  case (Cons ch chs)
  have start: "column = start_column ch" using Cons.prems(1) by simp
  have good: "chunk_good sp b ch" using Cons.prems(2) by simp
  have "chunk_id ch \<notin> set ids" "distinct (map fst coords @ map fst (chunk_entries ch))"
    using Cons.prems(5,6) by (auto simp: entries_of_def)
  note step = validate_chunk_total [OF good Cons.prems(3) this, of cid avail widths]
  have p: "map fst (placements_of cid [ch]) = map fst (chunk_entries ch)"
    using placements_fst [of "[ch]" sp cid] chunk_lanes_content [OF good] by (simp add: entries_of_def)
  have d: "distinct (map fst (coords @ placements_of cid [ch]) @ map fst (entries_of chs))"
    unfolding map_append p using Cons.prems(6) by (simp add: entries_of_def)
  have "rfold (validate_chunk cid sp b (max_default 0 (physical_row_capacities b)))
      (start_column ch + width ch, chunk_id ch # ids, coords @ placements_of cid [ch],
       avail @ availables_of cid [ch], chunk_widen [ch] widths) chs =
    Inr (max_default 0 (physical_row_capacities b), rev (map chunk_id chs) @ chunk_id ch # ids,
      (coords @ placements_of cid [ch]) @ placements_of cid chs, (avail @ availables_of cid [ch]) @ availables_of cid chs,
      chunk_widen chs (chunk_widen [ch] widths))"
    using Cons.prems start d by (intro Cons.IH) auto
  then show ?case unfolding start rfold.simps step rbind_Inr
    by (simp add: placements_of_def availables_of_def chunk_widen_def)
qed

text \<open>Block by block: the capacities are what the lanes reach.\<close>

lemma block_widths:
  assumes g: "block_good sp bounds b" and i: "i < length (row_map b)"
  shows "dict_get (chunk_widen (chunks b) (map (\<lambda>row. (row, 0)) (row_map b))) (row_map b ! i) 0 =
    physical_row_capacities b ! i"
proof -
  let ?row = "row_map b ! i" and ?C = "physical_row_capacities b ! i"
  let ?w = "dict_get (chunk_widen (chunks b) (map (\<lambda>row. (row, 0)) (row_map b))) ?row 0"
  have caps: "0 \<le> ?C" "length (physical_row_capacities b) = length (row_map b)"
    using g i by (auto simp: block_good_def)
  have "lane_reach ch l \<le> ?C"
    if ch: "ch \<in> set (chunks b)" and l: "l \<in> set (chunk_lanes ch)"
      and ow: "lane_owner l = Some ?row" and m: "materialized (lane_kind_of l)" for ch l
  proof -
    have cg: "chunk_good sp b ch" and lg: "lane_good sp b ch l"
      using g ch l by (auto simp: block_good_def chunk_good_def)
    let ?p = "nat (fst l mod height ch)"
    have geo: "lane_geometry_ok b ch (fst l) (Some ?row) (lane_kind_of l)" using lg ow by (simp add: lane_good_def)
    have inside: "fst l < rectangular_slots ch" using geo m by (auto simp: lane_geometry_ok_def materialized_def split: if_splits)
    then have "row_map b ! ?p = ?row" and rank: "start_column ch + fst l div height ch < physical_row_capacities b ! ?p"
      using geo m by (auto simp: lane_geometry_ok_def Let_def materialized_def)
    moreover have "?p < length (row_map b)"
    proof -
      have "0 < height ch" "height ch \<le> int (length (row_map b))" using cg unfolding chunk_good_def by blast+
      then show ?thesis
        using pos_mod_bound [of "height ch" "fst l"] pos_mod_sign [of "height ch" "fst l"] by linarith
    qed
    ultimately have "?p = i" using g i by (auto simp: block_good_def nth_eq_iff_index_eq)
    then show ?thesis using rank by (simp add: lane_reach_def)
  qed
  then have "?w \<le> ?C"
    using caps(1) by (intro chunk_widen_bounds) (auto simp: dict_get_zeros)
  moreover have "?C \<le> ?w"
  proof (cases "?C = 0")
    case True
    then show ?thesis using chunk_widen_mono [of "map (\<lambda>row. (row, 0)) (row_map b)" ?row "chunks b"]
      by (simp add: dict_get_zeros)
  next
    case False
    then have "reaches b ?row ?C" using g i by (auto simp: block_good_def)
    then show ?thesis unfolding reaches_def using chunk_widen_reached by metis
  qed
  ultimately show ?thesis by simp
qed

lemma validate_block_total:
  assumes g: "block_good sp bounds b" and fresh: "output_block_id b \<notin> set bids"
    and ids: "distinct (map chunk_id (chunks b))" "set chids \<inter> chunk_id ` set (chunks b) = {}"
    and dist: "distinct (map fst coords @ map fst (block_entries b))"
  shows "validate_block cid sp (bids, chids, coords, avail) (b, bounds) =
    Inr (output_block_id b # bids, rev (map chunk_id (chunks b)) @ chids,
      coords @ placements_of cid (chunks b), avail @ availables_of cid (chunks b))"
proof -
  let ?m = "max_default 0 (physical_row_capacities b)" and ?w = "map (\<lambda>row. (row, 0)) (row_map b)"
  have len: "length (physical_row_capacities b) = length (row_map b)"
    and t: "tiles ?m (chunks b) 0" and c: "\<forall>ch \<in> set (chunks b). chunk_good sp b ch"
    using g by (simp_all add: block_good_def)
  have "distinct (map fst coords @ map fst (entries_of (chunks b)))"
    using dist by (simp add: block_entries_def entries_of_def)
  note run = validate_chunks_total [OF t c len ids this, of cid avail ?w]
  have shape: "block_shape_ok sp bids bounds b"
    using g fresh by (simp add: block_good_def block_shape_ok_def)
  have caps: "physical_row_capacities b = map (\<lambda>row. dict_get (chunk_widen (chunks b) ?w) row 0) (row_map b)"
    using len by (intro nth_equalityI) (simp_all add: block_widths [OF g])
  show ?thesis
    by (simp only: validate_block_def Let_def prod.case run rbind_Inr shape caps [symmetric] simp_thms if_False)
qed

lemma validate_blocks_total:
  "list_all2 (\<lambda>b bounds. block_good sp bounds b) bs ranges \<Longrightarrow>
   distinct (map output_block_id bs) \<Longrightarrow> set bids \<inter> output_block_id ` set bs = {} \<Longrightarrow>
   distinct (map chunk_id (concat (map chunks bs))) \<Longrightarrow> set chids \<inter> chunk_id ` set (concat (map chunks bs)) = {} \<Longrightarrow>
   distinct (map fst coords @ map fst (concat (map block_entries bs))) \<Longrightarrow>
   \<exists>bids' chids'. rfold (validate_block cid sp) (bids, chids, coords, avail) (zip bs ranges) =
     Inr (bids', chids', coords @ placements_of cid (concat (map chunks bs)),
       avail @ availables_of cid (concat (map chunks bs)))"
proof (induction bs ranges arbitrary: bids chids coords avail rule: list_all2_induct)
  case Nil
  then show ?case by (simp add: placements_of_def availables_of_def)
next
  case (Cons b bs bounds ranges)
  have "output_block_id b \<notin> set bids" "distinct (map chunk_id (chunks b))"
      "set chids \<inter> chunk_id ` set (chunks b) = {}" "distinct (map fst coords @ map fst (block_entries b))"
    using Cons.prems by auto
  note step = validate_block_total [OF Cons.hyps(1) this, of cid avail]
  have "\<forall>ch \<in> set (chunks b). \<forall>l \<in> set (chunk_lanes ch). lane_content_ok sp l"
    using Cons.hyps(1) chunk_lanes_content by (auto simp: block_good_def)
  then have p: "map fst (placements_of cid (chunks b)) = map fst (block_entries b)"
    using placements_fst by (simp add: block_entries_def entries_of_def)
  have d: "distinct (map fst (coords @ placements_of cid (chunks b)) @ map fst (concat (map block_entries bs)))"
    unfolding map_append p using Cons.prems(5) by simp
  have bi: "set (output_block_id b # bids) \<inter> output_block_id ` set bs = {}"
    using Cons.prems(1,2) by auto
  have "chunk_id ` set (chunks b) \<inter> chunk_id ` set (concat (map chunks bs)) = {}"
    using Cons.prems(3) by (simp add: image_UN)
  moreover have "set chids \<inter> chunk_id ` set (concat (map chunks bs)) = {}"
    using Cons.prems(4) by (simp add: image_Un Int_Un_distrib)
  ultimately have ci: "set (rev (map chunk_id (chunks b)) @ chids) \<inter> chunk_id ` set (concat (map chunks bs)) = {}"
    unfolding set_append set_rev set_map Int_Un_distrib2 by blast
  have o: "distinct (map output_block_id bs)" and c: "distinct (map chunk_id (concat (map chunks bs)))"
    using Cons.prems(1,3) by simp_all
  show ?case
    using Cons.IH [OF o bi c ci d, of "avail @ availables_of cid (chunks b)"]
    unfolding zip_Cons_Cons rfold.simps step rbind_Inr
    by (simp add: placements_of_def availables_of_def)
qed

lemma component_good_validates:
  assumes "component_good c"
  shows "validate_component c = Inr ()"
proof -
  let ?sp = "layout_spec c"
  have g: "list_all2 (\<lambda>b bounds. block_good ?sp bounds b) (blocks c) (expected_ranges ?sp)"
      "distinct (map output_block_id (blocks c))" "distinct (map chunk_id (concat (map chunks (blocks c))))"
      "distinct (map fst (concat (map block_entries (blocks c))))"
      "coordinate_slots c = sort (placements_of (component_id c) (concat (map chunks (blocks c))))"
      "available_slots c = availables_of (component_id c) (concat (map chunks (blocks c)))"
    using assms unfolding component_good_def component_chunks_def component_entries_def Let_def by blast+
  obtain bids' chids' where
    run: "rfold (validate_block (component_id c) ?sp) ([], [], [], []) (zip (blocks c) (expected_ranges ?sp)) =
      Inr (bids', chids', placements_of (component_id c) (concat (map chunks (blocks c))),
        availables_of (component_id c) (concat (map chunks (blocks c))))"
    using validate_blocks_total [OF g(1,2) _ g(3), of "[]" "[]" "[]" "component_id c" "[]"] g(4) by auto
  show ?thesis
    using assms g(5,6) list_all2_lengthD [OF g(1)]
    by (simp add: validate_component_def Let_def component_good_def run)
qed

end
