(* ===== verification/Publish_Facts.thy ===== *)
theory Publish_Facts
  imports Layout_Facts
begin

text \<open>
  What \<open>publish_component\<close> produces: a well-formed component whose entries are exactly the
  entries of the published matrix. So every component the repository publishes is accepted by
  the query compiler, and publishing loses nothing.
\<close>

section \<open>Lanes of a published chunk\<close>

definition rows_ok ::
  "int \<Rightarrow> int \<Rightarrow> (int \<times> int) list list \<Rightarrow> int list \<Rightarrow> int list \<Rightarrow> bool"
where
  "rows_ok rows cols ents caps rowmap \<longleftrightarrow>
     (\<forall>row \<in> set rowmap. 0 \<le> row \<and> row < rows \<and> int (length (ents ! nat row)) \<le> caps ! nat row \<and>
        caps ! nat row \<le> cols \<and> (\<forall>(gc, v) \<in> set (ents ! nat row). 0 \<le> gc \<and> gc < cols \<and> v \<noteq> 0)) \<and>
     distinct rowmap \<and> sorted_wrt (\<ge>) (map (\<lambda>row. caps ! nat row) rowmap)"

lemma descending_prefix:
  "sorted_wrt (\<ge>) xs \<Longrightarrow> i < length xs \<Longrightarrow> i < length (filter (\<lambda>x. x > c) xs) \<longleftrightarrow> c < (xs ! i :: int)"
proof (induction xs arbitrary: i)
  case (Cons x xs)
  show ?case
  proof (cases "c < x")
    case True
    then show ?thesis using Cons by (cases i) auto
  next
    case False
    then have "\<forall>y \<in> set xs. \<not> c < y" using Cons.prems(1) by auto
    then have "filter (\<lambda>x. x > c) xs = []" by (simp add: filter_empty_conv)
    moreover have "\<not> c < (x # xs) ! i" using \<open>\<forall>y \<in> set xs. \<not> c < y\<close> False Cons.prems(2) by (cases i) auto
    ultimately show ?thesis using False by simp
  qed
qed simp

lemma column_height_at:
  "sorted_wrt (\<ge>) phys \<Longrightarrow> i < length phys \<Longrightarrow> int i < column_height phys c \<longleftrightarrow> c < phys ! i"
  by (simp add: column_height_def descending_prefix)

lemma cell_good:
  assumes r: "rows_ok (ls_rows sp) (ls_cols sp) ents caps rowmap" and row: "row \<in> set rowmap" and "0 \<le> rank"
  shows "lane_content_ok sp (cell_lane s (cell ents caps row rank)) \<and>
    lane_owner (cell_lane s (cell ents caps row rank)) = Some row \<and>
    (rank < caps ! nat row \<longrightarrow> lane_kind_of (cell_lane s (cell ents caps row rank)) \<in> {Actual, Reserved}) \<and>
    (\<not> rank < caps ! nat row \<longrightarrow> lane_kind_of (cell_lane s (cell ents caps row rank)) = NaturalPadding)"
proof -
  have b: "0 \<le> row" "row < ls_rows sp"
    "\<forall>(gc, v) \<in> set (ents ! nat row). 0 \<le> gc \<and> gc < ls_cols sp \<and> v \<noteq> 0"
    using r row by (auto simp: rows_ok_def)
  show ?thesis
  proof (cases "caps ! nat row \<le> rank \<or> int (length (ents ! nat row)) \<le> rank")
    case True
    then show ?thesis
      by (auto simp: cell_def cell_lane_def lane_content_ok_def lane_owner_def lane_kind_of_def)
  next
    case False
    obtain gc v where e: "ents ! nat row ! nat rank = (gc, v)" by (cases "ents ! nat row ! nat rank")
    have "nat rank < length (ents ! nat row)" using False assms(3) by (simp add: nat_less_iff)
    then have "(gc, v) \<in> set (ents ! nat row)" unfolding e [symmetric] by (rule nth_mem)
    then show ?thesis using b False
      by (auto simp: cell_def e cell_lane_def lane_content_ok_def lane_owner_def lane_kind_of_def)
  qed
qed

lemma published_lane_good:
  assumes r: "rows_ok (ls_rows sp) (ls_cols sp) ents caps rowmap"
    and b: "row_map b = rowmap" "physical_row_capacities b = map (\<lambda>row. caps ! nat row) rowmap"
    and h: "0 < h" "h \<le> length rowmap" and "0 \<le> column"
  shows "lane_good sp b (published_chunk chid slots ents caps rowmap column w h)
    (cell_lane s (filled ents caps rowmap column h (w * h) s))"
proof (cases "s < w * h")
  case False
  then show ?thesis
    by (simp add: filled_def lane_good_def lane_geometry_ok_def lane_owner_def lane_kind_of_def cell_lane_def
        tail_cell_def lane_content_ok_def flip: of_nat_mult) (simp add: mult.commute)
next
  case True
  let ?p = "s mod h"
  have p: "?p < length rowmap" using h by (meson mod_less_divisor less_le_trans)
  have nat: "nat (int s mod int h) = ?p" by (simp only: zmod_int [symmetric] nat_int)
  have div: "int s div int h = int (s div h)" by (simp only: zdiv_int)
  have lt: "int s < int h * int w" using True by (simp add: mult.commute flip: of_nat_mult)
  note c = cell_good [OF r nth_mem [OF p], of "column + int (s div h)" s]
  have pair: "fst (cell_lane s x) = int s" for x by (simp add: cell_lane_def)
  show ?thesis
    using c True assms(6) p lt
    by (auto simp: lane_good_def lane_geometry_ok_def filled_def b nat div Let_def pair)
qed

section \<open>The chunks of a block\<close>

lemma tiled_chunk:
  "tiled bid slots ents caps rowmap phys chs column k \<Longrightarrow> ch \<in> set chs \<Longrightarrow> \<exists>w h c j.
     ch = published_chunk (bid @ ''-c'' @ fmt06 j) slots ents caps rowmap c w h \<and> 0 < w \<and> 0 < h \<and>
     w * h \<le> slots \<and> int h = column_height phys c \<and>
     int w = min (max_default 0 phys - c) (int slots div int h) \<and> column \<le> c \<and> k \<le> j"
proof (induction chs arbitrary: column k)
  case (Cons ch' chs)
  then obtain w h where c: "ch' = published_chunk (bid @ ''-c'' @ fmt06 k) slots ents caps rowmap column w h"
      "0 < w" "0 < h" "w * h \<le> slots" "int h = column_height phys column"
      "int w = min (max_default 0 phys - column) (int slots div int h)"
      "tiled bid slots ents caps rowmap phys chs (column + int w) (Suc k)"
    by auto
  show ?case
  proof (cases "ch = ch'")
    case True
    then show ?thesis using c by blast
  next
    case False
    then have "ch \<in> set chs" using Cons.prems by simp
    from Cons.IH [OF c(7) this] obtain w' h' c' j where q:
        "ch = published_chunk (bid @ ''-c'' @ fmt06 j) slots ents caps rowmap c' w' h'" "0 < w'" "0 < h'"
        "w' * h' \<le> slots" "int h' = column_height phys c'"
        "int w' = min (max_default 0 phys - c') (int slots div int h')" "column + int w \<le> c'" "Suc k \<le> j"
      by blast
    from q(7,8) have "column \<le> c'" "k \<le> j" by linarith+
    with q(1-6) show ?thesis by blast
  qed
qed simp

lemma tiled_tiles:
  "tiled bid slots ents caps rowmap phys chs column k \<Longrightarrow> tiles (max_default 0 phys) chs column"
  by (induction chs arbitrary: column k) auto

lemma tiled_ids:
  "tiled bid slots ents caps rowmap phys chs column k \<Longrightarrow>
     map chunk_id chs = map (\<lambda>j. bid @ ''-c'' @ fmt06 j) [k..<k + length chs]"
proof (induction chs arbitrary: column k)
  case (Cons ch chs)
  then have "\<exists>w. tiled bid slots ents caps rowmap phys chs (column + int w) (Suc k) \<and>
      chunk_id ch = bid @ ''-c'' @ fmt06 k"
    unfolding tiled.simps by (elim exE conjE) (intro exI conjI, assumption, simp)
  then obtain w where "tiled bid slots ents caps rowmap phys chs (column + int w) (Suc k)"
      "chunk_id ch = bid @ ''-c'' @ fmt06 k" by blast
  moreover have "[k..<k + length (ch # chs)] = k # [Suc k..<Suc k + length chs]"
    by (simp add: upt_conv_Cons del: upt_Suc)
  ultimately show ?case using Cons.IH by (simp del: upt_Suc)
qed simp

lemma tiled_covers:
  "tiled bid slots ents caps rowmap phys chs column k \<Longrightarrow> column \<le> r \<Longrightarrow> r < max_default 0 phys \<Longrightarrow>
   \<exists>w h c j. published_chunk (bid @ ''-c'' @ fmt06 j) slots ents caps rowmap c w h \<in> set chs \<and> 0 < h \<and>
     w * h \<le> slots \<and> int h = column_height phys c \<and> c \<le> r \<and> r < c + int w"
proof (induction chs arbitrary: column k)
  case (Cons ch chs)
  then obtain w h where c: "ch = published_chunk (bid @ ''-c'' @ fmt06 k) slots ents caps rowmap column w h"
      "0 < h" "w * h \<le> slots" "int h = column_height phys column"
      "tiled bid slots ents caps rowmap phys chs (column + int w) (Suc k)"
    by auto
  show ?case
  proof (cases "r < column + int w")
    case True
    then show ?thesis using c Cons.prems(2) by (metis list.set_intros(1))
  next
    case False
    then show ?thesis using Cons.IH [OF c(5)] Cons.prems(3) by (metis list.set_intros(2) not_less)
  qed
qed simp

lemma tiled_good:
  assumes r: "rows_ok (ls_rows sp) (ls_cols sp) ents caps rowmap"
    and b: "row_map b = rowmap" "physical_row_capacities b = map (\<lambda>row. caps ! nat row) rowmap"
    and t: "tiled bid (nat (ls_effective_slots sp)) ents caps rowmap (physical_row_capacities b) chs 0 0"
    and id: "valid_id bid" and slots: "0 < ls_effective_slots sp" and ch: "ch \<in> set chs"
  shows "chunk_good sp b ch"
proof -
  let ?phys = "physical_row_capacities b" and ?slots = "nat (ls_effective_slots sp)"
  obtain w h c j where p: "ch = published_chunk (bid @ ''-c'' @ fmt06 j) ?slots ents caps rowmap c w h"
      "0 < w" "0 < h" "w * h \<le> ?slots" "int h = column_height ?phys c"
      "int w = min (max_default 0 ?phys - c) (int ?slots div int h)" "0 \<le> c"
    using tiled_chunk [OF t ch] by blast
  have sorted: "sorted_wrt (\<ge>) ?phys" using r by (simp add: rows_ok_def b)
  have len: "length ?phys = length rowmap" by (simp add: b)
  have h: "h \<le> length rowmap" using column_height_bounds(1) [of ?phys c] p(5) len by simp
  have i: "valid_id (bid @ ''-c'' @ fmt06 j)"
    using id id_char_pad [of 6 j] by (simp add: valid_id_def id_char_def)
  have l: "\<forall>l \<in> set (chunk_lanes (published_chunk (bid @ ''-c'' @ fmt06 j) ?slots ents caps rowmap c w h)).
      lane_good sp b (published_chunk (bid @ ''-c'' @ fmt06 j) ?slots ents caps rowmap c w h) l"
    using published_lane_good [OF r b p(3) h p(7)] by (auto simp: published_chunk_lanes)
  have rows: "\<forall>i < length rowmap. int i < int h \<longleftrightarrow> c < ?phys ! i"
    unfolding p(5) using len by (auto simp: column_height_at [OF sorted])
  have area: "int h * int w = int w * int h" "int h * int w \<le> ls_effective_slots sp"
    using p(4) slots by (simp_all add: mult.commute nat_le_iff flip: of_nat_mult)
  have w: "int w = min (max_default 0 ?phys - c) (ls_effective_slots sp div int h)" using p(6) slots by simp
  have pos: "0 < int w" "0 < int h" "int h \<le> int (length rowmap)" "int ?slots = ls_effective_slots sp"
    using p(2,3) h slots by simp_all
  show ?thesis
    unfolding chunk_good_def p(1) published_chunk_fields full_length_def b(1)
    by (intro conjI i l rows area w pos p(7) published_chunk_sums(4,5) [OF p(4)])
qed

end
