(* ===== verification/Publish_Entries.thy ===== *)
theory Publish_Entries
  imports Publish_Facts "HOL-Library.Multiset"
begin

text \<open>
  The entries of a published block: the lanes of its rectangles carry every entry of its rows
  exactly once, so publishing permutes the entries of the matrix and neither loses nor invents one.
\<close>

section \<open>Sums over a rectangle\<close>

lemma mset_concat_upt: "mset (concat (map f [a..<a + h])) = (\<Sum>i<h. mset (f (a + i)))"
  by (induction h) simp_all

lemma mset_grid:
  assumes "0 < h"
  shows "mset (concat (map (\<lambda>s. f (s mod h) (s div h)) [0..<w * h])) = (\<Sum>d<w. \<Sum>i<h. mset (f i d))"
proof (induction w)
  case (Suc w)
  have "[0..<Suc w * h] = [0..<w * h] @ [w * h..<w * h + h]"
    using upt_add_eq_append [of 0 "w * h" h] by (simp add: add.commute)
  then have "mset (concat (map (\<lambda>s. f (s mod h) (s div h)) [0..<Suc w * h])) =
      (\<Sum>d<w. \<Sum>i<h. mset (f i d)) + (\<Sum>i<h. mset (f ((w * h + i) mod h) ((w * h + i) div h)))"
    using Suc by (simp only: map_append concat_append mset_append mset_concat_upt)
  also have "(\<Sum>i<h. mset (f ((w * h + i) mod h) ((w * h + i) div h))) = (\<Sum>i<h. mset (f i w))"
    using assms by (intro sum.cong) simp_all
  finally show ?case by simp
qed simp

lemma take_step:
  "mset (if n < length xs then [xs ! n] else []) + mset (take n xs) = mset (take (Suc n) xs)"
  by (simp add: take_Suc_conv_app_nth)

section \<open>The rows of a block\<close>

definition row_entries :: "(int \<times> int) list list \<Rightarrow> int \<Rightarrow> (coord \<times> int) list" where
  "row_entries ents row = map (\<lambda>(gc, v). ((row, gc), v)) (ents ! nat row)"

lemma cell_entry:
  assumes "int (length (ents ! nat row)) \<le> caps ! nat row"
  shows "lane_entry (cell_lane s (cell ents caps row (int rank))) =
    (if rank < length (row_entries ents row) then [row_entries ents row ! rank] else [])"
proof (cases "rank < length (ents ! nat row)")
  case True
  obtain gc v where "ents ! nat row ! rank = (gc, v)" by (cases "ents ! nat row ! rank")
  then show ?thesis using True assms
    by (simp add: cell_def cell_lane_def lane_entry_def row_entries_def)
next
  case False
  then show ?thesis by (auto simp: cell_def cell_lane_def lane_entry_def row_entries_def)
qed

lemma published_chunk_entries:
  assumes "w * h \<le> slots" and "0 < h" and "h \<le> length rowmap"
    and fits: "\<forall>row \<in> set rowmap. int (length (ents ! nat row)) \<le> caps ! nat row"
    and low: "\<forall>i < length rowmap. h \<le> i \<longrightarrow> caps ! nat (rowmap ! i) \<le> int c"
  shows "mset (chunk_entries (published_chunk chid slots ents caps rowmap (int c) w h)) +
      (\<Sum>i<length rowmap. mset (take c (row_entries ents (rowmap ! i)))) =
    (\<Sum>i<length rowmap. mset (take (c + w) (row_entries ents (rowmap ! i))))"
proof -
  let ?n = "length rowmap"
  define R where "R = (\<lambda>i. row_entries ents (rowmap ! i))"
  define f where "f = (\<lambda>i d. if c + d < length (R i) then [R i ! (c + d)] else [])"
  have fits': "int (length (ents ! nat (rowmap ! i))) \<le> caps ! nat (rowmap ! i)" if "i < ?n" for i
    using fits nth_mem [OF that] by blast
  have "lane_entry (cell_lane s (filled ents caps rowmap (int c) h (w * h) s)) = f (s mod h) (s div h)"
    if "s < w * h" for s
  proof -
    have "s mod h < ?n" using assms(2,3) by (meson mod_less_divisor less_le_trans)
    from cell_entry [OF fits' [OF this], of s "c + s div h"] show ?thesis
      using that by (simp add: filled_def f_def R_def)
  qed
  then have "concat (map lane_entry (filled_lanes ents caps rowmap (int c) h (w * h))) =
      concat (map (\<lambda>s. f (s mod h) (s div h)) [0..<w * h])"
    unfolding filled_lanes_def map_map o_def by (intro arg_cong [of _ _ concat] map_cong refl) simp
  then have e: "mset (chunk_entries (published_chunk chid slots ents caps rowmap (int c) w h)) =
      (\<Sum>d<w. \<Sum>i<h. mset (f i d))"
    by (simp add: published_chunk_sums(3) [OF assms(1)] mset_grid [OF assms(2)])
  have rest: "f i d = []" if "i < ?n" "h \<le> i" for i d
    using that fits' [of i] low by (force simp: f_def R_def row_entries_def)
  have wide: "(\<Sum>i<h. mset (f i d)) = (\<Sum>i<?n. mset (f i d))" for d
    using assms(3) rest by (intro sum.mono_neutral_left) auto
  have "(\<Sum>d<w. \<Sum>i<?n. mset (f i d)) + (\<Sum>i<?n. mset (take c (R i))) = (\<Sum>i<?n. mset (take (c + w) (R i)))"
  proof (induction w)
    case (Suc w)
    have "(\<Sum>i<?n. mset (f i w)) + (\<Sum>i<?n. mset (take (c + w) (R i))) = (\<Sum>i<?n. mset (take (c + Suc w) (R i)))"
      unfolding sum.distrib [symmetric] f_def by (simp only: take_step add_Suc_right)
    then show ?case using Suc by (simp add: ac_simps)
  qed simp
  then show ?thesis unfolding e wide R_def .
qed

lemma tiled_entries:
  assumes "length phys = length rowmap" and "sorted_wrt (\<ge>) phys"
    and phys: "phys = map (\<lambda>row. caps ! nat row) rowmap"
    and fits: "\<forall>row \<in> set rowmap. int (length (ents ! nat row)) \<le> caps ! nat row"
  shows "tiled bid slots ents caps rowmap phys chs (int c) k \<Longrightarrow>
    mset (entries_of chs) + (\<Sum>i<length rowmap. mset (take c (row_entries ents (rowmap ! i)))) =
    (\<Sum>i<length rowmap. mset (row_entries ents (rowmap ! i)))"
proof (induction chs arbitrary: c k)
  case Nil
  have "take c (row_entries ents (rowmap ! i)) = row_entries ents (rowmap ! i)" if "i < length rowmap" for i
  proof -
    have "caps ! nat (rowmap ! i) \<le> int c"
      using that Nil max_default_ge [of "phys ! i" phys 0] by (simp add: phys)
    moreover have "int (length (ents ! nat (rowmap ! i))) \<le> caps ! nat (rowmap ! i)" using fits that by simp
    ultimately show ?thesis by (simp add: row_entries_def)
  qed
  then show ?case by (simp add: entries_of_def)
next
  case (Cons ch chs)
  then obtain w h where ch: "ch = published_chunk (bid @ ''-c'' @ fmt06 k) slots ents caps rowmap (int c) w h"
      "0 < h" "w * h \<le> slots" "int h = column_height phys (int c)"
      "tiled bid slots ents caps rowmap phys chs (int (c + w)) (Suc k)"
    by auto
  have h: "h \<le> length rowmap" using column_height_bounds(1) [of phys "int c"] ch(4) assms(1) by simp
  have "\<forall>i < length rowmap. h \<le> i \<longrightarrow> caps ! nat (rowmap ! i) \<le> int c"
  proof (intro allI impI)
    fix i assume i: "i < length rowmap" "h \<le> i"
    then have "int i < column_height phys (int c) \<longleftrightarrow> int c < phys ! i"
      by (intro column_height_at [OF assms(2)]) (simp add: assms(1))
    then show "caps ! nat (rowmap ! i) \<le> int c" using i unfolding ch(4) [symmetric] by (simp add: phys)
  qed
  note chunk = published_chunk_entries [OF ch(3,2) h fits this, of "bid @ ''-c'' @ fmt06 k"]
  have "mset (entries_of (ch # chs)) = mset (entries_of chs) + mset (chunk_entries ch)"
    by (simp add: entries_of_def add.commute)
  then show ?case using Cons.IH [OF ch(5)] chunk unfolding ch(1) by (simp only: add.assoc)
qed

end
