(* ===== verification/Publish_Correct.thy ===== *)
theory Publish_Correct
  imports Publish_Entries
begin

text \<open>
  \<open>publish_component\<close> block by block: each block is well formed and holds the entries of its
  rows, the identifiers of blocks and chunks differ, and so the component is well formed and
  holds exactly the published matrix.
\<close>

section \<open>One block\<close>

definition input_ok :: "int \<Rightarrow> int \<Rightarrow> (int \<times> int) list list \<Rightarrow> int list \<Rightarrow> bool" where
  "input_ok rows cols ents caps \<longleftrightarrow> (\<forall>row \<in> {0..<rows}. int (length (ents ! nat row)) \<le> caps ! nat row \<and>
     caps ! nat row \<le> cols \<and> (\<forall>(gc, v) \<in> set (ents ! nat row). 0 \<le> gc \<and> gc < cols \<and> v \<noteq> 0))"

lemma capacity_order:
  fixes caps :: "int list"
  defines "key \<equiv> \<lambda>row. (- (caps ! nat row), row)"
  shows "set (sort_key key (py_range a b)) = {a..<b}" "distinct (sort_key key (py_range a b))"
    "length (sort_key key (py_range a b)) = nat (b - a)"
    "sorted_wrt (\<ge>) (map (\<lambda>row. caps ! nat row) (sort_key key (py_range a b)))"
proof -
  have "sorted (map key (sort_key key (py_range a b)))" by simp
  then have "sorted_wrt (\<lambda>x y. key x \<le> key y) (sort_key key (py_range a b))"
    by (simp add: sorted_map)
  then have "sorted_wrt (\<lambda>x y. caps ! nat y \<le> caps ! nat x) (sort_key key (py_range a b))"
    by (rule sorted_wrt_mono_rel [rotated]) (auto simp: key_def less_eq_prod_def)
  then show "sorted_wrt (\<ge>) (map (\<lambda>row. caps ! nat row) (sort_key key (py_range a b)))"
    by (simp add: sorted_wrt_map)
qed simp_all

lemma tiled_reaches:
  assumes r: "rows_ok rows cols ents caps rowmap"
    and b: "row_map b = rowmap" "physical_row_capacities b = map (\<lambda>row. caps ! nat row) rowmap" "chunks b = chs"
    and t: "tiled bid slots ents caps rowmap (physical_row_capacities b) chs 0 0"
    and i: "i < length rowmap" and pos: "0 < caps ! nat (rowmap ! i)"
  shows "reaches b (rowmap ! i) (caps ! nat (rowmap ! i))"
proof -
  let ?phys = "physical_row_capacities b" and ?C = "caps ! nat (rowmap ! i)"
  have at: "?phys ! i = ?C" "i < length ?phys" using i by (simp_all add: b)
  have "?C - 1 < max_default 0 ?phys" using max_default_ge [OF nth_mem [OF at(2)], of 0] at(1) by simp
  then obtain w h c j where p: "published_chunk (bid @ ''-c'' @ fmt06 j) slots ents caps rowmap c w h \<in> set chs"
      "0 < h" "w * h \<le> slots" "int h = column_height ?phys c" "c \<le> ?C - 1" "?C - 1 < c + int w"
    using tiled_covers [OF t, of "?C - 1"] pos by auto
  let ?ch = "published_chunk (bid @ ''-c'' @ fmt06 j) slots ents caps rowmap c w h"
  have sorted: "sorted_wrt (\<ge>) ?phys" using r by (simp add: rows_ok_def b)
  have ih: "i < h" using column_height_at [OF sorted at(2), of c] p(4,5) at(1) by simp
  define d where "d = nat (?C - 1 - c)"
  have d: "d < w" "c + int d = ?C - 1" using p(5,6) by (simp_all add: d_def)
  let ?s = "d * h + i"
  have "?s < Suc d * h" using ih by simp
  also have "Suc d * h \<le> w * h" using d(1) by (intro mult_le_mono1) simp
  finally have s: "?s < w * h" "?s < slots" using p(3) by simp_all
  have sd: "?s mod h = i" "?s div h = d" using ih by simp_all
  let ?l = "cell_lane ?s (filled ents caps rowmap c h (w * h) ?s)"
  have l: "?l \<in> set (chunk_lanes ?ch)" using s(2) by (simp add: published_chunk_lanes)
  have f: "filled ents caps rowmap c h (w * h) ?s = cell ents caps (rowmap ! i) (?C - 1)"
    using s(1) d(2) unfolding filled_def sd by simp
  have "lane_owner ?l = Some (rowmap ! i)" "materialized (lane_kind_of ?l)"
    unfolding f using pos
    by (auto simp: cell_def cell_lane_def lane_owner_def lane_kind_of_def materialized_def split: prod.split)
  moreover have "lane_reach ?ch ?l = ?C"
    using d(2) ih by (simp add: lane_reach_def cell_lane_def flip: of_nat_mult of_nat_add of_nat_div)
  ultimately show ?thesis unfolding reaches_def b(3) using p(1) l by blast
qed

lemma publish_block_spec:
  fixes sp :: layout_spec
  assumes ok: "input_ok (ls_rows sp) (ls_cols sp) ents caps"
    and start: "0 \<le> start" "start < ls_rows sp" "0 < part" "part \<le> ls_effective_slots sp" and cid: "valid_id cid"
  obtains b where
    "publish_block cid (ls_rows sp) (ls_effective_slots sp) part ents caps (bs, P, A) (k, start) =
      (bs @ [b], P @ placements_of cid (chunks b), A @ availables_of cid (chunks b))"
    "output_block_id b = cid @ ''-h'' @ fmt06 (nat k)"
    "map chunk_id (chunks b) = map (\<lambda>j. output_block_id b @ ''-c'' @ fmt06 j) [0..<length (chunks b)]"
    "block_good sp (start, min (ls_rows sp) (start + part)) b"
    "mset (block_entries b) = (\<Sum>row \<in> {start..<min (ls_rows sp) (start + part)}. mset (row_entries ents row))"
proof -
  let ?stop = "min (ls_rows sp) (start + part)" and ?slots = "nat (ls_effective_slots sp)"
  define rowmap where "rowmap = sort_key (\<lambda>row. (- (caps ! nat row), row)) (py_range start ?stop)"
  define phys where "phys = map (\<lambda>row. caps ! nat row) rowmap"
  define bid where "bid = cid @ ''-h'' @ fmt06 (nat k)"
  have rm: "set rowmap = {start..<?stop}" "distinct rowmap" "length rowmap = nat (?stop - start)"
      "sorted_wrt (\<ge>) phys"
    unfolding rowmap_def phys_def using capacity_order by blast+
  have rok: "rows_ok (ls_rows sp) (ls_cols sp) ents caps rowmap"
    using ok rm start by (auto simp: rows_ok_def input_ok_def phys_def)
  have caps: "\<forall>c \<in> set phys. 0 \<le> c \<and> c \<le> ls_cols sp"
    using rok by (auto simp: rows_ok_def phys_def intro: order_trans [OF of_nat_0_le_iff])
  have slots: "int ?slots = ls_effective_slots sp" using start by simp
  have "length phys \<le> ?slots" using rm(3) start by (simp add: phys_def)
  then obtain chs where run:
      "publish_chunks cid bid (ls_effective_slots sp) ents caps rowmap phys (max_default 0 phys) 0 0 [] P A =
        (chs, P @ placements_of cid chs, A @ availables_of cid chs)"
      "tiled bid ?slots ents caps rowmap phys chs 0 0"
    using publish_chunks_tiled [of 0 phys ?slots cid bid ents caps rowmap 0 "[]" P A]
      max_default_nonneg [of phys] caps slots by auto
  define b where "b = \<lparr>output_block_id = bid, logical_row_start = start, logical_row_stop = ?stop,
    row_map = rowmap, physical_row_capacities = phys, chunks = chs\<rparr>"
  have f: "row_map b = rowmap" "physical_row_capacities b = map (\<lambda>row. caps ! nat row) rowmap" "chunks b = chs"
      "physical_row_capacities b = phys"
    by (simp_all add: b_def phys_def)
  have vid: "valid_id bid" using cid id_char_pad [of 6 "nat k"] by (simp add: bid_def valid_id_def id_char_def)
  have good: "\<forall>ch \<in> set chs. chunk_good sp b ch"
    using tiled_good [OF rok f(1,2) _ vid] run(2) start by (simp add: f(4))
  have reach: "\<forall>i < length rowmap. phys ! i = 0 \<or> reaches b (rowmap ! i) (phys ! i)"
  proof (intro allI impI)
    fix i assume i: "i < length rowmap"
    have "phys ! i = caps ! nat (rowmap ! i)" "0 \<le> phys ! i" using i caps by (simp_all add: phys_def)
    then show "phys ! i = 0 \<or> reaches b (rowmap ! i) (phys ! i)"
      using tiled_reaches [OF rok f(1-3), of bid ?slots i] run(2) i f(4) by fastforce
  qed
  have bg: "block_good sp (start, ?stop) b"
    using rm vid caps reach good tiled_tiles [OF run(2)] start by (simp add: block_good_def b_def phys_def)
  have fits: "\<forall>row \<in> set rowmap. int (length (ents ! nat row)) \<le> caps ! nat row"
    using rok by (auto simp: rows_ok_def)
  have "mset (block_entries b) = (\<Sum>i<length rowmap. mset (row_entries ents (rowmap ! i)))"
    using tiled_entries [OF _ rm(4) phys_def fits, of bid ?slots chs 0 0] run(2)
    by (simp add: block_entries_def entries_of_def f(3) phys_def)
  also have "\<dots> = (\<Sum>row \<in> set rowmap. mset (row_entries ents row))"
    using rm(2) by (simp add: sum.distinct_set_conv_list sum_list_sum_nth atLeast0LessThan)
  finally have e: "mset (block_entries b) = (\<Sum>row \<in> {start..<?stop}. mset (row_entries ents row))"
    unfolding rm(1) .
  show thesis
  proof (rule that [OF _ _ _ bg e])
    show "publish_block cid (ls_rows sp) (ls_effective_slots sp) part ents caps (bs, P, A) (k, start) =
      (bs @ [b], P @ placements_of cid (chunks b), A @ availables_of cid (chunks b))"
      unfolding publish_block_def Let_def prod.case rowmap_def [symmetric] phys_def [symmetric]
        bid_def [symmetric] run(1) by (simp add: b_def)
    show "output_block_id b = cid @ ''-h'' @ fmt06 (nat k)" by (simp add: b_def bid_def)
    show "map chunk_id (chunks b) = map (\<lambda>j. output_block_id b @ ''-c'' @ fmt06 j) [0..<length (chunks b)]"
      using tiled_ids [OF run(2)] by (simp add: b_def)
  qed
qed

section \<open>All blocks\<close>

definition published_as :: "string \<Rightarrow> layout_spec \<Rightarrow> (int \<times> int) list list \<Rightarrow> output_block_layout \<Rightarrow> int \<times> int \<Rightarrow> bool"
where
  "published_as cid sp ents b = (\<lambda>(k, start). output_block_id b = cid @ ''-h'' @ fmt06 (nat k) \<and>
     map chunk_id (chunks b) = map (\<lambda>j. output_block_id b @ ''-c'' @ fmt06 j) [0..<length (chunks b)] \<and>
     block_good sp (start, min (ls_rows sp) (start + ls_partition_rows sp)) b \<and>
     mset (block_entries b) =
       (\<Sum>row \<in> {start..<min (ls_rows sp) (start + ls_partition_rows sp)}. mset (row_entries ents row)))"

lemma placements_of_append: "placements_of cid (xs @ ys) = placements_of cid xs @ placements_of cid ys"
  by (simp add: placements_of_def)

lemma availables_of_append: "availables_of cid (xs @ ys) = availables_of cid xs @ availables_of cid ys"
  by (simp add: availables_of_def)

lemma publish_blocks_spec:
  assumes ok: "input_ok (ls_rows sp) (ls_cols sp) ents caps" and cid: "valid_id cid"
    and part: "0 < ls_partition_rows sp" "ls_partition_rows sp \<le> ls_effective_slots sp"
  shows "\<forall>(k, start) \<in> set xs. 0 \<le> start \<and> start < ls_rows sp \<Longrightarrow>
    \<exists>bs'. foldl (publish_block cid (ls_rows sp) (ls_effective_slots sp) (ls_partition_rows sp) ents caps) (bs, P, A) xs =
      (bs @ bs', P @ placements_of cid (concat (map chunks bs')), A @ availables_of cid (concat (map chunks bs'))) \<and>
    list_all2 (published_as cid sp ents) bs' xs"
proof (induction xs arbitrary: bs P A)
  case Nil
  then show ?case by (simp add: placements_of_def availables_of_def)
next
  case (Cons x xs)
  obtain k start where x: "x = (k, start)" by (cases x)
  have s: "0 \<le> start" "start < ls_rows sp" using Cons.prems by (simp_all add: x)
  obtain b where b:
    "publish_block cid (ls_rows sp) (ls_effective_slots sp) (ls_partition_rows sp) ents caps (bs, P, A) (k, start) =
      (bs @ [b], P @ placements_of cid (chunks b), A @ availables_of cid (chunks b))"
    "published_as cid sp ents b (k, start)"
    using publish_block_spec [OF ok s part cid, of bs P A k] unfolding published_as_def prod.case by metis
  obtain bs' where bs':
    "foldl (publish_block cid (ls_rows sp) (ls_effective_slots sp) (ls_partition_rows sp) ents caps)
       (bs @ [b], P @ placements_of cid (chunks b), A @ availables_of cid (chunks b)) xs =
      ((bs @ [b]) @ bs', (P @ placements_of cid (chunks b)) @ placements_of cid (concat (map chunks bs')),
       (A @ availables_of cid (chunks b)) @ availables_of cid (concat (map chunks bs')))"
    "list_all2 (published_as cid sp ents) bs' xs"
    using Cons.IH [of "bs @ [b]" "P @ placements_of cid (chunks b)" "A @ availables_of cid (chunks b)"] Cons.prems
    by auto
  show ?case
    unfolding x foldl_Cons b(1) bs'(1) by (intro exI [of _ "b # bs'"]) (simp add: placements_of_append availables_of_append b(2) bs'(2))
qed

lemma tagged_inject:
  "x @ [c] @ d = y @ [c] @ d' \<Longrightarrow> c \<notin> set d \<Longrightarrow> c \<notin> set d' \<Longrightarrow> x = y \<and> d = d'"
  by (auto simp: append_eq_append_conv2 Cons_eq_append_conv append_eq_Cons_conv)

lemma not_digit:
  assumes "of_char c < (48 :: nat) \<or> (57 :: nat) < of_char c"
  shows "c \<notin> set (pad_decimal w n)"
proof -
  have d: "c \<noteq> digit_char d" if "d < 10" for d using assms of_char_digit [OF that] that by auto
  have "c \<notin> set (decimal n)"
  proof (induction n rule: decimal.induct)
    case (1 n)
    then show ?case by (subst decimal.simps) (simp add: d)
  qed
  moreover have "CHR ''0'' = digit_char 0" by code_simp
  ultimately show ?thesis using d [of 0] by (auto simp: pad_decimal_def)
qed

lemma chunk_name_inject:
  assumes "bid @ ''-c'' @ fmt06 j = bid' @ ''-c'' @ fmt06 j'"
  shows "bid = bid' \<and> j = j'"
proof -
  have "CHR ''c'' \<notin> set (fmt06 n)" for n by (rule not_digit) simp
  then show ?thesis
    using tagged_inject [of "bid @ ''-''" "CHR ''c''" "fmt06 j" "bid' @ ''-''" "fmt06 j'"] assms by simp
qed

lemma distinct_chunk_ids:
  "distinct (map output_block_id bs) \<Longrightarrow>
   \<forall>b \<in> set bs. map chunk_id (chunks b) = map (\<lambda>j. output_block_id b @ ''-c'' @ fmt06 j) [0..<length (chunks b)] \<Longrightarrow>
   distinct (map chunk_id (concat (map chunks bs)))"
proof (induction bs)
  case (Cons b bs)
  have in_ids: "\<exists>j. x = output_block_id b' @ ''-c'' @ fmt06 j"
    if "b' \<in> set (b # bs)" "x \<in> set (map chunk_id (chunks b'))" for b' x
    using that Cons.prems(2) by auto
  have "distinct (map chunk_id (chunks b))"
    using Cons.prems(2) by (simp add: distinct_map inj_on_def)
  moreover have "x \<notin> set (map chunk_id (concat (map chunks bs)))" if x: "x \<in> set (map chunk_id (chunks b))" for x
  proof
    assume "x \<in> set (map chunk_id (concat (map chunks bs)))"
    then obtain b' where b': "b' \<in> set bs" "x \<in> set (map chunk_id (chunks b'))" by auto
    have "\<exists>j. x = output_block_id b @ ''-c'' @ fmt06 j" "\<exists>j. x = output_block_id b' @ ''-c'' @ fmt06 j"
      using in_ids [OF _ x] in_ids [OF _ b'(2)] b'(1) by simp_all
    then have "output_block_id b = output_block_id b'" using chunk_name_inject by metis
    then show False using Cons.prems(1) b'(1) by (metis distinct.simps(2) image_eqI list.set_map list.simps(9))
  qed
  ultimately show ?case using Cons by (auto simp: disjoint_iff)
qed simp

section \<open>The rows of the matrix\<close>

lemma entries_by_row_nth:
  assumes "\<forall>((row, gc), v) \<in> set es. 0 \<le> row \<and> row < rows" and "0 \<le> r" and "r < rows"
  shows "entries_by_row_of rows es ! nat r = map (\<lambda>((_, gc), v). (gc, v)) (filter (\<lambda>((row, _), _). row = r) es)"
proof -
  define f where "f = (\<lambda>(acc :: (int \<times> int) list list) ((row, gc), v). acc[nat row := acc ! nat row @ [(gc :: int, v :: int)]])"
  have "length (foldl f acc es) = length acc \<and>
      (nat r < length acc \<longrightarrow> (foldl f acc es) ! nat r =
        acc ! nat r @ map (\<lambda>((_, gc), v). (gc, v)) (filter (\<lambda>((row, _), _). row = r) es))" for acc
    using assms(1)
  proof (induction es arbitrary: acc)
    case (Cons e es)
    obtain row gc v where e: "e = ((row, gc), v)" by (metis surj_pair)
    have "nat row = nat r \<longleftrightarrow> row = r" using Cons.prems assms(2) by (simp add: e eq_nat_nat_iff)
    then show ?case using Cons by (simp add: e f_def nth_list_update)
  qed simp
  from this [of "replicate (nat rows) []"] show ?thesis
    using assms(2,3) by (simp add: entries_by_row_of_def f_def)
qed

lemma row_entries_nth:
  assumes "\<forall>((row, gc), v) \<in> set es. 0 \<le> row \<and> row < rows" and "0 \<le> r" and "r < rows"
  shows "row_entries (entries_by_row_of rows es) r = filter (\<lambda>((row, _), _). row = r) es"
  unfolding row_entries_def entries_by_row_nth [OF assms] by (induction es) auto

lemma sum_rows:
  "\<forall>((row, gc), v) \<in> set es. 0 \<le> row \<and> row < rows \<Longrightarrow>
    (\<Sum>r \<in> {0..<rows}. mset (filter (\<lambda>((row :: int, _), _). row = r) es)) = mset es"
proof (induction es)
  case (Cons e es)
  obtain row gc v where e: "e = ((row, gc), v)" by (metis surj_pair)
  have "(\<Sum>r \<in> {0..<rows}. mset (filter (\<lambda>((row, _), _). row = r) (e # es))) =
      (\<Sum>r \<in> {0..<rows}. (if r = row then {#e#} else {#}) + mset (filter (\<lambda>((row, _), _). row = r) es))"
    by (intro sum.cong) (auto simp: e)
  also have "\<dots> = {#e#} + mset es"
    using Cons by (simp add: sum.distrib e sum.delta)
  finally show ?case by simp
qed simp

lemma sum_ranges:
  assumes "0 < (part :: int)" and "0 \<le> rows"
  shows "(\<Sum>k<n. \<Sum>r \<in> {int k * part..<min rows (int k * part + part)}. F r) =
    (\<Sum>r \<in> {0..<min rows (int n * part)}. (F r :: 'a multiset))"
proof (induction n)
  case (Suc n)
  let ?a = "min rows (int n * part)" and ?b = "min rows (int n * part + part)"
  have "0 \<le> ?a" "?a \<le> ?b" using assms by simp_all
  then have "{0..<?b} = {0..<?a} \<union> {?a..<?b}" "{0..<?a} \<inter> {?a..<?b} = {}"
    by (rule ivl_disj_un_two(3) [symmetric]) (rule ivl_disj_int_two(3))
  then have "(\<Sum>r \<in> {0..<?b}. F r) = (\<Sum>r \<in> {0..<?a}. F r) + (\<Sum>r \<in> {?a..<?b}. F r)"
    by (simp add: sum.union_disjoint)
  moreover have "{?a..<?b} = {int n * part..<?b}" by (auto simp: min_def split: if_splits)
  ultimately show ?case using Suc by (simp add: algebra_simps)
qed (simp add: assms)

lemma sum_range_step:
  assumes "0 < part" and "0 < rows"
  shows "(\<Sum>start \<leftarrow> range_step rows part. \<Sum>r \<in> {start..<min rows (start + part)}. F r) =
    (\<Sum>r \<in> {0..<rows}. (F r :: 'a multiset))"
proof -
  define n where "n = nat ((rows + part - 1) div part)"
  have "int n = (rows + part - 1) div part" using assms by (simp add: n_def pos_imp_zdiv_nonneg_iff)
  have "rows \<le> int n * part"
    unfolding \<open>int n = _\<close> using div_mult_mod_eq [of "rows + part - 1" part] pos_mod_bound [OF assms(1), of "rows + part - 1"] by linarith
  then have "min rows (int n * part) = rows" by simp
  then show ?thesis
    using sum_ranges [OF assms(1), of rows F n] assms(2)
    by (simp add: range_step_def n_def [symmetric] o_def interv_sum_list_conv_sum_set_nat atLeast0LessThan)
qed

section \<open>The component\<close>

lemma list_all2_sum:
  "list_all2 P xs ys \<Longrightarrow> (\<And>x y. P x y \<Longrightarrow> f x = g y) \<Longrightarrow> sum_list (map f xs) = sum_list (map g ys)"
  by (induction xs ys rule: list_all2_induct) auto

lemma blocks_component_good:
  fixes c :: published_component and ents :: "(int \<times> int) list list"
  defines "sp \<equiv> layout_spec c"
  assumes pos: "0 < ls_rows sp" "0 < ls_cols sp" "0 < ls_effective_slots sp" "0 < ls_partition_rows sp"
      "ls_partition_rows sp \<le> ls_effective_slots sp"
    and ids: "valid_id (component_id c)" "valid_id (version_id c)"
    and bs: "list_all2 (published_as (component_id c) sp ents) (blocks c)
      (py_enumerate (range_step (ls_rows sp) (ls_partition_rows sp)))"
    and es: "\<forall>((row, gc), v) \<in> set es. 0 \<le> row \<and> row < ls_rows sp" "ents = entries_by_row_of (ls_rows sp) es"
      "distinct (map fst es)"
    and idx: "coordinate_slots c = sort (placements_of (component_id c) (component_chunks c))"
      "available_slots c = availables_of (component_id c) (component_chunks c)"
  shows "component_good c" "mset (component_entries c) = mset es"
proof -
  let ?starts = "range_step (ls_rows sp) (ls_partition_rows sp)"
  have len: "length (blocks c) = length ?starts" using list_all2_lengthD [OF bs] by simp
  have at: "published_as (component_id c) sp ents (blocks c ! i) (int i, ?starts ! i)" if "i < length ?starts" for i
    using list_all2_nthD2 [OF bs, of i] that by simp
  have good: "list_all2 (\<lambda>b bounds. block_good sp bounds b) (blocks c) (expected_ranges sp)"
    using at len by (auto simp: list_all2_conv_all_nth expected_ranges_def published_as_def)
  have "map output_block_id (blocks c) = map (\<lambda>i. component_id c @ ''-h'' @ fmt06 i) [0..<length ?starts]"
    using at len by (intro nth_equalityI) (auto simp: published_as_def)
  then have d1: "distinct (map output_block_id (blocks c))" by (simp add: distinct_map inj_on_def)
  have "map chunk_id (chunks b) = map (\<lambda>j. output_block_id b @ ''-c'' @ fmt06 j) [0..<length (chunks b)]"
    if "b \<in> set (blocks c)" for b
    using that at len by (auto simp: in_set_conv_nth published_as_def)
  then have d2: "distinct (map chunk_id (component_chunks c))"
    unfolding component_chunks_def using distinct_chunk_ids [OF d1] by blast
  have "mset (component_entries c) = sum_list (map (\<lambda>b. mset (block_entries b)) (blocks c))"
    by (simp add: component_entries_def mset_concat o_def)
  also have "\<dots> = sum_list (map (\<lambda>(k, start). \<Sum>row \<in> {start..<min (ls_rows sp) (start + ls_partition_rows sp)}.
      mset (row_entries ents row)) (py_enumerate ?starts))"
    by (rule list_all2_sum [OF bs]) (auto simp: published_as_def)
  also have "\<dots> = sum_list (map (\<lambda>start. \<Sum>row \<in> {start..<min (ls_rows sp) (start + ls_partition_rows sp)}.
      mset (row_entries ents row)) (map snd (py_enumerate ?starts)))"
    unfolding map_map by (intro arg_cong [of _ _ sum_list] map_cong refl) (auto split: prod.split)
  also have "\<dots> = (\<Sum>row \<in> {0..<ls_rows sp}. mset (row_entries ents row))"
    using sum_range_step [OF pos(4,1)] by simp
  also have "\<dots> = (\<Sum>row \<in> {0..<ls_rows sp}. mset (filter (\<lambda>((r, _), _). r = row) es))"
    using row_entries_nth [OF es(1)] by (intro sum.cong) (simp_all add: es(2))
  also have "\<dots> = mset es" by (rule sum_rows [OF es(1)])
  finally show m: "mset (component_entries c) = mset es" .
  then have "mset (map fst (component_entries c)) = mset (map fst es)" by (simp only: mset_map)
  then have d3: "distinct (map fst (component_entries c))" using es(3) by (metis mset_eq_imp_distinct_iff)
  show "component_good c"
    unfolding component_good_def Let_def sp_def [symmetric]
    by (intro conjI ids pos good d1 d2 d3 idx)
qed

end
