(* ===== verification/Strategy_State.thy ===== *)
theory Strategy_State
  imports Query_Compiler
begin

text \<open>
  \<open>strategy_state.py\<close>: the publication strategies. A strategy owns the logical matrix and its
  physical layout (a base component, and a CSSC delta, packed-COO segments or a segmented
  delta), and advances by one publication window at a time: it patches lanes of the base in
  place, absorbs insertions into free lanes, and puts what overflows into the delta, a rebuilt
  block or new segments. This theory holds the data, the lane index operations, the point patch
  and the checks; the transitions are in \<open>Strategy_Advance\<close> and \<open>Strong_Strategy\<close>.
\<close>

section \<open>Configuration and state\<close>

datatype strategy_kind = PaddingReuse | ReservedSlack | MiniDelta | PackedCOO
  | StrictLocalRepack | PeriodicRepack

text \<open>A finite double \<open>(m, e)\<close> is \<open>m * 2 ^ e\<close> with a mantissa of at most 53 bits.\<close>

type_synonym float64 = "int \<times> int"

text \<open>
  The two configuration classes share their first fields, and the functions that take either
  read only those: the classes are two extensions of one record.
\<close>

record matrix_config =
  mc_rows :: int
  mc_cols :: int
  mc_effective_slots :: int
  mc_partition_rows :: int
  mc_matrix_value_bound :: int
  mc_max_row_nnz :: int
  mc_reserved_slack_beta :: float64

record strategy_config = matrix_config +
  periodic_repack_windows :: int
  packed_coo_segment_capacity :: int

record free_lane =
  fl_row :: int
  fl_kind :: lane_kind
  fl_location :: slot_location
  fl_retained_column :: "int option"

record lane_patch =
  lp_location :: slot_location
  lp_original_coordinate :: "coord option"
  lp_original_kind :: lane_kind
  lp_owner_row :: int
  lp_coordinate :: "coord option"
  lp_value :: int
  lp_column_index :: int
  lp_kind :: lane_kind

record component_inspection =
  ci_decoded :: "(coord, int) dict"
  ci_free_lanes :: "free_lane list"

text \<open>Likewise the fields of a state that the point patch reads are shared by both states.\<close>

record layout_state =
  st_version_ordinal :: int
  st_version_id :: string
  st_logical :: "(coord, int) dict"
  st_base :: published_component
  st_free_lanes :: "free_lane list"

record strategy_state = layout_state +
  st_strategy :: strategy_kind
  st_config :: strategy_config
  st_delta :: "published_component option"
  st_delta_logical :: "(coord, int) dict"
  st_coo_segments :: "packed_coo_segment list"
  st_windows_since_repack :: int
  st_repack_count :: int

text \<open>
  The one-use proof that a simulator owns an already checked state: whether it was minted for
  the very state it is presented with, and whether it has been consumed.
\<close>

record validated_predecessor =
  vp_for_this_state :: bool
  vp_consumed :: bool

definition consume_predecessor :: "(validated_predecessor, unit) action" where
  "consume_predecessor p =
     (if vp_consumed p \<or> \<not> vp_for_this_state p
      then (Inl (ValueError ''validated predecessor is stale, replayed, or for another state''), p)
      else (Inr (), p\<lparr>vp_consumed := True\<rparr>))"

record transition_facts =
  tf_updates :: int
  tf_query_count :: int
  value_patch_chunks :: int
  ci_patch_entries :: int
  ci_full_sync_entries :: int
  rebuilt_ciphertexts :: int
  delta_ciphertexts :: int
  delta_rebuilt_ciphertexts :: int
  absorbed_tombstone :: int
  absorbed_natural_padding :: int
  absorbed_reserved :: int
  tf_overflow :: int
  overflow_rows :: "int list"
  patched_chunk_ids :: "(string \<times> string) list"
  rebuilt_output_block_ids :: "string list"
  active_component_ids :: "string list"

text \<open>The keyword defaults of the class, and its \<open>__post_init__\<close>.\<close>

definition no_facts :: "int \<Rightarrow> int \<Rightarrow> transition_facts" where
  "no_facts updates queries = \<lparr>tf_updates = updates, tf_query_count = queries,
     value_patch_chunks = 0, ci_patch_entries = 0, ci_full_sync_entries = 0,
     rebuilt_ciphertexts = 0, delta_ciphertexts = 0, delta_rebuilt_ciphertexts = 0,
     absorbed_tombstone = 0, absorbed_natural_padding = 0, absorbed_reserved = 0,
     tf_overflow = 0, overflow_rows = [], patched_chunk_ids = [],
     rebuilt_output_block_ids = [], active_component_ids = []\<rparr>"

definition checked_facts :: "transition_facts \<Rightarrow> transition_facts res" where
  "checked_facts f =
     (if int (length (overflow_rows f)) \<noteq> tf_overflow f
      then Inl (ValueError ''overflow must equal len(overflow_rows)'') else Inr f)"

definition metadata_units :: "transition_facts \<Rightarrow> int" where
  "metadata_units f = ci_patch_entries f + ci_full_sync_entries f"

record transition =
  tr_state :: strategy_state
  tr_facts :: transition_facts
  tr_output_plan :: "output_plan option"

definition checked_transition :: "strategy_state \<Rightarrow> transition_facts \<Rightarrow> output_plan option \<Rightarrow> transition res" where
  "checked_transition s f plan =
     (if tf_query_count f < 0 then
        Inl (ValueError ''transition query_count must be a nonnegative strict integer'')
      else if (tf_query_count f = 0) \<noteq> (plan = None) then
        Inl (ValueError ''ordinary query-side plans exist exactly for query-bearing transitions'')
      else Inr \<lparr>tr_state = s, tr_facts = f, tr_output_plan = plan\<rparr>)"

section \<open>Validation of the inputs\<close>

definition ss_positive_int :: "int \<Rightarrow> string \<Rightarrow> int res" where
  "ss_positive_int v field =
     (if v \<le> 0 then Inl (ValueError (field @ '' must be a positive strict integer'')) else Inr v)"

definition validate_config ::
  "strategy_kind \<Rightarrow> int \<Rightarrow> int \<Rightarrow> int \<Rightarrow> int option \<Rightarrow> int \<Rightarrow> int \<Rightarrow> float64 \<Rightarrow> int \<Rightarrow> int \<Rightarrow>
     strategy_config res"
where
  "validate_config strategy rows cols slots part_rows bound max_nnz beta periodic capacity =
     rbind (ss_positive_int rows ''rows'') (\<lambda>rows.
     rbind (ss_positive_int cols ''cols'') (\<lambda>cols.
     rbind (ss_positive_int slots ''effective_slots'') (\<lambda>slots.
     rbind (ss_positive_int (case part_rows of None \<Rightarrow> slots | Some p \<Rightarrow> p) ''partition_rows'') (\<lambda>part_rows.
     if part_rows > slots then
       Inl (ValueError ''partition_rows must not exceed effective_slots'')
     else
     rbind (ss_positive_int bound ''matrix_value_bound'') (\<lambda>bound.
     rbind (ss_positive_int max_nnz ''max_row_nnz'') (\<lambda>max_nnz.
     rbind (ss_positive_int periodic ''periodic_repack_windows'') (\<lambda>periodic.
     rbind (ss_positive_int capacity ''packed_coo_segment_capacity'') (\<lambda>capacity.
     if strategy = PackedCOO \<and> capacity > slots then
       Inl (ValueError ''packed_coo_segment_capacity must not exceed effective_slots'')
     else if fst beta < 0 then
       Inl (ValueError ''reserved_slack_beta must be a finite nonnegative number'')
     else Inr \<lparr>mc_rows = rows, mc_cols = cols, mc_effective_slots = slots,
            mc_partition_rows = part_rows, mc_matrix_value_bound = bound,
            mc_max_row_nnz = max_nnz, mc_reserved_slack_beta = beta,
            periodic_repack_windows = periodic, packed_coo_segment_capacity = capacity\<rparr>))))))))"

definition check_logical_entry :: "('z) matrix_config_scheme \<Rightarrow> coord \<times> int \<Rightarrow> unit res" where
  "check_logical_entry cfg = (\<lambda>((row, col), v).
     if \<not> (0 \<le> row \<and> row < mc_rows cfg) \<or> \<not> (0 \<le> col \<and> col < mc_cols cfg) then
       Inl (ValueError ''logical coordinate is outside the matrix'')
     else if v = 0 \<or> \<bar>v\<bar> > mc_matrix_value_bound cfg then
       Inl (ValueError ''logical value violates the matrix value bound'')
     else Inr ())"

definition row_counts :: "(coord, int) dict \<Rightarrow> (int, int) dict" where
  "row_counts logical = counter_of (map (\<lambda>((row, _), _). row) logical)"

definition validate_logical ::
  "(coord, int) dict \<Rightarrow> ('z) matrix_config_scheme \<Rightarrow> (coord, int) dict res"
where
  "validate_logical logical cfg =
     rbind (rfold (\<lambda>_ e. check_logical_entry cfg e) () logical) (\<lambda>_.
     if \<exists>(_, count) \<in> set (row_counts logical). count > mc_max_row_nnz cfg then
       Inl (ValueError ''logical state violates the row nonzero bound'')
     else Inr logical)"

text \<open>
  \<open>ceil(beta * n)\<close> in double arithmetic: both the conversion of \<open>n\<close> and the product are rounded
  to 53 bits, half to even. The product of a double with a positive integer is never subnormal
  and inexact, and the ceiling of an infinity raises.
\<close>

definition round53 :: "int \<Rightarrow> int \<times> nat" where
  "round53 m =
     (let k = bit_length (nat m) - 53;
          q = m div 2 ^ k; r = 2 * (m mod 2 ^ k)
      in (if k = 0 then m else if r > 2 ^ k \<or> r = 2 ^ k \<and> odd q then q + 1 else q, k))"

definition float_times_int :: "float64 \<Rightarrow> int \<Rightarrow> float64" where
  "float_times_int x n =
     (let (n', j) = round53 n; (p, k) = round53 (fst x * n') in (p, snd x + int j + int k))"

definition float_ceil :: "float64 \<Rightarrow> int res" where
  "float_ceil x =
     (if fst x \<noteq> 0 \<and> int (bit_length (nat (fst x))) + snd x > 1024 then
        Inl (OverflowError ''cannot convert float infinity to integer'')
      else if 0 \<le> snd x then Inr (fst x * 2 ^ nat (snd x))
      else Inr (- ((- fst x) div 2 ^ nat (- snd x))))"

definition reserved_capacities ::
  "(coord, int) dict \<Rightarrow> ('z) matrix_config_scheme \<Rightarrow> int list res"
where
  "reserved_capacities logical cfg =
     (let counts = row_counts logical in
      rmap (\<lambda>row. let n = dict_get counts row 0 in
        rbind (if fst (mc_reserved_slack_beta cfg) > 0
               then float_ceil (float_times_int (mc_reserved_slack_beta cfg) (max 1 n))
               else Inr 0) (\<lambda>slack. Inr (min (mc_cols cfg) (n + slack))))
        (py_range 0 (mc_rows cfg)))"

section \<open>Bisection\<close>

text \<open>
  The loops of \<open>bisect.bisect_left\<close> and \<open>bisect.bisect_right\<close> with a key function, on the bounds
  \<open>lo\<close> and \<open>hi\<close>.
\<close>

function bisect_left_loop :: "('a \<Rightarrow> 'k::linorder) \<Rightarrow> 'a list \<Rightarrow> 'k \<Rightarrow> nat \<Rightarrow> nat \<Rightarrow> nat" where
  "bisect_left_loop key xs x lo hi =
     (if lo < hi then
        let mid = (lo + hi) div 2
        in if key (xs ! mid) < x then bisect_left_loop key xs x (Suc mid) hi
           else bisect_left_loop key xs x lo mid
      else lo)"
  by pat_completeness auto
termination
  by (relation "measure (\<lambda>(_, _, _, lo, hi). hi - lo)") auto

function bisect_right_loop :: "('a \<Rightarrow> 'k::linorder) \<Rightarrow> 'a list \<Rightarrow> 'k \<Rightarrow> nat \<Rightarrow> nat \<Rightarrow> nat" where
  "bisect_right_loop key xs x lo hi =
     (if lo < hi then
        let mid = (lo + hi) div 2
        in if x < key (xs ! mid) then bisect_right_loop key xs x lo mid
           else bisect_right_loop key xs x (Suc mid) hi
      else lo)"
  by pat_completeness auto
termination
  by (relation "measure (\<lambda>(_, _, _, lo, hi). hi - lo)") auto

declare bisect_left_loop.simps [simp del] bisect_right_loop.simps [simp del]

definition bisect_left :: "('a \<Rightarrow> 'k::linorder) \<Rightarrow> 'a list \<Rightarrow> 'k \<Rightarrow> nat" where
  "bisect_left key xs x = bisect_left_loop key xs x 0 (length xs)"

definition bisect_right :: "('a \<Rightarrow> 'k::linorder) \<Rightarrow> 'a list \<Rightarrow> 'k \<Rightarrow> nat" where
  "bisect_right key xs x = bisect_right_loop key xs x 0 (length xs)"

text \<open>\<open>list.insert(i, x)\<close> and \<open>list.pop(i)\<close> for \<open>i\<close> within the list.\<close>

definition insert_at :: "nat \<Rightarrow> 'a \<Rightarrow> 'a list \<Rightarrow> 'a list" where
  "insert_at i x xs = take i xs @ x # drop i xs"

definition remove_at :: "nat \<Rightarrow> 'a list \<Rightarrow> 'a list" where
  "remove_at i xs = take i xs @ drop (Suc i) xs"

section \<open>Free lanes\<close>

fun lane_kind_order :: "lane_kind \<Rightarrow> nat" where
  "lane_kind_order Tombstone = 0"
| "lane_kind_order NaturalPadding = 1"
| "lane_kind_order Reserved = 2"
| "lane_kind_order _ = 3"

definition reusable :: "lane_kind \<Rightarrow> bool" where
  "reusable k \<longleftrightarrow> k = Tombstone \<or> k = NaturalPadding \<or> k = Reserved"

definition free_lane_key :: "free_lane \<Rightarrow> int \<times> nat \<times> slot_location" where
  "free_lane_key l = (fl_row l, lane_kind_order (fl_kind l), fl_location l)"

definition zip_error :: "py_exc" where
  "zip_error = ValueError ''zip() argument lengths differ''"

text \<open>\<open>zip(..., strict=True)\<close> raises after the lanes all arrays have were visited.\<close>

definition free_lane_of ::
  "string \<Rightarrow> string \<Rightarrow> free_lane list \<Rightarrow> int \<times> lane_kind \<times> int option \<times> int \<Rightarrow> free_lane list res"
where
  "free_lane_of cid chid lanes = (\<lambda>(slot, kind, row, col).
     if \<not> reusable kind then Inr lanes
     else case row of
       None \<Rightarrow> Inl (AssertionError ''a reusable lane must have a logical row owner'')
     | Some r \<Rightarrow> Inr (lanes @ [\<lparr>fl_row = r, fl_kind = kind, fl_location = (cid, chid, slot),
         fl_retained_column = (if kind = Tombstone then Some col else None)\<rparr>]))"

definition free_lanes_of_chunk ::
  "string \<Rightarrow> free_lane list \<Rightarrow> value_chunk \<Rightarrow> free_lane list res"
where
  "free_lanes_of_chunk cid lanes ch =
     rbind (rfold (free_lane_of cid (chunk_id ch)) lanes
       (py_enumerate (zip (slot_kinds ch) (zip (slot_owner_rows ch) (column_indices ch))))) (\<lambda>lanes.
     if length (slot_kinds ch) \<noteq> length (slot_owner_rows ch) \<or>
        length (slot_kinds ch) \<noteq> length (column_indices ch)
     then Inl zip_error else Inr lanes)"

definition free_lanes :: "published_component \<Rightarrow> free_lane list res" where
  "free_lanes c =
     rbind (rfold (free_lanes_of_chunk (component_id c)) [] (component_chunks c)) (\<lambda>lanes.
     Inr (sort_key free_lane_key lanes))"

definition insert_free_lane :: "free_lane list \<Rightarrow> free_lane \<Rightarrow> free_lane list" where
  "insert_free_lane lanes l =
     insert_at (bisect_right free_lane_key lanes (free_lane_key l)) l lanes"

definition available_slot_key :: "int \<times> lane_kind \<times> slot_location \<Rightarrow> string \<times> int" where
  "available_slot_key = (\<lambda>(_, _, _, chid, slot). (chid, slot))"

section \<open>Rebuilding the indices of a component\<close>

definition count_kind :: "lane_kind \<Rightarrow> lane_kind list \<Rightarrow> int" where
  "count_kind k ks = int (length (filter (\<lambda>x. x = k) ks))"

type_synonym lane_indices =
  "(coord \<times> slot_location) list \<times> (int \<times> lane_kind \<times> slot_location) list"

definition reindex_lane ::
  "string \<Rightarrow> string \<Rightarrow> lane_indices \<Rightarrow> int \<times> lane_kind \<times> int option \<times> coord option \<Rightarrow> lane_indices res"
where
  "reindex_lane cid chid = (\<lambda>(placements, available) (slot, kind, row, coordinate).
     if kind = Actual then
       (case coordinate of
          None \<Rightarrow> Inl (AssertionError ''an actual lane must own a coordinate'')
        | Some c \<Rightarrow> Inr (placements @ [(c, cid, chid, slot)], available))
     else if reusable kind then
       (case row of
          None \<Rightarrow> Inl (AssertionError ''a reusable lane must own a row'')
        | Some r \<Rightarrow> Inr (placements, available @ [(r, kind, cid, chid, slot)]))
     else Inr (placements, available))"

definition reindex_chunk :: "string \<Rightarrow> lane_indices \<Rightarrow> value_chunk \<Rightarrow> lane_indices res" where
  "reindex_chunk cid idx ch =
     rbind (rfold (reindex_lane cid (chunk_id ch)) idx
       (py_enumerate (zip (slot_kinds ch) (zip (slot_owner_rows ch) (slot_coordinates ch))))) (\<lambda>idx.
     if length (slot_kinds ch) \<noteq> length (slot_owner_rows ch) \<or>
        length (slot_kinds ch) \<noteq> length (slot_coordinates ch)
     then Inl zip_error else Inr idx)"

definition recount_chunk :: "value_chunk \<Rightarrow> value_chunk" where
  "recount_chunk ch = ch\<lparr>used_slots := count_kind Actual (slot_kinds ch),
     reserved_slots := count_kind Reserved (slot_kinds ch)\<rparr>"

definition reindex_component :: "published_component \<Rightarrow> published_component res" where
  "reindex_component c =
     rbind (rfold (reindex_chunk (component_id c)) ([], []) (component_chunks c))
       (\<lambda>(placements, available).
     Inr (c\<lparr>blocks := map (\<lambda>b. b\<lparr>chunks := map recount_chunk (chunks b)\<rparr>) (blocks c),
            coordinate_slots := sort placements, available_slots := available\<rparr>))"

section \<open>Patching lanes in place\<close>

type_synonym chunk_patches = "(string, (int, lane_patch) dict) dict"

definition group_patch :: "string \<Rightarrow> chunk_patches \<Rightarrow> lane_patch \<Rightarrow> chunk_patches res" where
  "group_patch cid by_chunk p = (case lp_location p of (c, chid, slot) \<Rightarrow>
     if c \<noteq> cid then Inl (AssertionError ''slot location belongs to another component'')
     else let own = dict_get by_chunk chid [] in
       if slot \<in> fst ` set own then
         Inl (AssertionError ''one lane may have only one final patch per window'')
       else Inr (AList.update chid (AList.update slot p own) by_chunk))"

text \<open>
  The copies of one chunk's arrays, the row increments of its block, and the component's two
  indices, as the loop over the sorted patches of the chunk changes them.
\<close>

record patch_scan =
  ps_values :: "int list"
  ps_columns :: "int list"
  ps_coordinates :: "coord option list"
  ps_kinds :: "lane_kind list"
  ps_increments :: "(int, int) dict"
  ps_coordinate_slots :: "(coord \<times> slot_location) list"
  ps_available_slots :: "(int \<times> lane_kind \<times> slot_location) list"

definition drop_coordinate ::
  "coord option \<Rightarrow> slot_location \<Rightarrow> (coord \<times> slot_location) list \<Rightarrow> (coord \<times> slot_location) list res"
where
  "drop_coordinate original location idx = (case original of None \<Rightarrow> Inr idx | Some c \<Rightarrow>
     let i = bisect_left fst idx c in
     if i \<ge> length idx \<or> idx ! i \<noteq> (c, location) then
       Inl (AssertionError ''coordinate index does not name the patched lane'')
     else Inr (remove_at i idx))"

definition add_coordinate ::
  "coord option \<Rightarrow> slot_location \<Rightarrow> (coord \<times> slot_location) list \<Rightarrow> (coord \<times> slot_location) list res"
where
  "add_coordinate coordinate location idx = (case coordinate of None \<Rightarrow> Inr idx | Some c \<Rightarrow>
     let i = bisect_left fst idx c in
     if i < length idx \<and> fst (idx ! i) = c then
       Inl (AssertionError ''patched coordinate already has a physical lane'')
     else Inr (insert_at i (c, location) idx))"

definition patch_coordinate_index ::
  "lane_patch \<Rightarrow> (coord \<times> slot_location) list \<Rightarrow> (coord \<times> slot_location) list res"
where
  "patch_coordinate_index p idx =
     (if lp_original_coordinate p = lp_coordinate p then Inr idx
      else rbind (drop_coordinate (lp_original_coordinate p) (lp_location p) idx)
             (add_coordinate (lp_coordinate p) (lp_location p)))"

definition drop_available ::
  "lane_patch \<Rightarrow> (int \<times> lane_kind \<times> slot_location) list \<Rightarrow>
     (int \<times> lane_kind \<times> slot_location) list res"
where
  "drop_available p idx =
     (if \<not> reusable (lp_original_kind p) then Inr idx
      else let i = bisect_left available_slot_key idx
                 (available_slot_key (lp_owner_row p, lp_original_kind p, lp_location p)) in
        if i \<ge> length idx \<or> snd (snd (idx ! i)) \<noteq> lp_location p then
          Inl (AssertionError ''available-lane index does not name the patched lane'')
        else Inr (remove_at i idx))"

definition add_available ::
  "lane_patch \<Rightarrow> (int \<times> lane_kind \<times> slot_location) list \<Rightarrow> (int \<times> lane_kind \<times> slot_location) list"
where
  "add_available p idx =
     (if \<not> reusable (lp_kind p) then idx
      else let item = (lp_owner_row p, lp_kind p, lp_location p)
           in insert_at (bisect_left available_slot_key idx (available_slot_key item)) item idx)"

definition patch_available_index ::
  "lane_patch \<Rightarrow> (int \<times> lane_kind \<times> slot_location) list \<Rightarrow>
     (int \<times> lane_kind \<times> slot_location) list res"
where
  "patch_available_index p idx = rbind (drop_available p idx) (\<lambda>idx. Inr (add_available p idx))"

definition patch_lane ::
  "int \<Rightarrow> value_chunk \<Rightarrow> patch_scan \<Rightarrow> int \<times> lane_patch \<Rightarrow> patch_scan res"
where
  "patch_lane slots ch s = (\<lambda>(slot, p).
     if \<not> (0 \<le> slot \<and> slot < slots) then
       Inl (AssertionError ''slot location is outside the ciphertext'')
     else if nat slot \<ge> length (ps_kinds s) \<or> nat slot \<ge> length (slot_owner_rows ch) \<or>
        nat slot \<ge> length (ps_values s) \<or> nat slot \<ge> length (ps_columns s) \<or>
        nat slot \<ge> length (ps_coordinates s) then Inl IndexError
     else if ps_kinds s ! nat slot \<noteq> lp_original_kind p \<or>
        ps_coordinates s ! nat slot \<noteq> lp_original_coordinate p \<or>
        slot_owner_rows ch ! nat slot \<noteq> Some (lp_owner_row p) then
       Inl (AssertionError ''lane patch does not match the validated base'')
     else
     rbind (patch_coordinate_index p (ps_coordinate_slots s)) (\<lambda>coordinates.
     rbind (patch_available_index p (ps_available_slots s)) (\<lambda>available.
     Inr (s\<lparr>ps_values := (ps_values s)[nat slot := lp_value p],
            ps_columns := (ps_columns s)[nat slot := lp_column_index p],
            ps_coordinates := (ps_coordinates s)[nat slot := lp_coordinate p],
            ps_kinds := (ps_kinds s)[nat slot := lp_kind p],
            ps_increments :=
              (if lp_original_kind p = NaturalPadding \<and> lp_kind p = Actual
               then counter_add (ps_increments s) (lp_owner_row p) else ps_increments s),
            ps_coordinate_slots := coordinates, ps_available_slots := available\<rparr>))))"

text \<open>Per block: the row increments, the two indices, the chunks found, the chunks so far.\<close>

type_synonym block_patch =
  "(int, int) dict \<times> (coord \<times> slot_location) list \<times> (int \<times> lane_kind \<times> slot_location) list \<times>
     string list \<times> value_chunk list"

definition patch_chunk ::
  "int \<Rightarrow> chunk_patches \<Rightarrow> block_patch \<Rightarrow> value_chunk \<Rightarrow> block_patch res"
where
  "patch_chunk slots by_chunk = (\<lambda>(increments, coordinates, available, found, acc) ch.
     case map_of by_chunk (chunk_id ch) of
       None \<Rightarrow> Inr (increments, coordinates, available, found, acc @ [ch])
     | Some ps \<Rightarrow>
         rbind (rfold (patch_lane slots ch)
             \<lparr>ps_values = vc_values ch, ps_columns = column_indices ch,
              ps_coordinates = slot_coordinates ch, ps_kinds = slot_kinds ch,
              ps_increments = increments, ps_coordinate_slots = coordinates,
              ps_available_slots = available\<rparr> (sort_key fst ps)) (\<lambda>s.
         Inr (ps_increments s, ps_coordinate_slots s, ps_available_slots s, chunk_id ch # found,
              acc @ [recount_chunk (ch\<lparr>vc_values := ps_values s, column_indices := ps_columns s,
                slot_coordinates := ps_coordinates s, slot_kinds := ps_kinds s\<rparr>)])))"

definition raise_capacity ::
  "(int, int) dict \<Rightarrow> int list \<Rightarrow> int \<times> int \<Rightarrow> int list res"
where
  "raise_capacity physical_rows capacities = (\<lambda>(row, increment).
     case map_of physical_rows row of
       None \<Rightarrow> Inl KeyError
     | Some i \<Rightarrow> if nat i \<ge> length capacities then Inl IndexError
         else Inr (capacities[nat i := capacities ! nat i + increment]))"

definition patch_block ::
  "int \<Rightarrow> chunk_patches \<Rightarrow>
     (coord \<times> slot_location) list \<times> (int \<times> lane_kind \<times> slot_location) list \<times> string list \<times>
       output_block_layout list \<Rightarrow> output_block_layout \<Rightarrow>
     ((coord \<times> slot_location) list \<times> (int \<times> lane_kind \<times> slot_location) list \<times> string list \<times>
       output_block_layout list) res"
where
  "patch_block slots by_chunk = (\<lambda>(coordinates, available, found, acc) b.
     rbind (rfold (patch_chunk slots by_chunk) ([], coordinates, available, found, []) (chunks b))
       (\<lambda>(increments, coordinates, available, found, chs).
     rbind (rfold (raise_capacity (dict_of (map (\<lambda>(i, row). (row, i)) (py_enumerate (row_map b)))))
              (physical_row_capacities b) increments) (\<lambda>capacities.
     Inr (coordinates, available, found,
          acc @ [b\<lparr>physical_row_capacities := capacities, chunks := chs\<rparr>]))))"

definition patch_lanes :: "published_component \<Rightarrow> lane_patch list \<Rightarrow> published_component res" where
  "patch_lanes c patches =
     (if patches = [] then Inr c
      else
      rbind (rfold (group_patch (component_id c)) [] patches) (\<lambda>by_chunk.
      rbind (rfold (patch_block (ls_effective_slots (layout_spec c)) by_chunk)
               (coordinate_slots c, available_slots c, [], []) (blocks c))
        (\<lambda>(coordinates, available, found, bs).
      if set found \<noteq> fst ` set by_chunk then
        Inl (AssertionError ''lane patch does not name an active chunk'')
      else Inr (c\<lparr>blocks := bs, coordinate_slots := coordinates, available_slots := available\<rparr>))))"

section \<open>The point patch of a base\<close>

record point_patch =
  pp_free_lanes :: "free_lane list"
  pp_patches :: "(slot_location, lane_patch) dict"
  pp_patched_chunks :: "(string \<times> string) list"
  pp_ci_locations :: "slot_location list"
  pp_absorbed :: "(lane_kind, int) dict"
  pp_overflow :: "coord list"

definition record_patch ::
  "(slot_location, lane_patch) dict \<Rightarrow> lane_patch \<Rightarrow> (slot_location, lane_patch) dict"
where
  "record_patch patches p = AList.update (lp_location p)
     (case map_of patches (lp_location p) of
        None \<Rightarrow> p
      | Some previous \<Rightarrow> p\<lparr>lp_original_coordinate := lp_original_coordinate previous,
          lp_original_kind := lp_original_kind previous\<rparr>) patches"

abbreviation chunk_of :: "slot_location \<Rightarrow> string \<times> string" where
  "chunk_of loc \<equiv> (fst loc, fst (snd loc))"

definition point_modify ::
  "(coord, slot_location) dict \<Rightarrow> point_patch \<Rightarrow> net_update \<Rightarrow> point_patch res"
where
  "point_modify slot_of s u =
     (case map_of slot_of (nu_row u, nu_col u) of
        None \<Rightarrow> Inl (AssertionError ''a base modification must name an actual lane'')
      | Some loc \<Rightarrow> Inr (s\<lparr>pp_patches := record_patch (pp_patches s)
            \<lparr>lp_location = loc, lp_original_coordinate = Some (nu_row u, nu_col u),
             lp_original_kind = Actual, lp_owner_row = nu_row u,
             lp_coordinate = Some (nu_row u, nu_col u), lp_value = nu_after u,
             lp_column_index = nu_col u, lp_kind = Actual\<rparr>,
          pp_patched_chunks := List.insert (chunk_of loc) (pp_patched_chunks s)\<rparr>))"

definition point_delete ::
  "(coord, slot_location) dict \<Rightarrow> point_patch \<Rightarrow> net_update \<Rightarrow> point_patch res"
where
  "point_delete slot_of s u =
     (case map_of slot_of (nu_row u, nu_col u) of
        None \<Rightarrow> Inl (AssertionError ''a base deletion must name an actual lane'')
      | Some loc \<Rightarrow> Inr (s\<lparr>pp_patches := record_patch (pp_patches s)
            \<lparr>lp_location = loc, lp_original_coordinate = Some (nu_row u, nu_col u),
             lp_original_kind = Actual, lp_owner_row = nu_row u, lp_coordinate = None,
             lp_value = 0, lp_column_index = nu_col u, lp_kind = Tombstone\<rparr>,
          pp_free_lanes := insert_free_lane (pp_free_lanes s)
            \<lparr>fl_row = nu_row u, fl_kind = Tombstone, fl_location = loc,
             fl_retained_column = Some (nu_col u)\<rparr>,
          pp_patched_chunks := List.insert (chunk_of loc) (pp_patched_chunks s)\<rparr>))"

text \<open>
  The lane an insertion takes: within the row's range of the sorted free lanes, first a
  tombstone that retains the column, then any allowed lane.
\<close>

definition row_order :: "free_lane \<Rightarrow> int \<times> nat" where
  "row_order l = (fl_row l, lane_kind_order (fl_kind l))"

definition choose_lane :: "(lane_kind \<Rightarrow> bool) \<Rightarrow> free_lane list \<Rightarrow> int \<Rightarrow> int \<Rightarrow> nat option" where
  "choose_lane allowed lanes row col =
     (let indices = [bisect_left row_order lanes (row, 0)..<bisect_right row_order lanes (row, 2)]
      in case List.find (\<lambda>i. fl_kind (lanes ! i) = Tombstone \<and>
               fl_retained_column (lanes ! i) = Some col \<and> allowed (fl_kind (lanes ! i))) indices of
           Some i \<Rightarrow> Some i
         | None \<Rightarrow> List.find (\<lambda>i. allowed (fl_kind (lanes ! i))) indices)"

definition point_insert :: "(lane_kind \<Rightarrow> bool) \<Rightarrow> point_patch \<Rightarrow> net_update \<Rightarrow> point_patch" where
  "point_insert allowed s u =
     (case choose_lane allowed (pp_free_lanes s) (nu_row u) (nu_col u) of
        None \<Rightarrow> s\<lparr>pp_overflow := pp_overflow s @ [(nu_row u, nu_col u)]\<rparr>
      | Some i \<Rightarrow>
          let l = pp_free_lanes s ! i; loc = fl_location l; previous = map_of (pp_patches s) loc in
          s\<lparr>pp_free_lanes := remove_at i (pp_free_lanes s),
            pp_patches := record_patch (pp_patches s)
              \<lparr>lp_location = loc,
               lp_original_coordinate = (case previous of Some p \<Rightarrow> lp_original_coordinate p | None \<Rightarrow> None),
               lp_original_kind = (case previous of Some p \<Rightarrow> lp_original_kind p | None \<Rightarrow> fl_kind l),
               lp_owner_row = nu_row u, lp_coordinate = Some (nu_row u, nu_col u),
               lp_value = nu_after u, lp_column_index = nu_col u, lp_kind = Actual\<rparr>,
            pp_absorbed := counter_add (pp_absorbed s) (fl_kind l),
            pp_ci_locations := (if fl_kind l \<noteq> Tombstone \<or> fl_retained_column l \<noteq> Some (nu_col u)
              then pp_ci_locations s @ [loc] else pp_ci_locations s),
            pp_patched_chunks := List.insert (chunk_of loc) (pp_patched_chunks s)\<rparr>)"

definition modifications :: "net_update list \<Rightarrow> net_update list" where
  "modifications us = filter (\<lambda>u. nu_before u \<noteq> 0 \<and> nu_after u \<noteq> 0 \<and> \<not> is_noop u) us"

definition deletions :: "net_update list \<Rightarrow> net_update list" where
  "deletions us = filter (\<lambda>u. nu_before u \<noteq> 0 \<and> nu_after u = 0) us"

definition insertions :: "net_update list \<Rightarrow> net_update list" where
  "insertions us = filter (\<lambda>u. nu_before u = 0 \<and> nu_after u \<noteq> 0) us"

definition allowed_kind :: "bool \<Rightarrow> lane_kind \<Rightarrow> bool" where
  "allowed_kind allow_reserved k \<longleftrightarrow>
     k = Tombstone \<or> k = NaturalPadding \<or> allow_reserved \<and> k = Reserved"

definition plan_point_patch ::
  "('z) layout_state_scheme \<Rightarrow> net_update list \<Rightarrow> bool \<Rightarrow> point_patch res"
where
  "plan_point_patch st us allow_reserved =
     (let slots = coord_to_slot (st_base st);
          s0 = \<lparr>pp_free_lanes = st_free_lanes st, pp_patches = [], pp_patched_chunks = [],
                pp_ci_locations = [], pp_absorbed = [], pp_overflow = []\<rparr>
      in rbind (rfold (point_modify slots) s0 (modifications us)) (\<lambda>s1.
         rbind (rfold (point_delete slots) s1 (deletions us)) (\<lambda>s2.
         Inr (foldl (point_insert (allowed_kind allow_reserved)) s2 (insertions us)))))"

definition point_patch_base ::
  "('z) layout_state_scheme \<Rightarrow> net_update list \<Rightarrow> bool \<Rightarrow> (published_component \<times> point_patch) res"
where
  "point_patch_base st us allow_reserved =
     rbind (plan_point_patch st us allow_reserved) (\<lambda>s.
     rbind (patch_lanes (st_base st) (map snd (pp_patches s))) (\<lambda>base. Inr (base, s)))"

end
