(* ===== verification/Strategy_Advance.thy ===== *)
theory Strategy_Advance
  imports Strategy_State
begin

text \<open>
  The second half of \<open>strategy_state.py\<close> for the six registered strategies: the checked
  invariant of a state, decoding, the initial state, and \<open>advance_publication\<close> with its four
  kinds of transition (point patch with block rebuilds, CSSC delta with or without a periodic
  fold, local repack, packed-COO segments).
\<close>

section \<open>Decoding\<close>

definition decode_lane ::
  "(coord, int) dict \<Rightarrow> lane_kind \<times> coord option \<times> int \<Rightarrow> (coord, int) dict res"
where
  "decode_lane decoded = (\<lambda>(k, coordinate, v).
     if k \<noteq> Actual then Inr decoded
     else case coordinate of
       None \<Rightarrow> Inl (AssertionError ''published actual lanes must decode uniquely'')
     | Some c \<Rightarrow> if v = 0 \<or> c \<in> fst ` set decoded
         then Inl (AssertionError ''published actual lanes must decode uniquely'')
         else Inr (AList.update c v decoded))"

definition decode_chunk :: "(coord, int) dict \<Rightarrow> value_chunk \<Rightarrow> (coord, int) dict res" where
  "decode_chunk decoded ch =
     rbind (rfold decode_lane decoded (zip (slot_kinds ch) (zip (slot_coordinates ch) (vc_values ch))))
       (\<lambda>decoded.
     if length (slot_kinds ch) \<noteq> length (slot_coordinates ch) \<or>
        length (slot_kinds ch) \<noteq> length (vc_values ch)
     then Inl zip_error else Inr decoded)"

definition decode_component :: "published_component \<Rightarrow> (coord, int) dict res" where
  "decode_component c = rfold decode_chunk [] (component_chunks c)"

definition merge_entry ::
  "string \<Rightarrow> (coord, int) dict \<Rightarrow> coord \<times> int \<Rightarrow> (coord, int) dict res"
where
  "merge_entry what decoded = (\<lambda>(c, v).
     if c \<in> fst ` set decoded then
       Inl (AssertionError (''base and '' @ what @ '' coordinates must be disjoint''))
     else Inr (AList.update c v decoded))"

definition live_entries :: "packed_coo_segment \<Rightarrow> (coord \<times> int) list" where
  "live_entries g = concat (map (\<lambda>e. case e of None \<Rightarrow> []
     | Some e \<Rightarrow> if pe_value e = 0 then [] else [(pe_coordinate e, pe_value e)]) (pcs_entries g))"

definition decode_state :: "('z) strategy_state_scheme \<Rightarrow> (coord, int) dict res" where
  "decode_state st =
     rbind (decode_component (st_base st)) (\<lambda>decoded.
     rbind (case st_delta st of None \<Rightarrow> Inr decoded
            | Some d \<Rightarrow> rbind (decode_component d) (rfold (merge_entry ''delta'') decoded)) (\<lambda>decoded.
     rfold (\<lambda>d g. rfold (merge_entry ''COO'') d (live_entries g)) decoded (st_coo_segments st)))"

section \<open>The invariant of a component\<close>

text \<open>What the scan of a component has gathered: within a chunk also its two counters.\<close>

record inspection =
  in_scanned :: "(coord, slot_location) dict"
  in_decoded :: "(coord, int) dict"
  in_free_lanes :: "free_lane list"
  in_available :: "(int \<times> lane_kind \<times> slot_location) list"
  in_widths :: "(int, int) dict"
  in_actual :: int
  in_reserved :: int

definition materialize ::
  "value_chunk \<Rightarrow> int \<Rightarrow> lane_kind \<Rightarrow> int option \<Rightarrow> inspection \<Rightarrow> inspection res"
where
  "materialize ch slot k owner s =
     (if k \<noteq> Actual \<and> k \<noteq> Tombstone \<and> k \<noteq> Reserved then Inr s
      else case owner of
        None \<Rightarrow> Inl (AssertionError ''materialized lane owner must belong to its block'')
      | Some row \<Rightarrow>
          if row \<notin> fst ` set (in_widths s) then
            Inl (AssertionError ''materialized lane owner must belong to its block'')
          else if height ch = 0 then Inl ZeroDivisionError
          else Inr (s\<lparr>in_widths := AList.update row
            (max (dict_get (in_widths s) row 0) (start_column ch + slot div height ch + 1))
            (in_widths s)\<rparr>))"

definition add_free_lane ::
  "int \<Rightarrow> lane_kind \<Rightarrow> slot_location \<Rightarrow> int option \<Rightarrow> inspection \<Rightarrow> inspection"
where
  "add_free_lane row k location retained s = s\<lparr>
     in_free_lanes := in_free_lanes s @ [\<lparr>fl_row = row, fl_kind = k, fl_location = location,
       fl_retained_column = retained\<rparr>],
     in_available := in_available s @ [(row, k, location)]\<rparr>"

definition inspect_kind ::
  "('z) matrix_config_scheme \<Rightarrow> slot_location \<Rightarrow> lane_kind \<Rightarrow> int \<Rightarrow> int \<Rightarrow> coord option \<Rightarrow>
     int option \<Rightarrow> inspection \<Rightarrow> inspection res"
where
  "inspect_kind cfg location k v col coordinate owner s =
     (case k of
        Actual \<Rightarrow>
          (case owner of None \<Rightarrow> Inl (AssertionError ''actual lane metadata is inconsistent'')
           | Some row \<Rightarrow>
               if coordinate \<noteq> Some (row, col) \<or> \<not> (0 \<le> row \<and> row < mc_rows cfg) \<or>
                  \<not> (0 \<le> col \<and> col < mc_cols cfg) \<or> v = 0 \<or> \<bar>v\<bar> > mc_matrix_value_bound cfg
               then Inl (AssertionError ''actual lane metadata is inconsistent'')
               else if (row, col) \<in> fst ` set (in_scanned s) then
                 Inl (AssertionError ''actual coordinates must have one physical lane'')
               else Inr (s\<lparr>in_actual := in_actual s + 1,
                 in_scanned := AList.update (row, col) location (in_scanned s),
                 in_decoded := AList.update (row, col) v (in_decoded s)\<rparr>))
      | Tombstone \<Rightarrow>
          (case owner of None \<Rightarrow> Inl (AssertionError ''tombstone must retain only its old ColumnIndex'')
           | Some row \<Rightarrow>
               if coordinate \<noteq> None \<or> v \<noteq> 0 \<or> \<not> (0 \<le> col \<and> col < mc_cols cfg)
               then Inl (AssertionError ''tombstone must retain only its old ColumnIndex'')
               else Inr (add_free_lane row k location (Some col) s))
      | Tail \<Rightarrow>
          if owner \<noteq> None \<or> coordinate \<noteq> None \<or> v \<noteq> 0 \<or> col \<noteq> - 1
          then Inl (AssertionError ''tail lanes must be unowned and inert'') else Inr s
      | _ \<Rightarrow>
          (case owner of None \<Rightarrow> Inl (AssertionError ''free CSSC lane metadata is inconsistent'')
           | Some row \<Rightarrow>
               if coordinate \<noteq> None \<or> v \<noteq> 0 \<or> col \<noteq> - 1
               then Inl (AssertionError ''free CSSC lane metadata is inconsistent'')
               else Inr (add_free_lane row k location None
                 (if k = Reserved then s\<lparr>in_reserved := in_reserved s + 1\<rparr> else s))))"

definition inspect_lane ::
  "('z) matrix_config_scheme \<Rightarrow> string \<Rightarrow> value_chunk \<Rightarrow> inspection \<Rightarrow>
     int \<times> int \<times> int \<times> coord option \<times> int option \<times> lane_kind \<Rightarrow> inspection res"
where
  "inspect_lane cfg cid ch s = (\<lambda>(slot, v, col, coordinate, owner, k).
     rbind (materialize ch slot k owner s)
       (inspect_kind cfg (cid, chunk_id ch, slot) k v col coordinate owner))"

definition inspect_chunk ::
  "('z) matrix_config_scheme \<Rightarrow> string \<Rightarrow> inspection \<Rightarrow> value_chunk \<Rightarrow> inspection res"
where
  "inspect_chunk cfg cid s ch =
     (if \<not> (\<forall>n \<in> {length (vc_values ch), length (column_indices ch), length (slot_coordinates ch),
              length (slot_owner_rows ch), length (slot_kinds ch)}. int n = mc_effective_slots cfg)
      then Inl (AssertionError ''each component chunk must contain full-length lane arrays'')
      else rbind (rfold (inspect_lane cfg cid ch) (s\<lparr>in_actual := 0, in_reserved := 0\<rparr>) (chunk_lanes ch))
        (\<lambda>s. if used_slots ch \<noteq> in_actual s \<or> reserved_slots ch \<noteq> in_reserved s then
               Inl (AssertionError ''chunk lane counters must match its lane kinds'')
             else Inr s))"

definition inspect_block ::
  "('z) matrix_config_scheme \<Rightarrow> string \<Rightarrow> inspection \<Rightarrow> output_block_layout \<Rightarrow> inspection res"
where
  "inspect_block cfg cid s b =
     rbind (rfold (inspect_chunk cfg cid)
              (s\<lparr>in_widths := dict_of (map (\<lambda>row. (row, 0)) (row_map b))\<rparr>) (chunks b)) (\<lambda>s.
     if physical_row_capacities b \<noteq> map (\<lambda>row. dict_get (in_widths s) row 0) (row_map b) then
       Inl (AssertionError ''physical row capacities must match materialized lane ranks'')
     else Inr s)"

definition assert_component_invariants ::
  "published_component \<Rightarrow> ('z) matrix_config_scheme \<Rightarrow> component_inspection res"
where
  "assert_component_invariants c cfg =
     (let sp = layout_spec c in
      if (ls_rows sp, ls_cols sp, ls_effective_slots sp, ls_partition_rows sp) \<noteq>
         (mc_rows cfg, mc_cols cfg, mc_effective_slots cfg, mc_partition_rows cfg) then
        Inl (AssertionError ''component layout specification must match strategy config'')
      else
      rbind (rfold (inspect_block cfg (component_id c))
        \<lparr>in_scanned = [], in_decoded = [], in_free_lanes = [], in_available = [], in_widths = [],
         in_actual = 0, in_reserved = 0\<rparr> (blocks c)) (\<lambda>s.
      if coordinate_slots c \<noteq> sort (in_scanned s) then
        Inl (AssertionError ''component coordinate index must match its actual lanes'')
      else if available_slots c \<noteq> in_available s then
        Inl (AssertionError ''component available-lane index must match its free lanes'')
      else Inr \<lparr>ci_decoded = in_decoded s, ci_free_lanes = sort_key free_lane_key (in_free_lanes s)\<rparr>))"

section \<open>The invariant of a state\<close>

type_synonym coo_scan = "string list \<times> coord list \<times> (coord, int) dict"

definition assert_coo_entry ::
  "('z) matrix_config_scheme \<Rightarrow> coord list \<times> (coord, int) dict \<Rightarrow> packed_coo_entry option \<Rightarrow>
     (coord list \<times> (coord, int) dict) res"
where
  "assert_coo_entry cfg = (\<lambda>(coords, decoded) entry. case entry of None \<Rightarrow> Inr (coords, decoded)
     | Some e \<Rightarrow>
       if pe_value e \<noteq> 0 \<and> pe_coordinate e \<in> set coords then
         Inl (AssertionError ''COO coordinates must have one physical owner'')
       else if \<not> (0 \<le> fst (pe_coordinate e) \<and> fst (pe_coordinate e) < mc_rows cfg) \<or>
               \<not> (0 \<le> snd (pe_coordinate e) \<and> snd (pe_coordinate e) < mc_cols cfg) then
         Inl (AssertionError ''COO coordinate is outside the matrix'')
       else if \<bar>pe_value e\<bar> > mc_matrix_value_bound cfg then
         Inl (AssertionError ''COO value violates the matrix value bound'')
       else Inr (if pe_value e \<noteq> 0
         then (pe_coordinate e # coords, AList.update (pe_coordinate e) (pe_value e) decoded)
         else (coords, decoded)))"

definition assert_coo_segment ::
  "strategy_config \<Rightarrow> coo_scan \<Rightarrow> packed_coo_segment \<Rightarrow> coo_scan res"
where
  "assert_coo_segment cfg = (\<lambda>(ids, coords, decoded) g.
     if pcs_segment_id g \<in> set ids then
       Inl (AssertionError ''COO segment identifiers must be unique'')
     else if pcs_capacity g \<noteq> packed_coo_segment_capacity cfg \<or>
             int (length (pcs_entries g)) \<noteq> pcs_capacity g then
       Inl (AssertionError ''COO segments must retain their fixed capacity'')
     else rbind (rfold (assert_coo_entry cfg) (coords, decoded) (pcs_entries g))
            (\<lambda>(coords, decoded). Inr (pcs_segment_id g # ids, coords, decoded)))"

definition assert_counters :: "strategy_state \<Rightarrow> unit res" where
  "assert_counters st =
     (if st_version_ordinal st < 0 then
        Inl (AssertionError ''version ordinal must be a nonnegative strict integer'')
      else if st_version_id st \<noteq> CHR ''v'' # fmt08 (nat (st_version_ordinal st)) then
        Inl (AssertionError ''version identifier must match its ordinal'')
      else if st_windows_since_repack st < 0 then
        Inl (AssertionError ''windows-since-repack must be a nonnegative integer'')
      else if st_repack_count st < 0 then
        Inl (AssertionError ''repack count must be a nonnegative integer'')
      else if st_strategy st \<noteq> PeriodicRepack \<and> st_windows_since_repack st \<noteq> 0 then
        Inl (AssertionError ''only PeriodicRepack may retain a publication-window counter'')
      else if st_strategy st = PeriodicRepack \<and>
              st_windows_since_repack st \<ge> periodic_repack_windows (st_config st) then
        Inl (AssertionError ''PeriodicRepack must fold when its period expires'')
      else if version_id (st_base st) \<noteq> st_version_id st then
        Inl (AssertionError ''base component version must match the strategy version'')
      else if (case st_delta st of None \<Rightarrow> False | Some d \<Rightarrow> version_id d \<noteq> st_version_id st) then
        Inl (AssertionError ''delta component version must match the strategy version'')
      else if \<exists>g \<in> set (st_coo_segments st). pcs_version_id g \<noteq> st_version_id st then
        Inl (AssertionError ''COO segment versions must match the strategy version'')
      else Inr ())"

definition assert_strategy_invariants :: "strategy_state \<Rightarrow> unit res" where
  "assert_strategy_invariants st =
     rbind (assert_counters st) (\<lambda>_.
     rbind (assert_component_invariants (st_base st) (st_config st)) (\<lambda>base.
     rbind (case st_delta st of None \<Rightarrow> Inr None
            | Some d \<Rightarrow> rbind (assert_component_invariants d (st_config st)) (\<lambda>i. Inr (Some i))) (\<lambda>delta.
     if st_strategy st \<noteq> MiniDelta \<and> st_strategy st \<noteq> PeriodicRepack \<and> st_delta st \<noteq> None then
       Inl (AssertionError ''only CSSC-delta strategies may own a delta component'')
     else if st_strategy st \<noteq> PackedCOO \<and> st_coo_segments st \<noteq> [] then
       Inl (AssertionError ''only Packed-COO may own fixed COO segments'')
     else
     rbind (rfold (assert_coo_segment (st_config st)) ([], [], []) (st_coo_segments st))
       (\<lambda>(_, _, coo_decoded).
     let persistent_delta = (case delta of Some i \<Rightarrow> ci_decoded i | None \<Rightarrow> coo_decoded) in
     if \<not> dict_eq (st_delta_logical st) persistent_delta then
       Inl (AssertionError ''persistent delta metadata must match its layout'')
     else if st_free_lanes st \<noteq> ci_free_lanes base then
       Inl (AssertionError ''free-lane metadata must match the base component'')
     else
     rbind (rfold (merge_entry ''delta'') (ci_decoded base) persistent_delta) (\<lambda>decoded.
     if \<not> dict_eq decoded (st_logical st) then
       Inl (AssertionError ''decoded components must equal the logical matrix'')
     else rbind (validate_logical (st_logical st) (st_config st)) (\<lambda>_. Inr ()))))))"

section \<open>The initial state\<close>

definition initialize_strategy ::
  "strategy_kind \<Rightarrow> (coord, int) dict \<Rightarrow> int \<Rightarrow> int \<Rightarrow> int \<Rightarrow> int option \<Rightarrow> int \<Rightarrow> int \<Rightarrow> float64 \<Rightarrow>
     int \<Rightarrow> int \<Rightarrow> strategy_state res"
where
  "initialize_strategy strategy initial rows cols slots part_rows bound max_nnz beta periodic capacity =
     rbind (validate_config strategy rows cols slots part_rows bound max_nnz beta periodic capacity) (\<lambda>cfg.
     rbind (validate_logical initial cfg) (\<lambda>logical.
     rbind (if strategy = ReservedSlack then rbind (reserved_capacities logical cfg) (\<lambda>cs. Inr (Some cs))
            else Inr None) (\<lambda>capacities.
     rbind (publish_component logical (mc_rows cfg) (mc_cols cfg) (mc_effective_slots cfg)
              ''v00000000'' ''base'' (Some (mc_partition_rows cfg)) capacities NoCapability) (\<lambda>base.
     rbind (free_lanes base) (\<lambda>lanes.
     let st = \<lparr>st_version_ordinal = 0, st_version_id = ''v00000000'', st_logical = logical,
               st_base = base, st_free_lanes = lanes, st_strategy = strategy, st_config = cfg,
               st_delta = None, st_delta_logical = [], st_coo_segments = [],
               st_windows_since_repack = 0, st_repack_count = 0\<rparr>
     in rbind (assert_strategy_invariants st) (\<lambda>_. Inr st))))))"

section \<open>The logical candidate of a window\<close>

text \<open>The loop variables: coordinates seen, net nonzero change per row, candidate matrix.\<close>

type_synonym candidate_scan = "coord list \<times> (int, int) dict \<times> (coord, int) dict"

definition check_update ::
  "('z) matrix_config_scheme \<Rightarrow> (coord, int) dict \<Rightarrow> candidate_scan \<Rightarrow> net_update \<Rightarrow> candidate_scan res"
where
  "check_update cfg logical = (\<lambda>(seen, row_deltas, candidate) u.
     let c = (nu_row u, nu_col u) in
     if is_noop u then
       Inl (ValueError ''window updates must not contain no-op NetUpdate values'')
     else if c \<in> set seen then
       Inl (ValueError ''window updates must have unique coordinates'')
     else if \<not> (0 \<le> nu_row u \<and> nu_row u < mc_rows cfg) \<or> \<not> (0 \<le> nu_col u \<and> nu_col u < mc_cols cfg) then
       Inl (ValueError ''update coordinate is outside the matrix'')
     else if dict_get logical c 0 \<noteq> nu_before u then
       Inl (ValueError ''update.before does not match the published logical state'')
     else if \<bar>nu_after u\<bar> > mc_matrix_value_bound cfg then
       Inl (ValueError ''update.after violates the matrix value bound'')
     else Inr (c # seen,
       (if nu_before u = 0 then AList.update (nu_row u) (dict_get row_deltas (nu_row u) 0 + 1) row_deltas
        else if nu_after u = 0 then AList.update (nu_row u) (dict_get row_deltas (nu_row u) 0 - 1) row_deltas
        else row_deltas),
       (if nu_after u = 0 then AList.delete c candidate else AList.update c (nu_after u) candidate)))"

definition validated_candidate ::
  "('z) matrix_config_scheme \<Rightarrow> (coord, int) dict \<Rightarrow> net_update list \<Rightarrow> (coord, int) dict res"
where
  "validated_candidate cfg logical us =
     rbind (rfold (check_update cfg logical) ([], [], logical) us) (\<lambda>(_, row_deltas, candidate).
     if row_deltas \<noteq> [] \<and> mc_max_row_nnz cfg < mc_cols cfg \<and>
        (let counts = row_counts (filter (\<lambda>((row, _), _). row \<in> fst ` set row_deltas) logical)
         in \<exists>(row, delta) \<in> set row_deltas. dict_get counts row 0 + delta > mc_max_row_nnz cfg)
     then Inl (ValueError ''logical state violates the row nonzero bound'')
     else Inr candidate)"

section \<open>Output plans and rebuilt blocks\<close>

definition checked_output_plan :: "published_component list \<Rightarrow> output_plan res" where
  "checked_output_plan cs =
     rbind (output_plan_for cs) (\<lambda>plan. rbind (analyze_output_plan plan) (\<lambda>_. Inr plan))"

definition query_output_plan ::
  "published_component list \<Rightarrow> int \<Rightarrow> output_plan option res"
where
  "query_output_plan cs query_count =
     (if query_count > 0 then rbind (checked_output_plan cs) (\<lambda>plan. Inr (Some plan)) else Inr None)"

definition delta_ciphertext_count :: "strategy_state \<Rightarrow> int" where
  "delta_ciphertext_count st = (case st_delta st of
     Some d \<Rightarrow> int (length (component_chunks d))
   | None \<Rightarrow> int (length (filter (\<lambda>g. live_entries g \<noteq> []) (st_coo_segments st))))"

definition state_component_ids :: "strategy_state \<Rightarrow> string list" where
  "state_component_ids st = [component_id (st_base st)] @
     (case st_delta st of None \<Rightarrow> [] | Some d \<Rightarrow> [component_id d]) @
     (if \<exists>g \<in> set (st_coo_segments st). live_entries g \<noteq> [] then [client_lane_component_id] else [])"

definition segment_shares :: "packed_coo_segment \<Rightarrow> output_share list" where
  "segment_shares g =
     (let lanes = concat (map (\<lambda>(slot, e). case e of None \<Rightarrow> []
            | Some e \<Rightarrow> if pe_value e = 0 then [] else [(slot, fst (pe_coordinate e))])
            (py_enumerate (pcs_entries g)))
      in if lanes = [] then []
         else [\<lparr>os_component_id = client_lane_component_id, os_output_block_id = pcs_segment_id g,
                slot_to_logical = lanes\<rparr>])"

definition packed_coo_output_plan :: "strategy_state \<Rightarrow> output_plan res" where
  "packed_coo_output_plan st =
     rbind (checked_output_plan [st_base st]) (\<lambda>base_plan.
     let plan = \<lparr>logical_output_size = mc_rows (st_config st),
           op_slot_count = mc_effective_slots (st_config st),
           shares = shares base_plan @ concat (map segment_shares (st_coo_segments st))\<rparr>
     in rbind (analyze_output_plan plan) (\<lambda>_. Inr plan))"

definition output_plan_for_state :: "strategy_state \<Rightarrow> output_plan res" where
  "output_plan_for_state st =
     (if st_strategy st = PackedCOO then packed_coo_output_plan st
      else checked_output_plan (case st_delta st of None \<Rightarrow> [st_base st] | Some d \<Rightarrow> [st_base st, d]))"

definition physical_capacities_for ::
  "strategy_state \<Rightarrow> (coord, int) dict \<Rightarrow> int list option res"
where
  "physical_capacities_for st logical =
     (if st_strategy st = ReservedSlack
      then rbind (reserved_capacities logical (st_config st)) (\<lambda>cs. Inr (Some cs)) else Inr None)"

definition publish_for ::
  "strategy_state \<Rightarrow> (coord, int) dict \<Rightarrow> int list option \<Rightarrow> string \<Rightarrow> string \<Rightarrow> published_component res"
where
  "publish_for st logical capacities version prefix =
     publish_validated_component logical (mc_rows (st_config st)) (mc_cols (st_config st))
       (mc_effective_slots (st_config st)) version prefix (Some (mc_partition_rows (st_config st)))
       capacities"

definition component_columns :: "value_chunk list \<Rightarrow> int" where
  "component_columns chs = sum_list (map (\<lambda>ch. int (length (column_indices ch))) chs)"

definition rebuild_base_blocks ::
  "strategy_state \<Rightarrow> published_component \<Rightarrow> (coord, int) dict \<Rightarrow> int list \<Rightarrow> string \<Rightarrow>
     (published_component \<times> int \<times> int \<times> string list) res"
where
  "rebuild_base_blocks st patched logical dirty version =
     rbind (physical_capacities_for st logical) (\<lambda>capacities.
     rbind (publish_for st logical capacities version (component_id patched)) (\<lambda>published.
     if length (blocks patched) \<noteq> length (blocks published) then Inl zip_error
     else if \<exists>i \<in> set dirty. \<not> (0 \<le> i \<and> nat i < length (blocks published)) then Inl IndexError
     else
     let bs = map (\<lambda>(i, old_block, new_block). if i \<in> set dirty then new_block else old_block)
            (py_enumerate (zip (blocks patched) (blocks published)));
         rebuilt = map (\<lambda>i. blocks published ! nat i) (sorted_set dirty);
         chs = concat (map chunks rebuilt)
     in rbind (reindex_component (patched\<lparr>version_id := version, blocks := bs\<rparr>)) (\<lambda>c.
        Inr (c, int (length chs), component_columns chs, map output_block_id rebuilt))))"

section \<open>The transitions\<close>

definition check_if :: "bool \<Rightarrow> strategy_state \<Rightarrow> unit res" where
  "check_if check st = (if check then assert_strategy_invariants st else Inr ())"

text \<open>\<open>int(block_id.rsplit("h", 1)[1])\<close> for a block identifier of this repository.\<close>

definition block_index_of :: "string \<Rightarrow> int res" where
  "block_index_of bid =
     (let digits = rev (takeWhile (\<lambda>c. c \<noteq> CHR ''h'') (rev bid)) in
      if CHR ''h'' \<notin> set bid then Inl IndexError
      else if digits = [] \<or> (\<exists>c \<in> set digits. c \<notin> set ''0123456789'') then
        Inl (ValueError ''invalid literal for int() with base 10'')
      else Inr (int (undecimal digits)))"

definition chunk_block_ids :: "published_component \<Rightarrow> (string, string) dict" where
  "chunk_block_ids c = dict_of (concat (map (\<lambda>b.
     map (\<lambda>ch. (chunk_id ch, output_block_id b)) (chunks b)) (blocks c)))"

text \<open>\<open>[x for x in xs if int(block_by_chunk[chunk(x)]...) not in dirty_blocks]\<close>\<close>

definition outside_blocks ::
  "(string, string) dict \<Rightarrow> int list \<Rightarrow> ('x \<Rightarrow> string) \<Rightarrow> 'x list \<Rightarrow> 'x list res"
where
  "outside_blocks block_by_chunk dirty chunk_of_x xs =
     rfold (\<lambda>acc x. case map_of block_by_chunk (chunk_of_x x) of
         None \<Rightarrow> Inl KeyError
       | Some bid \<Rightarrow> rbind (block_index_of bid) (\<lambda>i.
           Inr (if i \<in> set dirty then acc else acc @ [x]))) [] xs"

text \<open>The part of the facts that every transition with a point patch reports alike.\<close>

definition patch_facts ::
  "publication_window \<Rightarrow> point_patch \<Rightarrow> (string \<times> string) list \<Rightarrow> slot_location list \<Rightarrow> coord list \<Rightarrow>
     transition_facts"
where
  "patch_facts w s patched ci overflow = (no_facts (int (length (pw_updates w))) (pw_query_count w))\<lparr>
     value_patch_chunks := int (length patched), ci_patch_entries := int (length ci),
     absorbed_tombstone := dict_get (pp_absorbed s) Tombstone 0,
     absorbed_natural_padding := dict_get (pp_absorbed s) NaturalPadding 0,
     tf_overflow := int (length overflow), overflow_rows := map fst overflow,
     patched_chunk_ids := sort patched\<rparr>"

text \<open>PaddingReuse and ReservedSlack: the base alone, with rebuilt blocks where rows overflow.\<close>

definition advance_point ::
  "strategy_state \<Rightarrow> publication_window \<Rightarrow> (coord, int) dict \<Rightarrow> int \<Rightarrow> string \<Rightarrow> bool \<Rightarrow> transition res"
where
  "advance_point st w candidate ordinal version check =
     rbind (point_patch_base st (pw_updates w) (st_strategy st = ReservedSlack)) (\<lambda>(patched, s).
     let dirty = remdups (map (\<lambda>(row, _). row div mc_partition_rows (st_config st)) (pp_overflow s)) in
     rbind
      (if dirty \<noteq> [] then
         (let block_by_chunk = chunk_block_ids patched in
          rbind (outside_blocks block_by_chunk dirty snd (pp_patched_chunks s)) (\<lambda>chunks_left.
          rbind (outside_blocks block_by_chunk dirty (\<lambda>loc. fst (snd loc)) (pp_ci_locations s)) (\<lambda>ci_left.
          rbind (rebuild_base_blocks st patched candidate dirty version) (\<lambda>(base, n, sync, ids).
          rbind (free_lanes base) (\<lambda>lanes. Inr (chunks_left, ci_left, base, n, sync, ids, lanes))))))
       else Inr (pp_patched_chunks s, pp_ci_locations s, patched\<lparr>version_id := version\<rparr>, 0, 0, [],
                 pp_free_lanes s)) (\<lambda>(patched_chunks, ci, base, n, sync, ids, lanes).
     let st' = st\<lparr>st_version_ordinal := ordinal, st_version_id := version, st_logical := candidate,
           st_base := base, st_free_lanes := lanes,
           st_repack_count := st_repack_count st + (if dirty \<noteq> [] then 1 else 0)\<rparr> in
     rbind (check_if check st') (\<lambda>_.
     rbind (checked_facts ((patch_facts w s patched_chunks ci (pp_overflow s))\<lparr>
         ci_full_sync_entries := sync, rebuilt_ciphertexts := n,
         absorbed_reserved := dict_get (pp_absorbed s) Reserved 0,
         rebuilt_output_block_ids := ids, active_component_ids := [component_id base]\<rparr>)) (\<lambda>facts.
     rbind (query_output_plan [base] (pw_query_count w)) (checked_transition st' facts)))))"

definition split_base_and_delta_updates ::
  "(coord, int) dict \<Rightarrow> net_update list \<Rightarrow> net_update list \<times> net_update list"
where
  "split_base_and_delta_updates delta_logical us =
     (let in_delta = (\<lambda>u. nu_before u \<noteq> 0 \<and> (nu_row u, nu_col u) \<in> fst ` set delta_logical)
      in (filter (\<lambda>u. \<not> in_delta u) us, filter in_delta us))"

definition publish_delta ::
  "strategy_state \<Rightarrow> (coord, int) dict \<Rightarrow> string \<Rightarrow> string \<Rightarrow> published_component option res"
where
  "publish_delta st delta_logical version prefix =
     (if delta_logical = [] then Inr None
      else rbind (publish_for st delta_logical None version prefix) (\<lambda>c. Inr (Some c)))"

definition update_delta :: "(coord, int) dict \<Rightarrow> net_update \<Rightarrow> (coord, int) dict res" where
  "update_delta d u =
     (let c = (nu_row u, nu_col u) in
      if nu_after u = 0 then (if c \<in> fst ` set d then Inr (AList.delete c d) else Inl KeyError)
      else Inr (AList.update c (nu_after u) d))"

definition overflow_delta ::
  "(coord, int) dict \<Rightarrow> (coord, int) dict \<Rightarrow> coord \<Rightarrow> (coord, int) dict res"
where
  "overflow_delta candidate d c = (case map_of candidate c of
     None \<Rightarrow> Inl KeyError | Some v \<Rightarrow> Inr (AList.update c v d))"

text \<open>MiniDelta, and PeriodicRepack between its folds.\<close>

definition advance_cssc_delta ::
  "strategy_state \<Rightarrow> publication_window \<Rightarrow> (coord, int) dict \<Rightarrow> int \<Rightarrow> string \<Rightarrow> bool \<Rightarrow> transition res"
where
  "advance_cssc_delta st w candidate ordinal version check =
     (let (base_updates, delta_updates) =
            split_base_and_delta_updates (st_delta_logical st) (pw_updates w) in
     rbind (point_patch_base st base_updates False) (\<lambda>(patched, s).
     rbind (rfold update_delta (st_delta_logical st) delta_updates) (\<lambda>delta_logical.
     rbind (rfold (overflow_delta candidate) delta_logical (pp_overflow s)) (\<lambda>delta_logical.
     let changed = ((\<exists>u \<in> set delta_updates. \<not> is_noop u) \<or> pp_overflow s \<noteq> []);
         prefix = (if st_strategy st = MiniDelta then ''mini-delta'' else ''periodic-delta'') in
     rbind (if changed then publish_delta st delta_logical version prefix
            else Inr (map_option (\<lambda>d. d\<lparr>version_id := version\<rparr>) (st_delta st))) (\<lambda>delta.
     let chs = (case delta of None \<Rightarrow> [] | Some d \<Rightarrow> component_chunks d);
         base = patched\<lparr>version_id := version\<rparr>;
         st' = st\<lparr>st_version_ordinal := ordinal, st_version_id := version, st_logical := candidate,
           st_base := base, st_free_lanes := pp_free_lanes s, st_delta := delta,
           st_delta_logical := delta_logical,
           st_windows_since_repack := st_windows_since_repack st +
             (if st_strategy st = PeriodicRepack then 1 else 0)\<rparr>;
         components = base # (case delta of None \<Rightarrow> [] | Some d \<Rightarrow> [d]) in
     rbind (check_if check st') (\<lambda>_.
     rbind (checked_facts ((patch_facts w s (pp_patched_chunks s) (pp_ci_locations s) (pp_overflow s))\<lparr>
         ci_full_sync_entries := (if changed then component_columns chs else 0),
         delta_ciphertexts := int (length chs),
         delta_rebuilt_ciphertexts := (if changed then int (length chs) else 0),
         active_component_ids := map component_id components\<rparr>)) (\<lambda>facts.
     rbind (query_output_plan components (pw_query_count w)) (checked_transition st' facts))))))))"

text \<open>StrictLocalRepack: every block with an update is rebuilt.\<close>

definition advance_local_repack ::
  "strategy_state \<Rightarrow> publication_window \<Rightarrow> (coord, int) dict \<Rightarrow> int \<Rightarrow> string \<Rightarrow> bool \<Rightarrow> transition res"
where
  "advance_local_repack st w candidate ordinal version check =
     (let dirty = remdups (map (\<lambda>u. nu_row u div mc_partition_rows (st_config st))
            (filter (\<lambda>u. \<not> is_noop u) (pw_updates w))) in
     rbind (rebuild_base_blocks st (st_base st) candidate dirty version) (\<lambda>(base, n, sync, ids).
     rbind (free_lanes base) (\<lambda>lanes.
     let st' = st\<lparr>st_version_ordinal := ordinal, st_version_id := version, st_logical := candidate,
           st_base := base, st_free_lanes := lanes,
           st_repack_count := st_repack_count st + (if dirty \<noteq> [] then 1 else 0)\<rparr> in
     rbind (check_if check st') (\<lambda>_.
     rbind (checked_facts ((no_facts (int (length (pw_updates w))) (pw_query_count w))\<lparr>
         ci_full_sync_entries := sync, rebuilt_ciphertexts := n, rebuilt_output_block_ids := ids,
         active_component_ids := [component_id base]\<rparr>)) (\<lambda>facts.
     rbind (query_output_plan [base] (pw_query_count w)) (checked_transition st' facts))))))"

text \<open>PeriodicRepack at the end of its period: the whole matrix is published again.\<close>

definition fold_periodic ::
  "strategy_state \<Rightarrow> publication_window \<Rightarrow> (coord, int) dict \<Rightarrow> int \<Rightarrow> string \<Rightarrow> bool \<Rightarrow> transition res"
where
  "fold_periodic st w candidate ordinal version check =
     rbind (publish_for st candidate None version ''base'') (\<lambda>base.
     rbind (free_lanes base) (\<lambda>lanes.
     let st' = st\<lparr>st_version_ordinal := ordinal, st_version_id := version, st_logical := candidate,
           st_base := base, st_free_lanes := lanes, st_delta := None, st_delta_logical := [],
           st_windows_since_repack := 0, st_repack_count := st_repack_count st + 1\<rparr> in
     rbind (check_if check st') (\<lambda>_.
     rbind (checked_facts ((no_facts (int (length (pw_updates w))) (pw_query_count w))\<lparr>
         ci_full_sync_entries := component_columns (component_chunks base),
         rebuilt_ciphertexts := int (length (component_chunks base)),
         rebuilt_output_block_ids := map output_block_id (blocks base),
         active_component_ids := [component_id base]\<rparr>)) (\<lambda>facts.
     rbind (query_output_plan [base] (pw_query_count w)) (checked_transition st' facts)))))"

section \<open>Packed-COO segments\<close>

type_synonym coo_lanes = "packed_coo_entry option list list"

text \<open>The first (segment, slot), in segment order, whose resident satisfies the test.\<close>

definition find_slot :: "(packed_coo_entry option \<Rightarrow> bool) \<Rightarrow> coo_lanes \<Rightarrow> (nat \<times> nat) option" where
  "find_slot p mutable = List.find (\<lambda>(i, j). p (mutable ! i ! j))
     (concat (map (\<lambda>i. map (Pair i) [0..<length (mutable ! i)]) [0..<length mutable]))"

definition put_slot :: "coo_lanes \<Rightarrow> nat \<times> nat \<Rightarrow> packed_coo_entry \<Rightarrow> coo_lanes" where
  "put_slot mutable = (\<lambda>(i, j) e. mutable[i := (mutable ! i)[j := Some e]])"

definition owns :: "coord \<Rightarrow> packed_coo_entry option \<Rightarrow> bool" where
  "owns c r = (case r of None \<Rightarrow> False | Some e \<Rightarrow> pe_value e \<noteq> 0 \<and> pe_coordinate e = c)"

definition vacant :: "packed_coo_entry option \<Rightarrow> bool" where
  "vacant r = (case r of None \<Rightarrow> True | Some e \<Rightarrow> pe_value e = 0)"

definition coo_update :: "coo_lanes \<times> nat list \<Rightarrow> net_update \<Rightarrow> (coo_lanes \<times> nat list) res" where
  "coo_update = (\<lambda>(mutable, changed) u.
     let c = (nu_row u, nu_col u) in
     case find_slot (owns c) mutable of
       None \<Rightarrow> Inl (AssertionError ''persistent COO coordinate has no physical segment lane'')
     | Some loc \<Rightarrow> Inr (put_slot mutable loc \<lparr>pe_coordinate = c, pe_value = nu_after u\<rparr>,
         if is_noop u then changed else List.insert (fst loc) changed))"

text \<open>State: lanes, changed segments, reused lanes, coordinates still to place.\<close>

definition coo_place ::
  "(coord, int) dict \<Rightarrow> coo_lanes \<times> nat list \<times> int \<times> coord list \<Rightarrow> coord \<Rightarrow>
     (coo_lanes \<times> nat list \<times> int \<times> coord list) res"
where
  "coo_place candidate = (\<lambda>(mutable, changed, reused, remaining) c.
     case find_slot vacant mutable of
       None \<Rightarrow> Inr (mutable, changed, reused, remaining @ [c])
     | Some loc \<Rightarrow> (case map_of candidate c of
         None \<Rightarrow> Inl KeyError
       | Some v \<Rightarrow> Inr (put_slot mutable loc \<lparr>pe_coordinate = c, pe_value = v\<rparr>,
           List.insert (fst loc) changed, reused + 1, remaining)))"

definition coo_entries_of :: "(coord, int) dict \<Rightarrow> coord list \<Rightarrow> packed_coo_entry list res" where
  "coo_entries_of candidate = rmap (\<lambda>c. case map_of candidate c of
     None \<Rightarrow> Inl KeyError | Some v \<Rightarrow> Inr \<lparr>pe_coordinate = c, pe_value = v\<rparr>)"

text \<open>\<open>range(0, len(remaining), capacity)\<close> slices, padded with \<open>None\<close> to the capacity.\<close>

definition coo_slices :: "nat \<Rightarrow> packed_coo_entry list \<Rightarrow> coo_lanes" where
  "coo_slices n es =
     map (\<lambda>k. let xs = take n (drop (k * n) es) in map Some xs @ replicate (n - length xs) None)
       [0..<(length es + n - 1) div n]"

definition make_coo_segment ::
  "packed_coo_segment list \<Rightarrow> string \<Rightarrow> int \<Rightarrow> nat \<times> packed_coo_entry option list \<Rightarrow> packed_coo_segment"
where
  "make_coo_segment old version capacity = (\<lambda>(i, es).
     \<lparr>pcs_segment_id = (if i < length old then pcs_segment_id (old ! i) else ''segment-'' @ fmt06 i),
      pcs_version_id = version, pcs_capacity = capacity, pcs_entries = es\<rparr>)"

definition advance_segments ::
  "packed_coo_segment list \<Rightarrow> int \<Rightarrow> string \<Rightarrow> (coord, int) dict \<Rightarrow> net_update list \<Rightarrow> coord list \<Rightarrow>
     (packed_coo_segment list \<times> nat list \<times> int \<times> coord list \<times> nat) res"
where
  "advance_segments segs capacity version candidate delta_updates overflow =
     rbind (rfold coo_update (map pcs_entries segs, []) delta_updates) (\<lambda>(mutable, changed).
     rbind (rfold (coo_place candidate) (mutable, changed, 0, []) overflow)
       (\<lambda>(mutable, changed, reused, remaining).
     rbind (coo_entries_of candidate remaining) (\<lambda>es.
     let fresh = coo_slices (nat capacity) es;
         lanes = mutable @ fresh;
         changed = changed @ [length mutable..<length lanes]
     in Inr (map (make_coo_segment segs version capacity) (zip [0..<length lanes] lanes),
             changed, reused, remaining, length fresh))))"

definition advance_packed_coo ::
  "strategy_state \<Rightarrow> publication_window \<Rightarrow> (coord, int) dict \<Rightarrow> int \<Rightarrow> string \<Rightarrow> bool \<Rightarrow> transition res"
where
  "advance_packed_coo st w candidate ordinal version check =
     (let (base_updates, delta_updates) =
            split_base_and_delta_updates (st_delta_logical st) (pw_updates w);
          capacity = packed_coo_segment_capacity (st_config st) in
     rbind (point_patch_base st base_updates False) (\<lambda>(patched, s).
     rbind (advance_segments (st_coo_segments st) capacity version candidate delta_updates (pp_overflow s))
       (\<lambda>(segs, changed, reused, remaining, fresh).
     let base = patched\<lparr>version_id := version\<rparr>;
         st' = st\<lparr>st_version_ordinal := ordinal, st_version_id := version, st_logical := candidate,
           st_base := base, st_free_lanes := pp_free_lanes s,
           st_delta_logical := dict_of (concat (map live_entries segs)), st_coo_segments := segs\<rparr> in
     rbind (check_if check st') (\<lambda>_.
     rbind (checked_facts ((patch_facts w s (pp_patched_chunks s) (pp_ci_locations s) remaining)\<lparr>
         ci_patch_entries := int (length (pp_ci_locations s)) + reused,
         ci_full_sync_entries := int fresh * capacity,
         delta_ciphertexts := int (length (filter (\<lambda>g. live_entries g \<noteq> []) segs)),
         delta_rebuilt_ciphertexts := int (length changed),
         active_component_ids := state_component_ids st'\<rparr>)) (\<lambda>facts.
     rbind (if pw_query_count w > 0 then rbind (packed_coo_output_plan st') (\<lambda>plan. Inr (Some plan))
            else Inr None) (checked_transition st' facts))))))"

section \<open>Advancing by one window\<close>

text \<open>
  The predecessor capability is an object that \<open>consume\<close> marks: it is the state that the action
  threads. Absent, the state is checked instead.
\<close>

definition consume_or_check :: "strategy_state \<Rightarrow> (validated_predecessor option, unit) action" where
  "consume_or_check st = (\<lambda>predecessor. case predecessor of
     None \<Rightarrow> (assert_strategy_invariants st, None)
   | Some p \<Rightarrow> (let (r, p') = consume_predecessor p in (r, Some p')))"

definition advance_window :: "bool \<Rightarrow> strategy_state \<Rightarrow> publication_window \<Rightarrow> transition res" where
  "advance_window check st w =
     rbind (validated_candidate (st_config st) (st_logical st) (pw_updates w)) (\<lambda>candidate.
     if pw_query_count w < 0 then
       Inl (ValueError ''window.query_count must be a nonnegative strict integer'')
     else if pw_updates w = [] then
       rbind (if pw_query_count w > 0
              then rbind (output_plan_for_state st) (\<lambda>plan. Inr (Some plan)) else Inr None) (\<lambda>plan.
       rbind (checked_facts ((no_facts 0 (pw_query_count w))\<lparr>
           delta_ciphertexts := delta_ciphertext_count st,
           active_component_ids := state_component_ids st\<rparr>)) (\<lambda>facts.
       checked_transition st facts plan))
     else
       let ordinal = st_version_ordinal st + 1;
           version = CHR ''v'' # fmt08 (nat ordinal)
       in case st_strategy st of
            PaddingReuse \<Rightarrow> advance_point st w candidate ordinal version check
          | ReservedSlack \<Rightarrow> advance_point st w candidate ordinal version check
          | MiniDelta \<Rightarrow> advance_cssc_delta st w candidate ordinal version check
          | PeriodicRepack \<Rightarrow>
              if st_windows_since_repack st + 1 \<ge> periodic_repack_windows (st_config st)
              then fold_periodic st w candidate ordinal version check
              else advance_cssc_delta st w candidate ordinal version check
          | StrictLocalRepack \<Rightarrow> advance_local_repack st w candidate ordinal version check
          | PackedCOO \<Rightarrow> advance_packed_coo st w candidate ordinal version check)"

definition advance_publication ::
  "strategy_state \<Rightarrow> publication_window \<Rightarrow> (validated_predecessor option, transition) action"
where
  "advance_publication st w = (\<lambda>predecessor.
     sbind (consume_or_check st) (\<lambda>_. slift (advance_window (predecessor = None) st w)) predecessor)"

end
