(* ===== verification/Publish_Properties.thy ===== *)
theory Publish_Properties
  imports Publish_Correct Strategy_Advance
begin

text \<open>
  The contract of \<open>publish_component\<close>: when it returns, and that what it returns is a well-formed
  component that the query compiler accepts, that the decoder of \<open>strategy_state.py\<close> reads back,
  and that holds exactly the entries of the published matrix.
\<close>

section \<open>The checks of the input\<close>

definition row_size :: "(coord, int) dict \<Rightarrow> int \<Rightarrow> nat" where
  "row_size state r = length (filter (\<lambda>((row, _), _). row = r) state)"

definition capacities_ok :: "(coord, int) dict \<Rightarrow> int \<Rightarrow> int \<Rightarrow> int list option \<Rightarrow> bool" where
  "capacities_ok state rows cols caps = (case caps of None \<Rightarrow> True
     | Some cs \<Rightarrow> int (length cs) = rows \<and>
         (\<forall>r \<in> {0..<rows}. int (row_size state r) \<le> cs ! nat r \<and> cs ! nat r \<le> cols))"

definition publishable ::
  "(coord, int) dict \<Rightarrow> int \<Rightarrow> int \<Rightarrow> int \<Rightarrow> string \<Rightarrow> string \<Rightarrow> int option \<Rightarrow> int list option \<Rightarrow> bool"
where
  "publishable state rows cols slots vid cid part caps \<longleftrightarrow>
     0 < rows \<and> 0 < cols \<and> 0 < slots \<and> valid_id vid \<and> valid_id cid \<and>
     (case part of None \<Rightarrow> True | Some p \<Rightarrow> 0 < p \<and> p \<le> slots) \<and>
     matrix_ok rows cols state \<and> capacities_ok state rows cols caps"

lemma validate_sparse_state_Inr:
  "validate_sparse_state state rows cols = Inr es \<longleftrightarrow> matrix_ok rows cols state \<and> es = sort state"
proof -
  have "rfold (\<lambda>_ e. check_state_entry rows cols e) () state = Inr () \<longleftrightarrow> matrix_ok rows cols state"
    unfolding rfold_unit_iff matrix_ok_def by (auto simp: check_state_entry_def split: if_splits)
  then show ?thesis by (auto simp: validate_sparse_state_def rbind_eq_Inr)
qed

lemma rmap_capacities:
  "rmap (\<lambda>(row, capacity, used). if \<not> (used \<le> capacity \<and> capacity \<le> cols) then Inl (E row capacity used)
     else Inr capacity) xs = Inr cs \<longleftrightarrow>
     (\<forall>(row, capacity, used) \<in> set xs. used \<le> capacity \<and> capacity \<le> cols) \<and> cs = map (\<lambda>x. fst (snd x)) xs"
  by (induction xs arbitrary: cs) (auto simp: rbind_eq_Inr split: if_splits)

lemma entries_by_row_length [simp]: "length (entries_by_row_of rows es) = nat rows"
proof -
  have "length (foldl (\<lambda>acc ((row, global_col), value). acc[nat row := acc ! nat row @ [(global_col, value)]]) acc es) =
      length acc" for acc :: "(int \<times> int) list list"
    by (induction es arbitrary: acc) auto
  then show ?thesis by (simp add: entries_by_row_of_def)
qed

lemma physical_capacities_Inr:
  assumes "length ents = nat rows"
  shows "physical_capacities ents caps rows cols = Inr cs \<longleftrightarrow> (case caps of
      None \<Rightarrow> cs = map (\<lambda>es. int (length es)) ents
    | Some c \<Rightarrow> int (length c) = rows \<and> cs = c \<and>
        (\<forall>i < length c. int (length (ents ! i)) \<le> c ! i \<and> c ! i \<le> cols))"
proof (cases caps)
  case None
  then show ?thesis by (auto simp: physical_capacities_def)
next
  case (Some c)
  let ?xs = "py_enumerate (zip c (map (\<lambda>es. int (length es)) ents))"
  show ?thesis
  proof (cases "int (length c) = rows")
    case True
    then have len: "length c = length ents" using assms by simp
    have "map (\<lambda>x. fst (snd x)) ?xs = map fst (map snd ?xs)" by (simp only: map_map o_def)
    then have "map (\<lambda>x. fst (snd x)) ?xs = c" using len by simp
    moreover have "set ?xs = (\<lambda>i. (int i, c ! i, int (length (ents ! i)))) ` {..<length c}"
      using len by (auto simp: set_py_enumerate image_def)
    moreover have "physical_capacities ents (Some c) rows cols = Inr cs \<longleftrightarrow>
        (\<forall>(row, capacity, used) \<in> set ?xs. used \<le> capacity \<and> capacity \<le> cols) \<and> cs = map (\<lambda>x. fst (snd x)) ?xs"
      unfolding physical_capacities_def Let_def option.case True
      by (simp only: rmap_capacities simp_thms if_False)
    ultimately show ?thesis using True by (auto simp: Some)
  qed (simp add: physical_capacities_def Some)
qed

section \<open>What is published\<close>

lemma row_length:
  assumes "matrix_ok rows cols state" and "0 \<le> r" and "r < rows"
  shows "length (entries_by_row_of rows (sort state) ! nat r) = row_size state r"
proof -
  have "\<forall>((row, gc), v) \<in> set (sort state). 0 \<le> row \<and> row < rows" using assms(1) by (auto simp: matrix_ok_def)
  from entries_by_row_nth [OF this assms(2,3)]
  have "length (entries_by_row_of rows (sort state) ! nat r) = length (filter (\<lambda>((row, _), _). row = r) (sort state))"
    by simp
  then show ?thesis by (simp add: row_size_def mset_filter flip: size_mset)
qed

lemma row_fits:
  assumes "matrix_ok rows cols state" and "dict_ok state" and "0 < cols"
  shows "int (row_size state r) \<le> cols"
proof -
  let ?es = "filter (\<lambda>((row, _), _). row = r) state"
  have "inj_on (snd \<circ> fst) (set ?es)"
    using assms(2) by (auto simp: inj_on_def dict_ok_def distinct_map) (metis fst_conv prod.inject)
  moreover have "(snd \<circ> fst) ` set ?es \<subseteq> {0..<cols}" using assms(1) by (auto simp: matrix_ok_def)
  ultimately have "card (set ?es) \<le> card {0..<cols}" by (metis card_image card_mono finite_atLeastLessThan_int)
  moreover have "distinct ?es" using assms(2) by (auto simp: dict_ok_def distinct_map intro: distinct_filter)
  ultimately show ?thesis using assms(3) by (simp add: row_size_def distinct_card [symmetric])
qed

lemma publish_input_ok:
  assumes m: "matrix_ok rows cols state" and d: "dict_ok state" and "0 < cols"
    and c: "physical_capacities (entries_by_row_of rows (sort state)) caps rows cols = Inr cs"
  shows "input_ok rows cols (entries_by_row_of rows (sort state)) cs"
proof -
  let ?ents = "entries_by_row_of rows (sort state)"
  have 1: "int (length (?ents ! nat r)) \<le> cs ! nat r \<and> cs ! nat r \<le> cols" if r: "0 \<le> r" "r < rows" for r
  proof (cases caps)
    case None
    then have "cs ! nat r = int (length (?ents ! nat r))" using c r by (simp add: physical_capacities_Inr)
    then show ?thesis using row_fits [OF m d assms(3), of r] row_length [OF m r] by simp
  next
    case (Some c')
    then have "int (length cs) = rows" "\<forall>i < length cs. int (length (?ents ! i)) \<le> cs ! i \<and> cs ! i \<le> cols"
      using c by (auto simp: physical_capacities_Inr)
    then show ?thesis using r by (simp add: nat_less_iff)
  qed
  have 2: "\<forall>(gc, v) \<in> set (?ents ! nat r). 0 \<le> gc \<and> gc < cols \<and> v \<noteq> 0" if r: "0 \<le> r" "r < rows" for r
  proof -
    have "\<forall>((row, gc), v) \<in> set (sort state). 0 \<le> row \<and> row < rows" using m by (auto simp: matrix_ok_def)
    from entries_by_row_nth [OF this r] show ?thesis using m by (auto simp: matrix_ok_def)
  qed
  show ?thesis unfolding input_ok_def
  proof
    fix row assume "row \<in> {0..<rows}"
    then have r: "0 \<le> row" "row < rows" by simp_all
    show "int (length (?ents ! nat row)) \<le> cs ! nat row \<and> cs ! nat row \<le> cols \<and>
        (\<forall>(gc, v) \<in> set (?ents ! nat row). 0 \<le> gc \<and> gc < cols \<and> v \<noteq> 0)"
      using 1 [OF r] 2 [OF r] by blast
  qed
qed

definition spec_of :: "int \<Rightarrow> int \<Rightarrow> int \<Rightarrow> int option \<Rightarrow> layout_spec" where
  "spec_of rows cols slots part = \<lparr>ls_rows = rows, ls_cols = cols, ls_effective_slots = slots,
     ls_partition_rows = (case part of None \<Rightarrow> slots | Some p \<Rightarrow> p)\<rparr>"

lemma publish_component_Inr:
  assumes p: "publishable state rows cols slots vid cid part caps" and d: "dict_ok state"
  obtains c where
    "\<And>capability. capability \<noteq> ForeignCapability \<Longrightarrow>
       publish_component state rows cols slots vid cid part caps capability = Inr c"
    "component_good c" "mset (component_entries c) = mset state"
    "component_id c = cid" "version_id c = vid" "layout_spec c = spec_of rows cols slots part"
proof -
  have pos: "0 < rows" "0 < cols" "0 < slots" "valid_id vid" "valid_id cid" "matrix_ok rows cols state"
    using p by (simp_all add: publishable_def)
  let ?part = "case part of None \<Rightarrow> slots | Some p \<Rightarrow> p"
  let ?sp = "spec_of rows cols slots part"
  have part: "0 < ?part" "?part \<le> slots" using p by (auto simp: publishable_def split: option.splits)
  let ?ents = "entries_by_row_of rows (sort state)"
  have len: "i < nat rows \<Longrightarrow> length (?ents ! i) = row_size state (int i)" for i
    using row_length [OF pos(6), of "int i"] by (simp add: zless_nat_eq_int_zless)
  obtain cs where cs: "physical_capacities ?ents caps rows cols = Inr cs"
  proof (cases caps)
    case None
    then show thesis using that by (simp add: physical_capacities_Inr)
  next
    case (Some c)
    then have "int (length c) = rows" and c: "\<forall>r \<in> {0..<rows}. int (row_size state r) \<le> c ! nat r \<and> c ! nat r \<le> cols"
      using p by (simp_all add: publishable_def capacities_ok_def)
    moreover have "int (length (?ents ! i)) \<le> c ! i \<and> c ! i \<le> cols" if "i < length c" for i
      using bspec [OF c, of "int i"] len [of i] that \<open>int (length c) = rows\<close> by auto
    ultimately show thesis using that Some by (simp add: physical_capacities_Inr)
  qed
  note ok = publish_input_ok [OF pos(6) d pos(2) cs]
  have starts: "\<forall>(k, start) \<in> set (py_enumerate (range_step rows ?part)). 0 \<le> start \<and> start < rows"
    using range_step_below [OF nth_mem part(1) pos(1)] by (auto simp: set_py_enumerate)
  obtain bs where bs: "foldl (publish_block cid rows slots ?part ?ents cs) ([], [], []) (py_enumerate (range_step rows ?part)) =
      (bs, placements_of cid (concat (map chunks bs)), availables_of cid (concat (map chunks bs)))"
      "list_all2 (published_as cid ?sp ?ents) bs (py_enumerate (range_step rows ?part))"
    using publish_blocks_spec [of ?sp ?ents cs cid "py_enumerate (range_step rows ?part)" "[]" "[]" "[]"] ok part pos starts
    by (auto simp: spec_of_def)
  define c where "c = \<lparr>component_id = cid, version_id = vid, layout_spec = ?sp, blocks = bs,
    coordinate_slots = sort (placements_of cid (concat (map chunks bs))),
    available_slots = availables_of cid (concat (map chunks bs))\<rparr>"
  have v: "(case capability of NoCapability \<Rightarrow> validate_sparse_state state rows cols
      | ValidatedToken \<Rightarrow> Inr (sort state) | ForeignCapability \<Rightarrow> Inl e) = Inr (sort state)"
    if "capability \<noteq> ForeignCapability" for e capability
    using that pos(6) by (cases capability) (simp_all add: validate_sparse_state_Inr)
  have run: "publish_component state rows cols slots vid cid part caps capability = Inr c"
    if "capability \<noteq> ForeignCapability" for capability
    unfolding publish_component_def using pos part
    by (simp add: require_positive_int_def require_id_def Let_def v [OF that] cs bs(1) c_def spec_of_def)
  have es: "\<forall>((row, gc), v) \<in> set (sort state). 0 \<le> row \<and> row < rows" using pos(6) by (auto simp: matrix_ok_def)
  have dist: "distinct (map fst (sort state))"
    using d by (simp add: dict_ok_def distinct_map)
  have f: "layout_spec c = ?sp" "component_id c = cid" "version_id c = vid" "blocks c = bs"
      "coordinate_slots c = sort (placements_of cid (component_chunks c))"
      "available_slots c = availables_of cid (component_chunks c)"
    by (simp_all add: c_def component_chunks_def)
  have sp: "ls_rows ?sp = rows" "ls_cols ?sp = cols" "ls_effective_slots ?sp = slots" "ls_partition_rows ?sp = ?part"
    by (simp_all add: spec_of_def)
  note good = blocks_component_good [of c ?ents "sort state", unfolded f(1-4) sp,
      OF pos(1-3) part pos(5,4) bs(2) es refl dist f(5,6)]
  show thesis using that [OF run good(1) _ f(2,3,1)] good(2) by simp
qed

lemma publish_component_publishable:
  assumes "publish_component state rows cols slots vid cid part caps NoCapability = Inr c"
  shows "publishable state rows cols slots vid cid part caps"
proof -
  have pos: "0 < rows" "0 < cols" "0 < slots" "valid_id vid" "valid_id cid" "matrix_ok rows cols state"
      "case part of None \<Rightarrow> True | Some p \<Rightarrow> 0 < p \<and> p \<le> slots"
    using assms
    by (auto simp: publish_component_def require_positive_int_def require_id_def rbind_eq_Inr validate_sparse_state_Inr
        Let_def split: if_splits option.splits)
  obtain cs where "physical_capacities (entries_by_row_of rows (sort state)) caps rows cols = Inr cs"
    using assms pos(6)
    by (auto simp: publish_component_def require_positive_int_def require_id_def rbind_eq_Inr validate_sparse_state_Inr
        Let_def split: if_splits)
  then have "capacities_ok state rows cols caps"
  proof (cases caps)
    case (Some c)
    assume run: "physical_capacities (entries_by_row_of rows (sort state)) caps rows cols = Inr cs"
    then have len: "int (length c) = rows" and
      b: "\<forall>i < length c. int (length (entries_by_row_of rows (sort state) ! i)) \<le> c ! i \<and> c ! i \<le> cols"
      by (simp_all add: Some physical_capacities_Inr)
    have "int (row_size state r) \<le> c ! nat r \<and> c ! nat r \<le> cols" if r: "0 \<le> r" "r < rows" for r
      using b [rule_format, of "nat r"] row_length [OF pos(6) r] r len by simp
    then show ?thesis using len by (simp add: capacities_ok_def Some)
  qed (simp add: capacities_ok_def)
  then show ?thesis using pos by (simp add: publishable_def)
qed

lemma published_component:
  assumes "dict_ok state" and "publish_component state rows cols slots vid cid part caps NoCapability = Inr c"
  shows "component_good c" "mset (component_entries c) = mset state" "component_id c = cid" "version_id c = vid"
    "layout_spec c = spec_of rows cols slots part"
    "publish_validated_component state rows cols slots vid cid part caps = Inr c"
proof -
  obtain c' where c': "\<And>capability. capability \<noteq> ForeignCapability \<Longrightarrow>
        publish_component state rows cols slots vid cid part caps capability = Inr c'"
      "component_good c'" "mset (component_entries c') = mset state" "component_id c' = cid" "version_id c' = vid"
      "layout_spec c' = spec_of rows cols slots part"
    using publish_component_Inr [OF publish_component_publishable [OF assms(2)] assms(1)] by blast
  have "c' = c" using c'(1) [of NoCapability] assms(2) by simp
  then show "component_good c" "mset (component_entries c) = mset state" "component_id c = cid" "version_id c = vid"
    "layout_spec c = spec_of rows cols slots part"
    "publish_validated_component state rows cols slots vid cid part caps = Inr c"
    using c' by (simp_all add: publish_validated_component_def)
qed

section \<open>Decoding\<close>

lemma decode_lanes:
  "\<forall>l \<in> set ls. lane_content_ok sp l \<Longrightarrow> distinct (map fst d @ map fst (concat (map lane_entry ls))) \<Longrightarrow>
   rfold decode_lane d (map (\<lambda>(_, v, _, coordinate, _, k). (k, coordinate, v)) ls) =
     Inr (d @ concat (map lane_entry ls))"
proof (induction ls arbitrary: d)
  case (Cons l ls)
  obtain lane v col coordinate ow k where l: "l = (lane, v, col, coordinate, ow, k)" by (cases l)
  have fresh: "fst ` set (lane_entry l) \<inter> fst ` set d = {}" using Cons.prems(2) by auto
  have "lane_content_ok sp l" using Cons.prems(1) by simp
  then have step: "decode_lane d (k, coordinate, v) = Inr (d @ lane_entry l)"
    using fresh
    by (auto simp: l decode_lane_def lane_content_ok_def lane_entry_def update_new split: lane_kind.splits option.splits)
  have "distinct (map fst (d @ lane_entry l) @ map fst (concat (map lane_entry ls)))" using Cons.prems(2) by simp
  then have "rfold decode_lane (d @ lane_entry l) (map (\<lambda>(_, v, _, coordinate, _, k). (k, coordinate, v)) ls) =
      Inr ((d @ lane_entry l) @ concat (map lane_entry ls))"
    using Cons.prems(1) by (intro Cons.IH) simp_all
  then show ?case using step by (simp add: l)
qed simp

lemma chunk_lanes_content_zip:
  assumes "full_length n ch"
  shows "map (\<lambda>(_, v, _, coordinate, _, k). (k, coordinate, v)) (chunk_lanes ch) =
    zip (slot_kinds ch) (zip (slot_coordinates ch) (vc_values ch))"
proof -
  have "length (vc_values ch) = length (slot_kinds ch)" "length (column_indices ch) = length (slot_kinds ch)"
    "length (slot_coordinates ch) = length (slot_kinds ch)" "length (slot_owner_rows ch) = length (slot_kinds ch)"
    using assms unfolding full_length_def by linarith+
  then show ?thesis by (intro nth_equalityI) (simp_all add: chunk_lanes_def)
qed

lemma decode_chunks:
  "\<forall>ch \<in> set chs. full_length n ch \<and> (\<forall>l \<in> set (chunk_lanes ch). lane_content_ok sp l) \<Longrightarrow>
   distinct (map fst d @ map fst (entries_of chs)) \<Longrightarrow>
   rfold decode_chunk d chs = Inr (d @ entries_of chs)"
proof (induction chs arbitrary: d)
  case (Cons ch chs)
  have ch: "full_length n ch" "\<forall>l \<in> set (chunk_lanes ch). lane_content_ok sp l" using Cons.prems(1) by simp_all
  have "distinct (map fst d @ map fst (concat (map lane_entry (chunk_lanes ch))))"
    using Cons.prems(2) by (simp add: entries_of_def chunk_entries_def) blast
  note lanes = decode_lanes [OF ch(2) this, unfolded chunk_lanes_content_zip [OF ch(1)]]
  have "length (slot_kinds ch) = length (slot_coordinates ch)" "length (slot_kinds ch) = length (vc_values ch)"
    using ch(1) unfolding full_length_def by linarith+
  then have step: "decode_chunk d ch = Inr (d @ chunk_entries ch)"
    by (simp add: decode_chunk_def lanes chunk_entries_def)
  have "distinct (map fst (d @ chunk_entries ch) @ map fst (entries_of chs))"
    using Cons.prems(2) by (simp add: entries_of_def)
  then have "rfold decode_chunk (d @ chunk_entries ch) chs = Inr ((d @ chunk_entries ch) @ entries_of chs)"
    using Cons.prems(1) by (intro Cons.IH) simp_all
  then show ?case by (simp add: step entries_of_def)
qed (simp add: entries_of_def)

lemma component_good_chunk:
  assumes "component_good c" and "ch \<in> set (component_chunks c)"
  shows "\<exists>b \<in> set (blocks c). ch \<in> set (chunks b) \<and> chunk_good (layout_spec c) b ch"
proof -
  have "list_all2 (\<lambda>b bounds. block_good (layout_spec c) bounds b) (blocks c) (expected_ranges (layout_spec c))"
    using assms(1) by (simp add: component_good_def Let_def)
  moreover obtain b where b: "b \<in> set (blocks c)" "ch \<in> set (chunks b)"
    using assms(2) by (auto simp: component_chunks_def)
  ultimately obtain bounds where "block_good (layout_spec c) bounds b"
    by (metis in_set_conv_nth list_all2_lengthD list_all2_nthD)
  then show ?thesis using b by (auto simp: block_good_def)
qed

lemma decode_component_good:
  assumes "component_good c"
  shows "decode_component c = Inr (component_entries c)"
proof -
  let ?sp = "layout_spec c"
  have "distinct (map fst (component_entries c))" using assms by (simp add: component_good_def Let_def)
  moreover have "\<forall>ch \<in> set (component_chunks c). full_length (ls_effective_slots ?sp) ch \<and>
      (\<forall>l \<in> set (chunk_lanes ch). lane_content_ok ?sp l)"
    using component_good_chunk [OF assms] by (fastforce simp: chunk_good_def lane_good_def)
  ultimately show ?thesis
    using decode_chunks [of "component_chunks c" "ls_effective_slots ?sp" ?sp "[]"]
    by (simp add: decode_component_def component_entries_of)
qed

lemma dict_eq_mset: "dict_ok d \<Longrightarrow> mset d' = mset d \<Longrightarrow> dict_eq d' d"
proof -
  assume d: "dict_ok d" and m: "mset d' = mset d"
  have "dict_ok d'" using d m unfolding dict_ok_def by (metis mset_map mset_eq_imp_distinct_iff)
  moreover have "set d' = set d" using m by (rule mset_eq_setD)
  ultimately show ?thesis using d
    by (simp add: dict_eq_map_of) (metis dict_ok_def map_of_inject_set)
qed

section \<open>Properties\<close>

text \<open>
  C13. Publication of a sparse matrix succeeds exactly when the dimensions and the partition are
  positive and fit the slot count, the identifiers are valid, every entry is a nonzero value
  inside the matrix, and the given capacities - if any - lie between the number of entries of
  their row and the number of columns. Every other input raises.
\<close>

theorem publish_component_accepts:
  assumes "dict_ok state"
  shows "(\<exists>c. publish_component state rows cols slots vid cid part caps NoCapability = Inr c) \<longleftrightarrow>
    publishable state rows cols slots vid cid part caps"
  using publish_component_Inr [OF _ assms, of rows cols slots vid cid part caps]
    publish_component_publishable by (metis validation_capability.distinct(3))

theorem publish_component_accepts_witness:
  "(\<exists>c. publish_component [((0, 1), 3), ((1, 0), 2), ((0, 0), 4)] 2 2 2 ''v1'' ''base'' (Some 1) (Some [2, 1])
      NoCapability = Inr c) \<and>
   \<not> (\<exists>c. publish_component [((0, 1), 3), ((1, 0), 2), ((0, 0), 4)] 2 2 2 ''v1'' ''base'' (Some 1) (Some [1, 1])
      NoCapability = Inr c)"
proof -
  have d: "dict_ok [((0 :: int, 1 :: int), 3 :: int), ((1, 0), 2), ((0, 0), 4)]" by (simp add: dict_ok_def)
  have "publishable [((0, 1), 3), ((1, 0), 2), ((0, 0), 4)] 2 2 2 ''v1'' ''base'' (Some 1) (Some [2, 1])"
    by code_simp
  moreover have "\<not> publishable [((0, 1), 3), ((1, 0), 2), ((0, 0), 4)] 2 2 2 ''v1'' ''base'' (Some 1) (Some [1, 1])"
    by code_simp
  ultimately show ?thesis
    using publish_component_accepts [OF d, of 2 2 2 "''v1''" "''base''" "Some 1"] by blast
qed

text \<open>
  C11. Every component that publication returns is accepted by the scan of the query compiler:
  \<open>publish_component\<close> establishes each condition that \<open>validate_component\<close> checks - the tiling
  of the columns, the sorted capacities, the geometry and content of every lane, the counters
  and both indices. The unchecked entry point behaves the same on a valid matrix.
\<close>

theorem published_component_validates:
  assumes "dict_ok state" and "publish_component state rows cols slots vid cid part caps NoCapability = Inr c"
  shows "validate_component c = Inr () \<and>
    publish_validated_component state rows cols slots vid cid part caps = Inr c"
  using published_component(1,6) [OF assms] component_good_validates by blast

theorem published_component_validates_witness:
  "\<exists>c. publish_component [((0, 1), 3), ((1, 0), 2), ((0, 0), 4)] 2 2 2 ''v1'' ''base'' None None NoCapability = Inr c \<and>
     validate_component c = Inr () \<and> length (component_chunks c) = 2"
proof -
  have d: "dict_ok [((0 :: int, 1 :: int), 3 :: int), ((1, 0), 2), ((0, 0), 4)]" by (simp add: dict_ok_def)
  have "publishable [((0, 1), 3), ((1, 0), 2), ((0, 0), 4)] 2 2 2 ''v1'' ''base'' None None" by code_simp
  from publish_component_Inr [OF this d] obtain c where
    c: "publish_component [((0, 1), 3), ((1, 0), 2), ((0, 0), 4)] 2 2 2 ''v1'' ''base'' None None NoCapability = Inr c"
    by auto
  have "case_sum (\<lambda>_. False) (\<lambda>c. length (component_chunks c) = 2)
      (publish_component [((0, 1), 3), ((1, 0), 2), ((0, 0), 4)] 2 2 2 ''v1'' ''base'' None None NoCapability)"
    by code_simp
  then show ?thesis using published_component_validates [OF d c] c by simp
qed

text \<open>
  C12. Publishing loses nothing and invents nothing: the decoder of \<open>strategy_state.py\<close> accepts
  every published component and returns the published matrix, and the component carries the
  identifiers and dimensions it was published with.
\<close>

theorem publish_decode_roundtrip:
  assumes "dict_ok state" and "publish_component state rows cols slots vid cid part caps NoCapability = Inr c"
  shows "(\<exists>d. decode_component c = Inr d \<and> mset d = mset state \<and> dict_eq d state) \<and>
    component_id c = cid \<and> version_id c = vid \<and> component_matrix c = (rows, cols, slots)"
proof -
  note c = published_component [OF assms]
  show ?thesis
    using decode_component_good [OF c(1)] c(2-5) dict_eq_mset [OF assms(1) c(2)]
    by (simp add: component_matrix_def spec_of_def)
qed

theorem publish_decode_roundtrip_witness:
  "\<exists>c d. publish_component [((0, 1), 3), ((1, 0), 2), ((0, 0), 4)] 2 2 4 ''v1'' ''base'' None None NoCapability = Inr c \<and>
     decode_component c = Inr d \<and> mset d = {#((0, 0), 4), ((0, 1), 3), ((1, 0), 2)#}"
proof -
  have d: "dict_ok [((0 :: int, 1 :: int), 3 :: int), ((1, 0), 2), ((0, 0), 4)]" by (simp add: dict_ok_def)
  have "publishable [((0, 1), 3), ((1, 0), 2), ((0, 0), 4)] 2 2 4 ''v1'' ''base'' None None" by code_simp
  from publish_component_Inr [OF this d] obtain c where
    c: "publish_component [((0, 1), 3), ((1, 0), 2), ((0, 0), 4)] 2 2 4 ''v1'' ''base'' None None NoCapability = Inr c"
    by auto
  obtain e where "decode_component c = Inr e" "mset e = mset [((0, 1), 3), ((1, 0), 2), ((0, 0), 4)]"
    using publish_decode_roundtrip [OF d c] by blast
  then show ?thesis using c by (intro exI [of _ c] exI [of _ e]) simp
qed

section \<open>The loop of a block ends\<close>

text \<open>
  C29. The \<open>while\<close> loop of a block ends. While its own guard holds, an iteration takes at least one
  column and at most the remaining ones and continues with the rest, so that the second guard of the
  model never decides; when the guard fails the loop returns. A block of \<open>m\<close> columns is finished
  after at most \<open>m\<close> iterations.
\<close>

theorem publish_loop_ends:
  assumes "0 \<le> column" and "int (length phys) \<le> slots"
  defines "m \<equiv> max_default 0 phys"
    and "w \<equiv> min (max_default 0 phys - column) (slots div column_height phys column)"
  shows "if column < m
    then column < column + w \<and> column + w \<le> m \<and>
      publish_chunks cid bid slots ents caps rowmap phys m column k acc P A =
        (let (ch, pl, av) = make_chunk cid (bid @ ''-c'' @ fmt06 k) slots ents caps rowmap column w
               (column_height phys column) P A
         in publish_chunks cid bid slots ents caps rowmap phys m (column + w) (Suc k) (acc @ [ch]) pl av)
    else publish_chunks cid bid slots ents caps rowmap phys m column k acc P A = (acc, P, A)"
proof (cases "column < m")
  case True
  then have "0 < w" using publish_chunk_width_pos [of column phys slots] assms by simp
  then show ?thesis using True
    by (subst publish_chunks.simps) (simp add: Let_def w_def m_def)
next
  case False
  then show ?thesis by (subst publish_chunks.simps) (simp add: Let_def m_def)
qed

theorem publish_loop_ends_witness:
  "\<exists>w > 0. publish_chunks ''c'' ''b'' 2 [[(0, 5), (1, 6)], [(0, 7)]] [2, 1] [0, 1] [2, 1] 2 0 0 [] [] [] =
     (let (ch, pl, av) = make_chunk ''c'' (''b'' @ ''-c'' @ fmt06 0) 2 [[(0, 5), (1, 6)], [(0, 7)]] [2, 1] [0, 1] 0 w 2 [] []
      in publish_chunks ''c'' ''b'' 2 [[(0, 5), (1, 6)], [(0, 7)]] [2, 1] [0, 1] [2, 1] 2 w (Suc 0) ([] @ [ch]) pl av)"
proof -
  have h: "max_default 0 [2, 1] = (2 :: int)" "column_height [2, 1] 0 = 2" by code_simp+
  show ?thesis
    using publish_loop_ends [of 0 "[2, 1]" 2 "''c''" "''b''" "[[(0, 5), (1, 6)], [(0, 7)]]" "[2, 1]" "[0, 1]" 0 "[]" "[]" "[]"]
    by (intro exI [of _ 1]) (simp add: h)
qed

end
