(* ===== verification/Strong_Strategy.thy ===== *)
theory Strong_Strategy
  imports Strategy_Advance Strong_Execution
begin

text \<open>
  The strong strategy of \<open>strategy_state.py\<close>: a base with reserved slack and a segmented delta.
  Insertions that no lane of the base absorbs go to the delta, updates of delta entries stay
  there, and a query-bearing window compiles the strong execution bundle.
\<close>

record strong_strategy_config = matrix_config +
  sc_segment_width :: int

record strong_strategy_state = layout_state +
  ss_config :: strong_strategy_config
  ss_delta :: segmented_delta_state

record strong_transition =
  stt_state :: strong_strategy_state
  stt_facts :: transition_facts
  stt_output_plan :: "output_plan option"
  stt_execution_bundle :: "strong_bundle option"

definition checked_strong_transition ::
  "strong_strategy_state \<Rightarrow> transition_facts \<Rightarrow> strong_bundle option \<Rightarrow> strong_transition res"
where
  "checked_strong_transition st f bundle =
     (if tf_query_count f < 0 then
        Inl (ValueError ''transition query_count must be a nonnegative strict integer'')
      else if (tf_query_count f = 0) \<noteq> (bundle = None) then
        Inl (ValueError ''strong query-side plans exist exactly for query-bearing transitions'')
      else Inr \<lparr>stt_state = st, stt_facts = f, stt_output_plan = map_option sb_output_plan bundle,
        stt_execution_bundle = bundle\<rparr>)"

definition validate_strong_config ::
  "int \<Rightarrow> int \<Rightarrow> int \<Rightarrow> int option \<Rightarrow> int \<Rightarrow> int \<Rightarrow> float64 \<Rightarrow> int \<Rightarrow> strong_strategy_config res"
where
  "validate_strong_config rows cols slots part_rows bound max_nnz beta seg_width =
     rbind (ss_positive_int rows ''rows'') (\<lambda>rows.
     rbind (ss_positive_int cols ''cols'') (\<lambda>cols.
     rbind (ss_positive_int slots ''effective_slots'') (\<lambda>slots.
     rbind (ss_positive_int (case part_rows of None \<Rightarrow> slots | Some p \<Rightarrow> p) ''partition_rows'') (\<lambda>part_rows.
     if part_rows > slots then
       Inl (ValueError ''partition_rows must not exceed effective_slots'')
     else
     rbind (ss_positive_int bound ''matrix_value_bound'') (\<lambda>bound.
     rbind (ss_positive_int max_nnz ''max_row_nnz'') (\<lambda>max_nnz.
     if bad_segment_width seg_width slots then
       Inl (ValueError ''segment_width must be a power of two in [2, effective_slots]'')
     else if fst beta < 0 then
       Inl (ValueError ''reserved_slack_beta must be a finite nonnegative number'')
     else Inr \<lparr>mc_rows = rows, mc_cols = cols, mc_effective_slots = slots,
            mc_partition_rows = part_rows, mc_matrix_value_bound = bound,
            mc_max_row_nnz = max_nnz, mc_reserved_slack_beta = beta, sc_segment_width = seg_width\<rparr>))))))"

section \<open>The invariant\<close>

definition merge_delta ::
  "(coord, int) dict \<Rightarrow> (coord, int) dict \<Rightarrow> (coord, int) dict res"
where
  "merge_delta decoded delta = rfold (merge_entry ''strong delta'') decoded delta"

definition decode_strong_layout :: "strong_strategy_state \<Rightarrow> (coord, int) dict res" where
  "decode_strong_layout st =
     rbind (decode_component (st_base st)) (\<lambda>decoded.
     rbind (decode_segmented_delta (ss_delta st)) (merge_delta decoded))"

definition strong_metadata_ok :: "strong_strategy_state \<Rightarrow> unit res" where
  "strong_metadata_ok st =
     (let c = ss_config st; d = ss_delta st in
      rbind (rewrap is_value_error (AssertionError ''strong strategy config is invalid'')
        (validate_strong_config (mc_rows c) (mc_cols c) (mc_effective_slots c)
          (Some (mc_partition_rows c)) (mc_matrix_value_bound c) (mc_max_row_nnz c)
          (mc_reserved_slack_beta c) (sc_segment_width c))) (\<lambda>expected.
      if c \<noteq> expected then
        Inl (AssertionError ''strong strategy config must be canonical'')
      else if st_version_ordinal st < 0 then
        Inl (AssertionError ''version ordinal must be a nonnegative strict integer'')
      else if st_version_id st \<noteq> CHR ''v'' # fmt08 (nat (st_version_ordinal st)) then
        Inl (AssertionError ''version identifier must match its ordinal'')
      else if version_id (st_base st) \<noteq> st_version_id st then
        Inl (AssertionError ''base component version must match the strategy version'')
      else if sd_version_id d \<noteq> st_version_id st then
        Inl (AssertionError ''strong delta version must match the strategy version'')
      else if (sd_rows d, sd_cols d, sd_effective_slots d, segment_width d, matrix_value_bound d) \<noteq>
          (mc_rows c, mc_cols c, mc_effective_slots c, sc_segment_width c, mc_matrix_value_bound c) then
        Inl (AssertionError ''strong delta dimensions must match the strategy config'')
      else Inr ()))"

definition assert_strong_strategy_invariants :: "strong_strategy_state \<Rightarrow> unit res" where
  "assert_strong_strategy_invariants st =
     rbind (strong_metadata_ok st) (\<lambda>_.
     rbind (assert_component_invariants (st_base st) (ss_config st)) (\<lambda>base.
     if st_free_lanes st \<noteq> ci_free_lanes base then
       Inl (AssertionError ''free-lane metadata must match the base component'')
     else
     rbind (decode_segmented_delta (ss_delta st)) (\<lambda>delta.
     rbind (merge_delta (ci_decoded base) delta) (\<lambda>decoded.
     if \<not> dict_eq decoded (st_logical st) then
       Inl (AssertionError ''decoded base and strong delta must equal the logical matrix'')
     else rbind (validate_logical (st_logical st) (ss_config st)) (\<lambda>_. Inr ())))))"

definition decode_strong_state :: "strong_strategy_state \<Rightarrow> (coord, int) dict res" where
  "decode_strong_state st =
     rbind (assert_strong_strategy_invariants st) (\<lambda>_. decode_strong_layout st)"

definition initialize_strong_strategy ::
  "(coord, int) dict \<Rightarrow> int \<Rightarrow> int \<Rightarrow> int \<Rightarrow> int \<Rightarrow> int option \<Rightarrow> int \<Rightarrow> int \<Rightarrow> float64 \<Rightarrow>
     strong_strategy_state res"
where
  "initialize_strong_strategy initial rows cols slots seg_width part_rows bound max_nnz beta =
     rbind (validate_strong_config rows cols slots part_rows bound max_nnz beta seg_width) (\<lambda>cfg.
     rbind (validate_logical initial cfg) (\<lambda>logical.
     rbind (reserved_capacities logical cfg) (\<lambda>capacities.
     rbind (publish_component logical (mc_rows cfg) (mc_cols cfg) (mc_effective_slots cfg)
              ''v00000000'' ''base'' (Some (mc_partition_rows cfg)) (Some capacities) NoCapability) (\<lambda>base.
     rbind (initialize_segmented_delta (mc_rows cfg) (mc_cols cfg) (mc_effective_slots cfg)
              (sc_segment_width cfg) (mc_matrix_value_bound cfg) ''v00000000'') (\<lambda>delta.
     rbind (free_lanes base) (\<lambda>lanes.
     let st = \<lparr>st_version_ordinal = 0, st_version_id = ''v00000000'', st_logical = logical,
               st_base = base, st_free_lanes = lanes, ss_config = cfg, ss_delta = delta\<rparr>
     in rbind (assert_strong_strategy_invariants st) (\<lambda>_. Inr st)))))))"

section \<open>Advancing by one window\<close>

text \<open>A window is checked before its updates are; its times must be finite doubles.\<close>

definition validated_strong_candidate ::
  "strong_strategy_state \<Rightarrow> publication_window \<Rightarrow> (coord, int) dict res"
where
  "validated_strong_candidate st w =
     (if pw_index w < 0 then
        Inl (ValueError ''window.index must be a nonnegative strict integer'')
      else if \<not> is_finite (pw_start_time w) \<or> \<not> is_finite (pw_end_time w) \<or>
          double_less (pw_end_time w) (pw_start_time w) then
        Inl (ValueError ''window times must be finite and nondecreasing'')
      else if pw_query_count w < 0 then
        Inl (ValueError ''window.query_count must be a nonnegative strict integer'')
      else if pw_reason w = [] then
        Inl (ValueError ''window.reason must be a non-empty string'')
      else validated_candidate (ss_config st) (st_logical st) (pw_updates w))"

definition compile_bundle_if ::
  "int \<Rightarrow> published_component \<Rightarrow> segmented_delta_state \<Rightarrow> strong_bundle option res"
where
  "compile_bundle_if query_count base delta =
     (if query_count > 0
      then rbind (compile_strong_execution base delta) (\<lambda>b. Inr (Some b)) else Inr None)"

definition strong_component_ids :: "published_component \<Rightarrow> segmented_delta_state \<Rightarrow> string list" where
  "strong_component_ids base delta =
     component_id base # (if segments delta \<noteq> [] then [strong_component_id] else [])"

definition overflow_entry :: "(coord, int) dict \<Rightarrow> coord \<Rightarrow> strong_entry res" where
  "overflow_entry candidate c = (case map_of candidate c of
     None \<Rightarrow> Inl KeyError | Some v \<Rightarrow> Inr \<lparr>se_row = fst c, se_col = snd c, se_value = v\<rparr>)"

definition consume_or_check_strong :: "strong_strategy_state \<Rightarrow> (validated_predecessor option, unit) action" where
  "consume_or_check_strong st = (\<lambda>predecessor. case predecessor of
     None \<Rightarrow> (assert_strong_strategy_invariants st, None)
   | Some p \<Rightarrow> (let (r, p') = consume_predecessor p in (r, Some p')))"

definition advance_strong_window ::
  "bool \<Rightarrow> strong_strategy_state \<Rightarrow> publication_window \<Rightarrow> strong_transition res"
where
  "advance_strong_window check st w =
     rbind (validated_strong_candidate st w) (\<lambda>candidate.
     if pw_updates w = [] then
       rbind (compile_bundle_if (pw_query_count w) (st_base st) (ss_delta st)) (\<lambda>bundle.
       rbind (cloud_page_shapes (ss_delta st)) (\<lambda>shapes.
       rbind (checked_facts ((no_facts 0 (pw_query_count w))\<lparr>
           delta_ciphertexts := int (length shapes),
           active_component_ids := strong_component_ids (st_base st) (ss_delta st)\<rparr>)) (\<lambda>facts.
       checked_strong_transition st facts bundle)))
     else
     rbind (decode_segmented_delta (ss_delta st)) (\<lambda>delta_logical.
     let (base_updates, delta_updates) = split_base_and_delta_updates delta_logical (pw_updates w);
         ordinal = st_version_ordinal st + 1;
         version = CHR ''v'' # fmt08 (nat ordinal) in
     rbind (point_patch_base st base_updates True) (\<lambda>(patched, s).
     rbind (rmap (overflow_entry candidate) (pp_overflow s)) (\<lambda>overflow.
     rbind (advance_segmented_delta (ss_delta st) delta_updates overflow version) (\<lambda>dt.
     let base = patched\<lparr>version_id := version\<rparr>;
         st' = st\<lparr>st_version_ordinal := ordinal, st_version_id := version, st_logical := candidate,
           st_base := base, ss_delta := sdt_state dt, st_free_lanes := pp_free_lanes s\<rparr> in
     rbind (if check then assert_strong_strategy_invariants st' else Inr ()) (\<lambda>_.
     rbind (compile_bundle_if (pw_query_count w) base (sdt_state dt)) (\<lambda>bundle.
     rbind (cloud_page_shapes (sdt_state dt)) (\<lambda>shapes.
     rbind (checked_facts ((patch_facts w s (pp_patched_chunks s) (pp_ci_locations s) (pp_overflow s))\<lparr>
         ci_patch_entries := int (length (pp_ci_locations s)) + sdt_ci_patch_entries dt,
         ci_full_sync_entries := sdt_ci_full_sync_entries dt,
         delta_ciphertexts := int (length shapes),
         delta_rebuilt_ciphertexts := int (length (changed_page_ids dt)),
         absorbed_reserved := dict_get (pp_absorbed s) Reserved 0,
         active_component_ids := strong_component_ids base (sdt_state dt)\<rparr>)) (\<lambda>facts.
     checked_strong_transition st' facts bundle)))))))))"

definition advance_strong_publication ::
  "strong_strategy_state \<Rightarrow> publication_window \<Rightarrow> (validated_predecessor option, strong_transition) action"
where
  "advance_strong_publication st w = (\<lambda>predecessor.
     sbind (consume_or_check_strong st) (\<lambda>_. slift (advance_strong_window (predecessor = None) st w)) predecessor)"

end
