(* ===== verification/Event_Facts.thy ===== *)
theory Event_Facts
  imports Events
begin

text \<open>
  The windowing generator against an abstract matrix, a total function from coordinates to
  values. \<open>replays\<close> says that a sequence of net updates starts from the values a matrix holds;
  \<open>window_inv\<close> relates the generator's local variables to the matrix at the last boundary.
\<close>

section \<open>The abstract matrix\<close>

definition value_at :: "(int \<times> int, int) dict \<Rightarrow> int \<times> int \<Rightarrow> int" where
  "value_at m c = dict_get m c 0"

definition apply_update :: "(int \<times> int \<Rightarrow> int) \<Rightarrow> net_update \<Rightarrow> int \<times> int \<Rightarrow> int" where
  "apply_update f u = f((nu_row u, nu_col u) := nu_after u)"

definition apply_event :: "(int \<times> int \<Rightarrow> int) \<Rightarrow> event \<Rightarrow> int \<times> int \<Rightarrow> int" where
  "apply_event f e = (case (kind e, ev_row e, ev_col e, ev_value e) of
     (SET, Some r, Some c, Some v) \<Rightarrow> f((r, c) := v) | _ \<Rightarrow> f)"

fun replays :: "(int \<times> int \<Rightarrow> int) \<Rightarrow> net_update list \<Rightarrow> bool" where
  "replays f [] = True"
| "replays f (u # us) \<longleftrightarrow>
     nu_before u = f (nu_row u, nu_col u) \<and> \<not> is_noop u \<and> replays (apply_update f u) us"

definition window_updates :: "publication_window list \<Rightarrow> net_update list" where
  "window_updates ws = concat (map pw_updates ws)"

definition nu_coordinate :: "net_update \<Rightarrow> int \<times> int" where
  "nu_coordinate u = (nu_row u, nu_col u)"

text \<open>The windows lead from one matrix to another, each netted and sorted by coordinate.\<close>

definition emits :: "(int \<times> int \<Rightarrow> int) \<Rightarrow> publication_window list \<Rightarrow> (int \<times> int \<Rightarrow> int) \<Rightarrow> bool" where
  "emits f ws g \<longleftrightarrow> replays f (window_updates ws) \<and> foldl apply_update f (window_updates ws) = g \<and>
     (\<forall>w \<in> set ws. sorted_wrt (<) (map nu_coordinate (pw_updates w)))"

lemma window_updates_simps [simp]:
  "window_updates [] = []" "window_updates (w # ws) = pw_updates w @ window_updates ws"
  "window_updates (vs @ ws) = window_updates vs @ window_updates ws"
  by (simp_all add: window_updates_def)

lemma replays_append [simp]:
  "replays f (us @ vs) \<longleftrightarrow> replays f us \<and> replays (foldl apply_update f us) vs"
  by (induction us arbitrary: f) auto

lemma emits_Nil [simp]: "emits f [] g \<longleftrightarrow> f = g"
  by (auto simp: emits_def)

lemma emits_append: "emits f vs g \<Longrightarrow> emits g ws h \<Longrightarrow> emits f (vs @ ws) h"
  by (auto simp: emits_def)

section \<open>The net updates of a window\<close>

text \<open>\<open>net_of\<close> over functions instead of dictionaries.\<close>

fun nets :: "(int \<times> int \<Rightarrow> int) \<Rightarrow> (int \<times> int \<Rightarrow> int) \<Rightarrow> (int \<times> int) list \<Rightarrow> net_update list" where
  "nets before after [] = []"
| "nets before after (c # cs) =
     (if before c \<noteq> after c
      then [\<lparr>nu_row = fst c, nu_col = snd c, nu_before = before c, nu_after = after c\<rparr>] else []) @
     nets before after cs"

lemma net_of_nets:
  "net_of first m cs = nets (\<lambda>c. dict_get first c 0) (\<lambda>c. dict_get m c 0) (sorted_set cs)"
proof -
  have "concat (map (\<lambda>(row, col). let before = dict_get first (row, col) 0; after = dict_get m (row, col) 0
       in if before \<noteq> after
          then [\<lparr>nu_row = row, nu_col = col, nu_before = before, nu_after = after\<rparr>] else []) ds) =
     nets (\<lambda>c. dict_get first c 0) (\<lambda>c. dict_get m c 0) ds" for ds
    by (induction ds) (auto simp: Let_def)
  then show ?thesis by (simp add: net_of_def)
qed

lemma nets_replay:
  assumes "distinct cs" and "\<forall>c \<in> set cs. before c = f c"
  shows "replays f (nets before after cs) \<and>
    foldl apply_update f (nets before after cs) = (\<lambda>c. if c \<in> set cs then after c else f c)"
  using assms
proof (induction cs arbitrary: f)
  case (Cons x cs)
  have eq: "(\<lambda>c. if c \<in> set cs then after c else (f(x := after x)) c) = (\<lambda>c. if c \<in> set (x # cs) then after c else f c)"
    by (rule ext) simp
  have step: "apply_update f \<lparr>nu_row = fst x, nu_col = snd x, nu_before = b, nu_after = after x\<rparr> = f(x := after x)" for b
    by (simp add: apply_update_def)
  have IH: "replays (f(x := after x)) (nets before after cs) \<and>
      foldl apply_update (f(x := after x)) (nets before after cs) = (\<lambda>c. if c \<in> set (x # cs) then after c else f c)"
    unfolding eq [symmetric] using Cons.prems by (intro Cons.IH) auto
  have x: "before x = f x" using Cons.prems by simp
  show ?case
  proof (cases "before x = after x")
    case True
    then have "f(x := after x) = f" using x by (metis fun_upd_triv)
    then show ?thesis using IH True by simp
  next
    case False
    then show ?thesis using IH x by (simp add: step is_noop_def del: list.set)
  qed
qed simp

lemma nets_coordinates: "nu_coordinate ` set (nets before after cs) \<subseteq> set cs"
  by (induction cs) (auto simp: nu_coordinate_def)

lemma nets_sorted: "sorted_wrt (<) cs \<Longrightarrow> sorted_wrt (<) (map nu_coordinate (nets before after cs))"
proof (induction cs)
  case (Cons c cs)
  then show ?case using nets_coordinates [of before after cs]
    by (auto simp: nu_coordinate_def sorted_wrt_map)
qed simp

lemma sorted_set_strict: "sorted_wrt (<) (sorted_set (xs :: 'a::linorder list))"
  by (simp add: strict_sorted_iff)

section \<open>The invariant\<close>

definition window_inv :: "(int \<times> int \<Rightarrow> int) \<Rightarrow> window_state \<Rightarrow> bool" where
  "window_inv f s \<longleftrightarrow> dict_ok (matrix s) \<and> dict_ok (first_before s) \<and>
     set (touched s) = fst ` set (first_before s) \<and>
     (\<forall>c \<in> set (touched s). dict_get (first_before s) c 0 = f c) \<and>
     (\<forall>c. c \<notin> set (touched s) \<longrightarrow> value_at (matrix s) c = f c)"

lemma window_inv_untouched: "window_inv f s \<Longrightarrow> touched s = [] \<Longrightarrow> value_at (matrix s) = f"
  by (auto simp: window_inv_def)

lemma net_of_emits:
  assumes "window_inv f s"
  shows "replays f (net_of (first_before s) (matrix s) (touched s)) \<and>
    foldl apply_update f (net_of (first_before s) (matrix s) (touched s)) = value_at (matrix s)"
proof -
  have before: "\<forall>c \<in> set (sorted_set (touched s)). dict_get (first_before s) c 0 = f c"
    using assms by (simp add: window_inv_def)
  have after: "(\<lambda>c. if c \<in> set (sorted_set (touched s)) then dict_get (matrix s) c 0 else f c) = value_at (matrix s)"
    using assms by (auto simp: window_inv_def fun_eq_iff value_at_def)
  show ?thesis
    using nets_replay [OF distinct_sorted_set before, of "\<lambda>c. dict_get (matrix s) c 0"]
    unfolding after net_of_nets .
qed

lemma flush_emits:
  assumes inv: "window_inv f s" and run: "flush t reason s = (ws, s')"
  shows "emits f ws (value_at (matrix s)) \<and> window_inv (value_at (matrix s)) s' \<and> matrix s' = matrix s"
proof (cases "touched s = [] \<and> pending_queries s = 0")
  case True
  then show ?thesis using run inv window_inv_untouched [OF inv]
    by (auto simp: flush_def window_inv_def)
next
  case False
  have "sorted_wrt (<) (map nu_coordinate (net_of (first_before s) (matrix s) (touched s)))"
    unfolding net_of_nets by (rule nets_sorted) (rule sorted_set_strict)
  then show ?thesis using False run inv net_of_emits [OF inv]
    by (auto simp: flush_def emits_def window_inv_def)
qed

text \<open>A boundary check flushes or does nothing.\<close>

lemma flush_query_cases:
  "flush_query latest e s = ([], s) \<or> (\<exists>t. flush_query latest e s = flush t ''query'' s)"
  by (auto simp: flush_query_def)

lemma flush_microbatch_cases:
  "flush_microbatch p e s = ([], s) \<or> (\<exists>t. flush_microbatch p e s = flush t ''microbatch'' s)"
  by (auto simp: flush_microbatch_def split: option.split)

lemma flush_freshness_cases:
  "flush_freshness m e s = ([], s) \<or> (\<exists>t. flush_freshness m e s = flush t ''freshness'' s)"
  by (auto simp: flush_freshness_def split: option.split)

lemma maybe_flush_emits:
  assumes inv: "window_inv f s" and run: "r = ([], s) \<or> (\<exists>t. r = flush t reason s)" and r: "r = (ws, s')"
  shows "\<exists>g. emits f ws g \<and> window_inv g s' \<and> matrix s' = matrix s"
  using run
proof
  assume "r = ([], s)"
  then show ?thesis using inv r by auto
next
  assume "\<exists>t. r = flush t reason s"
  then show ?thesis using flush_emits [OF inv] r by metis
qed

lemma apply_set_fields:
  "matrix (apply_set limit c v s) = (if v = 0 then AList.delete c (matrix s) else AList.update c v (matrix s))"
  "first_before (apply_set limit c v s) = (if c \<in> fst ` set (first_before s) then first_before s
     else AList.update c (value_at (matrix s) c) (first_before s))"
  "touched (apply_set limit c v s) = (if c \<in> set (touched s) then touched s else c # touched s)"
  by (simp_all add: apply_set_def Let_def value_at_def)

lemma value_at_simps:
  "value_at (AList.update c v m) = (value_at m)(c := v)" "value_at (AList.delete c m) = (value_at m)(c := 0)"
  by (auto simp: value_at_def dict_get_def update_conv' delete_conv' fun_eq_iff)

lemma apply_set_matrix: "value_at (matrix (apply_set limit c v s)) = (value_at (matrix s))(c := v)"
  by (simp add: apply_set_fields value_at_simps)

lemma apply_set_inv:
  assumes inv: "window_inv f s"
  shows "window_inv f (apply_set limit c v s)"
proof -
  note I = inv [unfolded window_inv_def]
  have keys: "c \<in> fst ` set (first_before s) \<longleftrightarrow> c \<in> set (touched s)" using I by simp
  have touched: "set (touched s) = fst ` set (first_before s)"
    and known: "\<forall>d \<in> set (touched s). dict_get (first_before s) d 0 = f d" using I by blast+
  have old: "c \<notin> set (touched s) \<Longrightarrow> value_at (matrix s) c = f c" using I by blast
  have t: "set (touched (apply_set limit c v s)) = insert c (set (touched s))" by (auto simp: apply_set_fields)
  have "\<forall>d \<in> insert c (set (touched s)). dict_get (first_before (apply_set limit c v s)) d 0 = f d"
    using known old keys unfolding apply_set_fields by (cases "c \<in> set (touched s)") (auto simp: dict_get_update)
  moreover have "fst ` set (first_before (apply_set limit c v s)) = insert c (set (touched s))"
    using touched keys unfolding apply_set_fields dict_keys_update by (simp add: dict_keys_update insert_absorb)
  moreover have "dict_ok (matrix (apply_set limit c v s))" "dict_ok (first_before (apply_set limit c v s))"
    using I by (simp_all add: apply_set_fields)
  ultimately show ?thesis using I unfolding window_inv_def t apply_set_matrix by auto
qed

lemma begin_window_fields [simp]:
  "matrix (begin_window e s) = matrix s" "window_inv f (begin_window e s) = window_inv f s"
  by (simp_all add: begin_window_def window_inv_def)

lemma window_inv_queries [simp]:
  "window_inv f (s\<lparr>pending_queries := n, pending_query_time := q\<rparr>) = window_inv f s"
  "window_inv f (s\<lparr>start_time := t\<rparr>) = window_inv f s"
  by (simp_all add: window_inv_def)

lemma handle_event_emits:
  assumes inv: "window_inv f s" and run: "handle_event limit e s = (ws, Inr s')"
  shows "\<exists>g. emits f ws g \<and> window_inv g s' \<and> value_at (matrix s') = apply_event (value_at (matrix s)) e"
proof (cases "kind e")
  case SET
  then show ?thesis using run inv
    by (auto simp: handle_event_def apply_event_def apply_set_inv apply_set_matrix split: option.splits)
next
  case TICK
  then show ?thesis using run inv by (auto simp: handle_event_def apply_event_def split: if_splits)
next
  case QUERY
  then show ?thesis using run inv by (auto simp: handle_event_def apply_event_def Let_def)
next
  case VERSION
  then obtain s1 where "flush (timestamp e) ''version'' s = (ws, s1)" "s' = s1"
    using run by (auto simp: handle_event_def split: prod.splits)
  then show ?thesis using flush_emits [OF inv] VERSION by (fastforce simp: apply_event_def)
qed

lemma handle_event_Inl: "handle_event limit e s = (ws, Inl err) \<Longrightarrow> ws = []"
  by (auto simp: handle_event_def Let_def split: event_kind.splits option.splits if_splits prod.splits)

lemma window_step_emits:
  assumes inv: "window_inv f s" and run: "window_step m limit latest e s = (ws, r)"
  shows "\<exists>g. emits f ws g \<and>
    (\<forall>s'. r = Inr s' \<longrightarrow> window_inv g s' \<and> value_at (matrix s') = apply_event (value_at (matrix s)) e)"
proof (cases "case last_time s of Some p \<Rightarrow> double_less (timestamp e) p | None \<Rightarrow> False")
  case True
  then show ?thesis using run by (auto simp: window_step_def)
next
  case False
  define s0 where "s0 = s\<lparr>last_time := Some (timestamp e)\<rparr>"
  obtain w1 s1 where 1: "flush_query latest e s0 = (w1, s1)" by force
  obtain w2 s2 where 2: "flush_microbatch (last_time s) e s1 = (w2, s2)" by force
  obtain w3 s3 where 3: "flush_freshness m e s2 = (w3, s3)" by force
  obtain w4 r4 where 4: "handle_event limit e s3 = (w4, r4)" by force
  have ws: "ws = w1 @ w2 @ w3 @ w4" "r = r4"
    using False run by (simp_all add: window_step_def s0_def [symmetric] 1 2 3 4)
  have inv0: "window_inv f s0" using inv by (simp add: s0_def window_inv_def)
  obtain g1 where g1: "emits f w1 g1" "window_inv g1 s1" "matrix s1 = matrix s0"
    using maybe_flush_emits [OF inv0 flush_query_cases 1] by blast
  obtain g2 where g2: "emits g1 w2 g2" "window_inv g2 s2" "matrix s2 = matrix s1"
    using maybe_flush_emits [OF g1(2) flush_microbatch_cases 2] by blast
  obtain g3 where g3: "emits g2 w3 g3" "window_inv g3 s3" "matrix s3 = matrix s2"
    using maybe_flush_emits [OF g2(2) flush_freshness_cases 3] by blast
  have ms: "matrix s3 = matrix s" using g1(3) g2(3) g3(3) by (simp add: s0_def)
  have e3: "emits f (w1 @ w2 @ w3) g3" using g1(1) g2(1) g3(1) by (blast intro: emits_append)
  show ?thesis
  proof (cases r4)
    case (Inl err)
    then have "w4 = []" using 4 handle_event_Inl by blast
    then show ?thesis using e3 ws Inl by auto
  next
    case (Inr s')
    obtain g where "emits g3 w4 g" "window_inv g s'" "value_at (matrix s') = apply_event (value_at (matrix s)) e"
      using handle_event_emits [OF g3(2) 4 [unfolded Inr]] ms by auto
    then show ?thesis using emits_append [OF e3] ws Inr by auto
  qed
qed

lemma run_windows_emits:
  assumes "window_inv f s" and "run_windows m limit latest s es = (ws, err)"
  shows "\<exists>g. emits f ws g \<and> (err = None \<longrightarrow> g = foldl apply_event (value_at (matrix s)) es)"
  using assms
proof (induction es arbitrary: f s ws)
  case Nil
  show ?case
  proof (cases "touched s = [] \<and> pending_queries s = 0")
    case True
    then show ?thesis using Nil window_inv_untouched by (auto simp: final_flush_def)
  next
    case False
    then obtain t reason s' where "flush t reason s = (ws, s')"
      using Nil(2) by (auto simp: final_flush_def Let_def) (metis prod.collapse)+
    then show ?thesis using flush_emits [OF Nil(1)] by fastforce
  qed
next
  case (Cons e es)
  obtain w1 r where 1: "window_step m limit latest e s = (w1, r)" by force
  obtain g where g: "emits f w1 g"
      "\<forall>s'. r = Inr s' \<longrightarrow> window_inv g s' \<and> value_at (matrix s') = apply_event (value_at (matrix s)) e"
    using window_step_emits [OF Cons.prems(1) 1] by blast
  show ?case
  proof (cases r)
    case (Inl x)
    then show ?thesis using Cons.prems(2) 1 g by auto
  next
    case (Inr s')
    obtain w2 where 2: "run_windows m limit latest s' es = (w2, err)" "ws = w1 @ w2"
      using Cons.prems(2) 1 Inr by (auto split: prod.splits)
    obtain h where "emits g w2 h" "err = None \<longrightarrow> h = foldl apply_event (value_at (matrix s')) es"
      using Cons.IH [OF _ 2(1)] g(2) Inr by blast
    then show ?thesis using emits_append [OF g(1)] 2(2) g(2) Inr by auto
  qed
qed

lemma windows_emit:
  assumes "publication_windows events m max_seconds limit latest = (ws, err)" and "dict_ok m"
  shows "\<exists>g. emits (value_at m) ws g \<and> (err = None \<longrightarrow> g = foldl apply_event (value_at m) events)"
proof -
  have inv: "window_inv (value_at m) (initial_window_state m)"
    using assms(2) by (simp add: window_inv_def initial_window_state_def)
  show ?thesis
    using assms(1) run_windows_emits [OF inv, of max_seconds limit latest events ws err]
    by (auto simp: publication_windows_def initial_window_state_def emits_Nil split: if_splits)
qed

end
