(* ===== verification/Event_Times.thy ===== *)
theory Event_Times
  imports Event_Facts
begin

text \<open>
  When windows begin and end if every query asks for the latest matrix, and the numbering and the
  query counts of windows under either setting.
\<close>

section \<open>Numbering and queries\<close>

definition accounts :: "window_state \<Rightarrow> publication_window list \<Rightarrow> window_state \<Rightarrow> int \<Rightarrow> bool" where
  "accounts s ws s' n \<longleftrightarrow>
     map pw_index ws = map (\<lambda>i. next_index s + int i) [0..<length ws] \<and>
     next_index s' = next_index s + int (length ws) \<and>
     sum_list (map pw_query_count ws) + pending_queries s' = pending_queries s + n \<and>
     (0 \<le> pending_queries s \<longrightarrow> 0 \<le> pending_queries s')"

definition query_events :: "event list \<Rightarrow> int" where
  "query_events es = int (length (filter (\<lambda>e. kind e = QUERY) es))"

lemma query_events_Cons: "query_events (e # es) = query_events [e] + query_events es"
  by (simp add: query_events_def)

lemma accounts_refl: "accounts s [] s 0"
  by (simp add: accounts_def)

lemma accounts_append:
  assumes "accounts s vs s1 m" and "accounts s1 ws s2 n"
  shows "accounts s (vs @ ws) s2 (m + n)"
proof -
  have "[0..<length vs + length ws] = [0..<length vs] @ map (\<lambda>i. i + length vs) [0..<length ws]"
    by (simp add: map_add_upt upt_add_eq_append [of 0 "length vs" "length ws", simplified] add.commute)
  then show ?thesis using assms by (simp add: accounts_def add.assoc o_def algebra_simps)
qed

lemma flush_accounts: "flush t reason s = (ws, s') \<Longrightarrow> accounts s ws s' 0"
  by (auto simp: flush_def accounts_def split: if_splits)

lemma maybe_flush_accounts:
  "r = ([], s) \<or> (\<exists>t. r = flush t reason s) \<Longrightarrow> r = (ws, s') \<Longrightarrow> accounts s ws s' 0"
  using flush_accounts accounts_refl by (metis prod.inject)

lemma handle_event_accounts:
  assumes "handle_event limit e s = (ws, Inr s')"
  shows "accounts s ws s' (query_events [e])"
  using assms flush_accounts [of "timestamp e" "''version''" s ws s']
  by (auto simp: handle_event_def accounts_def query_events_def begin_window_def apply_set_def Let_def
      split: event_kind.splits option.splits if_splits prod.splits)

lemma window_step_accounts:
  assumes run: "window_step m limit latest e s = (ws, Inr s')"
  shows "accounts s ws s' (query_events [e])"
proof -
  define s0 where "s0 = s\<lparr>last_time := Some (timestamp e)\<rparr>"
  obtain w1 s1 where 1: "flush_query latest e s0 = (w1, s1)" by force
  obtain w2 s2 where 2: "flush_microbatch (last_time s) e s1 = (w2, s2)" by force
  obtain w3 s3 where 3: "flush_freshness m e s2 = (w3, s3)" by force
  obtain w4 r4 where 4: "handle_event limit e s3 = (w4, r4)" by force
  have ws: "ws = w1 @ w2 @ w3 @ w4" "r4 = Inr s'"
    using run by (cases "case last_time s of Some p \<Rightarrow> double_less (timestamp e) p | None \<Rightarrow> False";
        simp add: window_step_def s0_def [symmetric] 1 2 3 4)+
  have "accounts s [] s0 0" by (simp add: accounts_def s0_def)
  moreover note maybe_flush_accounts [OF flush_query_cases 1] maybe_flush_accounts [OF flush_microbatch_cases 2]
    maybe_flush_accounts [OF flush_freshness_cases 3] handle_event_accounts [OF 4 [unfolded ws(2)]]
  ultimately have "accounts s ([] @ w1 @ w2 @ w3 @ w4) s' (0 + (0 + (0 + (0 + query_events [e]))))"
    by (intro accounts_append)
  then show ?thesis by (simp add: ws)
qed

lemma final_flush_accounts:
  assumes "pending_queries s \<ge> 0"
  shows "\<exists>s'. accounts s (final_flush latest s) s' 0 \<and> pending_queries s' = 0"
proof (cases "touched s = [] \<and> pending_queries s = 0")
  case True
  then show ?thesis using accounts_refl by (auto simp: final_flush_def)
next
  case False
  then have "pending_queries (snd (flush t reason s)) = 0" for t reason by (auto simp: flush_def)
  then show ?thesis using False flush_accounts
    by (simp add: final_flush_def Let_def) (metis prod.collapse)
qed

lemma run_windows_accounts:
  assumes "run_windows m limit latest s es = (ws, None)" and "pending_queries s \<ge> 0"
  shows "\<exists>s'. accounts s ws s' (query_events es) \<and> pending_queries s' = 0"
  using assms
proof (induction es arbitrary: s ws)
  case Nil
  then show ?case using final_flush_accounts by (auto simp: query_events_def)
next
  case (Cons e es)
  obtain w1 s1 where 1: "window_step m limit latest e s = (w1, Inr s1)"
    using Cons.prems(1) by (auto split: prod.splits sum.splits)
  obtain w2 where 2: "run_windows m limit latest s1 es = (w2, None)" "ws = w1 @ w2"
    using Cons.prems(1) 1 by (auto split: prod.splits)
  note A = window_step_accounts [OF 1]
  have "pending_queries s1 \<ge> 0" using A Cons.prems(2) by (simp add: accounts_def)
  then show ?case using Cons.IH [OF 2(1)] accounts_append [OF A] 2(2) by (metis query_events_Cons)
qed

section \<open>Times\<close>

text \<open>What the code finds of the time from \<open>t\<close> to \<open>l\<close>, in its own arithmetic.\<close>

definition short :: "double \<Rightarrow> double \<Rightarrow> double \<Rightarrow> bool" where
  "short m t l \<longleftrightarrow> \<not> double_le m (double_sub l t)"

text \<open>
  A window is closed before \<open>max_seconds\<close> have passed, or by the freshness limit at its start plus
  \<open>max_seconds\<close>. It is over at \<open>t\<close> when it has ended by then, or when the freshness limit closed it
  and \<open>max_seconds\<close> have passed since its start.
\<close>

definition lasts :: "double \<Rightarrow> publication_window \<Rightarrow> bool" where
  "lasts m w \<longleftrightarrow> double_le (pw_start_time w) (pw_end_time w) \<and>
     (short m (pw_start_time w) (pw_end_time w) \<or>
      pw_reason w = ''freshness'' \<and> pw_end_time w = double_add (pw_start_time w) m)"

definition over_at :: "double \<Rightarrow> double \<Rightarrow> publication_window \<Rightarrow> bool" where
  "over_at m t w \<longleftrightarrow> double_le (pw_end_time w) t \<or>
     pw_reason w = ''freshness'' \<and> pw_end_time w = double_add (pw_start_time w) m \<and> \<not> short m (pw_start_time w) t"

lemma short_self: "finite_double t \<Longrightarrow> \<not> double_le m (Finite 0) \<Longrightarrow> short m t t"
  by (simp add: short_def double_sub_self)

lemma over_at_mono:
  assumes "over_at m t w" and "double_le t u"
    and "finite_double (pw_start_time w)" "finite_double t" "finite_double u"
  shows "over_at m u w"
proof (cases "double_le (pw_end_time w) t")
  case True
  then show ?thesis using double_le_trans assms(2) unfolding over_at_def by blast
next
  case False
  then have "double_le m (double_sub t (pw_start_time w))" and
    w: "pw_reason w = ''freshness''" "pw_end_time w = double_add (pw_start_time w) m"
    using assms(1) by (simp_all add: over_at_def short_def)
  then have "\<not> short m (pw_start_time w) u"
    using double_sub_mono [OF assms(4,5,3,2)] double_le_trans unfolding short_def by blast
  then show ?thesis using w unfolding over_at_def by blast
qed

definition time_ok :: "double \<Rightarrow> window_state \<Rightarrow> bool" where
  "time_ok m s \<longleftrightarrow> 0 \<le> pending_queries s \<and>
     (start_time s = None \<longleftrightarrow> touched s = [] \<and> pending_queries s = 0) \<and>
     (pending_queries s \<noteq> 0 \<longrightarrow> pending_query_time s = last_time s) \<and>
     (\<forall>l. last_time s = Some l \<longrightarrow> finite_double l) \<and>
     (\<forall>t. start_time s = Some t \<longrightarrow>
        finite_double t \<and> (\<exists>l. last_time s = Some l \<and> double_le t l \<and> short m t l))"

definition cleared :: "window_state \<Rightarrow> bool" where
  "cleared s \<longleftrightarrow> touched s = [] \<and> pending_queries s = 0 \<and> start_time s = None"

definition lower_bound :: "window_state \<Rightarrow> double option" where
  "lower_bound s = (case start_time s of Some t \<Rightarrow> Some t | None \<Rightarrow> last_time s)"

definition fits_window :: "double \<Rightarrow> double option \<Rightarrow> double \<Rightarrow> publication_window \<Rightarrow> bool" where
  "fits_window m b t w \<longleftrightarrow> (\<forall>x. b = Some x \<longrightarrow> double_le x (pw_start_time w)) \<and>
     finite_double (pw_start_time w) \<and> lasts m w \<and> over_at m t w"

lemma flush_cleared:
  assumes "cleared s" and "flush t reason s = (ws, s')"
  shows "ws = [] \<and> cleared s' \<and> last_time s' = last_time s"
  using assms by (auto simp: flush_def cleared_def)

lemma flush_open:
  assumes "flush t reason s = (ws, s')" and "start_time s = Some t0" and "\<not> (touched s = [] \<and> pending_queries s = 0)"
  shows "\<exists>w. ws = [w] \<and> pw_start_time w = t0 \<and> pw_end_time w = t \<and> pw_reason w = reason \<and>
    cleared s' \<and> last_time s' = last_time s"
  using assms by (auto simp: flush_def cleared_def)

lemma maybe_flush_cleared:
  assumes "cleared s" and "r = ([], s) \<or> (\<exists>t. r = flush t reason s)" and "r = (ws, s')"
  shows "ws = [] \<and> cleared s' \<and> last_time s' = last_time s"
  using assms flush_cleared by (metis prod.inject)

text \<open>The three boundary checks before an event is handled.\<close>

definition boundaries :: "double \<Rightarrow> bool \<Rightarrow> event \<Rightarrow> window_state \<Rightarrow> publication_window list \<times> window_state" where
  "boundaries m latest e s =
     (let (w1, s1) = flush_query latest e (s\<lparr>last_time := Some (timestamp e)\<rparr>);
          (w2, s2) = flush_microbatch (last_time s) e s1;
          (w3, s3) = flush_freshness m e s2
      in (w1 @ w2 @ w3, s3))"

lemma window_step_boundaries:
  "window_step m limit latest e s =
     (if (case last_time s of Some p \<Rightarrow> double_less (timestamp e) p | None \<Rightarrow> False)
      then ([], Inl (ValueError ''events must be nondecreasing in timestamp''))
      else let (ws, s3) = boundaries m latest e s; (w4, r) = handle_event limit e s3 in (ws @ w4, r))"
  by (simp add: window_step_def boundaries_def Let_def split: prod.split)

definition undisturbed :: "double \<Rightarrow> event \<Rightarrow> window_state \<Rightarrow> bool" where
  "undisturbed m e s \<longleftrightarrow> (\<exists>t. start_time s = Some t \<and> short m t (timestamp e)) \<and>
     (pending_queries s = 0 \<or> kind e = QUERY \<and> pending_query_time s = Some (timestamp e))"

lemma boundaries_times:
  assumes ok: "time_ok m s" and fin: "finite_double (timestamp e)" and m: "\<not> double_le m (Finite 0)"
    and mono: "\<forall>p. last_time s = Some p \<longrightarrow> double_le p (timestamp e)"
    and run: "boundaries m True e s = (ws, s3)"
  shows "last_time s3 = Some (timestamp e) \<and>
    (cleared s3 \<and> (ws = [] \<and> start_time s = None \<or> (\<exists>w. ws = [w] \<and> fits_window m (lower_bound s) (timestamp e) w)) \<or>
     ws = [] \<and> s3 = s\<lparr>last_time := Some (timestamp e)\<rparr> \<and> undisturbed m e s)"
proof -
  define s0 where "s0 = s\<lparr>last_time := Some (timestamp e)\<rparr>"
  obtain w1 s1 where 1: "flush_query True e s0 = (w1, s1)" by force
  obtain w2 s2 where 2: "flush_microbatch (last_time s) e s1 = (w2, s2)" by force
  obtain w3 where 3: "flush_freshness m e s2 = (w3, s3)" "ws = w1 @ w2 @ w3"
    using run by (auto simp: boundaries_def s0_def [symmetric] 1 2 split: prod.splits)
  have rest: "w2 = [] \<and> w3 = [] \<and> cleared s3 \<and> last_time s3 = last_time s1" if "cleared s1"
    using maybe_flush_cleared [OF that flush_microbatch_cases 2] maybe_flush_cleared [OF _ flush_freshness_cases 3(1)]
    by metis
  have rest2: "w3 = [] \<and> cleared s3 \<and> last_time s3 = last_time s2" if "cleared s2"
    using maybe_flush_cleared [OF that flush_freshness_cases 3(1)] by metis
  have last: "last_time s0 = Some (timestamp e)" by (simp add: s0_def)
  show ?thesis
  proof (cases "start_time s")
    case None
    then have "cleared s0" using ok by (simp add: s0_def cleared_def time_ok_def)
    from maybe_flush_cleared [OF this flush_query_cases 1] rest last 3(2) None show ?thesis by auto
  next
    case (Some t0)
    then obtain l where l: "last_time s = Some l" "double_le t0 l" "short m t0 l" "double_le l (timestamp e)"
        "finite_double t0" "finite_double l"
      using ok mono by (auto simp: time_ok_def)
    have busy: "\<not> (touched s = [] \<and> pending_queries s = 0)" using ok Some by (simp add: time_ok_def)
    have lb: "lower_bound s = Some t0" by (simp add: lower_bound_def Some)
    have same: "start_time s0 = Some t0" "\<not> (touched s0 = [] \<and> pending_queries s0 = 0)"
      using Some busy by (simp_all add: s0_def)
    show ?thesis
    proof (cases "pending_queries s \<noteq> 0 \<and> (kind e \<noteq> QUERY \<or> timestamp e \<noteq> l)")
      case True
      then have "flush l ''query'' s0 = (w1, s1)"
        using 1 ok l fin by (simp add: flush_query_def s0_def time_ok_def double_eq_iff)
      from flush_open [OF this same] rest last l 3(2) show ?thesis
        by (auto simp: fits_window_def lb lasts_def over_at_def double_le_refl)
    next
      case False
      then have s1: "s1 = s0" "w1 = []" using 1 ok l fin by (auto simp: flush_query_def s0_def time_ok_def double_eq_iff)
      show ?thesis
      proof (cases "pending_microbatch s \<and> timestamp e \<noteq> l")
        case True
        then have "flush l ''microbatch'' s0 = (w2, s2)" using 2 l fin by (simp add: flush_microbatch_def s1 double_eq_iff) (simp add: s0_def)
        from flush_open [OF this same] rest2 last l 3(2) s1 show ?thesis
          by (auto simp: fits_window_def lb lasts_def over_at_def double_le_refl)
      next
        case no: False
        then have s2: "s2 = s0" "w2 = []" using 2 l fin by (auto simp: flush_microbatch_def s1 s0_def double_eq_iff)
        show ?thesis
        proof (cases "\<not> short m t0 (timestamp e) \<and> touched s \<noteq> []")
          case True
          then have "flush (double_add t0 m) ''freshness'' s0 = (w3, s3)"
            using 3(1) Some by (simp add: flush_freshness_def s2 short_def) (simp add: s0_def)
          moreover have "double_le t0 (double_add t0 m)"
            using True m l by (auto simp: short_def intro: double_add_ge)
          moreover obtain w where "w3 = [w]" "pw_start_time w = t0" "pw_end_time w = double_add t0 m"
              "pw_reason w = ''freshness''" "cleared s3" "last_time s3 = last_time s0"
            using flush_open [OF calculation(1) same] by blast
          ultimately show ?thesis using last l True 3(2) s1 s2
            by (auto simp: fits_window_def lb lasts_def over_at_def double_le_refl)
        next
          case fresh: False
          then have "s3 = s0" "w3 = []" using 3(1) Some by (auto simp: flush_freshness_def s2 s0_def short_def)
          moreover have "short m t0 (timestamp e)"
            using fresh False l busy by auto
          moreover have "pending_queries s = 0 \<or> kind e = QUERY \<and> pending_query_time s = Some (timestamp e)"
            using False ok l by (auto simp: time_ok_def)
          ultimately show ?thesis using 3(2) s1 s2 last Some by (simp add: s0_def undisturbed_def)
        qed
      qed
    qed
  qed
qed

text \<open>The state in which the event itself is handled.\<close>

definition ready :: "double \<Rightarrow> event \<Rightarrow> window_state \<Rightarrow> bool" where
  "ready m e s \<longleftrightarrow> last_time s = Some (timestamp e) \<and> finite_double (timestamp e) \<and> 0 \<le> pending_queries s \<and>
     (cleared s \<or> \<not> (touched s = [] \<and> pending_queries s = 0) \<and>
        (\<exists>t. start_time s = Some t \<and> finite_double t \<and> double_le t (timestamp e) \<and> short m t (timestamp e)) \<and>
        (pending_queries s = 0 \<or> kind e = QUERY \<and> pending_query_time s = Some (timestamp e)))"

lemma apply_set_times:
  "touched (apply_set limit c v s) \<noteq> []" "start_time (apply_set limit c v s) = start_time s"
  "last_time (apply_set limit c v s) = last_time s" "pending_queries (apply_set limit c v s) = pending_queries s"
  "pending_query_time (apply_set limit c v s) = pending_query_time s"
  by (auto simp: apply_set_def Let_def)

lemma handle_event_times:
  assumes ready: "ready m e s" and m: "\<not> double_le m (Finite 0)" and run: "handle_event limit e s = (ws, r)"
  shows "(ws = [] \<or> (\<exists>w. ws = [w] \<and> \<not> cleared s \<and> fits_window m (lower_bound s) (timestamp e) w)) \<and>
    (\<forall>s'. r = Inr s' \<longrightarrow> time_ok m s' \<and> last_time s' = Some (timestamp e) \<and>
      lower_bound s' = (if ws = [] \<and> \<not> cleared s then lower_bound s else Some (timestamp e)))"
proof (cases "kind e")
  case SET
  have ws: "ws = []" using run SET by (auto simp: handle_event_def split: option.splits)
  have "time_ok m s' \<and> last_time s' = Some (timestamp e) \<and>
      lower_bound s' = (if cleared s then Some (timestamp e) else lower_bound s)" if r: "r = Inr s'" for s'
  proof -
    obtain c v where s': "s' = apply_set limit c v (begin_window e s)"
      using run SET r by (auto simp: handle_event_def split: option.splits)
    have "pending_queries s = 0" using ready SET by (auto simp: ready_def cleared_def)
    with ready m show ?thesis
      by (auto simp: s' apply_set_times ready_def cleared_def time_ok_def lower_bound_def begin_window_def short_self double_le_refl)
  qed
  then show ?thesis using ws by simp
next
  case TICK
  then show ?thesis using ready m run
    by (auto simp: handle_event_def ready_def cleared_def time_ok_def lower_bound_def split: if_splits)
next
  case QUERY
  then show ?thesis using ready m run
    by (auto simp: handle_event_def ready_def cleared_def time_ok_def lower_bound_def begin_window_def Let_def short_self double_le_refl)
next
  case VERSION
  obtain s' where f: "flush (timestamp e) ''version'' s = (ws, s')" "r = Inr s'"
    using run VERSION by (auto simp: handle_event_def split: prod.splits)
  show ?thesis
  proof (cases "cleared s")
    case True
    from flush_cleared [OF this f(1)] show ?thesis using True f(2) ready
      by (auto simp: time_ok_def cleared_def lower_bound_def ready_def)
  next
    case False
    then obtain t where t: "start_time s = Some t" "finite_double t" "double_le t (timestamp e)" "short m t (timestamp e)"
        "\<not> (touched s = [] \<and> pending_queries s = 0)"
      using ready by (auto simp: ready_def)
    from flush_open [OF f(1) t(1,5)] show ?thesis using False f(2) t ready
      by (auto simp: time_ok_def cleared_def lower_bound_def ready_def fits_window_def lasts_def over_at_def double_le_refl)
  qed
qed

lemma boundaries_ready:
  assumes ok: "time_ok m s" and fin: "finite_double (timestamp e)" and m: "\<not> double_le m (Finite 0)"
    and mono: "\<forall>p. last_time s = Some p \<longrightarrow> double_le p (timestamp e)"
    and run: "boundaries m True e s = (ws, s3)"
  shows "ready m e s3"
proof -
  note B = boundaries_times [OF assms]
  show ?thesis
  proof (cases "cleared s3")
    case True
    then show ?thesis using B fin by (auto simp: ready_def cleared_def)
  next
    case False
    then have s3: "s3 = s\<lparr>last_time := Some (timestamp e)\<rparr>" "undisturbed m e s" using B by blast+
    then obtain t where t: "start_time s = Some t" "short m t (timestamp e)" by (auto simp: undisturbed_def)
    then obtain l where "last_time s = Some l" "double_le t l" "finite_double t" using ok by (auto simp: time_ok_def)
    then have "double_le t (timestamp e)" "finite_double t" using mono double_le_trans by blast+
    then show ?thesis using t s3 ok fin by (auto simp: ready_def undisturbed_def time_ok_def)
  qed
qed

lemma window_step_times:
  assumes ok: "time_ok m s" and fin: "finite_double (timestamp e)" and m: "\<not> double_le m (Finite 0)"
    and run: "window_step m limit True e s = (ws, r)"
  shows "(ws = [] \<or> (\<exists>w. ws = [w] \<and> fits_window m (lower_bound s) (timestamp e) w)) \<and>
    (\<forall>s'. r = Inr s' \<longrightarrow> time_ok m s' \<and> last_time s' = Some (timestamp e) \<and>
      (\<exists>b. lower_bound s' = Some b \<and> finite_double b \<and> (\<forall>x. lower_bound s = Some x \<longrightarrow> double_le x b) \<and>
        (\<forall>w \<in> set ws. over_at m b w)))"
proof (cases "case last_time s of Some p \<Rightarrow> double_less (timestamp e) p | None \<Rightarrow> False")
  case True
  then show ?thesis using run by (auto simp: window_step_def)
next
  case False
  then have mono: "\<forall>p. last_time s = Some p \<longrightarrow> double_le p (timestamp e)"
    using ok fin by (auto simp: time_ok_def double_less_iff)
  obtain vs s3 where b: "boundaries m True e s = (vs, s3)" by force
  obtain w4 where h: "handle_event limit e s3 = (w4, r)" "ws = vs @ w4"
    using run False by (auto simp: window_step_boundaries b split: prod.splits)
  note B = boundaries_times [OF ok fin m mono b]
    and H = handle_event_times [OF boundaries_ready [OF ok fin m mono b] m h(1)]
  have low: "\<forall>x. lower_bound s = Some x \<longrightarrow> double_le x (timestamp e)"
  proof (cases "start_time s")
    case None
    then show ?thesis using mono by (simp add: lower_bound_def)
  next
    case (Some t)
    then obtain l where "last_time s = Some l" "double_le t l" using ok by (auto simp: time_ok_def)
    then have "double_le t (timestamp e)" using mono double_le_trans by blast
    then show ?thesis by (simp add: lower_bound_def Some)
  qed
  show ?thesis
  proof (cases "cleared s3")
    case True
    then have "w4 = []" using H by blast
    moreover have "vs = [] \<or> (\<exists>w. vs = [w] \<and> fits_window m (lower_bound s) (timestamp e) w)"
      using B by auto
    ultimately show ?thesis using H True low h(2) fin by (auto simp: fits_window_def)
  next
    case no: False
    then have s3: "vs = []" "s3 = s\<lparr>last_time := Some (timestamp e)\<rparr>" "undisturbed m e s" using B by blast+
    then have "lower_bound s3 = lower_bound s" by (auto simp: lower_bound_def undisturbed_def)
    moreover obtain x where "lower_bound s = Some x" "finite_double x" "double_le x x"
      using s3(3) ok by (auto simp: lower_bound_def undisturbed_def time_ok_def double_le_refl)
    ultimately show ?thesis using H no low s3(1) h(2) fin by (cases "w4 = []") (auto simp: fits_window_def)
  qed
qed

definition spaced :: "double \<Rightarrow> double option \<Rightarrow> publication_window list \<Rightarrow> bool" where
  "spaced m b ws \<longleftrightarrow> (\<forall>w \<in> set ws. (\<forall>x. b = Some x \<longrightarrow> double_le x (pw_start_time w)) \<and>
       finite_double (pw_start_time w) \<and> lasts m w) \<and>
     sorted_wrt (\<lambda>v w. over_at m (pw_start_time w) v) ws"

lemma spaced_append:
  assumes w1: "w1 = [] \<or> (\<exists>w. w1 = [w] \<and> fits_window m a t w)" "\<forall>w \<in> set w1. over_at m b w"
    and w2: "spaced m (Some b) w2" and b: "finite_double b" "\<forall>x. a = Some x \<longrightarrow> double_le x b"
  shows "spaced m a (w1 @ w2)"
proof -
  have later: "double_le b (pw_start_time w)" "finite_double (pw_start_time w)" "lasts m w" if "w \<in> set w2" for w
    using w2 that by (simp_all add: spaced_def)
  have low: "double_le x (pw_start_time w)" if "w \<in> set w2" "a = Some x" for x w
    using later(1) [OF that(1)] b(2) that(2) double_le_trans by blast
  have over: "over_at m (pw_start_time w) v" if "w \<in> set w2" "v \<in> set w1" for v w
    using over_at_mono [of m b v] later [OF that(1)] w1 that(2) b(1) by (auto simp: fits_window_def)
  have s2: "sorted_wrt (\<lambda>v w. over_at m (pw_start_time w) v) w2" using w2 by (simp add: spaced_def)
  show ?thesis using w1(1) later(2,3) low over s2 by (fastforce simp: spaced_def fits_window_def)
qed

lemma run_windows_times:
  assumes "time_ok m s" and "\<not> double_le m (Finite 0)" and "\<forall>e \<in> set es. finite_double (timestamp e)"
    and "run_windows m limit True s es = (ws, err)"
  shows "spaced m (lower_bound s) ws"
  using assms
proof (induction es arbitrary: s ws)
  case Nil
  show ?case
  proof (cases "start_time s")
    case None
    then show ?thesis using Nil by (simp add: time_ok_def final_flush_def spaced_def split: if_splits)
  next
    case (Some t)
    then obtain l where l: "last_time s = Some l" "double_le t l" "short m t l" "finite_double t"
        "\<not> (touched s = [] \<and> pending_queries s = 0)"
      using Nil(1) by (auto simp: time_ok_def)
    then obtain reason where "fst (flush l reason s) = ws"
      using Nil(4) by (auto simp: final_flush_def Let_def split: if_splits)
    then obtain s' where "flush l reason s = (ws, s')" by (metis prod.collapse)
    from flush_open [OF this Some l(5)] l show ?thesis
      by (auto simp: spaced_def lower_bound_def Some lasts_def double_le_refl)
  qed
next
  case (Cons e es)
  have fin: "finite_double (timestamp e)" "\<forall>e \<in> set es. finite_double (timestamp e)" using Cons.prems(3) by simp_all
  obtain w1 r where 1: "window_step m limit True e s = (w1, r)" by force
  note S = window_step_times [OF Cons.prems(1) fin(1) Cons.prems(2) 1]
  have fits: "w1 = [] \<or> (\<exists>w. w1 = [w] \<and> fits_window m (lower_bound s) (timestamp e) w)" using S by blast
  show ?case
  proof (cases r)
    case (Inl x)
    then have "ws = w1" using Cons.prems(4) 1 by simp
    then show ?thesis using fits by (auto simp: spaced_def fits_window_def)
  next
    case (Inr s')
    obtain w2 where 2: "run_windows m limit True s' es = (w2, err)" "ws = w1 @ w2"
      using Cons.prems(4) 1 Inr by (auto split: prod.splits)
    obtain b where b: "time_ok m s'" "lower_bound s' = Some b" "finite_double b"
        "\<forall>x. lower_bound s = Some x \<longrightarrow> double_le x b" "\<forall>w \<in> set w1. over_at m b w" using S Inr by blast
    have "spaced m (Some b) w2" using Cons.IH [OF b(1) Cons.prems(2) fin(2) 2(1)] b(2) by simp
    with fits b(5) show ?thesis unfolding 2(2) using b(3,4) by (rule spaced_append)
  qed
qed

section \<open>The exact times\<close>

text \<open>
  Over the numbers the doubles stand for: a window lasts less than \<open>max_seconds\<close>, or the freshness
  limit closed it and it lasts \<open>max_seconds\<close> up to one rounding of the sum; and a window ends after
  a later one starts by at most the rounding of that sum and of one difference.
\<close>

definition timely :: "double \<Rightarrow> publication_window \<Rightarrow> bool" where
  "timely m w \<longleftrightarrow> (\<forall>a b c. pw_start_time w = Finite a \<longrightarrow> pw_end_time w = Finite b \<longrightarrow> m = Finite c \<longrightarrow>
     b - a < c \<or> pw_reason w = ''freshness'' \<and> 2 ^ 53 * \<bar>b - (a + c)\<bar> \<le> \<bar>a + c\<bar>)"

definition nearly_apart :: "double \<Rightarrow> publication_window \<Rightarrow> publication_window \<Rightarrow> bool" where
  "nearly_apart m v w \<longleftrightarrow> (\<forall>a b a' c. pw_start_time v = Finite a \<longrightarrow> pw_end_time v = Finite b \<longrightarrow>
     pw_start_time w = Finite a' \<longrightarrow> m = Finite c \<longrightarrow> 2 ^ 53 * (b - a') \<le> \<bar>a + c\<bar> + \<bar>a' - a\<bar>)"

lemma lasts_timely:
  assumes "lasts m w" and "finite_double m"
  shows "timely m w"
  using assms double_sub_less to_double_close
  by (fastforce simp: timely_def lasts_def short_def)

lemma over_at_apart:
  assumes over: "over_at m (pw_start_time w) v" and m: "finite_double m"
  shows "nearly_apart m v w"
  unfolding nearly_apart_def
proof (intro allI impI)
  fix a b a' c
  assume t: "pw_start_time v = Finite a" "pw_end_time v = Finite b" "pw_start_time w = Finite a'" "m = Finite c"
  show "2 ^ 53 * (b - a') \<le> \<bar>a + c\<bar> + \<bar>a' - a\<bar>"
  proof (cases "b \<le> a'")
    case True
    then have "2 ^ 53 * (b - a') \<le> 0" by (simp add: mult_nonneg_nonpos)
    then show ?thesis by linarith
  next
    case False
    then have "to_double (a + c) = Finite b" "double_le (Finite c) (to_double (a' - a))"
      using over t by (auto simp: over_at_def short_def)
    from to_double_close [OF this(1)] double_sub_at_least [OF _ this(2)] m t(4)
    show ?thesis by (auto simp: abs_if split: if_splits)
  qed
qed

end
