(* ===== verification/Event_Properties.thy ===== *)
theory Event_Properties
  imports Event_Times
begin

text \<open>
  The properties of the windowing generator. Their witnesses run on a stream with a query
  boundary, a freshness boundary and an update that is undone within its window.
\<close>

definition sample_events :: "event list" where
  "sample_events = [event_set (Finite 0) 0 0 5, event_set (Finite 1) 0 1 7, event_set (Finite 1) 0 0 0, event_query (Finite 1),
     event_set (Finite 2) 1 1 3, event_tick (Finite 20), event_set (Finite 21) 1 1 4]"

lemma sample_windows:
  "\<exists>ws. publication_windows sample_events [((1, 1), 2)] (Finite 10) 100 True = (ws, None) \<and> length ws = 3"
proof -
  have "snd (publication_windows sample_events [((1, 1), 2)] (Finite 10) 100 True) = None"
    "length (fst (publication_windows sample_events [((1, 1), 2)] (Finite 10) 100 True)) = 3" by code_simp+
  then show ?thesis by (metis prod.collapse)
qed

text \<open>
  C17. Windows lose no update and invent none. Whatever the limits, the net updates of the windows
  start from the values the matrix holds, change every value they mention, and applied in order to
  the initial matrix give the matrix after all SET events of the stream; a stream that ends in an
  error has yielded windows of that kind for some matrix. Within a window the updates are
  strictly sorted by coordinate.
\<close>

theorem windows_refine_events:
  assumes "publication_windows events m max_seconds limit latest = (ws, err)" and "dict_ok m"
  shows "\<exists>g. emits (value_at m) ws g \<and> (err = None \<longrightarrow> g = foldl apply_event (value_at m) events)"
  using assms by (rule windows_emit)

theorem windows_refine_events_witness:
  "\<exists>ws. publication_windows sample_events [((1, 1), 2)] (Finite 10) 100 True = (ws, None) \<and> length ws = 3 \<and>
     emits (value_at [((1, 1), 2)]) ws (foldl apply_event (value_at [((1, 1), 2)]) sample_events)"
proof -
  obtain ws where ws: "publication_windows sample_events [((1, 1), 2)] (Finite 10) 100 True = (ws, None)" "length ws = 3"
    using sample_windows by blast
  have "dict_ok [((1, 1), 2) :: (int \<times> int) \<times> int]" by (simp add: dict_ok_def)
  then show ?thesis using windows_refine_events [OF ws(1)] ws by blast
qed

text \<open>
  C18. Freshness, in the arithmetic of doubles. When the timestamps are finite and every query asks
  for the latest matrix, a window ends no earlier than it starts, and either fewer than
  \<open>max_seconds\<close> pass from its start to its end (\<open>end - start >= max_seconds\<close> is false in doubles) or the
  freshness limit closed it at exactly \<open>start + max_seconds\<close> in doubles. Before a later window starts,
  a window has ended, or the freshness limit closed it and \<open>max_seconds\<close> have passed since its start.
  Over exact numbers, windows overrun \<open>max_seconds\<close> and each other by no more than those roundings:
  a relative \<open>2 ^ -53\<close> of \<open>start + max_seconds\<close>, and of the difference of the two starts. All of this
  also holds when the stream ends in an error.
\<close>

theorem windows_are_fresh:
  assumes "publication_windows events m max_seconds limit True = (ws, err)"
    and "\<forall>e \<in> set events. finite_double (timestamp e)"
  shows "(\<forall>w \<in> set ws. lasts max_seconds w) \<and>
    sorted_wrt (\<lambda>v w. over_at max_seconds (pw_start_time w) v) ws \<and>
    (finite_double max_seconds \<longrightarrow>
       (\<forall>w \<in> set ws. timely max_seconds w) \<and> sorted_wrt (nearly_apart max_seconds) ws)"
proof -
  have "(\<forall>w \<in> set ws. lasts max_seconds w) \<and> sorted_wrt (\<lambda>v w. over_at max_seconds (pw_start_time w) v) ws"
  proof (cases "double_le max_seconds (Finite 0) \<or> limit \<le> 0")
    case True
    then show ?thesis using assms(1) by (auto simp: publication_windows_def split: if_splits)
  next
    case False
    have "time_ok max_seconds (initial_window_state m)"
      by (simp add: time_ok_def initial_window_state_def)
    then have "spaced max_seconds (lower_bound (initial_window_state m)) ws"
      using False assms by (intro run_windows_times) (simp_all add: publication_windows_def)
    then show ?thesis by (simp add: spaced_def)
  qed
  moreover from this have "sorted_wrt (nearly_apart max_seconds) ws" if "finite_double max_seconds"
    using sorted_wrt_mono_rel [of ws "\<lambda>v w. over_at max_seconds (pw_start_time w) v"] over_at_apart that by blast
  ultimately show ?thesis using lasts_timely by blast
qed

text \<open>
  The witness has the mantissas of 2.8, 9.8 and 12.6: the difference 12.6 - 2.8 rounds to 9.8, so the
  limit closes the first window, at the rounded sum, after the second one has started.
\<close>

definition rounding_events :: "event list" where
  "rounding_events = [event_set (Finite 6305039478318694) 0 0 5, event_set (Finite 28372677652434124) 0 1 7]"

theorem windows_are_fresh_witness:
  "\<exists>v w. publication_windows rounding_events [] (Finite 22067638174115432) 100 True = ([v, w], None) \<and>
     pw_start_time v = Finite 6305039478318694 \<and> pw_end_time v = Finite 28372677652434128 \<and>
     pw_start_time w = Finite 28372677652434124 \<and> lasts (Finite 22067638174115432) v \<and>
     lasts (Finite 22067638174115432) w \<and> timely (Finite 22067638174115432) v \<and>
     over_at (Finite 22067638174115432) (pw_start_time w) v \<and> nearly_apart (Finite 22067638174115432) v w"
proof -
  let ?m = "Finite 22067638174115432"
  let ?run = "publication_windows rounding_events [] ?m 100 True"
  let ?times = "[(Finite 6305039478318694, Finite 28372677652434128), (Finite 28372677652434124, Finite 28372677652434124)]"
  have "snd ?run = None" "map (\<lambda>w. (pw_start_time w, pw_end_time w)) (fst ?run) = ?times" by code_simp+
  then obtain v w where run: "?run = ([v, w], None)" and
    times: "pw_start_time v = Finite 6305039478318694" "pw_end_time v = Finite 28372677652434128"
      "pw_start_time w = Finite 28372677652434124" by (cases ?run) auto
  have fin: "\<forall>e \<in> set rounding_events. finite_double (timestamp e)" "finite_double ?m" by code_simp+
  show ?thesis using windows_are_fresh [OF run fin(1)] fin(2) run times by simp
qed

text \<open>
  C19. Accounting. A stream that ends without an error has its windows numbered from 0 without a
  gap, and every QUERY event of it is counted in exactly one window.
\<close>

theorem windows_account:
  assumes "publication_windows events m max_seconds limit latest = (ws, None)"
  shows "map pw_index ws = map int [0..<length ws] \<and> sum_list (map pw_query_count ws) = query_events events"
proof -
  have "run_windows max_seconds limit latest (initial_window_state m) events = (ws, None)"
    using assms by (auto simp: publication_windows_def split: if_splits)
  from run_windows_accounts [OF this] show ?thesis
    by (auto simp: accounts_def initial_window_state_def)
qed

theorem windows_account_witness:
  "\<exists>ws. publication_windows sample_events [((1, 1), 2)] (Finite 10) 100 True = (ws, None) \<and>
     map pw_index ws = [0, 1, 2] \<and> sum_list (map pw_query_count ws) = 1"
proof -
  obtain ws where ws: "publication_windows sample_events [((1, 1), 2)] (Finite 10) 100 True = (ws, None)" "length ws = 3"
    using sample_windows by blast
  have "map int [0..<3] = [0, 1, 2]" "query_events sample_events = 1" by code_simp+
  then show ?thesis using windows_account [OF ws(1)] ws by auto
qed

end
