(* ===== verification/Delta_Advance.thy ===== *)
theory Delta_Advance
  imports Delta_Facts Event_Facts "HOL-Library.Multiset"
begin

text \<open>
  \<open>advance_segmented_delta\<close> against the abstract matrix of \<open>Event_Facts\<close>. The physical lanes are
  seen as the multiset of their active entries; \<open>lanes_hold\<close> says that this multiset is the graph
  of a matrix. Updates overwrite a lane, overflow entries take an empty lane, a tombstone or a new
  segment, and each step keeps the relation.
\<close>

section \<open>Lanes as a multiset of entries\<close>

definition lane_items :: "strong_entry option list list \<Rightarrow> ((int \<times> int) \<times> int) multiset" where
  "lane_items mutable = mset (concat (map entry_item (concat mutable)))"

definition lanes_hold :: "((int \<times> int) \<times> int) multiset \<Rightarrow> (int \<times> int \<Rightarrow> int) \<Rightarrow> bool" where
  "lanes_hold M f \<longleftrightarrow> (\<forall>c. filter_mset (\<lambda>x. fst x = c) M = (if f c = 0 then {#} else {#(c, f c)#}))"

definition entry_pair :: "strong_entry \<Rightarrow> (int \<times> int) \<times> int" where
  "entry_pair e = (se_coordinate e, se_value e)"

definition put_entry :: "(int \<times> int \<Rightarrow> int) \<Rightarrow> strong_entry \<Rightarrow> int \<times> int \<Rightarrow> int" where
  "put_entry f e = f(se_coordinate e := se_value e)"

lemma entry_item_Some: "entry_item (Some e) = (if se_value e = 0 then [] else [entry_pair e])"
  by (simp add: entry_item_def entry_pair_def)

lemma entry_item_None [simp]: "entry_item None = []"
  by (simp add: entry_item_def)

lemma lane_items_append: "lane_items (xs @ ys) = lane_items xs + lane_items ys"
  by (simp add: lane_items_def)

lemma lane_items_segments: "lane_items (map entries gs) = mset (concat (map segment_items gs))"
  by (induction gs) (simp_all add: lane_items_def segment_items_def)

lemma lanes_holdD:
  "lanes_hold M f \<Longrightarrow> filter_mset (\<lambda>x. fst x = c) M = (if f c = 0 then {#} else {#(c, f c)#})"
  unfolding lanes_hold_def by blast

lemma lanes_hold_swap:
  assumes hold: "lanes_hold M f" and eq: "M' + A = M + B"
    and A: "A = (if f c = 0 then {#} else {#(c, f c)#})" and B: "B = (if v = 0 then {#} else {#(c, v)#})"
  shows "lanes_hold M' (f(c := v))"
  unfolding lanes_hold_def
proof
  fix d
  define F where "F N = filter_mset (\<lambda>x. fst x = d) N" for N :: "((int \<times> int) \<times> int) multiset"
  have M: "F M = (if f d = 0 then {#} else {#(d, f d)#})" using lanes_holdD [OF hold] by (simp only: F_def)
  have F: "F {#} = {#}" "F {#(b, w)#} = (if b = d then {#(b, w)#} else {#})" for b w by (simp_all add: F_def)
  have "F M' + F A = F M + F B" using arg_cong [OF eq, of F] by (simp add: F_def)
  then have "F M' = (if (f(c := v)) d = 0 then {#} else {#(d, (f(c := v)) d)#})"
    by (cases "c = d") (simp_all add: M A B F split: if_splits)
  then show "filter_mset (\<lambda>x. fst x = d) M' = (if (f(c := v)) d = 0 then {#} else {#(d, (f(c := v)) d)#})"
    by (simp add: F_def)
qed

lemma add_exchange:
  fixes X :: "'a multiset"
  assumes "X' + Y = X + Y'" and "Y' + u = Y + v"
  shows "X' + u = X + v"
proof -
  have "X' + u + Y = X + (Y' + u)" using assms(1) by (metis add.assoc add.commute)
  also have "\<dots> = X + v + Y" using assms(2) by (metis add.assoc add.commute)
  finally show ?thesis by simp
qed

lemma concat_update:
  assumes "i < length xss"
  shows "mset (concat (xss[i := ys])) + mset (xss ! i) = mset (concat xss) + mset ys"
  using assms by (induction xss arbitrary: i) (auto simp: nth_Cons ac_simps split: nat.splits)

lemma lane_items_put:
  assumes i: "i < length mutable" and j: "j < length (mutable ! i)"
  shows "lane_items (put_lane mutable (i, j) e) + mset (entry_item (mutable ! i ! j)) =
    lane_items mutable + mset (entry_item (Some e))"
proof -
  have row: "mset (concat (map entry_item ((mutable ! i)[j := Some e]))) + mset (entry_item (mutable ! i ! j)) =
      mset (concat (map entry_item (mutable ! i))) + mset (entry_item (Some e))"
    using j concat_update [of j "map entry_item (mutable ! i)" "entry_item (Some e)"] by (simp add: map_update)
  have "lane_items m = mset (concat (map (\<lambda>xs. concat (map entry_item xs)) m))" for m
    by (induction m) (simp_all add: lane_items_def)
  then have "lane_items (put_lane mutable (i, j) e) + mset (concat (map entry_item (mutable ! i))) =
      lane_items mutable + mset (concat (map entry_item ((mutable ! i)[j := Some e])))"
    using i concat_update [of i "map (\<lambda>xs. concat (map entry_item xs)) mutable"
        "concat (map entry_item ((mutable ! i)[j := Some e]))"]
    by (simp add: put_lane_def map_update)
  then show ?thesis using row by (rule add_exchange)
qed

lemma find_lane_Some:
  assumes "find_lane p mutable = Some (i, j)"
  shows "i < length mutable \<and> j < length (mutable ! i) \<and> p i (mutable ! i ! j)"
  using assms by (auto simp: find_lane_def find_Some_iff dest!: nth_mem)

section \<open>Updates of active entries\<close>

lemma holds_member:
  assumes "lanes_hold (lane_items mutable) f" and "i < length mutable" and "j < length (mutable ! i)"
    and "mutable ! i ! j = Some e" and "se_value e \<noteq> 0"
  shows "f (se_coordinate e) = se_value e"
proof -
  have "entry_pair e \<in># lane_items mutable"
    using assms(2-5) by (force simp: lane_items_def entry_item_Some in_set_conv_nth set_concat
        intro!: bexI [of _ "mutable ! i"] bexI [of _ "mutable ! i ! j"])
  then have "entry_pair e \<in># filter_mset (\<lambda>x. fst x = se_coordinate e) (lane_items mutable)"
    by (simp add: entry_pair_def)
  then show ?thesis unfolding lanes_holdD [OF assms(1)] by (simp add: entry_pair_def split: if_splits)
qed

lemma apply_delta_update_Inr:
  assumes run: "apply_delta_update s dec (seen, mutable, changed) u = Inr (seen', mutable', changed')"
    and hold: "lanes_hold (lane_items mutable) f" and old: "\<forall>c. c \<notin> set seen \<longrightarrow> f c = value_at dec c"
  shows "nu_before u = f (nu_coordinate u) \<and> \<not> is_noop u \<and> seen' = nu_coordinate u # seen \<and>
    length mutable' = length mutable \<and> lanes_hold (lane_items mutable') (apply_update f u) \<and>
    (\<forall>c. c \<notin> set seen' \<longrightarrow> apply_update f u c = value_at dec c)"
proof -
  let ?e = "\<lparr>se_row = nu_row u, se_col = nu_col u, se_value = nu_after u\<rparr>"
  obtain i j where find: "find_lane (\<lambda>_ r. case r of None \<Rightarrow> False
            | Some e \<Rightarrow> se_value e \<noteq> 0 \<and> se_coordinate e = nu_coordinate u) mutable = Some (i, j)"
    and step: "nu_coordinate u \<notin> set seen" "nu_before u \<noteq> nu_after u"
      "map_of dec (nu_coordinate u) = Some (nu_before u)" "seen' = nu_coordinate u # seen"
      "mutable' = put_lane mutable (i, j) ?e"
    using run by (auto simp: apply_delta_update_def Let_def nu_coordinate_def split: if_splits option.splits)
  note F = find_lane_Some [OF find]
  then obtain e where e: "mutable ! i ! j = Some e" "se_value e \<noteq> 0" "se_coordinate e = nu_coordinate u"
    by (auto split: option.splits)
  have f: "f (nu_coordinate u) = se_value e" using holds_member [OF hold _ _ e(1,2)] F e(3) by metis
  have "lanes_hold (lane_items mutable') (f(nu_coordinate u := nu_after u))"
    using lanes_hold_swap [OF hold lane_items_put [of i mutable j ?e]] F e f
    by (simp add: step(5) entry_item_Some entry_pair_def se_coordinate_def nu_coordinate_def)
  moreover have "f (nu_coordinate u) = nu_before u" using spec [OF old, of "nu_coordinate u"] step(1,3) by (simp add: value_at_def dict_get_def)
  ultimately show ?thesis
    using step old by (auto simp: apply_update_def is_noop_def nu_coordinate_def put_lane_def)
qed

lemma apply_delta_updates_Inr:
  assumes "rfold (apply_delta_update s dec) (seen, mutable, changed) us = Inr (seen', mutable', changed')"
    and "lanes_hold (lane_items mutable) f" and "\<forall>c. c \<notin> set seen \<longrightarrow> f c = value_at dec c"
  shows "replays f us \<and> length mutable' = length mutable \<and>
    lanes_hold (lane_items mutable') (foldl apply_update f us) \<and>
    (\<forall>c. c \<notin> set seen' \<longrightarrow> foldl apply_update f us c = value_at dec c)"
  using assms
proof (induction us arbitrary: seen mutable changed f)
  case (Cons u us)
  then obtain seen1 mutable1 changed1 where
    1: "apply_delta_update s dec (seen, mutable, changed) u = Inr (seen1, mutable1, changed1)" and
    2: "rfold (apply_delta_update s dec) (seen1, mutable1, changed1) us = Inr (seen', mutable', changed')"
    by (auto simp: rbind_eq_Inr)
  note S = apply_delta_update_Inr [OF 1 Cons.prems(2,3)]
  with Cons.IH [OF 2, of "apply_update f u"] show ?case by (simp add: nu_coordinate_def)
qed simp

section \<open>New entries\<close>

lemma collect_overflow_Inr:
  assumes "rfold (collect_overflow s dec) (seen, acc) es = Inr (seen', acc')"
  shows "acc' = acc @ es \<and> distinct (map se_coordinate es) \<and>
    (\<forall>e \<in> set es. se_value e \<noteq> 0 \<and> se_coordinate e \<notin> set seen \<and> se_coordinate e \<notin> fst ` set dec)"
  using assms
proof (induction es arbitrary: seen acc)
  case (Cons e es)
  then obtain st where 1: "collect_overflow s dec (seen, acc) e = Inr st"
      and 2: "rfold (collect_overflow s dec) st es = Inr (seen', acc')"
    by (auto simp: rbind_eq_Inr)
  from 1 have st: "st = (se_coordinate e # seen, acc @ [e])" "se_value e \<noteq> 0"
      "se_coordinate e \<notin> set seen" "se_coordinate e \<notin> fst ` set dec"
    by (auto simp: collect_overflow_def validated_entry_def rbind_eq_Inr split: if_splits)
  show ?case using Cons.IH [OF 2 [unfolded st(1)]] st by auto
qed simp

lemma lanes_hold_new:
  assumes "lanes_hold M f" and "distinct (map se_coordinate es)"
    and "\<forall>e \<in> set es. se_value e \<noteq> 0 \<and> f (se_coordinate e) = 0"
  shows "lanes_hold (M + mset (map entry_pair es)) (foldl put_entry f es)"
  using assms
proof (induction es arbitrary: M f)
  case (Cons e es)
  have "lanes_hold (M + {#entry_pair e#}) (f(se_coordinate e := se_value e))"
    using Cons.prems by (intro lanes_hold_swap [OF Cons.prems(1), of _ "{#}"]) (simp_all add: entry_pair_def)
  then have "lanes_hold (M + {#entry_pair e#}) (put_entry f e)" by (simp add: put_entry_def)
  moreover have "\<forall>d \<in> set es. se_value d \<noteq> 0 \<and> put_entry f e (se_coordinate d) = 0"
    using Cons.prems(2,3) by (auto simp: put_entry_def) (metis imageI)
  ultimately show ?case using Cons.IH [of "M + {#entry_pair e#}" "put_entry f e"] Cons.prems(2) by simp
qed simp

definition waiting :: "(int, strong_entry list) dict \<Rightarrow> ((int \<times> int) \<times> int) multiset" where
  "waiting unplaced = mset (map entry_pair (concat (map snd unplaced)))"

lemma update_values:
  "dict_ok d \<Longrightarrow> mset (concat (map snd (AList.update k (dict_get d k [] @ [v]) d))) = mset (concat (map snd d)) + {#v#}"
proof (induction d)
  case (Cons x d)
  obtain k' w where x: "x = (k', w)" by force
  have "dict_ok d" using Cons.prems by (simp add: dict_ok_def)
  then show ?case using Cons by (auto simp: x dict_get_def)
qed (simp add: dict_get_def)

lemma waiting_append: "dict_ok d \<Longrightarrow> waiting (dict_append d k e) = waiting d + {#entry_pair e#}"
  using update_values [of d k e] by (simp add: waiting_def dict_append_def)

lemma place_overflow_step:
  assumes "place_overflow s (mutable, changed, unplaced) e = (mutable', changed', unplaced')"
    and "dict_ok unplaced" and "se_value e \<noteq> 0"
  shows "lane_items mutable' + waiting unplaced' = lane_items mutable + waiting unplaced + {#entry_pair e#} \<and>
    dict_ok unplaced' \<and> length mutable' = length mutable"
proof -
  let ?owned = "\<lambda>i. owner_row (segments s ! i) = se_row e"
  let ?exact = "find_lane (\<lambda>i r. ?owned i \<and> (case r of None \<Rightarrow> False
           | Some res \<Rightarrow> se_value res = 0 \<and> se_coordinate res = se_coordinate e)) mutable"
  let ?any = "find_lane (\<lambda>i r. ?owned i \<and> (case r of None \<Rightarrow> True | Some res \<Rightarrow> se_value res = 0)) mutable"
  define location where "location = (case ?exact of Some loc \<Rightarrow> Some loc | None \<Rightarrow> ?any)"
  have run: "(case location of None \<Rightarrow> (mutable, changed, dict_append unplaced (se_row e) e)
      | Some loc \<Rightarrow> (put_lane mutable loc e, fst loc # changed, unplaced)) = (mutable', changed', unplaced')"
    using assms(1) unfolding place_overflow_def Let_def prod.case location_def .
  show ?thesis
  proof (cases location)
    case None
    then show ?thesis using run assms(2) by (auto simp: waiting_append)
  next
    case (Some loc)
    obtain i j where loc: "loc = (i, j)" by force
    have "i < length mutable \<and> j < length (mutable ! i) \<and> entry_item (mutable ! i ! j) = []"
    proof (cases ?exact)
      case None
      then have "?any = Some (i, j)" using Some loc by (simp add: location_def)
      from find_lane_Some [OF this] show ?thesis by (auto simp: entry_item_def split: option.splits)
    next
      case (Some l)
      then have "?exact = Some (i, j)" using \<open>location = Some loc\<close> loc by (simp add: location_def)
      from find_lane_Some [OF this] show ?thesis by (auto simp: entry_item_def split: option.splits)
    qed
    then show ?thesis
      using run Some assms(2,3) lane_items_put [of i mutable j e]
      by (auto simp: loc entry_item_Some put_lane_def)
  qed
qed

lemma place_overflow_run:
  assumes "foldl (place_overflow s) (mutable, changed, unplaced) es = (mutable', changed', unplaced')"
    and "dict_ok unplaced" and "\<forall>e \<in> set es. se_value e \<noteq> 0"
  shows "lane_items mutable' + waiting unplaced' = lane_items mutable + waiting unplaced + mset (map entry_pair es) \<and>
    dict_ok unplaced' \<and> length mutable' = length mutable"
  using assms
proof (induction es arbitrary: mutable changed unplaced)
  case (Cons e es)
  obtain m1 c1 u1 where 1: "place_overflow s (mutable, changed, unplaced) e = (m1, c1, u1)" by (metis prod_cases3)
  have S: "lane_items m1 + waiting u1 = lane_items mutable + waiting unplaced + {#entry_pair e#} \<and>
      dict_ok u1 \<and> length m1 = length mutable"
    using place_overflow_step [OF 1] Cons.prems(2,3) by simp
  have "foldl (place_overflow s) (m1, c1, u1) es = (mutable', changed', unplaced')" using Cons.prems(1) 1 by simp
  from Cons.IH [OF this] S Cons.prems(3) show ?case by (simp add: ac_simps)
qed simp

section \<open>New segments\<close>

lemma concat_slices: "concat (map (\<lambda>k. take w (drop (k * w) xs)) [0..<n]) = take (n * w) xs"
proof (induction n)
  case (Suc n)
  then show ?case by (simp add: take_add add.commute [of w])
qed simp

lemma segment_slices_items:
  assumes "0 < w" and "\<forall>e \<in> set es. se_value e \<noteq> 0"
  shows "lane_items (segment_slices w es) = mset (map entry_pair es)"
proof -
  have pad: "concat (map entry_item (map Some xs @ replicate n None)) = map entry_pair xs"
    if "\<forall>e \<in> set xs. se_value e \<noteq> 0" for xs n
    using that by (induction xs) (simp_all add: entry_item_Some)
  have "length es \<le> (length es + w - 1) div w * w"
    using assms(1) div_mult_mod_eq [of "length es + w - 1" w] mod_less_divisor [OF assms(1), of "length es + w - 1"] by linarith
  then have all: "concat (map (\<lambda>k. take w (drop (k * w) es)) [0..<(length es + w - 1) div w]) = es"
    by (simp add: concat_slices)
  define g where "g k = take w (drop (k * w) es)" for k
  have nz: "\<forall>e \<in> set (g k). se_value e \<noteq> 0" for k
    using assms(2) unfolding g_def by (meson in_set_dropD in_set_takeD)
  have "lane_items (map (\<lambda>k. map Some (g k) @ replicate (w - length (g k)) None) ks) =
      mset (map entry_pair (concat (map g ks)))" for ks
    using nz by (induction ks) (simp_all add: lane_items_def pad [simplified])
  moreover have "concat (map g [0..<(length es + w - 1) div w]) = es" using all unfolding g_def [abs_def] .
  ultimately show ?thesis unfolding segment_slices_def Let_def g_def [symmetric] by metis
qed

lemma waiting_rows:
  fixes d :: "(int, strong_entry list) dict"
  assumes "dict_ok d"
  shows "mset (concat (map (\<lambda>row. dict_get d row []) (sort (map fst d)))) = mset (concat (map snd d))"
proof -
  have rows: "map (\<lambda>row. dict_get d row []) (map fst d) = map snd d"
    using assms by (auto simp: dict_get_item)
  have perm: "mset (concat (map g (sort ks))) = mset (concat (map g ks))"
    for g :: "int \<Rightarrow> strong_entry list" and ks
  proof -
    have "mset (concat (map g xs)) = sum_mset (image_mset (\<lambda>x. mset (g x)) (mset xs))" for xs
      by (induction xs) simp_all
    then show ?thesis by simp
  qed
  show ?thesis unfolding rows [symmetric] by (rule perm)
qed

lemma fresh_items:
  assumes "0 < w" and "dict_ok unplaced" and "\<forall>x \<in># waiting unplaced. snd x \<noteq> 0"
  shows "lane_items (concat (map (\<lambda>row. segment_slices w (dict_get unplaced row [])) (sort (map fst unplaced)))) =
    waiting unplaced"
proof -
  have nz: "\<forall>e \<in> set (dict_get unplaced row []). se_value e \<noteq> 0" for row
  proof
    fix e assume "e \<in> set (dict_get unplaced row [])"
    then obtain es where "(row, es) \<in> set unplaced" "e \<in> set es"
      by (cases "map_of unplaced row") (auto simp: dict_get_def dest: map_of_SomeD)
    then have "entry_pair e \<in># waiting unplaced" by (force simp: waiting_def)
    then show "se_value e \<noteq> 0" using assms(3) by (auto simp: entry_pair_def)
  qed
  have "lane_items (concat (map (\<lambda>row. segment_slices w (dict_get unplaced row [])) rows)) =
      mset (map entry_pair (concat (map (\<lambda>row. dict_get unplaced row []) rows)))" for rows
  proof (induction rows)
    case (Cons row rows)
    then show ?case using segment_slices_items [OF assms(1) nz, of row] by (simp add: lane_items_append)
  qed (simp add: lane_items_def)
  then show ?thesis using waiting_rows [OF assms(2)] by (simp add: waiting_def)
qed

section \<open>Advancing\<close>

lemma decode_entries_total:
  assumes "distinct (map fst (dec @ concat (map entry_item es)))"
  shows "rfold decode_entry dec es = Inr (dec @ concat (map entry_item es))"
  using assms
proof (induction es arbitrary: dec)
  case (Cons e es)
  then have "decode_entry dec e = Inr (dec @ entry_item e)"
    by (cases e) (auto simp: decode_entry_def entry_item_def update_fresh image_iff)
  then show ?case using Cons.IH [of "dec @ entry_item e"] Cons.prems by simp
qed simp

lemma decode_segments_total:
  assumes "distinct (map fst (dec @ concat (map segment_items gs)))"
  shows "rfold (\<lambda>dec g. rfold decode_entry dec (entries g)) dec gs = Inr (dec @ concat (map segment_items gs))"
  using assms
proof (induction gs arbitrary: dec)
  case (Cons g gs)
  have D: "distinct (map fst ((dec @ segment_items g) @ concat (map segment_items gs)))" using Cons.prems by simp
  then have "distinct (map fst (dec @ concat (map entry_item (entries g))))"
    by (simp only: map_append [of fst "dec @ segment_items g"] distinct_append segment_items_def [symmetric])
  note 1 = decode_entries_total [OF this]
  from Cons.IH [OF D] show ?case using 1 by (simp add: segment_items_def)
qed simp

lemma decode_total:
  assumes "assert_state_invariants d = Inr ()"
  shows "decode_segmented_delta d = Inr (delta_entries d)"
proof -
  have "distinct (map fst (delta_entries d))"
    using assert_state_invariants_Inr [OF assms] by (simp add: delta_ok_def)
  then show ?thesis
    using decode_segments_total [of "[]" "segments d"] assms
    by (simp add: decode_segmented_delta_def delta_entries_def)
qed

lemma holds_value_at:
  assumes "distinct (map fst items)" and "lanes_hold (mset items) f"
  shows "value_at items = f"
proof
  fix c
  have "filter_mset (\<lambda>x. fst x = c) (mset items) = (if f c = 0 then {#} else {#(c, f c)#})"
    using lanes_holdD [OF assms(2)] .
  then have "mset (filter (\<lambda>x. fst x = c) items) = (if f c = 0 then {#} else {#(c, f c)#})"
    by (simp only: mset_filter)
  then have fl: "filter (\<lambda>x. fst x = c) items = (if f c = 0 then [] else [(c, f c)])"
    by (cases "f c = 0") (simp_all only: if_True if_False mset_zero_iff mset_single_iff refl simp_thms)
  show "value_at items c = f c"
  proof (cases "f c = 0")
    case True
    then have "c \<notin> fst ` set items" using fl by (auto simp: filter_empty_conv)
    then show ?thesis using True by (auto simp: value_at_def dict_get_def split: option.splits dest!: map_of_SomeD) force
  next
    case False
    then have "(c, f c) \<in> set items" using fl by (metis filter_is_subset list.set_intros(1) subsetD)
    then show ?thesis using assms(1) by (simp add: value_at_def dict_get_def)
  qed
qed

lemma items_hold:
  assumes "distinct (map fst items)" and "\<forall>x \<in> set items. snd x \<noteq> 0"
  shows "lanes_hold (mset items) (value_at items)"
  unfolding lanes_hold_def
proof
  fix c
  have "filter (\<lambda>x. fst x = c) items = (case map_of items c of None \<Rightarrow> [] | Some v \<Rightarrow> [(c, v)])"
    using assms(1) by (induction items) (auto simp: filter_empty_conv split: option.splits intro: rev_image_eqI)
  moreover have "map_of items c \<noteq> Some 0" using assms(2) by (auto dest!: map_of_SomeD)
  ultimately show "filter_mset (\<lambda>x. fst x = c) (mset items) = (if value_at items c = 0 then {#} else {#(c, value_at items c)#})"
    by (auto simp: value_at_def dict_get_def simp flip: mset_filter split: option.splits)
qed

lemma delta_entries_nonzero: "\<forall>x \<in> set (delta_entries d). snd x \<noteq> 0"
  by (auto simp: delta_entries_def segment_items_def entry_item_def split: option.splits if_splits)

lemma lane_items_nonzero: "\<forall>x \<in># lane_items m. snd x \<noteq> 0"
  by (auto simp: lane_items_def entry_item_def split: option.splits if_splits)

lemma rebuild_segments:
  assumes "rmap (rebuild_segment s) (py_enumerate mutable) = Inr segs"
  shows "map entries segs = mutable \<and> (\<forall>i < length (segments s). i < length mutable \<longrightarrow>
    owner_row (segs ! i) = owner_row (segments s ! i))"
proof -
  have len: "length segs = length mutable" using rmap_eq_Inr_length [OF assms] by (simp add: length_py_enumerate)
  have nth: "rebuild_segment s (int i, mutable ! i) = Inr (segs ! i)" if "i < length mutable" for i
    using rmap_eq_Inr_nth [OF assms, of i] that by (simp add: length_py_enumerate nth_py_enumerate)
  have "entries g = es \<and> (k < int (length (segments s)) \<longrightarrow> owner_row g = owner_row (segments s ! nat k))"
    if "rebuild_segment s (k, es) = Inr g" for k es g
    using that by (auto simp: rebuild_segment_def rbind_eq_Inr)
  from this [OF nth] show ?thesis using len by (simp add: list_eq_iff_nth_eq)
qed

lemma advance_segmented_delta_Inr:
  assumes "advance_segmented_delta s us es v = Inr tr"
  shows "\<exists>dec seen mutable changed seen2 mutable2 changed2 unplaced. decode_segmented_delta s = Inr dec \<and>
    rfold (apply_delta_update s dec) ([], map entries (segments s), []) us = Inr (seen, mutable, changed) \<and>
    rfold (collect_overflow s dec) (seen, []) es = Inr (seen2, es) \<and>
    foldl (place_overflow s) (mutable, changed, []) (sort_key se_coordinate es) = (mutable2, changed2, unplaced) \<and>
    rmap (rebuild_segment s) (py_enumerate (mutable2 @ concat (map (\<lambda>row.
      segment_slices (nat (segment_width s)) (dict_get unplaced row [])) (sort (map fst unplaced))))) =
      Inr (segments (sdt_state tr)) \<and>
    sdt_state tr = s\<lparr>sd_version_id := v, segments := segments (sdt_state tr)\<rparr> \<and> v \<noteq> sd_version_id s \<and>
    assert_state_invariants (sdt_state tr) = Inr ()"
proof -
  note run = assms [unfolded advance_segmented_delta_def spc_require_id_def]
  obtain dec where dec: "decode_segmented_delta s = Inr dec"
    using run by (cases "decode_segmented_delta s") (simp_all split: if_splits)
  obtain seen mutable changed where
    u: "rfold (apply_delta_update s dec) ([], map entries (segments s), []) us = Inr (seen, mutable, changed)"
  proof (cases "rfold (apply_delta_update s dec) ([], map entries (segments s), []) us")
    case (Inr st)
    then show ?thesis using that by (cases st) blast
  qed (use run in \<open>simp add: dec split: if_splits\<close>)
  obtain seen2 os where c: "rfold (collect_overflow s dec) (seen, []) es = Inr (seen2, os)"
  proof (cases "rfold (collect_overflow s dec) (seen, []) es")
    case (Inr st)
    then show ?thesis using that by (cases st) blast
  qed (use run in \<open>simp add: dec u split: if_splits\<close>)
  have os: "os = es" using collect_overflow_Inr [OF c] by simp
  obtain mutable2 changed2 unplaced where
    p: "foldl (place_overflow s) (mutable, changed, []) (sort_key se_coordinate es) = (mutable2, changed2, unplaced)"
    by (metis prod_cases3)
  from run have "\<exists>segs. rmap (rebuild_segment s) (py_enumerate (mutable2 @ concat (map (\<lambda>row.
      segment_slices (nat (segment_width s)) (dict_get unplaced row [])) (sort (map fst unplaced))))) = Inr segs \<and>
    sdt_state tr = s\<lparr>sd_version_id := v, segments := segs\<rparr> \<and> v \<noteq> sd_version_id s \<and>
    assert_state_invariants (s\<lparr>sd_version_id := v, segments := segs\<rparr>) = Inr ()"
    by (auto simp: dec u c os p Let_def rbind_eq_Inr split: if_splits)
  then obtain segs where R: "rmap (rebuild_segment s) (py_enumerate (mutable2 @ concat (map (\<lambda>row.
      segment_slices (nat (segment_width s)) (dict_get unplaced row [])) (sort (map fst unplaced))))) = Inr segs"
    "sdt_state tr = s\<lparr>sd_version_id := v, segments := segs\<rparr>" "v \<noteq> sd_version_id s"
    "assert_state_invariants (s\<lparr>sd_version_id := v, segments := segs\<rparr>) = Inr ()" by blast
  then have segs: "segments (sdt_state tr) = segs" by simp
  show ?thesis
    by (rule exI [of _ dec], rule exI [of _ seen], rule exI [of _ mutable], rule exI [of _ changed], rule exI [of _ seen2],
        rule exI [of _ mutable2], rule exI [of _ changed2], rule exI [of _ unplaced])
      (use dec u c os p R segs in simp)
qed

text \<open>
  C16. Advancing the packed delta refines updating a matrix. When \<open>advance_segmented_delta\<close> returns,
  the old state decodes to a matrix on which every update starts from the value it names and every
  overflow entry finds a zero, and the new state decodes to that matrix with all of them applied.
  Segments never change their owner row, and the new version differs from the old one.
\<close>

theorem advance_refines_updates:
  assumes "advance_segmented_delta s us es v = Inr tr"
  shows "\<exists>d d'. decode_segmented_delta s = Inr d \<and> decode_segmented_delta (sdt_state tr) = Inr d' \<and>
    replays (value_at d) us \<and> (\<forall>e \<in> set es. value_at d (se_coordinate e) = 0 \<and> se_value e \<noteq> 0) \<and>
    value_at d' = foldl put_entry (foldl apply_update (value_at d) us) es \<and>
    (\<forall>i < length (segments s). i < length (segments (sdt_state tr)) \<and>
      owner_row (segments (sdt_state tr) ! i) = owner_row (segments s ! i)) \<and>
    sd_version_id (sdt_state tr) = v \<and> v \<noteq> sd_version_id s"
proof -
  obtain dec seen mutable changed seen2 mutable2 changed2 unplaced where
    dec: "decode_segmented_delta s = Inr dec" and
    u: "rfold (apply_delta_update s dec) ([], map entries (segments s), []) us = Inr (seen, mutable, changed)" and
    c: "rfold (collect_overflow s dec) (seen, []) es = Inr (seen2, es)" and
    p: "foldl (place_overflow s) (mutable, changed, []) (sort_key se_coordinate es) = (mutable2, changed2, unplaced)" and
    r: "rmap (rebuild_segment s) (py_enumerate (mutable2 @ concat (map (\<lambda>row.
      segment_slices (nat (segment_width s)) (dict_get unplaced row [])) (sort (map fst unplaced))))) =
      Inr (segments (sdt_state tr))" and
    st: "sdt_state tr = s\<lparr>sd_version_id := v, segments := segments (sdt_state tr)\<rparr>" "v \<noteq> sd_version_id s" and
    inv: "assert_state_invariants (sdt_state tr) = Inr ()"
    using advance_segmented_delta_Inr [OF assms] by blast
  note D = decode_segmented_delta_Inr [OF dec]
  have w: "0 < nat (segment_width s)" using D(1) by (simp add: delta_ok_def bad_segment_width_def)
  have hold: "lanes_hold (lane_items (map entries (segments s))) (value_at dec)"
    using D items_hold [of dec] delta_entries_nonzero [of s]
    by (simp add: lane_items_segments delta_ok_def flip: delta_entries_def)
  note U = apply_delta_updates_Inr [OF u hold] and C = collect_overflow_Inr [OF c]
  let ?f = "foldl apply_update (value_at dec) us"
  have zero: "value_at dec (se_coordinate e) = 0 \<and> se_value e \<noteq> 0 \<and> ?f (se_coordinate e) = 0" if "e \<in> set es" for e
  proof -
    have "value_at dec (se_coordinate e) = 0"
      using C that by (auto simp: value_at_def dict_get_def split: option.splits dest!: map_of_SomeD) force
    then show ?thesis using C U that by (metis value_at_def)
  qed
  have nz: "\<forall>e \<in> set (sort_key se_coordinate es). se_value e \<noteq> 0" using C by simp
  note P = place_overflow_run [OF p _ nz, simplified]
  have sum: "lane_items mutable2 + waiting unplaced = lane_items mutable + mset (map entry_pair es)"
    using P by (simp add: waiting_def)
  then have wait: "\<forall>x \<in># waiting unplaced. snd x \<noteq> 0"
    using lane_items_nonzero [of mutable] C by (metis (no_types, lifting) entry_pair_def imageE list.set_map set_mset_mset snd_conv union_iff)
  let ?fresh = "concat (map (\<lambda>row. segment_slices (nat (segment_width s)) (dict_get unplaced row [])) (sort (map fst unplaced)))"
  note B = rebuild_segments [OF r]
  have "lane_items (map entries (segments (sdt_state tr))) = lane_items mutable + mset (map entry_pair es)"
    using B fresh_items [OF w _ wait] P sum by (simp add: lane_items_append)
  then have "lanes_hold (mset (delta_entries (sdt_state tr))) (foldl put_entry ?f es)"
    using lanes_hold_new [of "lane_items mutable" ?f es] U C zero
    by (simp add: lane_items_segments flip: delta_entries_def)
  moreover have "distinct (map fst (delta_entries (sdt_state tr)))"
    using assert_state_invariants_Inr [OF inv] by (simp add: delta_ok_def)
  ultimately have "value_at (delta_entries (sdt_state tr)) = foldl put_entry ?f es" by (intro holds_value_at)
  moreover have "length (segments s) \<le> length (mutable2 @ ?fresh)" using U P by simp
  then have "\<forall>i < length (segments s). i < length (segments (sdt_state tr)) \<and>
      owner_row (segments (sdt_state tr) ! i) = owner_row (segments s ! i)"
    using B by (metis length_map less_le_trans)
  moreover have "sd_version_id (sdt_state tr) = v" by (subst st(1)) simp
  moreover have "replays (value_at dec) us" using U by blast
  ultimately show ?thesis using zero st(2)
    by - (rule exI [of _ dec], rule exI [of _ "delta_entries (sdt_state tr)"], simp add: dec decode_total [OF inv])
qed

theorem advance_refines_updates_witness:
  "\<exists>s tr d d'. advance_segmented_delta s [\<lparr>nu_row = 0, nu_col = 1, nu_before = 4, nu_after = 0\<rparr>]
       [\<lparr>se_row = 0, se_col = 0, se_value = 9\<rparr>] ''v2'' = Inr tr \<and>
     decode_segmented_delta s = Inr d \<and> decode_segmented_delta (sdt_state tr) = Inr d' \<and>
     value_at d (0, 1) = 4 \<and> value_at d' (0, 1) = 0 \<and> value_at d' (0, 0) = 9"
proof -
  define s where "s = sdt_state (projr (advance_segmented_delta
     (projr (initialize_segmented_delta 2 2 2 2 100 ''v0'')) [] [\<lparr>se_row = 0, se_col = 1, se_value = 4\<rparr>] ''v1''))"
  let ?u = "\<lparr>nu_row = 0, nu_col = 1, nu_before = 4, nu_after = 0\<rparr>"
  let ?e = "\<lparr>se_row = 0, se_col = 0, se_value = 9\<rparr>"
  have "\<not> isl (advance_segmented_delta s [?u] [?e] ''v2'')" unfolding s_def by code_simp
  then obtain tr where tr: "advance_segmented_delta s [?u] [?e] ''v2'' = Inr tr"
    by (cases "advance_segmented_delta s [?u] [?e] ''v2''") auto
  obtain d d' where d: "decode_segmented_delta s = Inr d" "decode_segmented_delta (sdt_state tr) = Inr d'"
      "replays (value_at d) [?u]" "value_at d' = foldl put_entry (foldl apply_update (value_at d) [?u]) [?e]"
    using advance_refines_updates [OF tr] by blast
  then show ?thesis using tr
    by (intro exI [of _ s] exI [of _ tr] exI [of _ d] exI [of _ d'])
      (simp add: put_entry_def apply_update_def se_coordinate_def)
qed

end
