(* ===== verification/Strategy_Facts.thy ===== *)
theory Strategy_Facts
  imports Strategy_Advance Delta_Facts Event_Facts
begin

text \<open>
  A state that passes \<open>assert_strategy_invariants\<close> decodes, with \<open>decode_state\<close>, to its logical
  matrix; \<open>validated_candidate\<close> applies a window to that matrix; every checked transition ends in
  a state that passes the assertion and holds the candidate.
\<close>

section \<open>The asserted invariants and decoding\<close>

definition scan_sync :: "inspection \<Rightarrow> bool" where
  "scan_sync s \<longleftrightarrow> fst ` set (in_scanned s) = fst ` set (in_decoded s)"

lemma materialize_Inr:
  "materialize ch slot k owner s = Inr s' \<Longrightarrow> in_scanned s' = in_scanned s \<and> in_decoded s' = in_decoded s"
  by (auto simp: materialize_def split: if_splits option.splits)

lemma inspect_kind_decode:
  assumes "inspect_kind cfg loc k v col c owner s = Inr s'" and "scan_sync s"
  shows "decode_lane (in_decoded s) (k, c, v) = Inr (in_decoded s') \<and> scan_sync s'"
proof (cases "k = Actual")
  case True
  then obtain row where "c = Some (row, col)" "v \<noteq> 0" "(row, col) \<notin> fst ` set (in_scanned s)"
      "s' = s\<lparr>in_actual := in_actual s + 1, in_scanned := AList.update (row, col) loc (in_scanned s),
         in_decoded := AList.update (row, col) v (in_decoded s)\<rparr>"
    using assms(1) by (cases owner) (auto simp: inspect_kind_def split: if_splits)
  then show ?thesis using assms(2) True by (simp add: decode_lane_def scan_sync_def dict_keys_update)
next
  case False
  then have "in_scanned s' = in_scanned s \<and> in_decoded s' = in_decoded s"
    using assms(1) by (cases k; cases owner) (auto simp: inspect_kind_def add_free_lane_def split: if_splits)
  then show ?thesis using False assms(2) by (simp add: decode_lane_def scan_sync_def)
qed

definition lane_content :: "int \<times> int \<times> int \<times> coord option \<times> int option \<times> lane_kind \<Rightarrow> lane_kind \<times> coord option \<times> int" where
  "lane_content = (\<lambda>(slot, v, col, c, owner, k). (k, c, v))"

lemma inspect_lanes_decode:
  "rfold (inspect_lane cfg cid ch) s lanes = Inr s' \<Longrightarrow> scan_sync s \<Longrightarrow>
     rfold decode_lane (in_decoded s) (map lane_content lanes) = Inr (in_decoded s') \<and> scan_sync s'"
proof (induction lanes arbitrary: s)
  case (Cons lane lanes)
  obtain slot v col c owner k where lane: "lane = (slot, v, col, c, owner, k)" by (cases lane) blast
  obtain s2 where 2: "inspect_lane cfg cid ch s lane = Inr s2" "rfold (inspect_lane cfg cid ch) s2 lanes = Inr s'"
    using Cons.prems(1) by (auto simp: rbind_eq_Inr)
  obtain s1 where 1: "materialize ch slot k owner s = Inr s1"
      "inspect_kind cfg (cid, chunk_id ch, slot) k v col c owner s1 = Inr s2"
    using 2(1) by (auto simp: lane inspect_lane_def rbind_eq_Inr)
  have "scan_sync s1" "in_decoded s1 = in_decoded s"
    using materialize_Inr [OF 1(1)] Cons.prems(2) by (simp_all add: scan_sync_def)
  with inspect_kind_decode [OF 1(2)] Cons.IH [OF 2(2)] show ?case by (simp add: lane lane_content_def)
qed simp

lemma inspect_chunk_decode:
  assumes run: "inspect_chunk cfg cid s ch = Inr s'" and sync: "scan_sync s"
  shows "decode_chunk (in_decoded s) ch = Inr (in_decoded s') \<and> scan_sync s'"
proof -
  have len: "length (vc_values ch) = length (column_indices ch)" "length (vc_values ch) = length (slot_coordinates ch)"
      "length (vc_values ch) = length (slot_owner_rows ch)" "length (vc_values ch) = length (slot_kinds ch)"
    using run by (auto simp: inspect_chunk_def split: if_splits)
  have zip: "zip (slot_kinds ch) (zip (slot_coordinates ch) (vc_values ch)) = map lane_content (chunk_lanes ch)"
    by (rule nth_equalityI) (simp_all add: len [symmetric] chunk_lanes_def lane_content_def)
  obtain s1 where 1: "rfold (inspect_lane cfg cid ch) (s\<lparr>in_actual := 0, in_reserved := 0\<rparr>) (chunk_lanes ch) = Inr s1" "s' = s1"
    using run by (auto simp: inspect_chunk_def rbind_eq_Inr split: if_splits)
  have "scan_sync (s\<lparr>in_actual := 0, in_reserved := 0\<rparr>)" using sync by (simp add: scan_sync_def)
  from inspect_lanes_decode [OF 1(1) this] show ?thesis using len 1(2) by (simp add: decode_chunk_def zip)
qed

lemma inspect_chunks_decode:
  "rfold (inspect_chunk cfg cid) s chs = Inr s' \<Longrightarrow> scan_sync s \<Longrightarrow>
     rfold decode_chunk (in_decoded s) chs = Inr (in_decoded s') \<and> scan_sync s'"
proof (induction chs arbitrary: s)
  case (Cons ch chs)
  obtain s1 where 1: "inspect_chunk cfg cid s ch = Inr s1" "rfold (inspect_chunk cfg cid) s1 chs = Inr s'"
    using Cons.prems(1) by (auto simp: rbind_eq_Inr)
  with inspect_chunk_decode [OF 1(1) Cons.prems(2)] Cons.IH [OF 1(2)] show ?case by simp
qed simp

lemma inspect_blocks_decode:
  "rfold (inspect_block cfg cid) s bs = Inr s' \<Longrightarrow> scan_sync s \<Longrightarrow>
     rfold decode_chunk (in_decoded s) (concat (map chunks bs)) = Inr (in_decoded s') \<and> scan_sync s'"
proof (induction bs arbitrary: s)
  case (Cons b bs)
  let ?s = "s\<lparr>in_widths := dict_of (map (\<lambda>row. (row, 0)) (row_map b))\<rparr>"
  obtain s1 where 2: "inspect_block cfg cid s b = Inr s1" "rfold (inspect_block cfg cid) s1 bs = Inr s'"
    using Cons.prems(1) by (auto simp: rbind_eq_Inr)
  then have 1: "rfold (inspect_chunk cfg cid) ?s (chunks b) = Inr s1"
    by (auto simp: inspect_block_def rbind_eq_Inr split: if_splits)
  have "scan_sync ?s" using Cons.prems(2) by (simp add: scan_sync_def)
  with inspect_chunks_decode [OF 1] Cons.IH [OF 2(2)] show ?case by (simp add: rfold_append)
qed simp

lemma assert_component_decode:
  assumes "assert_component_invariants c cfg = Inr i"
  shows "decode_component c = Inr (ci_decoded i)"
proof -
  let ?s = "\<lparr>in_scanned = [], in_decoded = [], in_free_lanes = [], in_available = [], in_widths = [],
         in_actual = 0, in_reserved = 0\<rparr>"
  obtain s where s: "rfold (inspect_block cfg (component_id c)) ?s (blocks c) = Inr s" "ci_decoded i = in_decoded s"
    using assms by (auto simp: assert_component_invariants_def Let_def rbind_eq_Inr split: if_splits)
  have "scan_sync ?s" by (simp add: scan_sync_def)
  from inspect_blocks_decode [OF s(1) this] show ?thesis
    using s(2) by (simp add: decode_component_def component_chunks_def)
qed

lemma assert_coo_entries_Inr:
  "rfold (assert_coo_entry cfg) (coords, dec) es = Inr (coords', dec') \<Longrightarrow> set coords = fst ` set dec \<Longrightarrow>
     dec' = dec @ concat (map (\<lambda>e. case e of None \<Rightarrow> []
       | Some e \<Rightarrow> if pe_value e = 0 then [] else [(pe_coordinate e, pe_value e)]) es) \<and> set coords' = fst ` set dec'"
proof (induction es arbitrary: coords dec)
  case (Cons e es)
  obtain coords1 dec1 where 1: "assert_coo_entry cfg (coords, dec) e = Inr (coords1, dec1)"
      "rfold (assert_coo_entry cfg) (coords1, dec1) es = Inr (coords', dec')"
    using Cons.prems(1) by (auto simp: rbind_eq_Inr)
  have "dec1 = dec @ (case e of None \<Rightarrow> [] | Some e \<Rightarrow> if pe_value e = 0 then [] else [(pe_coordinate e, pe_value e)]) \<and>
      set coords1 = fst ` set dec1"
  proof (cases e)
    case None
    then show ?thesis using 1(1) Cons.prems(2) by (simp add: assert_coo_entry_def)
  next
    case (Some x)
    show ?thesis
    proof (cases "pe_value x = 0")
      case True
      then show ?thesis using 1(1) Cons.prems(2) by (simp add: Some assert_coo_entry_def split: if_splits)
    next
      case False
      then have "pe_coordinate x \<notin> set coords" "coords1 = pe_coordinate x # coords"
          "dec1 = AList.update (pe_coordinate x) (pe_value x) dec"
        using 1(1) unfolding Some assert_coo_entry_def by (simp_all split: if_splits)
      then show ?thesis using False Cons.prems(2) by (simp add: Some update_fresh)
    qed
  qed
  with Cons.IH [OF 1(2)] show ?case by simp
qed simp

lemma assert_coo_segments_Inr:
  "rfold (assert_coo_segment cfg) (ids, coords, dec) gs = Inr (ids', coords', dec') \<Longrightarrow> set coords = fst ` set dec \<Longrightarrow>
     dec' = dec @ concat (map live_entries gs)"
proof (induction gs arbitrary: ids coords dec)
  case (Cons g gs)
  obtain ids1 coords1 dec1 where 1: "rfold (assert_coo_entry cfg) (coords, dec) (pcs_entries g) = Inr (coords1, dec1)"
      "rfold (assert_coo_segment cfg) (ids1, coords1, dec1) gs = Inr (ids', coords', dec')"
    using Cons.prems(1) by (auto simp: assert_coo_segment_def rbind_eq_Inr split: if_splits)
  from assert_coo_entries_Inr [OF 1(1) Cons.prems(2)] Cons.IH [OF 1(2)] show ?case by (simp add: live_entries_def)
qed simp

lemma merge_what:
  "rfold (merge_entry w1) d es = Inr d' \<Longrightarrow> rfold (merge_entry w2) d es = Inr d'"
  by (induction es arbitrary: d) (auto simp: rbind_eq_Inr merge_entry_def split: if_splits)

lemma merge_concat:
  "rfold (merge_entry w) d (concat (map f gs)) = rfold (\<lambda>d g. rfold (merge_entry w) d (f g)) d gs"
  by (induction gs arbitrary: d) (simp_all add: rfold_append)

lemma asserted_state_decodes:
  assumes "assert_strategy_invariants st = Inr ()"
  shows "\<exists>d. decode_state st = Inr d \<and> dict_eq d (st_logical st)"
proof -
  obtain base delta x y coo decoded where
    base: "assert_component_invariants (st_base st) (st_config st) = Inr base" and
    delta: "(case st_delta st of None \<Rightarrow> Inr None
            | Some d \<Rightarrow> rbind (assert_component_invariants d (st_config st)) (\<lambda>i. Inr (Some i))) = Inr delta" and
    only: "st_delta st \<noteq> None \<longrightarrow> st_strategy st = MiniDelta \<or> st_strategy st = PeriodicRepack"
      "st_strategy st \<noteq> PackedCOO \<longrightarrow> st_coo_segments st = []" and
    coo: "rfold (assert_coo_segment (st_config st)) ([], [], []) (st_coo_segments st) = Inr (x, y, coo)" and
    dec: "rfold (merge_entry ''delta'') (ci_decoded base) (case delta of Some i \<Rightarrow> ci_decoded i | None \<Rightarrow> coo) = Inr decoded"
      "dict_eq decoded (st_logical st)"
    using assms unfolding assert_strategy_invariants_def Let_def
    by (auto simp: rbind_eq_Inr split: if_splits)
  note B = assert_component_decode [OF base]
  show ?thesis
  proof (cases "st_delta st")
    case None
    then have "delta = None" using delta by simp
    moreover have "coo = concat (map live_entries (st_coo_segments st))" using assert_coo_segments_Inr [OF coo] by simp
    ultimately have "rfold (merge_entry ''COO'') (ci_decoded base) (concat (map live_entries (st_coo_segments st))) = Inr decoded"
      using merge_what [OF dec(1)] by simp
    then show ?thesis using B None dec(2) by (simp add: decode_state_def merge_concat)
  next
    case (Some c)
    then obtain i where i: "assert_component_invariants c (st_config st) = Inr i" "delta = Some i"
      using delta by (auto simp: rbind_eq_Inr)
    have "st_coo_segments st = []" using only Some by auto
    then show ?thesis using B Some dec assert_component_decode [OF i(1)] i(2) by (simp add: decode_state_def)
  qed
qed

lemma decode_lane_ok: "decode_lane d x = Inr d' \<Longrightarrow> dict_ok d \<Longrightarrow> dict_ok d'"
  by (auto simp: decode_lane_def split: prod.splits if_splits option.splits)

lemma decode_chunk_ok: "decode_chunk d ch = Inr d' \<Longrightarrow> dict_ok d \<Longrightarrow> dict_ok d'"
  by (auto simp: decode_chunk_def rbind_eq_Inr split: if_splits elim: rfold_invariant intro: decode_lane_ok)

lemma merge_entry_ok: "merge_entry w d x = Inr d' \<Longrightarrow> dict_ok d \<Longrightarrow> dict_ok d'"
  by (auto simp: merge_entry_def split: prod.splits if_splits)

lemma decode_state_ok:
  assumes "decode_state st = Inr d"
  shows "dict_ok d"
proof -
  have fold: "rfold (merge_entry w) d es = Inr d' \<Longrightarrow> dict_ok d \<Longrightarrow> dict_ok d'" for w d es d'
    by (rule rfold_invariant) (auto intro: merge_entry_ok)
  obtain b m where 1: "decode_component (st_base st) = Inr b"
      "(case st_delta st of None \<Rightarrow> Inr b | Some d \<Rightarrow> rbind (decode_component d) (rfold (merge_entry ''delta'') b)) = Inr m"
      "rfold (\<lambda>d g. rfold (merge_entry ''COO'') d (live_entries g)) m (st_coo_segments st) = Inr d"
    using assms by (auto simp: decode_state_def rbind_eq_Inr)
  have "dict_ok b"
    using 1(1) unfolding decode_component_def by (rule rfold_invariant) (auto intro: decode_chunk_ok)
  then have "dict_ok m" using 1(2) fold by (auto simp: rbind_eq_Inr split: option.splits)
  with 1(3) show ?thesis by (rule rfold_invariant) (auto intro: fold)
qed

lemma dict_eq_value_at:
  assumes "dict_ok d" and "dict_eq d e"
  shows "value_at e = value_at d"
proof
  fix c
  have "map_of e c = map_of d c"
  proof (cases "map_of e c")
    case None
    then have "c \<notin> fst ` set d" using assms(2) by (simp add: dict_eq_def map_of_eq_None_iff)
    then have "map_of d c = None" by (simp add: map_of_eq_None_iff)
    then show ?thesis using None by simp
  next
    case (Some v)
    then have "(c, v) \<in> set d" using assms(2) by (auto simp: dict_eq_def dest: map_of_SomeD)
    then show ?thesis using assms(1) Some by (simp add: dict_ok_def)
  qed
  then show "value_at e c = value_at d c" by (simp add: value_at_def dict_get_def)
qed

lemma asserted_state_holds:
  assumes "assert_strategy_invariants st = Inr ()"
  shows "\<exists>d. decode_state st = Inr d \<and> value_at d = value_at (st_logical st)"
  using asserted_state_decodes [OF assms] decode_state_ok dict_eq_value_at by metis

section \<open>The candidate\<close>

lemma check_update_Inr:
  assumes run: "check_update cfg logical (seen, deltas, cand) u = Inr (seen', deltas', cand')"
    and old: "\<forall>c. c \<notin> set seen \<longrightarrow> value_at cand c = value_at logical c"
  shows "nu_before u = value_at cand (nu_coordinate u) \<and> \<not> is_noop u \<and>
    value_at cand' = apply_update (value_at cand) u \<and> (\<forall>c. c \<notin> set seen' \<longrightarrow> value_at cand' c = value_at logical c)"
proof -
  have step: "\<not> is_noop u" "nu_coordinate u \<notin> set seen" "value_at logical (nu_coordinate u) = nu_before u"
      "seen' = nu_coordinate u # seen"
      "cand' = (if nu_after u = 0 then AList.delete (nu_coordinate u) cand else AList.update (nu_coordinate u) (nu_after u) cand)"
    using run by (auto simp: check_update_def Let_def nu_coordinate_def value_at_def split: if_splits)
  have "value_at cand' = (value_at cand)(nu_coordinate u := nu_after u)" by (simp add: step(5) value_at_simps)
  then show ?thesis using step old by (auto simp: apply_update_def nu_coordinate_def)
qed

lemma check_updates_Inr:
  assumes "rfold (check_update cfg logical) (seen, deltas, cand) us = Inr (seen', deltas', cand')"
    and "\<forall>c. c \<notin> set seen \<longrightarrow> value_at cand c = value_at logical c"
  shows "replays (value_at cand) us \<and> value_at cand' = foldl apply_update (value_at cand) us"
  using assms
proof (induction us arbitrary: seen deltas cand)
  case (Cons u us)
  then obtain seen1 deltas1 cand1 where
    1: "check_update cfg logical (seen, deltas, cand) u = Inr (seen1, deltas1, cand1)" and
    2: "rfold (check_update cfg logical) (seen1, deltas1, cand1) us = Inr (seen', deltas', cand')"
    by (auto simp: rbind_eq_Inr)
  note S = check_update_Inr [OF 1 Cons.prems(2)]
  then have "\<forall>c. c \<notin> set seen1 \<longrightarrow> value_at cand1 c = value_at logical c" by blast
  from Cons.IH [OF 2 this] S show ?case by (simp add: nu_coordinate_def)
qed simp

lemma validated_candidate_Inr:
  assumes "validated_candidate cfg logical us = Inr cand"
  shows "replays (value_at logical) us \<and> value_at cand = foldl apply_update (value_at logical) us"
proof -
  obtain seen deltas where "rfold (check_update cfg logical) ([], [], logical) us = Inr (seen, deltas, cand)"
    using assms by (auto simp: validated_candidate_def rbind_eq_Inr split: if_splits)
  from check_updates_Inr [OF this] show ?thesis by simp
qed

section \<open>Checked transitions\<close>

definition reaches :: "bool \<Rightarrow> (coord, int) dict \<Rightarrow> transition \<Rightarrow> bool" where
  "reaches check cand tr \<longleftrightarrow> st_logical (tr_state tr) = cand \<and> (check \<longrightarrow> assert_strategy_invariants (tr_state tr) = Inr ())"

lemma checked_transition_state: "checked_transition st f plan = Inr tr \<Longrightarrow> tr_state tr = st"
  by (auto simp: checked_transition_def split: if_splits)

lemma check_if_Inr: "check_if check st = Inr () \<Longrightarrow> check \<Longrightarrow> assert_strategy_invariants st = Inr ()"
  by (simp add: check_if_def)

lemma advance_point_reaches: "advance_point st w cand ordinal version check = Inr tr \<Longrightarrow> reaches check cand tr"
  unfolding advance_point_def Let_def
  by (auto simp: rbind_eq_Inr reaches_def dest!: checked_transition_state check_if_Inr split: prod.splits)

lemma advance_cssc_delta_reaches: "advance_cssc_delta st w cand ordinal version check = Inr tr \<Longrightarrow> reaches check cand tr"
  unfolding advance_cssc_delta_def Let_def
  by (auto simp: rbind_eq_Inr reaches_def dest!: checked_transition_state check_if_Inr split: prod.splits)

lemma advance_local_repack_reaches: "advance_local_repack st w cand ordinal version check = Inr tr \<Longrightarrow> reaches check cand tr"
  unfolding advance_local_repack_def Let_def
  by (auto simp: rbind_eq_Inr reaches_def dest!: checked_transition_state check_if_Inr split: prod.splits)

lemma fold_periodic_reaches: "fold_periodic st w cand ordinal version check = Inr tr \<Longrightarrow> reaches check cand tr"
  unfolding fold_periodic_def Let_def
  by (auto simp: rbind_eq_Inr reaches_def dest!: checked_transition_state check_if_Inr split: prod.splits)

lemma advance_packed_coo_reaches: "advance_packed_coo st w cand ordinal version check = Inr tr \<Longrightarrow> reaches check cand tr"
  unfolding advance_packed_coo_def Let_def
  by (auto simp: rbind_eq_Inr reaches_def dest!: checked_transition_state check_if_Inr split: prod.splits)

lemmas transitions_reach = advance_point_reaches advance_cssc_delta_reaches advance_local_repack_reaches
  fold_periodic_reaches advance_packed_coo_reaches

lemma advance_window_reaches:
  assumes "advance_window check st w = Inr tr" and "pw_updates w \<noteq> []"
  shows "\<exists>cand. validated_candidate (st_config st) (st_logical st) (pw_updates w) = Inr cand \<and> reaches check cand tr"
proof -
  obtain cand where cand: "validated_candidate (st_config st) (st_logical st) (pw_updates w) = Inr cand"
    using assms(1) by (auto simp: advance_window_def rbind_eq_Inr)
  have "reaches check cand tr"
    using assms transitions_reach unfolding advance_window_def cand rbind_Inr Let_def
    by (auto split: if_splits strategy_kind.splits)
  then show ?thesis using cand by blast
qed

lemma advance_window_idle:
  assumes "advance_window check st w = Inr tr" and "pw_updates w = []"
  shows "tr_state tr = st"
  using assms by (auto simp: advance_window_def rbind_eq_Inr dest!: checked_transition_state split: if_splits)

section \<open>Runs\<close>

text \<open>A strategy fed with windows one by one, each state checked before it is left.\<close>

fun run_strategy :: "strategy_state \<Rightarrow> publication_window list \<Rightarrow> strategy_state res" where
  "run_strategy st [] = Inr st"
| "run_strategy st (w # ws) =
     rbind (fst (advance_publication st w None)) (\<lambda>tr. run_strategy (tr_state tr) ws)"

lemma advance_publication_None:
  assumes "fst (advance_publication st w None) = Inr tr"
  shows "assert_strategy_invariants st = Inr () \<and> advance_window True st w = Inr tr"
  using assms by (auto simp: advance_publication_def sbind_def consume_or_check_def slift_def split: sum.splits)

lemma checked_advance:
  assumes "fst (advance_publication st w None) = Inr tr"
  shows "assert_strategy_invariants st = Inr () \<and> assert_strategy_invariants (tr_state tr) = Inr () \<and>
    replays (value_at (st_logical st)) (pw_updates w) \<and>
    value_at (st_logical (tr_state tr)) = foldl apply_update (value_at (st_logical st)) (pw_updates w)"
proof -
  note A = advance_publication_None [OF assms]
  show ?thesis
  proof (cases "pw_updates w = []")
    case True
    then show ?thesis using A advance_window_idle [of True st w tr] by simp
  next
    case False
    then show ?thesis using A advance_window_reaches [of True st w tr] validated_candidate_Inr
      by (fastforce simp: reaches_def)
  qed
qed

lemma run_strategy_Inr:
  assumes "run_strategy st ws = Inr st'" and "assert_strategy_invariants st = Inr ()"
  shows "assert_strategy_invariants st' = Inr () \<and> replays (value_at (st_logical st)) (window_updates ws) \<and>
    value_at (st_logical st') = foldl apply_update (value_at (st_logical st)) (window_updates ws)"
  using assms
proof (induction ws arbitrary: st)
  case (Cons w ws)
  obtain tr where tr: "fst (advance_publication st w None) = Inr tr" "run_strategy (tr_state tr) ws = Inr st'"
    using Cons.prems(1) by (auto simp: rbind_eq_Inr)
  note C = checked_advance [OF tr(1)]
  with Cons.IH [OF tr(2)] show ?case by simp
qed simp

end
