(* ===== verification/Strategy_Properties.thy ===== *)
theory Strategy_Properties
  imports Strategy_Facts Event_Properties
begin

text \<open>
  The properties of the strategies. Their witnesses run on a strategy over a matrix with one
  entry, and one window that changes it.
\<close>

section \<open>A concrete strategy\<close>

definition sample_strategy :: strategy_state where
  "sample_strategy = projr (initialize_strategy PackedCOO [((0, 0), 3)] 2 2 2 (Some 2) 100 2 (1, 0) 2 2)"

definition sample_update :: publication_window where
  "sample_update = \<lparr>pw_index = 0, pw_start_time = Finite 0, pw_end_time = Finite 1,
     pw_updates = [\<lparr>nu_row = 0, nu_col = 0, nu_before = 3, nu_after = 5\<rparr>], pw_query_count = 0, pw_reason = ''version''\<rparr>"

lemma sample_strategy_holds: "st_logical sample_strategy = [((0, 0), 3)]"
  by code_simp

lemma sample_advances: "\<exists>tr. fst (advance_publication sample_strategy sample_update None) = Inr tr"
proof -
  have "\<not> isl (fst (advance_publication sample_strategy sample_update None))" by code_simp
  then show ?thesis by (cases "fst (advance_publication sample_strategy sample_update None)") auto
qed

section \<open>A window changes exactly what it says\<close>

text \<open>
  C14. An advance without a predecessor refines the update of the matrix, for all six strategies:
  the state before decodes to a matrix on which each update starts from the value it names, the
  state after passes every check and decodes to that matrix with the updates applied.
\<close>

theorem advance_refines_window:
  assumes "fst (advance_publication st w None) = Inr tr"
  shows "\<exists>d d'. decode_state st = Inr d \<and> decode_state (tr_state tr) = Inr d' \<and>
    replays (value_at d) (pw_updates w) \<and> value_at d' = foldl apply_update (value_at d) (pw_updates w) \<and>
    assert_strategy_invariants (tr_state tr) = Inr ()"
  using checked_advance [OF assms] asserted_state_holds by metis

theorem advance_refines_window_witness:
  "\<exists>tr d'. fst (advance_publication sample_strategy sample_update None) = Inr tr \<and>
     decode_state (tr_state tr) = Inr d' \<and> value_at d' (0, 0) = 5"
proof -
  obtain tr where tr: "fst (advance_publication sample_strategy sample_update None) = Inr tr"
    using sample_advances by blast
  obtain d d' where "decode_state (tr_state tr) = Inr d'"
      "value_at d' = foldl apply_update (value_at d) (pw_updates sample_update)"
    using advance_refines_window [OF tr] by blast
  moreover from this(2) have "value_at d' (0, 0) = 5" unfolding sample_update_def by (simp add: apply_update_def)
  ultimately show ?thesis using tr by blast
qed

text \<open>
  C15. Events to ciphertext layouts. A matrix, published by any strategy and then advanced by the
  windows that \<open>publication_windows\<close> forms from a stream of events, decodes to the matrix after
  all SET events of the stream.
\<close>

theorem strategies_track_events:
  assumes "initialize_strategy k m rows cols slots part_rows bound max_nnz beta periodic capacity = Inr st"
    and "dict_ok m" and "publication_windows events m max_seconds limit latest = (ws, None)"
    and "run_strategy st ws = Inr st'"
  shows "\<exists>d. decode_state st' = Inr d \<and> value_at d = foldl apply_event (value_at m) events"
proof -
  have st: "assert_strategy_invariants st = Inr () \<and> st_logical st = m"
    using assms(1) by (auto simp: initialize_strategy_def Let_def rbind_eq_Inr validate_logical_def split: if_splits)
  obtain g where g: "emits (value_at m) ws g" "g = foldl apply_event (value_at m) events"
    using windows_emit [OF assms(3,2)] by blast
  have "assert_strategy_invariants st' = Inr ()" "value_at (st_logical st') = g"
    using run_strategy_Inr [OF assms(4)] st g(1) by (auto simp: emits_def)
  then show ?thesis using asserted_state_holds g(2) by metis
qed

theorem strategies_track_events_witness:
  "\<exists>st ws st' d. initialize_strategy PackedCOO [((0, 0), 3)] 2 2 2 (Some 2) 100 2 (1, 0) 2 2 = Inr st \<and>
     publication_windows [event_set (Finite 0) 0 0 5, event_version (Finite 1), event_set (Finite 2) 0 1 7] [((0, 0), 3)] (Finite 10) 100 True = (ws, None) \<and>
     run_strategy st ws = Inr st' \<and> decode_state st' = Inr d \<and> value_at d (0, 1) = 7"
proof -
  let ?init = "initialize_strategy PackedCOO [((0, 0), 3)] 2 2 2 (Some 2) 100 2 (1, 0) 2 2"
  let ?events = "[event_set (Finite 0) 0 0 5, event_version (Finite 1), event_set (Finite 2) 0 1 7]"
  let ?ws = "publication_windows ?events [((0, 0), 3)] (Finite 10) 100 True"
  have "\<not> isl ?init" "snd ?ws = None" "\<not> isl (run_strategy (projr ?init) (fst ?ws))" by code_simp+
  then obtain st ws st' where run: "?init = Inr st" "?ws = (ws, None)" "run_strategy st ws = Inr st'"
    by (metis isl_def prod.collapse sum.collapse(2) sum.disc(2) sum.sel(2))
  have ok: "dict_ok [((0, 0), 3) :: (int \<times> int) \<times> int]" by (simp add: dict_ok_def)
  obtain d where "decode_state st' = Inr d" "value_at d = foldl apply_event (value_at [((0, 0), 3)]) ?events"
    using strategies_track_events [OF run(1) ok run(2,3)] by blast
  then show ?thesis using run
    by (intro exI [of _ st] exI [of _ ws] exI [of _ st'] exI [of _ d])
      (simp add: apply_event_def event_set_def event_version_def)
qed

section \<open>The trusted path\<close>

lemma rbind_mono: "rbind m f = Inr y \<Longrightarrow> (\<And>x. f x = Inr y \<Longrightarrow> g x = Inr y) \<Longrightarrow> rbind m g = Inr y"
  by (cases m) simp_all

lemma case_prod_mono:
  "case_prod f x = Inr y \<Longrightarrow> (\<And>a b. f a b = Inr y \<Longrightarrow> g a b = Inr y) \<Longrightarrow> case_prod g x = Inr y"
  by (cases x) simp_all

lemma check_mono: "rbind (check_if True st) f = Inr y \<Longrightarrow> rbind (check_if False st) f = Inr y"
  by (auto simp: check_if_def rbind_eq_Inr)

lemma advance_point_unchecked:
  "advance_point st w cand ordinal version True = Inr tr \<Longrightarrow> advance_point st w cand ordinal version False = Inr tr"
  unfolding advance_point_def Let_def by (elim check_mono case_prod_mono rbind_mono)

lemma advance_cssc_delta_unchecked:
  "advance_cssc_delta st w cand ordinal version True = Inr tr \<Longrightarrow> advance_cssc_delta st w cand ordinal version False = Inr tr"
  unfolding advance_cssc_delta_def Let_def by (elim check_mono case_prod_mono rbind_mono)

lemma advance_local_repack_unchecked:
  "advance_local_repack st w cand ordinal version True = Inr tr \<Longrightarrow> advance_local_repack st w cand ordinal version False = Inr tr"
  unfolding advance_local_repack_def Let_def by (elim check_mono case_prod_mono rbind_mono)

lemma fold_periodic_unchecked:
  "fold_periodic st w cand ordinal version True = Inr tr \<Longrightarrow> fold_periodic st w cand ordinal version False = Inr tr"
  unfolding fold_periodic_def Let_def by (elim check_mono case_prod_mono rbind_mono)

lemma advance_packed_coo_unchecked:
  "advance_packed_coo st w cand ordinal version True = Inr tr \<Longrightarrow> advance_packed_coo st w cand ordinal version False = Inr tr"
  unfolding advance_packed_coo_def Let_def by (elim check_mono case_prod_mono rbind_mono)

lemma advance_unchecked:
  assumes "advance_window True st w = Inr tr"
  shows "advance_window False st w = Inr tr"
proof -
  obtain cand where cand: "validated_candidate (st_config st) (st_logical st) (pw_updates w) = Inr cand"
    using assms by (auto simp: advance_window_def rbind_eq_Inr)
  show ?thesis
    using assms advance_point_unchecked advance_cssc_delta_unchecked advance_local_repack_unchecked
      fold_periodic_unchecked advance_packed_coo_unchecked
    unfolding advance_window_def cand rbind_Inr Let_def by (auto split: if_splits strategy_kind.splits)
qed

text \<open>
  C20. The trusted path is the checked path. Where the checked advance returns, an advance that
  presents a fresh predecessor of the same state, and so skips the checks before and after, returns
  the same transition and marks the predecessor as consumed.
\<close>

theorem trusted_advance_agrees:
  assumes "fst (advance_publication st w None) = Inr tr" and "vp_for_this_state p" and "\<not> vp_consumed p"
  shows "advance_publication st w (Some p) = (Inr tr, Some (p\<lparr>vp_consumed := True\<rparr>))"
  using advance_unchecked [of st w tr] advance_publication_None [OF assms(1)] assms(2,3)
  by (simp add: advance_publication_def sbind_def consume_or_check_def slift_def consume_predecessor_def)

theorem trusted_advance_agrees_witness:
  "\<exists>tr. fst (advance_publication sample_strategy sample_update None) = Inr tr \<and>
     advance_publication sample_strategy sample_update (Some \<lparr>vp_for_this_state = True, vp_consumed = False\<rparr>) =
       (Inr tr, Some \<lparr>vp_for_this_state = True, vp_consumed = True\<rparr>)"
proof -
  obtain tr where tr: "fst (advance_publication sample_strategy sample_update None) = Inr tr"
    using sample_advances by blast
  show ?thesis using tr trusted_advance_agrees [OF tr, of "\<lparr>vp_for_this_state = True, vp_consumed = False\<rparr>"] by simp
qed

text \<open>
  C21. A predecessor is used at most once. After an advance that presented it returned or raised, the
  capability either is consumed or was never valid for that state; and a consumed capability is
  refused by every advance, of whatever state and window, which leaves it as it is.
\<close>

theorem predecessor_used_once:
  assumes "advance_publication st w (Some p) = (r, Some q)"
  shows "(vp_consumed q \<or> \<not> vp_for_this_state p) \<and> (r = Inr tr \<longrightarrow> vp_consumed q) \<and>
    (vp_consumed q \<longrightarrow> (\<exists>e. advance_publication st' w' (Some (q\<lparr>vp_for_this_state := b\<rparr>)) =
       (Inl e, Some (q\<lparr>vp_for_this_state := b\<rparr>))))"
  using assms
  by (auto simp: advance_publication_def sbind_def consume_or_check_def slift_def consume_predecessor_def
      split: if_splits)

theorem predecessor_used_once_witness:
  "\<exists>r q e. advance_publication sample_strategy sample_update (Some \<lparr>vp_for_this_state = True, vp_consumed = False\<rparr>) = (r, Some q) \<and>
     advance_publication sample_strategy sample_update (Some (q\<lparr>vp_for_this_state := True\<rparr>)) = (Inl e, Some (q\<lparr>vp_for_this_state := True\<rparr>))"
proof -
  obtain tr where tr: "fst (advance_publication sample_strategy sample_update None) = Inr tr"
    using sample_advances by blast
  obtain r q where q: "advance_publication sample_strategy sample_update
      (Some \<lparr>vp_for_this_state = True, vp_consumed = False\<rparr>) = (r, Some q)"
    by (auto simp: advance_publication_def sbind_def consume_or_check_def slift_def consume_predecessor_def)
  show ?thesis using q predecessor_used_once [OF q, of undefined sample_strategy sample_update True] by auto
qed

end
