(* ===== verification/Bisect_Facts.thy ===== *)
theory Bisect_Facts
  imports Strategy_State "HOL-Library.Multiset"
begin

text \<open>
  The binary searches over the sorted free lanes: where they stop, that insertion keeps the order,
  and which lane an insertion of an entry takes.
\<close>

section \<open>Binary search\<close>

lemma bisect_left_loop_spec:
  assumes "sorted (map key xs)" and "lo \<le> hi" and "hi \<le> length xs"
    and "\<forall>i < lo. key (xs ! i) < x" and "\<forall>i. hi \<le> i \<and> i < length xs \<longrightarrow> x \<le> key (xs ! i)"
  shows "let b = bisect_left_loop key xs x lo hi in lo \<le> b \<and> b \<le> hi \<and>
    (\<forall>i < b. key (xs ! i) < x) \<and> (\<forall>i. b \<le> i \<and> i < length xs \<longrightarrow> x \<le> key (xs ! i))"
  using assms
proof (induction key xs x lo hi rule: bisect_left_loop.induct)
  case (1 key xs x lo hi)
  let ?mid = "(lo + hi) div 2"
  have nth: "key (xs ! i) \<le> key (xs ! j)" if "i \<le> j" "j < length xs" for i j
    using sorted_nth_mono [OF 1(3), of i j] that by simp
  show ?case
  proof (cases "lo < hi")
    case False
    then show ?thesis using 1 by (subst bisect_left_loop.simps) (simp add: Let_def)
  next
    case True
    then have mid: "lo \<le> ?mid" "?mid < hi" "?mid < length xs" using 1(5) by simp_all
    show ?thesis
    proof (cases "key (xs ! ?mid) < x")
      case less: True
      have "\<forall>i < Suc ?mid. key (xs ! i) < x"
        using less mid(3) by (auto simp: less_Suc_eq_le intro: le_less_trans [OF nth])
      then show ?thesis using 1(1) [OF True refl less 1(3)] 1(4-7) True less mid
        by (subst bisect_left_loop.simps) (simp add: Let_def)
    next
      case ge: False
      have "\<forall>i. ?mid \<le> i \<and> i < length xs \<longrightarrow> x \<le> key (xs ! i)"
        using ge by (auto simp: not_less intro: order.trans [OF _ nth])
      then show ?thesis using 1(2) [OF True refl ge 1(3)] 1(4-7) True ge mid
        by (subst bisect_left_loop.simps) (simp add: Let_def)
    qed
  qed
qed

lemma bisect_right_loop_spec:
  assumes "sorted (map key xs)" and "lo \<le> hi" and "hi \<le> length xs"
    and "\<forall>i < lo. key (xs ! i) \<le> x" and "\<forall>i. hi \<le> i \<and> i < length xs \<longrightarrow> x < key (xs ! i)"
  shows "let b = bisect_right_loop key xs x lo hi in lo \<le> b \<and> b \<le> hi \<and>
    (\<forall>i < b. key (xs ! i) \<le> x) \<and> (\<forall>i. b \<le> i \<and> i < length xs \<longrightarrow> x < key (xs ! i))"
  using assms
proof (induction key xs x lo hi rule: bisect_right_loop.induct)
  case (1 key xs x lo hi)
  let ?mid = "(lo + hi) div 2"
  have nth: "key (xs ! i) \<le> key (xs ! j)" if "i \<le> j" "j < length xs" for i j
    using sorted_nth_mono [OF 1(3), of i j] that by simp
  show ?case
  proof (cases "lo < hi")
    case False
    then show ?thesis using 1 by (subst bisect_right_loop.simps) (simp add: Let_def)
  next
    case True
    then have mid: "lo \<le> ?mid" "?mid < hi" "?mid < length xs" using 1(5) by simp_all
    show ?thesis
    proof (cases "x < key (xs ! ?mid)")
      case less: True
      have "\<forall>i. ?mid \<le> i \<and> i < length xs \<longrightarrow> x < key (xs ! i)"
        using less by (auto intro: less_le_trans [OF _ nth])
      then show ?thesis using 1(1) [OF True refl less 1(3)] 1(4-7) True less mid
        by (subst bisect_right_loop.simps) (simp add: Let_def)
    next
      case ge: False
      have "\<forall>i < Suc ?mid. key (xs ! i) \<le> x"
        using ge mid(3) by (auto simp: less_Suc_eq_le not_less intro: order.trans [OF nth])
      then show ?thesis using 1(2) [OF True refl ge 1(3)] 1(4-7) True ge mid
        by (subst bisect_right_loop.simps) (simp add: Let_def)
    qed
  qed
qed

lemma bisect_left_spec:
  assumes "sorted (map key xs)"
  shows "bisect_left key xs x \<le> length xs" "i < length xs \<Longrightarrow> i < bisect_left key xs x \<longleftrightarrow> key (xs ! i) < x"
proof -
  have S: "let b = bisect_left_loop key xs x 0 (length xs) in 0 \<le> b \<and> b \<le> length xs \<and>
    (\<forall>i < b. key (xs ! i) < x) \<and> (\<forall>i. b \<le> i \<and> i < length xs \<longrightarrow> x \<le> key (xs ! i))"
    by (rule bisect_left_loop_spec [OF assms]) auto
  show "bisect_left key xs x \<le> length xs" using S by (simp add: bisect_left_def Let_def)
  show "i < bisect_left key xs x \<longleftrightarrow> key (xs ! i) < x" if "i < length xs"
    using S that by (auto simp: bisect_left_def Let_def) (meson leD not_le)
qed

lemma bisect_right_spec:
  assumes "sorted (map key xs)"
  shows "bisect_right key xs x \<le> length xs" "i < length xs \<Longrightarrow> i < bisect_right key xs x \<longleftrightarrow> key (xs ! i) \<le> x"
proof -
  have S: "let b = bisect_right_loop key xs x 0 (length xs) in 0 \<le> b \<and> b \<le> length xs \<and>
    (\<forall>i < b. key (xs ! i) \<le> x) \<and> (\<forall>i. b \<le> i \<and> i < length xs \<longrightarrow> x < key (xs ! i))"
    by (rule bisect_right_loop_spec [OF assms]) auto
  show "bisect_right key xs x \<le> length xs" using S by (simp add: bisect_right_def Let_def)
  show "i < bisect_right key xs x \<longleftrightarrow> key (xs ! i) \<le> x" if "i < length xs"
    using S that by (auto simp: bisect_right_def Let_def) (meson leD not_le)
qed

section \<open>An index sorted by a key and searched by a coarser one\<close>

locale keyed_index =
  fixes key :: "'a \<Rightarrow> 'k::linorder" and coarse :: "'a \<Rightarrow> 'c::linorder"
  assumes coarse_mono: "key a \<le> key b \<Longrightarrow> coarse a \<le> coarse b"
begin

lemma sorted_coarse: "sorted (map key xs) \<Longrightarrow> sorted (map coarse xs)"
  by (auto simp: sorted_map intro: coarse_mono elim: sorted_wrt_mono_rel [rotated])

lemma range_between:
  assumes "sorted (map key xs)"
  shows "set [bisect_left coarse xs a..<bisect_right coarse xs b] =
    {i. i < length xs \<and> a \<le> coarse (xs ! i) \<and> coarse (xs ! i) \<le> b}"
proof -
  note L = bisect_left_spec(2) [OF sorted_coarse [OF assms], of _ a]
    and R = bisect_right_spec(2) [OF sorted_coarse [OF assms], of _ b]
  have "i < length xs" if "i < bisect_right coarse xs b" for i
    using that bisect_right_spec(1) [OF sorted_coarse [OF assms], of b] by simp
  then have "i \<in> set [bisect_left coarse xs a..<bisect_right coarse xs b] \<longleftrightarrow>
      i < length xs \<and> a \<le> coarse (xs ! i) \<and> coarse (xs ! i) \<le> b" for i
    using L [of i] R [of i] by (cases "i < length xs") auto
  then show ?thesis by blast
qed

lemma insert_sorted:
  assumes "sorted (map key xs)"
  shows "sorted (map key (insert_at (bisect_right key xs (key x)) x xs)) \<and>
    mset (insert_at (bisect_right key xs (key x)) x xs) = add_mset x (mset xs)"
proof -
  let ?b = "bisect_right key xs (key x)"
  note B = bisect_right_spec(2) [OF assms, of _ "key x"]
  have "key (xs ! i) \<le> key x" if "i < ?b" for i
    using that B [of i] bisect_right_spec(1) [OF assms, of "key x"] by (meson order.strict_trans2)
  then have "\<forall>y \<in> set (take ?b xs). key y \<le> key x" by (auto simp: in_set_conv_nth)
  moreover have "\<forall>y \<in> set (drop ?b xs). key x \<le> key y"
  proof
    fix y assume "y \<in> set (drop ?b xs)"
    then obtain j where "j < length xs - ?b" "y = xs ! (?b + j)" by (auto simp: in_set_conv_nth)
    then show "key x \<le> key y" using B [of "?b + j"] by force
  qed
  moreover have "sorted (map key (take ?b xs))" "sorted (map key (drop ?b xs))"
    "\<forall>y \<in> set (take ?b xs). \<forall>z \<in> set (drop ?b xs). key y \<le> key z"
    using assms by (metis append_take_drop_id map_append sorted_append, metis append_take_drop_id map_append sorted_append,
        metis (no_types, lifting) append_take_drop_id imageI list.set_map map_append sorted_append)
  ultimately have "sorted (map key (insert_at ?b x xs))" by (auto simp: insert_at_def sorted_append)
  moreover have "mset xs = mset (take ?b xs) + mset (drop ?b xs)" by (metis append_take_drop_id mset_append)
  ultimately show ?thesis by (simp add: insert_at_def)
qed

end

interpretation fl: keyed_index free_lane_key row_order
  by unfold_locales (auto simp: free_lane_key_def row_order_def)

section \<open>The lane an insertion takes\<close>

definition lane_serves :: "(lane_kind \<Rightarrow> bool) \<Rightarrow> int \<Rightarrow> free_lane \<Rightarrow> bool" where
  "lane_serves allowed row l \<longleftrightarrow> fl_row l = row \<and> allowed (fl_kind l)"

definition lane_retains :: "int \<Rightarrow> free_lane \<Rightarrow> bool" where
  "lane_retains col l \<longleftrightarrow> fl_kind l = Tombstone \<and> fl_retained_column l = Some col"

lemma row_order_range: "(row, 0) \<le> row_order l \<and> row_order l \<le> (row, 2) \<longleftrightarrow> fl_row l = row \<and> reusable (fl_kind l)"
  by (cases "fl_kind l") (auto simp: row_order_def reusable_def)

lemma find_upt_Some:
  assumes "List.find P [a..<b] = Some i"
  shows "a \<le> i \<and> i < b \<and> P i \<and> (\<forall>j. a \<le> j \<and> j < i \<longrightarrow> \<not> P j)"
proof -
  obtain k where k: "k < b - a" "i = [a..<b] ! k" "P i" "\<forall>j < k. \<not> P ([a..<b] ! j)"
    using assms by (auto simp: find_Some_iff)
  have "\<not> P j" if "a \<le> j" "j < i" for j
    using that k(1,2) spec [OF k(4), of "j - a"] by simp
  then show ?thesis using k by auto
qed

text \<open>
  C30. Where an inserted entry goes. With the free lanes sorted as the state keeps them, the binary
  searches of the insertion find a lane exactly if some lane of the row has an allowed kind; the
  lane found is of that row and kind, retains the column if any allowed lane of the row does, and
  otherwise is the first allowed one in the order of the index.
\<close>

theorem choose_lane_correct:
  assumes "sorted (map free_lane_key lanes)" and "\<forall>k. allowed k \<longrightarrow> reusable k"
  shows "case choose_lane allowed lanes row col of
      None \<Rightarrow> (\<forall>l \<in> set lanes. \<not> lane_serves allowed row l)
    | Some i \<Rightarrow> i < length lanes \<and> lane_serves allowed row (lanes ! i) \<and>
        (if \<exists>l \<in> set lanes. lane_serves allowed row l \<and> lane_retains col l then lane_retains col (lanes ! i)
         else \<forall>l \<in> set lanes. lane_serves allowed row l \<longrightarrow> free_lane_key (lanes ! i) \<le> free_lane_key l)"
proof -
  let ?a = "bisect_left row_order lanes (row, 0)" and ?b = "bisect_right row_order lanes (row, 2)"
  let ?exact = "\<lambda>i. fl_kind (lanes ! i) = Tombstone \<and> fl_retained_column (lanes ! i) = Some col \<and> allowed (fl_kind (lanes ! i))"
  let ?any = "\<lambda>i. allowed (fl_kind (lanes ! i))"
  have S: "set [?a..<?b] = {i. i < length lanes \<and> (row, 0) \<le> row_order (lanes ! i) \<and> row_order (lanes ! i) \<le> (row, 2)}"
    by (rule fl.range_between) (rule assms(1))
  have "i \<in> set [?a..<?b] \<longleftrightarrow> i < length lanes \<and> ((row, 0) \<le> row_order (lanes ! i) \<and> row_order (lanes ! i) \<le> (row, 2))" for i
    by (simp only: S mem_Collect_eq)
  then have between: "?a \<le> i \<and> i < ?b \<longleftrightarrow> i < length lanes \<and> fl_row (lanes ! i) = row \<and> reusable (fl_kind (lanes ! i))" for i
    by (simp only: set_upt atLeastLessThan_iff row_order_range)
  have serves: "lane_serves allowed row (lanes ! i) \<and> i < length lanes \<longleftrightarrow> ?a \<le> i \<and> i < ?b \<and> ?any i" for i
    using between [of i] assms(2) by (auto simp: lane_serves_def)
  show ?thesis
  proof (cases "List.find ?exact [?a..<?b]")
    case (Some i)
    then have "choose_lane allowed lanes row col = Some i" by (simp add: choose_lane_def Let_def)
    moreover have "lane_serves allowed row (lanes ! i)" "i < length lanes" "lane_retains col (lanes ! i)"
      using find_upt_Some [OF Some] serves [of i] by (auto simp: lane_retains_def)
    moreover from this have "\<exists>l \<in> set lanes. lane_serves allowed row l \<and> lane_retains col l" using nth_mem by blast
    ultimately show ?thesis by simp
  next
    case none: None
    have no: "\<not> (\<exists>l \<in> set lanes. lane_serves allowed row l \<and> lane_retains col l)"
    proof
      assume "\<exists>l \<in> set lanes. lane_serves allowed row l \<and> lane_retains col l"
      then obtain i where "i < length lanes" "lane_serves allowed row (lanes ! i)" "lane_retains col (lanes ! i)"
        by (auto simp: in_set_conv_nth)
      then have "i \<in> set [?a..<?b]" "?exact i" using serves [of i] by (auto simp: lane_retains_def)
      then show False using none unfolding find_None_iff by blast
    qed
    show ?thesis
    proof (cases "List.find ?any [?a..<?b]")
      case None
      then have "choose_lane allowed lanes row col = None" using none by (simp add: choose_lane_def Let_def)
      moreover have "\<not> lane_serves allowed row (lanes ! i)" if "i < length lanes" for i
        using None serves [of i] that unfolding find_None_iff by auto
      ultimately show ?thesis by (auto simp: in_set_conv_nth)
    next
      case (Some i)
      then have "choose_lane allowed lanes row col = Some i" using none by (simp add: choose_lane_def Let_def)
      moreover have "lane_serves allowed row (lanes ! i)" "i < length lanes"
        using find_upt_Some [OF Some] serves [of i] by auto
      note c = calculation this
      have "free_lane_key (lanes ! i) \<le> free_lane_key (lanes ! j)"
        if "j < length lanes" "lane_serves allowed row (lanes ! j)" for j
      proof -
        have "i \<le> j" using find_upt_Some [OF Some] serves [of j] that by (meson not_le)
        then show ?thesis using sorted_nth_mono [OF assms(1), of i j] that(1) by simp
      qed
      then have "\<forall>l \<in> set lanes. lane_serves allowed row l \<longrightarrow> free_lane_key (lanes ! i) \<le> free_lane_key l"
        by (metis in_set_conv_nth)
      then show ?thesis using no c by simp
    qed
  qed
qed

theorem choose_lane_correct_witness:
  "choose_lane (allowed_kind False)
     [\<lparr>fl_row = 0, fl_kind = Tombstone, fl_location = (''c'', ''k'', 0), fl_retained_column = Some 1\<rparr>,
      \<lparr>fl_row = 1, fl_kind = Tombstone, fl_location = (''c'', ''k'', 1), fl_retained_column = Some 0\<rparr>,
      \<lparr>fl_row = 1, fl_kind = Tombstone, fl_location = (''c'', ''k'', 2), fl_retained_column = Some 3\<rparr>] 1 3 = Some 2 \<and>
   lane_retains 3 \<lparr>fl_row = 1, fl_kind = Tombstone, fl_location = (''c'', ''k'', 2), fl_retained_column = Some 3\<rparr>"
proof -
  let ?lanes = "[\<lparr>fl_row = 0, fl_kind = Tombstone, fl_location = (''c'', ''k'', 0), fl_retained_column = Some 1\<rparr>,
      \<lparr>fl_row = 1, fl_kind = Tombstone, fl_location = (''c'', ''k'', 1), fl_retained_column = Some 0\<rparr>,
      \<lparr>fl_row = 1, fl_kind = Tombstone, fl_location = (''c'', ''k'', 2), fl_retained_column = Some 3\<rparr>]"
  have "sorted (map free_lane_key ?lanes)" by code_simp
  moreover have "\<forall>k. allowed_kind False k \<longrightarrow> reusable k" by (simp add: allowed_kind_def reusable_def)
  ultimately have C: "case choose_lane (allowed_kind False) ?lanes 1 3 of
      None \<Rightarrow> (\<forall>l \<in> set ?lanes. \<not> lane_serves (allowed_kind False) 1 l)
    | Some i \<Rightarrow> i < length ?lanes \<and> lane_serves (allowed_kind False) 1 (?lanes ! i) \<and>
        (if \<exists>l \<in> set ?lanes. lane_serves (allowed_kind False) 1 l \<and> lane_retains 3 l then lane_retains 3 (?lanes ! i)
         else \<forall>l \<in> set ?lanes. lane_serves (allowed_kind False) 1 l \<longrightarrow> free_lane_key (?lanes ! i) \<le> free_lane_key l)"
    by (rule choose_lane_correct)
  have "choose_lane (allowed_kind False) ?lanes 1 3 = Some 2" by code_simp
  then show ?thesis using C by (simp add: lane_serves_def lane_retains_def allowed_kind_def)
qed

text \<open>
  C31. The free-lane index stays sorted. Inserting a lane at the position the binary search finds, or
  removing a lane, keeps the index sorted, and changes it by exactly that lane.
\<close>

theorem free_lanes_stay_sorted:
  assumes "sorted (map free_lane_key lanes)"
  shows "sorted (map free_lane_key (insert_free_lane lanes l)) \<and>
    mset (insert_free_lane lanes l) = add_mset l (mset lanes) \<and>
    (i < length lanes \<longrightarrow> sorted (map free_lane_key (remove_at i lanes)) \<and>
       add_mset (lanes ! i) (mset (remove_at i lanes)) = mset lanes)"
proof -
  have "sorted (map free_lane_key (remove_at i lanes)) \<and> add_mset (lanes ! i) (mset (remove_at i lanes)) = mset lanes"
    if "i < length lanes"
  proof -
    have split: "lanes = take i lanes @ lanes ! i # drop (Suc i) lanes" using that by (rule id_take_nth_drop)
    have "sorted (map free_lane_key (take i lanes @ lanes ! i # drop (Suc i) lanes))"
      using assms split by simp
    then have "sorted (map free_lane_key (remove_at i lanes))"
      by (simp add: remove_at_def sorted_append)
    moreover have "mset lanes = mset (take i lanes @ lanes ! i # drop (Suc i) lanes)" using split by simp
    ultimately show ?thesis by (simp add: remove_at_def)
  qed
  then show ?thesis using fl.insert_sorted [OF assms, of l] by (simp add: insert_free_lane_def)
qed

theorem free_lanes_stay_sorted_witness:
  "\<exists>a b. sorted (map free_lane_key [a, b]) \<and> insert_free_lane [a] b = [a, b] \<and> remove_at 0 [a, b] = [b] \<and>
     mset (insert_free_lane [a, b] a) = add_mset a (mset [a, b])"
proof -
  let ?a = "\<lparr>fl_row = 0, fl_kind = Tombstone, fl_location = (''c'', ''k'', 0), fl_retained_column = Some 1\<rparr>"
  let ?b = "\<lparr>fl_row = 1, fl_kind = Reserved, fl_location = (''c'', ''k'', 1), fl_retained_column = None\<rparr>"
  have s: "sorted (map free_lane_key [?a, ?b])" by code_simp
  have "insert_free_lane [?a] ?b = [?a, ?b]" "remove_at 0 [?a, ?b] = [?b]" by code_simp+
  then show ?thesis using s free_lanes_stay_sorted [OF s, of ?a] by blast
qed

end
