(* ===== verification/Metrics.thy ===== *)
theory Metrics
  imports Prelude
begin

text \<open>
  \<open>metrics.py\<close>: the integer counters of one strategy, their constructor check and \<open>merge\<close>. The
  predicted times, which weigh the counters with floating-point unit costs, are not modelled.
\<close>

record strategy_metrics =
  sm_strategy :: string
  sm_category :: string
  sm_windows :: int
  sm_queries :: int
  sm_updates :: int
  sm_update_encryptions :: int
  sm_update_ciphertexts :: int
  sm_compaction_ciphertexts :: int
  sm_query_ciphertexts :: int
  sm_result_ciphertexts :: int
  sm_cc_multiplications :: int
  sm_relinearizations :: int
  sm_rotations :: int
  sm_additions :: int
  sm_plaintext_masks :: int
  sm_blinding_mask_ciphertexts :: int
  sm_blinding_dummy_ciphertexts :: int
  sm_blinding_encryptions :: int
  sm_blinding_additions :: int
  sm_decryptions :: int
  sm_client_merges :: int
  sm_mask_random_elements :: int
  sm_mask_mapped_elements :: int
  sm_client_reorder_elements :: int
  sm_ci_patch_entries :: int
  sm_ci_full_sync_entries :: int
  sm_metadata_units :: int
  sm_overflow_updates :: int
  sm_absorbed_updates :: int
  sm_source :: string

text \<open>The keyword defaults of the class.\<close>

definition zero_metrics :: "string \<Rightarrow> string \<Rightarrow> strategy_metrics" where
  "zero_metrics strategy category = \<lparr>sm_strategy = strategy, sm_category = category, sm_windows = 0,
     sm_queries = 0, sm_updates = 0, sm_update_encryptions = 0, sm_update_ciphertexts = 0,
     sm_compaction_ciphertexts = 0, sm_query_ciphertexts = 0, sm_result_ciphertexts = 0,
     sm_cc_multiplications = 0, sm_relinearizations = 0, sm_rotations = 0, sm_additions = 0,
     sm_plaintext_masks = 0, sm_blinding_mask_ciphertexts = 0, sm_blinding_dummy_ciphertexts = 0,
     sm_blinding_encryptions = 0, sm_blinding_additions = 0, sm_decryptions = 0,
     sm_client_merges = 0, sm_mask_random_elements = 0, sm_mask_mapped_elements = 0,
     sm_client_reorder_elements = 0, sm_ci_patch_entries = 0, sm_ci_full_sync_entries = 0,
     sm_metadata_units = 0, sm_overflow_updates = 0, sm_absorbed_updates = 0,
     sm_source = ''predicted-proxy''\<rparr>"

text \<open>\<open>__post_init__\<close>: the argument \<open>metadata_units\<close> is absent or must be the sum.\<close>

definition checked_metrics :: "int option \<Rightarrow> strategy_metrics \<Rightarrow> strategy_metrics res" where
  "checked_metrics metadata_units m =
     (let expected = sm_ci_patch_entries m + sm_ci_full_sync_entries m in
      case metadata_units of
        None \<Rightarrow> Inr (m\<lparr>sm_metadata_units := expected\<rparr>)
      | Some n \<Rightarrow> if n \<noteq> expected
          then Inl (ValueError ''metadata_units must equal ci_patch_entries + ci_full_sync_entries'')
          else Inr (m\<lparr>sm_metadata_units := n\<rparr>))"

definition add_metrics :: "strategy_metrics \<Rightarrow> strategy_metrics \<Rightarrow> strategy_metrics" where
  "add_metrics m n = m\<lparr>
     sm_windows := sm_windows m + sm_windows n,
     sm_queries := sm_queries m + sm_queries n,
     sm_updates := sm_updates m + sm_updates n,
     sm_update_encryptions := sm_update_encryptions m + sm_update_encryptions n,
     sm_update_ciphertexts := sm_update_ciphertexts m + sm_update_ciphertexts n,
     sm_compaction_ciphertexts := sm_compaction_ciphertexts m + sm_compaction_ciphertexts n,
     sm_query_ciphertexts := sm_query_ciphertexts m + sm_query_ciphertexts n,
     sm_result_ciphertexts := sm_result_ciphertexts m + sm_result_ciphertexts n,
     sm_cc_multiplications := sm_cc_multiplications m + sm_cc_multiplications n,
     sm_relinearizations := sm_relinearizations m + sm_relinearizations n,
     sm_rotations := sm_rotations m + sm_rotations n,
     sm_additions := sm_additions m + sm_additions n,
     sm_plaintext_masks := sm_plaintext_masks m + sm_plaintext_masks n,
     sm_blinding_mask_ciphertexts := sm_blinding_mask_ciphertexts m + sm_blinding_mask_ciphertexts n,
     sm_blinding_dummy_ciphertexts := sm_blinding_dummy_ciphertexts m + sm_blinding_dummy_ciphertexts n,
     sm_blinding_encryptions := sm_blinding_encryptions m + sm_blinding_encryptions n,
     sm_blinding_additions := sm_blinding_additions m + sm_blinding_additions n,
     sm_decryptions := sm_decryptions m + sm_decryptions n,
     sm_client_merges := sm_client_merges m + sm_client_merges n,
     sm_mask_random_elements := sm_mask_random_elements m + sm_mask_random_elements n,
     sm_mask_mapped_elements := sm_mask_mapped_elements m + sm_mask_mapped_elements n,
     sm_client_reorder_elements := sm_client_reorder_elements m + sm_client_reorder_elements n,
     sm_ci_patch_entries := sm_ci_patch_entries m + sm_ci_patch_entries n,
     sm_ci_full_sync_entries := sm_ci_full_sync_entries m + sm_ci_full_sync_entries n,
     sm_metadata_units := sm_metadata_units m + sm_metadata_units n,
     sm_overflow_updates := sm_overflow_updates m + sm_overflow_updates n,
     sm_absorbed_updates := sm_absorbed_updates m + sm_absorbed_updates n\<rparr>"

text \<open>\<open>merge\<close>, with the check that follows the additions.\<close>

definition merge_metrics :: "strategy_metrics \<Rightarrow> strategy_metrics \<Rightarrow> strategy_metrics res" where
  "merge_metrics m n =
     (let s = add_metrics m n in
      if sm_metadata_units s \<noteq> sm_ci_patch_entries s + sm_ci_full_sync_entries s then
        Inl (AssertionError ''metadata_units must equal ci_patch_entries + ci_full_sync_entries'')
      else Inr s)"

end
