(* ===== verification/Simulator.thy ===== *)
theory Simulator
  imports Metrics Strong_Strategy
begin

text \<open>
  \<open>simulator.py\<close>: replaying a list of publication windows through the strategies and adding up what
  each transition costs. Every target runs on its own state; after each window all targets must
  hold the same matrix. The accounting of a query-bearing window compiles the query, or reuses
  the counts of a window whose query had the same shape.
\<close>

section \<open>Data\<close>

record simulation_config =
  sim_rows :: int
  sim_cols :: int
  sim_effective_slots :: int
  sim_partition_rows :: int
  sim_matrix_value_bound :: int
  sim_max_row_nnz :: int
  sim_reserved_slack_beta :: float64
  sim_periodic_repack_windows :: int
  sim_packed_coo_segment_capacity :: int

record simulation_target =
  tg_run_id :: string
  tg_strategy :: strategy_kind
  tg_config :: simulation_config

record rotation_inventory =
  measured_counts_by_exact_index :: "(int \<times> int) list"
  required_indices :: "int list"

definition strong_reference_strategy :: string where
  "strong_reference_strategy = ''Packed-COO-Cloud-Segmented-Delta''"

definition strong_reference_segment_width :: int where
  "strong_reference_segment_width = 128"

fun strategy_name :: "strategy_kind \<Rightarrow> string" where
  "strategy_name PaddingReuse = ''PaddingReuse-CSSC''"
| "strategy_name ReservedSlack = ''ReservedSlack-CSSC''"
| "strategy_name MiniDelta = ''Mini-CSSC-Delta''"
| "strategy_name PackedCOO = ''Packed-COO-Client-Lane-Delta''"
| "strategy_name StrictLocalRepack = ''Strict-LocalRepack''"
| "strategy_name PeriodicRepack = ''PeriodicRepack''"

definition strategies :: "strategy_kind list" where
  "strategies = [PaddingReuse, ReservedSlack, MiniDelta, PackedCOO, StrictLocalRepack, PeriodicRepack]"

text \<open>\<open>RotationInventory.__post_init__\<close>.\<close>

definition checked_inventory :: "rotation_inventory \<Rightarrow> rotation_inventory res" where
  "checked_inventory inventory =
     (let invalid = Inl (ValueError ''rotation inventory must be canonical and complete'');
          measured = map fst (measured_counts_by_exact_index inventory) in
      if \<exists>(index, count) \<in> set (measured_counts_by_exact_index inventory). index = 0 \<or> count \<le> 0 then invalid
      else if measured \<noteq> sorted_set measured then invalid
      else if 0 \<in> set (required_indices inventory) then invalid
      else if required_indices inventory \<noteq> sorted_set (required_indices inventory) then invalid
      else if \<not> set measured \<subseteq> set (required_indices inventory) then invalid
      else Inr inventory)"

record simulation_result =
  sr_metrics :: strategy_metrics
  sr_overflow_by_row :: "(int, int) dict"
  sr_rotation_inventory :: rotation_inventory

datatype f1m_route_kind = RandomZeroSumRoute | EncryptedZeroDummyRoute

record f1m_route =
  fr_result_id :: string
  fr_result_ordinal :: nat
  fr_route_ordinal :: nat
  fr_component_id :: string
  fr_output_block_id :: string
  fr_kind :: f1m_route_kind

record query_plan_accounting =
  qp_version_id :: string
  qp_cloud_program_digest :: string
  qp_output_plan_digest :: string
  qp_execution_binding_digest :: string
  qp_private_plan_digest :: string
  qp_returned_share_count :: int
  qp_f1m_routes :: "f1m_route list"

record window_accounting =
  wa_metrics :: strategy_metrics
  wa_rotations_per_query :: "(int \<times> int) list"
  wa_query_plan :: "query_plan_accounting option"

text \<open>\<open>F1MRouteAccounting.__post_init__\<close>; ordinals and kinds are right by typing.\<close>

definition checked_route :: "f1m_route \<Rightarrow> f1m_route res" where
  "checked_route r =
     (if fr_result_id r = [] then Inl (ValueError ''F1-M route result_id must be a nonempty string'')
      else if fr_component_id r = [] then Inl (ValueError ''F1-M route component_id must be a nonempty string'')
      else if fr_output_block_id r = [] then Inl (ValueError ''F1-M route output_block_id must be a nonempty string'')
      else Inr r)"

fun route_category :: "f1m_route_kind \<Rightarrow> string" where
  "route_category RandomZeroSumRoute = ''query-f1m-random-mask-ciphertexts''"
| "route_category EncryptedZeroDummyRoute = ''query-f1m-encrypted-zero-dummy-ciphertexts''"

fun route_kind_string :: "f1m_route_kind \<Rightarrow> string" where
  "route_kind_string RandomZeroSumRoute = ''random-zero-sum''"
| "route_kind_string EncryptedZeroDummyRoute = ''encrypted-zero-dummy''"

definition route_document :: "f1m_route \<Rightarrow> json" where
  "route_document r = JObj [
     (''category'', JStr (route_category (fr_kind r))),
     (''component_id'', JStr (fr_component_id r)),
     (''f1m_route_ordinal'', JInt (int (fr_route_ordinal r))),
     (''f1m_kind'', JStr (route_kind_string (fr_kind r))),
     (''output_block_id'', JStr (fr_output_block_id r)),
     (''result_id'', JStr (fr_result_id r)),
     (''result_ordinal'', JInt (int (fr_result_ordinal r)))]"

text \<open>\<open>QueryPlanAccounting.__post_init__\<close>.\<close>

definition checked_query_plan :: "query_plan_accounting \<Rightarrow> query_plan_accounting res" where
  "checked_query_plan p =
     (let ordinals = map fr_result_ordinal (qp_f1m_routes p) in
      if qp_returned_share_count p < 0 then
        Inl (ValueError ''query-plan returned-share count must be nonnegative'')
      else if map fr_route_ordinal (qp_f1m_routes p) \<noteq> [0..<length (qp_f1m_routes p)] then
        Inl (ValueError ''query-plan F1-M route ordinals must be contiguous from zero'')
      else if \<not> sorted ordinals \<or> \<not> distinct ordinals \<or>
              (\<exists>i \<in> set ordinals. int i \<ge> qp_returned_share_count p) then
        Inl (ValueError ''query-plan result ordinals are not a canonical subset'')
      else if \<not> distinct (map fr_result_id (qp_f1m_routes p)) then
        Inl (ValueError ''query-plan F1-M result identities are not unique'')
      else Inr p)"

definition route_count :: "f1m_route_kind \<Rightarrow> f1m_route list \<Rightarrow> int" where
  "route_count k rs = int (length (filter (\<lambda>r. fr_kind r = k) rs))"

definition query_plan_document :: "query_plan_accounting \<Rightarrow> json" where
  "query_plan_document p = JObj [
     (''cloud_program_digest'', JStr (qp_cloud_program_digest p)),
     (''dummy_route_count_per_query'', JInt (route_count EncryptedZeroDummyRoute (qp_f1m_routes p))),
     (''execution_binding_digest'', JStr (qp_execution_binding_digest p)),
     (''f1m_routes'', JList (map route_document (qp_f1m_routes p))),
     (''output_plan_digest'', JStr (qp_output_plan_digest p)),
     (''private_plan_digest'', JStr (qp_private_plan_digest p)),
     (''random_route_count_per_query'', JInt (route_count RandomZeroSumRoute (qp_f1m_routes p))),
     (''returned_share_count_per_query'', JInt (qp_returned_share_count p)),
     (''schema_version'', JStr ''dynamic-cssc-window-query-plan-accounting-v2''),
     (''version_id'', JStr (qp_version_id p))]"

section \<open>Accounting of one transition\<close>

definition rotation_counts_for_program :: "cloud_program \<Rightarrow> (int, int) dict" where
  "rotation_counts_for_program p = counter_of (concat (map (\<lambda>n. case n of
     Rotate r a shift index \<Rightarrow> [index] | _ \<Rightarrow> []) (nodes p)))"

definition masked_output_share_ids :: "output_plan \<Rightarrow> (string \<times> string) list" where
  "masked_output_share_ids plan =
     (let multiplicity = counter_of (concat (map (\<lambda>s. map snd (slot_to_logical s)) (shares plan)))
      in map share_id (filter (\<lambda>s. \<exists>(_, logical) \<in> set (slot_to_logical s). dict_get multiplicity logical 0 > 1)
           (shares plan)))"

definition transition_metrics :: "string \<Rightarrow> transition_facts \<Rightarrow> int \<Rightarrow> strategy_metrics res" where
  "transition_metrics strategy f rebuilt =
     checked_metrics (Some (ci_patch_entries f + ci_full_sync_entries f))
       ((zero_metrics strategy ''reference'')\<lparr>sm_windows := 1, sm_queries := tf_query_count f,
          sm_updates := tf_updates f,
          sm_update_encryptions := value_patch_chunks f + rebuilt + delta_rebuilt_ciphertexts f,
          sm_update_ciphertexts := value_patch_chunks f + delta_rebuilt_ciphertexts f,
          sm_compaction_ciphertexts := rebuilt,
          sm_ci_patch_entries := ci_patch_entries f, sm_ci_full_sync_entries := ci_full_sync_entries f,
          sm_overflow_updates := tf_overflow f,
          sm_absorbed_updates := absorbed_tombstone f + absorbed_natural_padding f + absorbed_reserved f,
          sm_source := ''persistent-state-predicted''\<rparr>)"

text \<open>The counters both kinds of transition take from the compiled query alike.\<close>

definition query_metrics ::
  "int \<Rightarrow> cloud_plan_counts \<Rightarrow> output_plan_analysis \<Rightarrow> int \<Rightarrow> strategy_metrics \<Rightarrow> strategy_metrics"
where
  "query_metrics queries c a query_ciphertexts m = m\<lparr>
     sm_query_ciphertexts := queries * query_ciphertexts,
     sm_cc_multiplications := queries * n_multiply_ciphertexts c,
     sm_relinearizations := queries * n_relinearizations c,
     sm_rotations := queries * n_rotations c,
     sm_additions := queries * n_add_ciphertexts c,
     sm_plaintext_masks := queries * n_multiply_plaintext_masks c,
     sm_result_ciphertexts := queries * n_returned_ciphertexts c,
     sm_decryptions := queries * n_returned_ciphertexts c,
     sm_client_merges := queries * client_modular_additions a,
     sm_mask_mapped_elements := queries * mask_mapped_elements a,
     sm_client_reorder_elements := queries * client_reorder_elements a\<rparr>"

definition query_ciphertext_count :: "cloud_plan_counts \<Rightarrow> int" where
  "query_ciphertext_count c = dict_get (dict_of (n_ciphertext_inputs_by_role c)) ''query'' 0"

text \<open>The routes with a mask, numbered, at their place among all results.\<close>

definition ordinary_routes :: "result_route list \<Rightarrow> f1m_route list" where
  "ordinary_routes rs =
     map (\<lambda>(k, i, r). \<lparr>fr_result_id = rr_result_id r, fr_result_ordinal = i, fr_route_ordinal = k,
            fr_component_id = rr_component_id r, fr_output_block_id = rr_output_block_id r,
            fr_kind = RandomZeroSumRoute\<rparr>)
       (let masked = filter (\<lambda>(_, r). f1m_ciphertext_id r \<noteq> None) (zip [0..<length rs] rs)
        in zip [0..<length masked] masked)"

definition account_transition_with_compiled ::
  "transition \<Rightarrow> (window_accounting \<times> compiled_query option) res"
where
  "account_transition_with_compiled t =
     (let st = tr_state t; f = tr_facts t; queries = tf_query_count f in
      rbind (transition_metrics (strategy_name (st_strategy st)) f (rebuilt_ciphertexts f)) (\<lambda>m.
      if queries = 0 then
        Inr (\<lparr>wa_metrics = m, wa_rotations_per_query = [], wa_query_plan = None\<rparr>, None)
      else case tr_output_plan t of
        None \<Rightarrow> Inl (AssertionError ''query-bearing ordinary transition must carry an OutputPlan'')
      | Some plan \<Rightarrow>
      rbind (compile_query (case st_delta st of None \<Rightarrow> [st_base st] | Some d \<Rightarrow> [st_base st, d]) None
               (st_coo_segments st) OverlapOnly) (\<lambda>q.
      rbind (canonical_output_plan_payload (cq_output_plan q)) (\<lambda>compiled_payload.
      rbind (canonical_output_plan_payload plan) (\<lambda>payload.
      if compiled_payload \<noteq> payload then
        Inl (AssertionError ''compiled OutputPlan must canonically match the transition OutputPlan'')
      else
      let c = cloud_counts q; a = output_analysis q; n = query_ciphertext_count c in
      if \<not> (n = n_multiply_ciphertexts c \<and> n_multiply_ciphertexts c = n_relinearizations c \<and>
             n_returned_ciphertexts c = result_ciphertexts a \<and>
             n_add_f1m_masks c = masked_result_ciphertexts a) then
        Inl (AssertionError ''ordinary typed query accounting must be closed'')
      else
      let m = (query_metrics queries c a n m)\<lparr>
            sm_blinding_mask_ciphertexts := queries * n_add_f1m_masks c,
            sm_blinding_encryptions := queries * n_add_f1m_masks c,
            sm_blinding_additions := queries * n_add_f1m_masks c,
            sm_mask_random_elements := queries * mask_random_elements a\<rparr>;
          rotations = rotation_counts_for_program (program (cloud_plan q)) in
      if sum_list (map snd rotations) \<noteq> n_rotations c then
        Inl (AssertionError ''exact rotation counts must reconcile with the query DAG'')
      else
      rbind (rmap checked_route (ordinary_routes (result_routes q))) (\<lambda>routes.
      if int (length routes) * queries \<noteq> sm_blinding_mask_ciphertexts m then
        Inl (AssertionError ''ordinary F1-M route classes must reconcile with metrics'')
      else
      rbind (checked_query_plan
         \<lparr>qp_version_id = eb_version_id (binding (cloud_plan q)),
          qp_cloud_program_digest = cq_cloud_program_digest q,
          qp_output_plan_digest = cq_output_plan_digest q,
          qp_execution_binding_digest = cq_execution_binding_digest q,
          qp_private_plan_digest = private_plan_digest q,
          qp_returned_share_count = int (length (result_routes q)), qp_f1m_routes = routes\<rparr>) (\<lambda>query_plan.
      Inr (\<lparr>wa_metrics = m, wa_rotations_per_query = sort rotations, wa_query_plan = Some query_plan\<rparr>,
           Some q))))))))"

definition account_transition :: "transition \<Rightarrow> window_accounting res" where
  "account_transition t = rbind (account_transition_with_compiled t) (\<lambda>(accounting, _). Inr accounting)"

definition strong_accounting_closed ::
  "cloud_plan_counts \<Rightarrow> output_plan_analysis \<Rightarrow> f1m_operand_counts \<Rightarrow> bool"
where
  "strong_accounting_closed c a f \<longleftrightarrow>
     query_ciphertext_count c = n_multiply_ciphertexts c \<and> n_multiply_ciphertexts c = n_relinearizations c \<and>
     n_returned_ciphertexts c = result_ciphertexts a \<and> n_returned_ciphertexts c = n_add_f1m_masks c \<and>
     n_returned_ciphertexts c = ciphertext_additions f \<and>
     n_returned_ciphertexts c = random_zero_sum_ciphertexts f + encrypted_zero_dummy_ciphertexts f \<and>
     random_zero_sum_ciphertexts f = masked_result_ciphertexts a \<and>
     random_elements f = mask_random_elements a"

definition strong_f1m_routes :: "(string \<times> string) list \<Rightarrow> private_result_route list \<Rightarrow> f1m_route list" where
  "strong_f1m_routes masked rs = map (\<lambda>(i, r).
     \<lparr>fr_result_id = pr_route_result_id r, fr_result_ordinal = i, fr_route_ordinal = i,
      fr_component_id = pr_component_id r, fr_output_block_id = pr_output_block_id r,
      fr_kind = (if output_share_id r \<in> set masked then RandomZeroSumRoute else EncryptedZeroDummyRoute)\<rparr>)
     (zip [0..<length rs] rs)"

definition account_strong_transition_with_bundle ::
  "strong_transition \<Rightarrow> (window_accounting \<times> strong_bundle option) res"
where
  "account_strong_transition_with_bundle t =
     (let f = stt_facts t; queries = tf_query_count f in
      if rebuilt_ciphertexts f \<noteq> 0 then
        Inl (AssertionError ''the frozen strong policy must not compact or rebuild the base'')
      else
      rbind (transition_metrics strong_reference_strategy f 0) (\<lambda>m.
      if queries = 0 then
        Inr (\<lparr>wa_metrics = m, wa_rotations_per_query = [], wa_query_plan = None\<rparr>, None)
      else case (stt_output_plan t, stt_execution_bundle t) of
        (Some _, Some b) \<Rightarrow>
          let c = sb_cloud_counts b; a = sb_output_analysis b; u = sb_f1m_counts b in
          if \<not> strong_accounting_closed c a u then
            Inl (AssertionError ''strong typed query and uniform F1M accounting must be closed'')
          else
          let m = (query_metrics queries c a (query_ciphertext_count c) m)\<lparr>
                sm_blinding_mask_ciphertexts := queries * random_zero_sum_ciphertexts u,
                sm_blinding_dummy_ciphertexts := queries * encrypted_zero_dummy_ciphertexts u,
                sm_blinding_encryptions := queries *
                  (random_zero_sum_ciphertexts u + encrypted_zero_dummy_ciphertexts u),
                sm_blinding_additions := queries * ciphertext_additions u,
                sm_mask_random_elements := queries * random_elements u\<rparr>;
              rotations = rotation_counts_for_program (program (sb_cloud_plan b)) in
          if sum_list (map snd rotations) \<noteq> n_rotations c then
            Inl (AssertionError ''exact rotation counts must reconcile with the query DAG'')
          else
          rbind (rmap checked_route (strong_f1m_routes (masked_output_share_ids (sb_output_plan b))
                   (sb_result_routes b))) (\<lambda>routes.
          if route_count RandomZeroSumRoute routes * queries \<noteq> sm_blinding_mask_ciphertexts m \<or>
             route_count EncryptedZeroDummyRoute routes * queries \<noteq> sm_blinding_dummy_ciphertexts m then
            Inl (AssertionError ''strong F1-M route classes must reconcile with metrics'')
          else
          rbind (checked_query_plan
             \<lparr>qp_version_id = st_version_id (stt_state t),
              qp_cloud_program_digest = sb_cloud_program_digest b,
              qp_output_plan_digest = sb_output_plan_digest b,
              qp_execution_binding_digest = sb_execution_binding_digest b,
              qp_private_plan_digest = sb_private_plan_digest b,
              qp_returned_share_count = int (length (sb_result_routes b)), qp_f1m_routes = routes\<rparr>)
            (\<lambda>query_plan.
          Inr (\<lparr>wa_metrics = m, wa_rotations_per_query = sort rotations,
                wa_query_plan = Some query_plan\<rparr>, Some b)))
      | _ \<Rightarrow> Inl (AssertionError ''query-bearing strong transition must carry its execution bundle'')))"

definition account_strong_transition :: "strong_transition \<Rightarrow> window_accounting res" where
  "account_strong_transition t = rbind (account_strong_transition_with_bundle t) (\<lambda>(accounting, _). Inr accounting)"

end
