(* ===== verification/Simulation.thy ===== *)
theory Simulation
  imports Simulator
begin

text \<open>
  \<open>simulator.py\<close>: the replays. \<open>simulate_targets\<close> and \<open>simulate_strong_reference\<close> measure a
  suffix of the windows; their causal variants run once, fill a tuning and a held-out accumulator,
  and account a query whose shape they have seen from a template. What Python keeps in one
  dictionary per quantity, keyed by run id, is here one record per target, in the targets' order.
\<close>

section \<open>Query templates\<close>

definition chunk_shapes :: "published_component \<Rightarrow> (int \<times> int) list list" where
  "chunk_shapes c = map (\<lambda>b. map (\<lambda>ch. (width ch, height ch)) (chunks b)) (blocks c)"

type_synonym query_shape =
  "int \<times> int \<times> (int \<times> int) list list list \<times> (string \<times> string \<times> (int \<times> int) list) list"

definition query_shape_of :: "published_component list \<Rightarrow> output_plan \<Rightarrow> query_shape" where
  "query_shape_of cs plan = (logical_output_size plan, op_slot_count plan, map chunk_shapes cs,
     map (\<lambda>s. (os_component_id s, os_output_block_id s, slot_to_logical s)) (shares plan))"

definition query_shape :: "transition \<Rightarrow> query_shape res" where
  "query_shape t = (case tr_output_plan t of
     None \<Rightarrow> Inl (AssertionError ''query shape requires a query-bearing transition'')
   | Some plan \<Rightarrow> Inr (query_shape_of (case st_delta (tr_state t) of None \<Rightarrow> [st_base (tr_state t)]
       | Some d \<Rightarrow> [st_base (tr_state t), d]) plan))"

definition strong_query_shape :: "strong_transition \<Rightarrow> query_shape res" where
  "strong_query_shape t = (case stt_output_plan t of
     None \<Rightarrow> Inl (AssertionError ''query shape requires a query-bearing transition'')
   | Some plan \<Rightarrow> Inr (query_shape_of [st_base (stt_state t)] plan))"

text \<open>The counters that are linear in the number of queries: name, reader and writer.\<close>

definition query_linear_metric_fields ::
  "(string \<times> (strategy_metrics \<Rightarrow> int) \<times> (int \<Rightarrow> strategy_metrics \<Rightarrow> strategy_metrics)) list"
where
  "query_linear_metric_fields = [
     (''query_ciphertexts'', sm_query_ciphertexts, \<lambda>v. sm_query_ciphertexts_update (\<lambda>_. v)),
     (''result_ciphertexts'', sm_result_ciphertexts, \<lambda>v. sm_result_ciphertexts_update (\<lambda>_. v)),
     (''cc_multiplications'', sm_cc_multiplications, \<lambda>v. sm_cc_multiplications_update (\<lambda>_. v)),
     (''relinearizations'', sm_relinearizations, \<lambda>v. sm_relinearizations_update (\<lambda>_. v)),
     (''rotations'', sm_rotations, \<lambda>v. sm_rotations_update (\<lambda>_. v)),
     (''additions'', sm_additions, \<lambda>v. sm_additions_update (\<lambda>_. v)),
     (''plaintext_masks'', sm_plaintext_masks, \<lambda>v. sm_plaintext_masks_update (\<lambda>_. v)),
     (''blinding_mask_ciphertexts'', sm_blinding_mask_ciphertexts, \<lambda>v. sm_blinding_mask_ciphertexts_update (\<lambda>_. v)),
     (''blinding_dummy_ciphertexts'', sm_blinding_dummy_ciphertexts, \<lambda>v. sm_blinding_dummy_ciphertexts_update (\<lambda>_. v)),
     (''blinding_encryptions'', sm_blinding_encryptions, \<lambda>v. sm_blinding_encryptions_update (\<lambda>_. v)),
     (''blinding_additions'', sm_blinding_additions, \<lambda>v. sm_blinding_additions_update (\<lambda>_. v)),
     (''decryptions'', sm_decryptions, \<lambda>v. sm_decryptions_update (\<lambda>_. v)),
     (''client_merges'', sm_client_merges, \<lambda>v. sm_client_merges_update (\<lambda>_. v)),
     (''mask_random_elements'', sm_mask_random_elements, \<lambda>v. sm_mask_random_elements_update (\<lambda>_. v)),
     (''mask_mapped_elements'', sm_mask_mapped_elements, \<lambda>v. sm_mask_mapped_elements_update (\<lambda>_. v)),
     (''client_reorder_elements'', sm_client_reorder_elements, \<lambda>v. sm_client_reorder_elements_update (\<lambda>_. v))]"

record accounting_template =
  at_counts_per_query :: "(string \<times> int) list"
  at_rotations_per_query :: "(int \<times> int) list"

definition query_template :: "window_accounting \<Rightarrow> accounting_template res" where
  "query_template a =
     (let queries = sm_queries (wa_metrics a) in
      if queries \<le> 0 then
        Inl (AssertionError ''query templates require a query-bearing accounting record'')
      else rbind (rmap (\<lambda>(field, read, _). let v = read (wa_metrics a) in
          if v mod queries \<noteq> 0 then
            Inl (AssertionError ''query accounting must be exactly linear in query count'')
          else Inr (field, v div queries)) query_linear_metric_fields) (\<lambda>counts.
      Inr \<lparr>at_counts_per_query = counts, at_rotations_per_query = wa_rotations_per_query a\<rparr>))"

definition set_metric :: "string \<Rightarrow> int \<Rightarrow> strategy_metrics \<Rightarrow> strategy_metrics" where
  "set_metric field v m = (case map_of query_linear_metric_fields field of
     None \<Rightarrow> m | Some (_, update) \<Rightarrow> update v m)"

definition apply_query_template ::
  "window_accounting \<Rightarrow> accounting_template \<Rightarrow> int \<Rightarrow> window_accounting"
where
  "apply_query_template a template queries =
     \<lparr>wa_metrics = foldl (\<lambda>m (field, per_query). set_metric field (per_query * queries) m)
        ((wa_metrics a)\<lparr>sm_queries := queries\<rparr>) (at_counts_per_query template),
      wa_rotations_per_query = at_rotations_per_query template, wa_query_plan = None\<rparr>"

type_synonym template_cache = "(query_shape, accounting_template) dict"

definition without_queries :: "transition \<Rightarrow> transition res" where
  "without_queries t =
     rbind (checked_facts ((tr_facts t)\<lparr>tf_query_count := 0\<rparr>)) (\<lambda>f. checked_transition (tr_state t) f None)"

definition cached_ordinary_accounting ::
  "transition \<Rightarrow> template_cache \<Rightarrow> (window_accounting \<times> template_cache) res"
where
  "cached_ordinary_accounting t cache =
     (let queries = tf_query_count (tr_facts t) in
      if queries = 0 then rbind (account_transition t) (\<lambda>a. Inr (a, cache))
      else rbind (query_shape t) (\<lambda>shape.
        case map_of cache shape of
          None \<Rightarrow> rbind (account_transition t) (\<lambda>a. rbind (query_template a) (\<lambda>template.
            Inr (a, AList.update shape template cache)))
        | Some template \<Rightarrow> rbind (without_queries t) (\<lambda>zero_query.
            rbind (account_transition zero_query) (\<lambda>a.
            Inr (apply_query_template a template queries, cache)))))"

definition strong_without_queries :: "strong_transition \<Rightarrow> strong_transition res" where
  "strong_without_queries t =
     rbind (checked_facts ((stt_facts t)\<lparr>tf_query_count := 0\<rparr>)) (\<lambda>f. checked_strong_transition (stt_state t) f None)"

definition cached_strong_accounting ::
  "strong_transition \<Rightarrow> template_cache \<Rightarrow> (window_accounting \<times> template_cache) res"
where
  "cached_strong_accounting t cache =
     (let queries = tf_query_count (stt_facts t) in
      if queries = 0 then rbind (account_strong_transition t) (\<lambda>a. Inr (a, cache))
      else rbind (strong_query_shape t) (\<lambda>shape.
        case map_of cache shape of
          None \<Rightarrow> rbind (account_strong_transition t) (\<lambda>a. rbind (query_template a) (\<lambda>template.
            Inr (a, AList.update shape template cache)))
        | Some template \<Rightarrow> rbind (strong_without_queries t) (\<lambda>zero_query.
            rbind (account_strong_transition zero_query) (\<lambda>a.
            Inr (apply_query_template a template queries, cache)))))"

section \<open>Accumulators\<close>

record causal_accumulator =
  ca_metrics :: strategy_metrics
  ca_overflow_by_row :: "(int, int) dict"
  ca_measured_rotations :: "(int, int) dict"
  ca_required_indices :: "int list"

definition accumulator_for :: "string \<Rightarrow> causal_accumulator" where
  "accumulator_for strategy =
     \<lparr>ca_metrics = (zero_metrics strategy ''reference'')\<lparr>sm_source := ''persistent-state-predicted''\<rparr>,
      ca_overflow_by_row = [], ca_measured_rotations = [], ca_required_indices = []\<rparr>"

text \<open>\<open>Counter.update\<close> with a mapping adds the counts; \<open>set.update\<close> with one adds its keys.\<close>

definition counter_update :: "('k, int) dict \<Rightarrow> ('k \<times> int) list \<Rightarrow> ('k, int) dict" where
  "counter_update d items = foldl (\<lambda>d (k, c). AList.update k (dict_get d k 0 + c) d) d items"

definition require_indices :: "(int, int) dict \<Rightarrow> causal_accumulator \<Rightarrow> causal_accumulator" where
  "require_indices rotations acc =
     acc\<lparr>ca_required_indices := foldl (\<lambda>s (index, _). List.insert index s) (ca_required_indices acc) rotations\<rparr>"

definition measure_rotations :: "(int, int) dict \<Rightarrow> int \<Rightarrow> causal_accumulator \<Rightarrow> causal_accumulator" where
  "measure_rotations rotations queries acc =
     acc\<lparr>ca_measured_rotations := counter_update (ca_measured_rotations acc)
       (dict_of (map (\<lambda>(index, count). (index, count * queries)) rotations))\<rparr>"

definition measure_counts ::
  "strategy_metrics \<Rightarrow> int list \<Rightarrow> causal_accumulator \<Rightarrow> causal_accumulator res"
where
  "measure_counts metrics rows acc =
     rbind (merge_metrics (ca_metrics acc) metrics) (\<lambda>m.
     Inr (acc\<lparr>ca_metrics := m, ca_overflow_by_row := foldl counter_add (ca_overflow_by_row acc) rows\<rparr>))"

definition acc_require :: "window_accounting \<Rightarrow> causal_accumulator \<Rightarrow> causal_accumulator" where
  "acc_require a acc = (if sm_queries (wa_metrics a) \<noteq> 0
     then require_indices (dict_of (wa_rotations_per_query a)) acc else acc)"

definition acc_measure ::
  "window_accounting \<Rightarrow> int list \<Rightarrow> causal_accumulator \<Rightarrow> causal_accumulator res"
where
  "acc_measure a rows acc = rbind (measure_counts (wa_metrics a) rows acc) (\<lambda>acc.
     Inr (if sm_queries (wa_metrics a) \<noteq> 0
       then measure_rotations (wa_rotations_per_query a) (sm_queries (wa_metrics a)) acc else acc))"

definition rotation_inventory_of :: "causal_accumulator \<Rightarrow> rotation_inventory res" where
  "rotation_inventory_of acc =
     (let items = sort (ca_measured_rotations acc) in
      if sum_list (map snd items) \<noteq> sm_rotations (ca_metrics acc) then
        Inl (AssertionError ''measured rotation inventory must reconcile with metrics'')
      else checked_inventory \<lparr>measured_counts_by_exact_index = items,
        required_indices = sort (ca_required_indices acc)\<rparr>)"

definition acc_result :: "causal_accumulator \<Rightarrow> simulation_result res" where
  "acc_result acc = rbind (rotation_inventory_of acc) (\<lambda>inventory.
     Inr \<lparr>sr_metrics = ca_metrics acc, sr_overflow_by_row = dict_of (sort (ca_overflow_by_row acc)),
       sr_rotation_inventory = inventory\<rparr>)"

section \<open>Replaying the ordinary strategies\<close>

definition check_target :: "string list \<Rightarrow> simulation_target \<Rightarrow> string list res" where
  "check_target run_ids t =
     (if tg_run_id t = [] then Inl (ValueError ''target run_id must be a nonempty string'')
      else if tg_run_id t \<in> set run_ids then Inl (ValueError ''target run_id values must be unique'')
      else Inr (tg_run_id t # run_ids))"

definition start_strategy :: "(coord, int) dict \<Rightarrow> simulation_target \<Rightarrow> strategy_state res" where
  "start_strategy initial t =
     (let c = tg_config t in
      initialize_strategy (tg_strategy t) initial (sim_rows c) (sim_cols c) (sim_effective_slots c)
        (Some (sim_partition_rows c)) (sim_matrix_value_bound c) (sim_max_row_nnz c)
        (sim_reserved_slack_beta c) (sim_periodic_repack_windows c) (sim_packed_coo_segment_capacity c))"

definition fresh_predecessor :: validated_predecessor where
  "fresh_predecessor = \<lparr>vp_for_this_state = True, vp_consumed = False\<rparr>"

text \<open>Each state is advanced with the capability minted for it after the previous window.\<close>

definition advance_owned :: "publication_window \<Rightarrow> strategy_state \<Rightarrow> transition res" where
  "advance_owned w st = fst (advance_publication st w (Some fresh_predecessor))"

definition same_logical :: "transition list \<Rightarrow> bool" where
  "same_logical ts = (case ts of [] \<Rightarrow> True
     | t # rest \<Rightarrow> \<forall>u \<in> set rest. dict_eq (st_logical (tr_state u)) (st_logical (tr_state t)))"

definition check_agreement :: "transition list \<Rightarrow> unit res" where
  "check_agreement ts = (if same_logical ts then Inr ()
     else Inl (AssertionError ''all targets must publish the same logical state per window''))"

record target_run =
  run_target :: simulation_target
  run_state :: strategy_state
  run_totals :: causal_accumulator

definition start_run :: "(coord, int) dict \<Rightarrow> simulation_target \<Rightarrow> target_run res" where
  "start_run initial t = rbind (start_strategy initial t) (\<lambda>st.
     Inr \<lparr>run_target = t, run_state = st, run_totals = accumulator_for (strategy_name (tg_strategy t))\<rparr>)"

definition account_position :: "bool \<Rightarrow> transition \<Rightarrow> causal_accumulator \<Rightarrow> causal_accumulator res" where
  "account_position measured t acc =
     rbind (account_transition t) (\<lambda>a.
     let queries = tf_query_count (tr_facts t);
         rotations = dict_of (wa_rotations_per_query a);
         acc = (if queries \<noteq> 0 then require_indices rotations acc else acc);
         acc = (if queries \<noteq> 0 \<and> measured then measure_rotations rotations queries acc else acc)
     in if measured then measure_counts (wa_metrics a) (overflow_rows (tr_facts t)) acc else Inr acc)"

definition account_run :: "bool \<Rightarrow> target_run \<times> transition \<Rightarrow> target_run res" where
  "account_run measured = (\<lambda>(r, t). rbind (account_position measured t (run_totals r)) (\<lambda>acc.
     Inr (r\<lparr>run_state := tr_state t, run_totals := acc\<rparr>)))"

definition replay_window ::
  "int \<Rightarrow> target_run list \<Rightarrow> nat \<times> publication_window \<Rightarrow> target_run list res"
where
  "replay_window measure_from runs = (\<lambda>(position, w).
     rbind (rmap (\<lambda>r. advance_owned w (run_state r)) runs) (\<lambda>ts.
     rbind (check_agreement ts) (\<lambda>_.
     rmap (account_run (int position \<ge> measure_from)) (zip runs ts))))"

definition run_result :: "target_run \<Rightarrow> (string \<times> simulation_result) res" where
  "run_result r = rbind (acc_result (run_totals r)) (\<lambda>result. Inr (tg_run_id (run_target r), result))"

definition simulate_targets ::
  "publication_window list \<Rightarrow> (coord, int) dict \<Rightarrow> simulation_target list \<Rightarrow> int \<Rightarrow>
     (string, simulation_result) dict res"
where
  "simulate_targets windows initial targets measure_from =
     (if targets = [] then Inl (ValueError ''targets must not be empty'')
      else if measure_from < 0 \<or> measure_from > int (length windows) then
        Inl (ValueError ''measure_from must be a strict integer in [0, len(windows)]'')
      else
      rbind (rfold check_target [] targets) (\<lambda>_.
      rbind (rmap (start_run initial) targets) (\<lambda>runs.
      rbind (rfold (replay_window measure_from) runs (enumerate 0 windows)) (\<lambda>runs.
      rbind (rfold (\<lambda>_ r. assert_strategy_invariants (run_state r)) () runs) (\<lambda>_.
      rmap run_result runs)))))"

definition simulate ::
  "publication_window list \<Rightarrow> (coord, int) dict \<Rightarrow> simulation_config \<Rightarrow> int \<Rightarrow> strategy_metrics list res"
where
  "simulate windows initial config measure_from =
     rbind (simulate_targets windows initial
       (map (\<lambda>k. \<lparr>tg_run_id = strategy_name k, tg_strategy = k, tg_config = config\<rparr>) strategies)
       measure_from) (\<lambda>results.
     Inr (sort_key sm_strategy (map (\<lambda>(_, r). sr_metrics r) results)))"

section \<open>The causal replay\<close>

record causal_run =
  cr_target :: simulation_target
  cr_state :: strategy_state
  cr_tuning :: causal_accumulator
  cr_held_out :: causal_accumulator
  cr_templates :: template_cache

definition start_causal_run :: "(coord, int) dict \<Rightarrow> simulation_target \<Rightarrow> causal_run res" where
  "start_causal_run initial t = rbind (start_strategy initial t) (\<lambda>st.
     Inr \<lparr>cr_target = t, cr_state = st, cr_tuning = accumulator_for (strategy_name (tg_strategy t)),
       cr_held_out = accumulator_for (strategy_name (tg_strategy t)), cr_templates = []\<rparr>)"

text \<open>Which accumulator a window counts in, by its position.\<close>

definition causal_account ::
  "int \<Rightarrow> int \<Rightarrow> int \<Rightarrow> window_accounting \<Rightarrow> int list \<Rightarrow>
     causal_accumulator \<times> causal_accumulator \<Rightarrow> (causal_accumulator \<times> causal_accumulator) res"
where
  "causal_account warmup_end tuning_end position a rows = (\<lambda>(tuning, held_out).
     let held_out = acc_require a held_out;
         tuning = (if position < tuning_end then acc_require a tuning else tuning) in
     if warmup_end \<le> position \<and> position < tuning_end then
       rbind (acc_measure a rows tuning) (\<lambda>tuning. Inr (tuning, held_out))
     else if position \<ge> tuning_end then
       rbind (acc_measure a rows held_out) (\<lambda>held_out. Inr (tuning, held_out))
     else Inr (tuning, held_out))"

definition causal_boundaries_ok :: "int \<Rightarrow> int \<Rightarrow> publication_window list \<Rightarrow> bool" where
  "causal_boundaries_ok warmup_end tuning_end windows \<longleftrightarrow>
     0 \<le> warmup_end \<and> warmup_end < tuning_end \<and> tuning_end < int (length windows)"

definition account_causal_run :: "int \<Rightarrow> int \<Rightarrow> int \<Rightarrow> causal_run \<times> transition \<Rightarrow> causal_run res" where
  "account_causal_run warmup_end tuning_end position = (\<lambda>(r, t).
     rbind (cached_ordinary_accounting t (cr_templates r)) (\<lambda>(a, templates).
     rbind (causal_account warmup_end tuning_end position a (overflow_rows (tr_facts t))
              (cr_tuning r, cr_held_out r)) (\<lambda>(tuning, held_out).
     Inr (r\<lparr>cr_state := tr_state t, cr_tuning := tuning, cr_held_out := held_out,
            cr_templates := templates\<rparr>))))"

definition replay_causal_window ::
  "int \<Rightarrow> int \<Rightarrow> causal_run list \<Rightarrow> nat \<times> publication_window \<Rightarrow> causal_run list res"
where
  "replay_causal_window warmup_end tuning_end runs = (\<lambda>(position, w).
     rbind (rmap (\<lambda>r. advance_owned w (cr_state r)) runs) (\<lambda>ts.
     rbind (check_agreement ts) (\<lambda>_.
     rmap (account_causal_run warmup_end tuning_end (int position)) (zip runs ts))))"

definition simulate_targets_causal ::
  "publication_window list \<Rightarrow> (coord, int) dict \<Rightarrow> simulation_target list \<Rightarrow> int \<Rightarrow> int \<Rightarrow>
     ((string, simulation_result) dict \<times> (string, simulation_result) dict) res"
where
  "simulate_targets_causal windows initial targets warmup_end tuning_end =
     (if targets = [] then Inl (ValueError ''targets must not be empty'')
      else if \<not> causal_boundaries_ok warmup_end tuning_end windows then
        Inl (ValueError ''causal boundaries must satisfy 0 <= warmup < tuning < windows'')
      else
      rbind (rfold check_target [] targets) (\<lambda>_.
      rbind (rmap (start_causal_run initial) targets) (\<lambda>runs.
      rbind (rfold (replay_causal_window warmup_end tuning_end) runs (enumerate 0 windows)) (\<lambda>runs.
      rbind (rfold (\<lambda>_ r. assert_strategy_invariants (cr_state r)) () runs) (\<lambda>_.
      rbind (rmap (\<lambda>r. rbind (acc_result (cr_tuning r)) (\<lambda>s. Inr (tg_run_id (cr_target r), s))) runs) (\<lambda>tuning.
      rbind (rmap (\<lambda>r. rbind (acc_result (cr_held_out r)) (\<lambda>s. Inr (tg_run_id (cr_target r), s))) runs) (\<lambda>held_out.
      Inr (tuning, held_out))))))))"

section \<open>The strong reference\<close>

definition start_strong_reference :: "(coord, int) dict \<Rightarrow> simulation_config \<Rightarrow> strong_strategy_state res" where
  "start_strong_reference initial c =
     initialize_strong_strategy initial (sim_rows c) (sim_cols c) (sim_effective_slots c)
       strong_reference_segment_width (Some (sim_partition_rows c)) (sim_matrix_value_bound c)
       (sim_max_row_nnz c) (0, 0)"

definition advance_owned_strong :: "publication_window \<Rightarrow> strong_strategy_state \<Rightarrow> strong_transition res" where
  "advance_owned_strong w st = fst (advance_strong_publication st w (Some fresh_predecessor))"

definition replay_strong_window ::
  "int \<Rightarrow> strong_strategy_state \<times> causal_accumulator \<Rightarrow> nat \<times> publication_window \<Rightarrow>
     (strong_strategy_state \<times> causal_accumulator) res"
where
  "replay_strong_window measure_from = (\<lambda>(st, acc) (position, w).
     rbind (advance_owned_strong w st) (\<lambda>t.
     rbind (account_strong_transition t) (\<lambda>a.
     let measured = (int position \<ge> measure_from);
         rotations = dict_of (wa_rotations_per_query a);
         acc = (if pw_query_count w \<noteq> 0 then require_indices rotations acc else acc);
         acc = (if pw_query_count w \<noteq> 0 \<and> measured then measure_rotations rotations (pw_query_count w) acc else acc)
     in rbind (if measured then measure_counts (wa_metrics a) (overflow_rows (stt_facts t)) acc else Inr acc)
          (\<lambda>acc. Inr (stt_state t, acc)))))"

definition simulate_strong_reference ::
  "publication_window list \<Rightarrow> (coord, int) dict \<Rightarrow> simulation_config \<Rightarrow> int \<Rightarrow> simulation_result res"
where
  "simulate_strong_reference windows initial config measure_from =
     (if measure_from < 0 \<or> measure_from > int (length windows) then
        Inl (ValueError ''measure_from must be a strict integer in [0, len(windows)]'')
      else
      rbind (start_strong_reference initial config) (\<lambda>st.
      rbind (rfold (replay_strong_window measure_from) (st, accumulator_for strong_reference_strategy)
               (enumerate 0 windows)) (\<lambda>(st, acc).
      rbind (assert_strong_strategy_invariants st) (\<lambda>_. acc_result acc))))"

definition replay_strong_causal_window ::
  "int \<Rightarrow> int \<Rightarrow> strong_strategy_state \<times> (causal_accumulator \<times> causal_accumulator) \<times> template_cache \<Rightarrow>
     nat \<times> publication_window \<Rightarrow>
     (strong_strategy_state \<times> (causal_accumulator \<times> causal_accumulator) \<times> template_cache) res"
where
  "replay_strong_causal_window warmup_end tuning_end = (\<lambda>(st, accs, cache) (position, w).
     rbind (advance_owned_strong w st) (\<lambda>t.
     rbind (cached_strong_accounting t cache) (\<lambda>(a, cache).
     rbind (causal_account warmup_end tuning_end (int position) a (overflow_rows (stt_facts t)) accs)
       (\<lambda>accs. Inr (stt_state t, accs, cache)))))"

definition simulate_strong_reference_causal ::
  "publication_window list \<Rightarrow> (coord, int) dict \<Rightarrow> simulation_config \<Rightarrow> int \<Rightarrow> int \<Rightarrow>
     (simulation_result \<times> simulation_result) res"
where
  "simulate_strong_reference_causal windows initial config warmup_end tuning_end =
     (if \<not> causal_boundaries_ok warmup_end tuning_end windows then
        Inl (ValueError ''causal boundaries must satisfy 0 <= warmup < tuning < windows'')
      else
      rbind (start_strong_reference initial config) (\<lambda>st.
      rbind (rfold (replay_strong_causal_window warmup_end tuning_end)
          (st, (accumulator_for strong_reference_strategy, accumulator_for strong_reference_strategy), [])
          (enumerate 0 windows)) (\<lambda>(st, (tuning, held_out), _).
      rbind (assert_strong_strategy_invariants st) (\<lambda>_.
      rbind (acc_result tuning) (\<lambda>tuning. rbind (acc_result held_out) (\<lambda>held_out.
      Inr (tuning, held_out)))))))"

end
