(* ===== verification/Simulation_Facts.thy ===== *)
theory Simulation_Facts
  imports Simulation Strategy_Facts Event_Facts
begin

text \<open>
  Lemmas on the replays: what an advance reports of its window, that every target computes the same
  candidate matrix, what one transition adds to the counters, and that the rotations measured
  beside the counters reconcile with them.
\<close>

section \<open>Advances\<close>

lemma advance_owned_window: "advance_owned w st = advance_window False st w"
  by (simp add: advance_owned_def advance_publication_def sbind_def consume_or_check_def slift_def
      consume_predecessor_def fresh_predecessor_def split: sum.splits)

definition reports :: "publication_window \<Rightarrow> transition \<Rightarrow> bool" where
  "reports w tr \<longleftrightarrow> tf_query_count (tr_facts tr) = pw_query_count w \<and>
     tf_updates (tr_facts tr) = int (length (pw_updates w)) \<and> 0 \<le> pw_query_count w \<and>
     tf_overflow (tr_facts tr) = int (length (overflow_rows (tr_facts tr)))"

lemma checked_transition_facts:
  "checked_transition st f plan = Inr tr \<Longrightarrow> tr_facts tr = f \<and> 0 \<le> tf_query_count f"
  by (auto simp: checked_transition_def split: if_splits)

lemma checked_facts_Inr: "checked_facts f = Inr f' \<Longrightarrow> f' = f \<and> int (length (overflow_rows f)) = tf_overflow f"
  by (auto simp: checked_facts_def split: if_splits)

lemmas reports_unfold = rbind_eq_Inr reports_def patch_facts_def no_facts_def

lemma advance_point_reports: "advance_point st w cand ordinal version check = Inr tr \<Longrightarrow> reports w tr"
  unfolding advance_point_def Let_def
  by (auto simp: reports_unfold dest!: checked_transition_facts checked_facts_Inr split: prod.splits)

lemma advance_cssc_delta_reports: "advance_cssc_delta st w cand ordinal version check = Inr tr \<Longrightarrow> reports w tr"
  unfolding advance_cssc_delta_def Let_def
  by (auto simp: reports_unfold dest!: checked_transition_facts checked_facts_Inr split: prod.splits)

lemma advance_local_repack_reports: "advance_local_repack st w cand ordinal version check = Inr tr \<Longrightarrow> reports w tr"
  unfolding advance_local_repack_def Let_def
  by (auto simp: reports_unfold dest!: checked_transition_facts checked_facts_Inr split: prod.splits)

lemma fold_periodic_reports: "fold_periodic st w cand ordinal version check = Inr tr \<Longrightarrow> reports w tr"
  unfolding fold_periodic_def Let_def
  by (auto simp: reports_unfold dest!: checked_transition_facts checked_facts_Inr split: prod.splits)

lemma advance_packed_coo_reports: "advance_packed_coo st w cand ordinal version check = Inr tr \<Longrightarrow> reports w tr"
  unfolding advance_packed_coo_def Let_def
  by (auto simp: reports_unfold dest!: checked_transition_facts checked_facts_Inr split: prod.splits)

lemmas transitions_report = advance_point_reports advance_cssc_delta_reports advance_local_repack_reports
  fold_periodic_reports advance_packed_coo_reports

lemma advance_window_reports:
  assumes "advance_window check st w = Inr tr"
  shows "reports w tr"
proof (cases "pw_updates w = []")
  case True
  then show ?thesis using assms unfolding advance_window_def
    by (auto simp: reports_unfold dest!: checked_transition_facts checked_facts_Inr split: prod.splits if_splits)
next
  case False
  obtain cand where cand: "validated_candidate (st_config st) (st_logical st) (pw_updates w) = Inr cand"
    using assms by (auto simp: advance_window_def rbind_eq_Inr)
  show ?thesis
    using assms False transitions_report unfolding advance_window_def cand rbind_Inr Let_def
    by (auto split: if_splits strategy_kind.splits)
qed

section \<open>One matrix for all targets\<close>

lemma check_update_config:
  "check_update cfg l s u = Inr a \<Longrightarrow> check_update cfg' l s u = Inr b \<Longrightarrow> a = b"
  by (auto simp: check_update_def Let_def split: prod.splits if_splits)

lemma check_updates_config:
  "rfold (check_update cfg l) s us = Inr a \<Longrightarrow> rfold (check_update cfg' l) s us = Inr b \<Longrightarrow> a = b"
  by (induction us arbitrary: s) (auto simp: rbind_eq_Inr dest: check_update_config)

lemma validated_candidate_config:
  assumes "validated_candidate cfg l us = Inr a" and "validated_candidate cfg' l us = Inr b"
  shows "a = b"
  using assms check_updates_config unfolding validated_candidate_def
  by (fastforce simp: rbind_eq_Inr split: if_splits prod.splits)

definition next_logical :: "publication_window \<Rightarrow> (coord, int) dict \<Rightarrow> (coord, int) dict \<Rightarrow> bool" where
  "next_logical w l l' \<longleftrightarrow> (if pw_updates w = [] then l' = l
     else \<exists>cfg :: strategy_config. validated_candidate cfg l (pw_updates w) = Inr l')"

lemma next_logical_unique: "next_logical w l a \<Longrightarrow> next_logical w l b \<Longrightarrow> a = b"
  by (auto simp: next_logical_def dest: validated_candidate_config split: if_splits)

lemma next_logical_value:
  assumes "next_logical w l l'"
  shows "value_at l' = foldl apply_update (value_at l) (pw_updates w)"
  using assms validated_candidate_Inr by (auto simp: next_logical_def split: if_splits)

lemma advance_owned_logical:
  assumes "advance_owned w st = Inr tr"
  shows "next_logical w (st_logical st) (st_logical (tr_state tr))"
  using assms advance_window_reaches advance_window_idle
  unfolding advance_owned_window next_logical_def reaches_def by metis

section \<open>Comprehensions that may raise\<close>

lemma rmap_eq_Inr_set: "rmap f xs = Inr ys \<Longrightarrow> y \<in> set ys \<Longrightarrow> \<exists>x \<in> set xs. f x = Inr y"
  by (induction xs arbitrary: ys) (auto simp: rbind_eq_Inr)

lemma rmap_Inr_all: "\<forall>x \<in> set xs. \<exists>y. f x = Inr y \<and> P x y \<Longrightarrow> \<exists>ys. rmap f xs = Inr ys \<and> (\<forall>y \<in> set ys. \<exists>x \<in> set xs. f x = Inr y \<and> P x y)"
  by (induction xs) (auto simp: rbind_eq_Inr)

section \<open>What one transition adds\<close>

lemma validated_rotations:
  assumes "validate_program p required = Inr ()" and "Rotate r a shift index \<in> set (nodes p)"
  shows "index \<noteq> 0"
proof -
  obtain rotations v2 v3 where run: "rfold (validate_node rotations required) v2 (nodes p) = Inr v3"
    using assms(1) by (auto simp: validate_program_def rbind_eq_Inr split: if_splits)
  have "rfold (validate_node rotations required) v ns = Inr v' \<Longrightarrow> Rotate r a shift index \<in> set ns \<Longrightarrow> index \<noteq> 0"
    for v v' ns
    by (induction ns arbitrary: v) (auto simp: rbind_eq_Inr split: if_splits)
  from this [OF run assms(2)] show ?thesis .
qed

lemma compiled_rotations:
  assumes "compile_query cs delta gs policy = Inr q" and "Rotate r a shift index \<in> set (nodes (program (cloud_plan q)))"
  shows "index \<noteq> 0"
proof -
  have "analyze_cloud_plan (cloud_plan q) = Inr (cloud_counts q)"
    using assms(1) by (auto simp: compile_query_def Let_def rbind_eq_Inr split: prod.splits)
  then obtain required where "validate_program (program (cloud_plan q)) required = Inr ()"
    by (auto simp: analyze_cloud_plan_def rbind_eq_Inr validate_cloud_execution_plan_for_serialization_def
        validate_cloud_execution_plan_with_masked_results_def validate_cloud_program_def
        split: option.splits if_splits)
  from validated_rotations [OF this assms(2)] show ?thesis .
qed

definition rotations_ok :: "(int \<times> int) list \<Rightarrow> bool" where
  "rotations_ok rs \<longleftrightarrow> dict_ok rs \<and> (\<forall>x \<in> set rs. fst x \<noteq> 0 \<and> 0 < snd x)"

lemma rotations_ok_sort: "rotations_ok (sort rs) \<longleftrightarrow> rotations_ok rs"
proof -
  have "mset (map fst (sort rs)) = mset (map fst rs)" by simp
  then show ?thesis unfolding rotations_ok_def dict_ok_def set_sort by (metis mset_eq_imp_distinct_iff)
qed

lemma sum_list_sort_map [simp]:
  fixes f :: "'a::linorder \<Rightarrow> int"
  shows "sum_list (map f (sort xs)) = sum_list (map f xs)"
  by (metis mset_map mset_sort sum_mset_sum_list)

lemma counter_positive: "(k, c) \<in> set (counter_of xs) \<Longrightarrow> 0 < c \<and> k \<in> set xs"
  using counter_item [of k c xs] by (metis count_list_0_iff dict_keys_counter fst_conv imageI of_nat_0_less_iff gr0I)

lemma compiled_rotation_counts:
  assumes "compile_query cs delta gs policy = Inr q"
  shows "rotations_ok (rotation_counts_for_program (program (cloud_plan q)))"
proof -
  define xs where "xs = concat (map (\<lambda>n. case n of Rotate r a shift index \<Rightarrow> [index] | _ \<Rightarrow> []) (nodes (program (cloud_plan q))))"
  have "k \<noteq> 0" if "k \<in> set xs" for k
    using that compiled_rotations [OF assms] unfolding xs_def by (auto split: cloud_node.splits)
  then have "\<forall>x \<in> set (counter_of xs). fst x \<noteq> 0 \<and> 0 < snd x"
    using counter_positive [of _ _ xs] by (metis prod.collapse)
  then show ?thesis
    unfolding rotations_ok_def rotation_counts_for_program_def xs_def [symmetric] by simp
qed

lemma transition_metrics_Inr:
  assumes "transition_metrics strategy f rebuilt = Inr m"
  shows "sm_windows m = 1 \<and> sm_queries m = tf_query_count f \<and> sm_updates m = tf_updates f \<and>
    sm_overflow_updates m = tf_overflow f \<and> sm_rotations m = 0 \<and>
    sm_metadata_units m = sm_ci_patch_entries m + sm_ci_full_sync_entries m"
  using assms by (auto simp: transition_metrics_def checked_metrics_def zero_metrics_def split: if_splits)

definition accounted :: "transition_facts \<Rightarrow> window_accounting \<Rightarrow> bool" where
  "accounted f a \<longleftrightarrow> sm_windows (wa_metrics a) = 1 \<and> sm_queries (wa_metrics a) = tf_query_count f \<and>
     sm_updates (wa_metrics a) = tf_updates f \<and> sm_overflow_updates (wa_metrics a) = tf_overflow f \<and>
     sm_metadata_units (wa_metrics a) = sm_ci_patch_entries (wa_metrics a) + sm_ci_full_sync_entries (wa_metrics a) \<and>
     rotations_ok (wa_rotations_per_query a) \<and>
     sm_rotations (wa_metrics a) = tf_query_count f * sum_list (map snd (wa_rotations_per_query a))"

lemma rotations_ok_Nil [simp]: "rotations_ok []"
  by (simp add: rotations_ok_def)

lemma account_transition_Inr:
  assumes "account_transition t = Inr a"
  shows "accounted (tr_facts t) a"
proof -
  obtain c where run: "account_transition_with_compiled t = Inr (a, c)"
    using assms by (auto simp: account_transition_def rbind_eq_Inr split: prod.splits)
  obtain m where m: "transition_metrics (strategy_name (st_strategy (tr_state t))) (tr_facts t)
      (rebuilt_ciphertexts (tr_facts t)) = Inr m"
    using run unfolding account_transition_with_compiled_def Let_def by (auto simp only: rbind_eq_Inr)
  note M = transition_metrics_Inr [OF m]
  show ?thesis
  proof (cases "tf_query_count (tr_facts t) = 0")
    case True
    then show ?thesis using run m M by (simp add: account_transition_with_compiled_def Let_def) (auto simp: accounted_def)
  next
    case False
    then show ?thesis using run m M unfolding account_transition_with_compiled_def Let_def
      by (auto simp: rbind_eq_Inr accounted_def query_metrics_def rotations_ok_sort
          split: option.splits if_splits dest: compiled_rotation_counts)
  qed
qed

section \<open>Counters\<close>

abbreviation count_total :: "('k, int) dict \<Rightarrow> int" where
  "count_total d \<equiv> sum_list (map snd d)"

lemma total_update: "dict_ok d \<Longrightarrow> count_total (AList.update k v d) = count_total d - dict_get d k 0 + v"
proof (induction d)
  case (Cons x d)
  obtain k' c where x: "x = (k', c)" by (cases x)
  have "dict_get d k 0 = 0" if "k = k'"
    using Cons.prems that by (force simp: x dict_ok_def dict_get_def split: option.splits dest: map_of_SomeD)
  with Cons x show ?case by (auto simp: dict_ok_def dict_get_def)
qed simp

lemma total_foldl_counter: "dict_ok d \<Longrightarrow> count_total (foldl counter_add d xs) = count_total d + int (length xs)"
  by (induction xs arbitrary: d) (simp_all add: counter_add_def total_update)

lemma counter_update_Cons:
  "counter_update d ((k, c) # items) = counter_update (AList.update k (dict_get d k 0 + c) d) items"
  by (simp add: counter_update_def)

lemma counter_update_facts:
  assumes "dict_ok d"
  shows "dict_ok (counter_update d items) \<and> count_total (counter_update d items) = count_total d + count_total items"
  using assms
proof (induction items arbitrary: d)
  case (Cons x items)
  then show ?case by (cases x) (simp add: counter_update_Cons total_update)
qed (simp add: counter_update_def)

lemma counter_item_update:
  assumes "dict_ok d" and "(k', v') \<in> set (AList.update k v d)"
  shows "(k' = k \<and> v' = v) \<or> (k', v') \<in> set d"
proof -
  have "map_of (AList.update k v d) k' = Some v'" using assms by (simp add: dict_ok_def distinct_update)
  then show ?thesis by (auto simp: map_of_update split: if_splits dest: map_of_SomeD)
qed

lemma counter_update_items:
  assumes "dict_ok d" and "\<forall>x \<in> set d. 0 < snd x \<and> fst x \<in> K" and "\<forall>x \<in> set items. 0 < snd x \<and> fst x \<in> K"
  shows "\<forall>x \<in> set (counter_update d items). 0 < snd x \<and> fst x \<in> K"
  using assms
proof (induction items arbitrary: d)
  case (Cons x items)
  obtain k c where x: "x = (k, c)" by (cases x)
  have "0 \<le> dict_get d k 0"
    using Cons.prems(2) by (auto simp: dict_get_def split: option.splits dest!: map_of_SomeD)
  then have "\<forall>y \<in> set (AList.update k (dict_get d k 0 + c) d). 0 < snd y \<and> fst y \<in> K"
    using Cons.prems by (auto simp: x dest!: counter_item_update)
  moreover have "dict_ok (AList.update k (dict_get d k 0 + c) d)" using Cons.prems(1) by simp
  ultimately have "\<forall>y \<in> set (counter_update (AList.update k (dict_get d k 0 + c) d) items). 0 < snd y \<and> fst y \<in> K"
    using Cons.prems(3) by (intro Cons.IH) simp_all
  then show ?case unfolding x counter_update_Cons .
qed (simp add: counter_update_def)

lemma dict_update_fresh: "k \<notin> fst ` set d \<Longrightarrow> AList.update k v d = d @ [(k, v)]"
  by (induction d) auto

lemma dict_of_dict: "dict_ok d \<Longrightarrow> dict_of d = d"
proof (induction d rule: rev_induct)
  case (snoc x d)
  obtain k v where x: "x = (k, v)" by (cases x)
  have "k \<notin> fst ` set d" "dict_ok d" using snoc.prems by (auto simp: x dict_ok_def)
  with snoc.IH show ?case by (simp add: dict_of_def x dict_update_fresh)
qed (simp add: dict_of_def)

section \<open>Accumulators\<close>

definition acc_ok :: "causal_accumulator \<Rightarrow> bool" where
  "acc_ok acc \<longleftrightarrow> dict_ok (ca_measured_rotations acc) \<and> dict_ok (ca_overflow_by_row acc) \<and>
     distinct (ca_required_indices acc) \<and> 0 \<notin> set (ca_required_indices acc) \<and>
     (\<forall>x \<in> set (ca_measured_rotations acc). 0 < snd x \<and> fst x \<in> set (ca_required_indices acc)) \<and>
     count_total (ca_measured_rotations acc) = sm_rotations (ca_metrics acc) \<and>
     count_total (ca_overflow_by_row acc) = sm_overflow_updates (ca_metrics acc) \<and>
     sm_metadata_units (ca_metrics acc) = sm_ci_patch_entries (ca_metrics acc) + sm_ci_full_sync_entries (ca_metrics acc)"

lemma accumulator_for_ok: "acc_ok (accumulator_for strategy)"
  by (simp add: acc_ok_def accumulator_for_def zero_metrics_def)

lemma require_indices_set:
  "set (foldl (\<lambda>s (index, _). List.insert index s) r rotations) = set r \<union> fst ` set rotations \<and>
   (distinct r \<longrightarrow> distinct (foldl (\<lambda>s (index, _). List.insert index s) r rotations))"
  by (induction rotations arbitrary: r) auto

lemma require_ok:
  assumes "acc_ok acc" and "rotations_ok rotations"
  shows "acc_ok (require_indices rotations acc) \<and> fst ` set rotations \<subseteq> set (ca_required_indices (require_indices rotations acc))"
proof -
  have "0 \<notin> fst ` set rotations" using assms(2) by (auto simp: rotations_ok_def)
  with assms(1) require_indices_set [of "ca_required_indices acc" rotations] show ?thesis
    by (auto simp: acc_ok_def require_indices_def)
qed

text \<open>The window's total, and its accumulator after the three updates, in either order of the code.\<close>

definition adds :: "window_accounting \<Rightarrow> int list \<Rightarrow> causal_accumulator \<Rightarrow> causal_accumulator \<Rightarrow> bool" where
  "adds a rows acc acc' \<longleftrightarrow> ca_metrics acc' = add_metrics (ca_metrics acc) (wa_metrics a) \<and>
     ca_overflow_by_row acc' = foldl counter_add (ca_overflow_by_row acc) rows \<and>
     ca_required_indices acc' = ca_required_indices acc \<and>
     ca_measured_rotations acc' = (if sm_queries (wa_metrics a) = 0 then ca_measured_rotations acc
       else counter_update (ca_measured_rotations acc)
         (map (\<lambda>(index, count). (index, count * sm_queries (wa_metrics a))) (wa_rotations_per_query a)))"

lemma total_scaled: "count_total (map (\<lambda>(k, c). (k, c * q)) d) = q * count_total d"
  by (induction d) (auto simp: algebra_simps)

lemma adds_ok:
  assumes ok: "acc_ok acc" and a: "accounted f a" and q: "0 \<le> tf_query_count f"
    and rows: "tf_overflow f = int (length rows)"
    and req: "sm_queries (wa_metrics a) \<noteq> 0 \<longrightarrow> fst ` set (wa_rotations_per_query a) \<subseteq> set (ca_required_indices acc)"
    and adds: "adds a rows acc acc'"
  shows "acc_ok acc'"
proof (cases "tf_query_count f = 0")
  case True
  then show ?thesis using assms
    by (simp add: acc_ok_def adds_def accounted_def add_metrics_def total_foldl_counter dict_ok_foldl_counter)
next
  case False
  define d where "d = ca_measured_rotations acc"
  define items where "items = map (\<lambda>(k, c). (k, c * tf_query_count f)) (wa_rotations_per_query a)"
  have d: "dict_ok d" "\<forall>x \<in> set d. 0 < snd x \<and> fst x \<in> set (ca_required_indices acc)"
    using ok by (auto simp: acc_ok_def d_def)
  have items: "\<forall>x \<in> set items. 0 < snd x \<and> fst x \<in> set (ca_required_indices acc)"
    using a q req False by (force simp: items_def accounted_def rotations_ok_def)
  have "count_total (counter_update d items) = count_total d + tf_query_count f * count_total (wa_rotations_per_query a)"
    using counter_update_facts [OF d(1)] by (simp only: items_def total_scaled)
  moreover have "ca_measured_rotations acc' = counter_update d items"
    using adds a False by (simp add: adds_def accounted_def d_def items_def)
  ultimately show ?thesis
    using assms False counter_update_facts [OF d(1), of items] counter_update_items [OF d items]
    by (simp add: acc_ok_def adds_def accounted_def add_metrics_def total_foldl_counter dict_ok_foldl_counter d_def)
qed

lemma merge_ok:
  assumes "acc_ok acc" and "accounted f a"
  shows "merge_metrics (ca_metrics acc) (wa_metrics a) = Inr (add_metrics (ca_metrics acc) (wa_metrics a))"
  using assms by (simp add: merge_metrics_def add_metrics_def acc_ok_def accounted_def)

lemma scaled_dict_ok: "dict_ok d \<Longrightarrow> dict_ok (map (\<lambda>(k, c). (k, c * q)) d)"
  by (simp add: dict_ok_def case_prod_unfold comp_def)

text \<open>One position of a replay.\<close>

definition update_position ::
  "bool \<Rightarrow> int \<Rightarrow> window_accounting \<Rightarrow> int list \<Rightarrow> causal_accumulator \<Rightarrow> causal_accumulator res"
where
  "update_position measured q a rows acc =
     (let rotations = dict_of (wa_rotations_per_query a);
          acc = (if q \<noteq> 0 then require_indices rotations acc else acc);
          acc = (if q \<noteq> 0 \<and> measured then measure_rotations rotations q acc else acc)
      in if measured then measure_counts (wa_metrics a) rows acc else Inr acc)"

lemma update_position_Inr:
  assumes run: "update_position measured (tf_query_count f) a rows acc = Inr acc'" and ok: "acc_ok acc"
    and A: "accounted f a" and q: "0 \<le> tf_query_count f" and rows: "tf_overflow f = int (length rows)"
  shows "acc_ok acc' \<and> ca_metrics acc' = (if measured then add_metrics (ca_metrics acc) (wa_metrics a) else ca_metrics acc)"
proof -
  let ?q = "tf_query_count f" and ?rs = "wa_rotations_per_query a"
  have rs: "rotations_ok ?rs" "dict_of ?rs = ?rs" using A by (auto simp: accounted_def rotations_ok_def dict_of_dict)
  define acc1 where "acc1 = (if ?q \<noteq> 0 then require_indices ?rs acc else acc)"
  have acc1: "acc_ok acc1" "?q \<noteq> 0 \<longrightarrow> fst ` set ?rs \<subseteq> set (ca_required_indices acc1)"
      "ca_metrics acc1 = ca_metrics acc"
    using require_ok [OF ok rs(1)] ok by (auto simp: acc1_def require_indices_def)
  show ?thesis
  proof (cases measured)
    case False
    then have "acc' = acc1" using run by (simp add: update_position_def rs acc1_def Let_def cong: if_cong)
    then show ?thesis using acc1 A False by auto
  next
    case True
    define acc2 where "acc2 = (if ?q \<noteq> 0 then measure_rotations ?rs ?q acc1 else acc1)"
    have "update_position measured ?q a rows acc = measure_counts (wa_metrics a) rows acc2"
      using True by (simp add: update_position_def rs acc1_def acc2_def Let_def cong: if_cong)
    moreover have "merge_metrics (ca_metrics acc2) (wa_metrics a) = Inr (add_metrics (ca_metrics acc1) (wa_metrics a))"
      using merge_ok [OF acc1(1) A] by (simp add: acc2_def measure_rotations_def)
    ultimately have acc': "acc' = acc2\<lparr>ca_metrics := add_metrics (ca_metrics acc1) (wa_metrics a),
        ca_overflow_by_row := foldl counter_add (ca_overflow_by_row acc2) rows\<rparr>"
      using run by (simp add: measure_counts_def)
    have "dict_ok (map (\<lambda>(k, c). (k, c * ?q)) ?rs)" using rs by (simp add: rotations_ok_def scaled_dict_ok)
    then have "adds a rows acc1 acc'"
      using A by (simp add: adds_def acc' acc2_def measure_rotations_def accounted_def dict_of_dict)
    moreover have "sm_queries (wa_metrics a) \<noteq> 0 \<longrightarrow> fst ` set ?rs \<subseteq> set (ca_required_indices acc1)"
      using acc1(2) A by (simp add: accounted_def)
    ultimately have "acc_ok acc'"
      using adds_ok [OF acc1(1) A q rows] by simp
    then show ?thesis using True acc1 by (simp add: acc')
  qed
qed

lemma account_position_Inr:
  assumes run: "account_position measured t acc = Inr acc'" and ok: "acc_ok acc" and rep: "reports w t"
  shows "acc_ok acc' \<and> (\<exists>a. accounted (tr_facts t) a \<and> (\<not> measured \<longrightarrow> ca_metrics acc' = ca_metrics acc) \<and>
    (measured \<longrightarrow> ca_metrics acc' = add_metrics (ca_metrics acc) (wa_metrics a)))"
proof -
  obtain a where a: "account_transition t = Inr a"
      "update_position measured (tf_query_count (tr_facts t)) a (overflow_rows (tr_facts t)) acc = Inr acc'"
    using run by (auto simp: account_position_def update_position_def rbind_eq_Inr Let_def)
  note A = account_transition_Inr [OF a(1)]
  from update_position_Inr [OF a(2) ok A] A rep show ?thesis by (auto simp: reports_def)
qed

text \<open>What a good accumulator yields is never refused.\<close>

lemma acc_result_ok:
  assumes "acc_ok acc"
  shows "\<exists>r. acc_result acc = Inr r \<and> sr_metrics r = ca_metrics acc \<and>
    count_total (measured_counts_by_exact_index (sr_rotation_inventory r)) = sm_rotations (ca_metrics acc) \<and>
    count_total (sr_overflow_by_row r) = sm_overflow_updates (ca_metrics acc)"
proof -
  let ?ms = "sort (ca_measured_rotations acc)" and ?rs = "sort (ca_required_indices acc)"
  have ms: "dict_ok ?ms" "\<forall>x \<in> set ?ms. fst x \<noteq> 0 \<and> 0 < snd x \<and> fst x \<in> set ?rs"
    using assms by (auto simp: acc_ok_def dict_ok_def distinct_map)
  have sorted_fst: "sorted (map fst xs)" if "sorted xs" for xs :: "(int \<times> int) list"
    using that by (induction xs) (auto simp: less_eq_prod_def)
  have "sorted_set (map fst ?ms) = map fst ?ms" "sorted_set ?rs = ?rs"
    using ms(1) assms sorted_fst [of ?ms]
    by (simp_all add: sorted_set_def dict_ok_def distinct_remdups_id acc_ok_def sorted_sort_id)
  then have "checked_inventory \<lparr>measured_counts_by_exact_index = ?ms, required_indices = ?rs\<rparr> =
      Inr \<lparr>measured_counts_by_exact_index = ?ms, required_indices = ?rs\<rparr>"
    using ms(2) assms by (force simp: checked_inventory_def Let_def acc_ok_def)
  moreover have "dict_ok (sort (ca_overflow_by_row acc))"
    using assms by (auto simp: acc_ok_def dict_ok_def distinct_map)
  ultimately show ?thesis using assms
    by (simp add: acc_result_def rotation_inventory_of_def acc_ok_def dict_of_dict)
qed

section \<open>Replays of one target\<close>

lemma rmap_all2: "rmap f xs = Inr ys \<longleftrightarrow> list_all2 (\<lambda>x y. f x = Inr y) xs ys"
  by (induction xs arbitrary: ys) (auto simp: rbind_eq_Inr list_all2_Cons1)

lemma rmap_zip: "length xs = length ts \<Longrightarrow> rmap f (zip xs ts) = Inr ys \<longleftrightarrow>
    length ys = length xs \<and> (\<forall>i < length xs. f (xs ! i, ts ! i) = Inr (ys ! i))"
  by (auto simp: rmap_all2 list_all2_conv_all_nth)

text \<open>One target alone: advance, then account.\<close>

definition step_run :: "int \<Rightarrow> target_run \<Rightarrow> nat \<times> publication_window \<Rightarrow> target_run res" where
  "step_run measure_from r = (\<lambda>(position, w).
     rbind (advance_owned w (run_state r)) (\<lambda>t. account_run (int position \<ge> measure_from) (r, t)))"

lemma account_run_state: "account_run measured (r, t) = Inr r' \<Longrightarrow> run_state r' = tr_state t \<and> run_target r' = run_target r"
  by (auto simp: account_run_def rbind_eq_Inr)

lemma step_run_logical:
  "step_run from r (k, w) = Inr r' \<Longrightarrow> next_logical w (st_logical (run_state r)) (st_logical (run_state r'))"
  by (auto simp: step_run_def rbind_eq_Inr dest!: account_run_state advance_owned_logical)

lemma same_logicalI:
  "\<forall>t \<in> set ts. st_logical (tr_state t) = l \<Longrightarrow> same_logical ts"
  by (cases ts) (auto simp: same_logical_def dict_eq_def)

definition holding :: "(coord, int) dict \<Rightarrow> target_run list \<Rightarrow> bool" where
  "holding l runs \<longleftrightarrow> (\<forall>r \<in> set runs. st_logical (run_state r) = l)"

text \<open>From states with one matrix, all advances that return publish one matrix.\<close>

lemma advances_agree:
  assumes "rmap (\<lambda>r. advance_owned w (run_state r)) runs = Inr ts" and "holding l runs"
  shows "\<exists>l'. (\<forall>t \<in> set ts. next_logical w l (st_logical (tr_state t)) \<and> st_logical (tr_state t) = l')"
proof -
  have "next_logical w l (st_logical (tr_state t))" if "t \<in> set ts" for t
    using rmap_eq_Inr_set [OF assms(1) that] assms(2) advance_owned_logical by (auto simp: holding_def)
  then show ?thesis using next_logical_unique by blast
qed

lemma agreement_never_fires:
  assumes "rmap (\<lambda>r. advance_owned w (run_state r)) runs = Inr ts" and "holding l runs"
  shows "check_agreement ts = Inr ()"
  using advances_agree [OF assms] same_logicalI by (metis check_agreement_def)

lemma replay_window_iff:
  assumes "holding l runs"
  shows "replay_window from runs (k, w) = Inr runs' \<longleftrightarrow> rmap (\<lambda>r. step_run from r (k, w)) runs = Inr runs'"
proof
  assume "replay_window from runs (k, w) = Inr runs'"
  then obtain ts where ts: "rmap (\<lambda>r. advance_owned w (run_state r)) runs = Inr ts"
      "rmap (account_run (int k \<ge> from)) (zip runs ts) = Inr runs'"
    by (auto simp: replay_window_def rbind_eq_Inr)
  then have "length ts = length runs" "\<forall>i < length runs. advance_owned w (run_state (runs ! i)) = Inr (ts ! i)"
    by (simp_all add: rmap_all2 list_all2_conv_all_nth)
  moreover from this(1) ts(2) have "length runs' = length runs"
      "\<forall>i < length runs. account_run (int k \<ge> from) (runs ! i, ts ! i) = Inr (runs' ! i)"
    by (simp_all add: rmap_zip)
  ultimately show "rmap (\<lambda>r. step_run from r (k, w)) runs = Inr runs'"
    by (simp add: rmap_all2 list_all2_conv_all_nth step_run_def)
next
  assume "rmap (\<lambda>r. step_run from r (k, w)) runs = Inr runs'"
  then have all: "length runs' = length runs"
      "\<forall>i < length runs. step_run from (runs ! i) (k, w) = Inr (runs' ! i)"
    by (auto simp: rmap_all2 list_all2_conv_all_nth)
  define ts where "ts = map (\<lambda>r. projr (advance_owned w (run_state r))) runs"
  have len: "length ts = length runs" by (simp add: ts_def)
  have step: "advance_owned w (run_state (runs ! i)) = Inr (ts ! i) \<and>
      account_run (int k \<ge> from) (runs ! i, ts ! i) = Inr (runs' ! i)" if "i < length runs" for i
    using all(2) that by (fastforce simp: step_run_def rbind_eq_Inr ts_def)
  then have ts: "rmap (\<lambda>r. advance_owned w (run_state r)) runs = Inr ts"
    unfolding rmap_all2 list_all2_conv_all_nth by (simp add: len)
  have "rmap (account_run (int k \<ge> from)) (zip runs ts) = Inr runs'"
    unfolding rmap_zip [OF len [symmetric]] using step all(1) by simp
  then show "replay_window from runs (k, w) = Inr runs'"
    using ts agreement_never_fires [OF ts assms] by (simp add: replay_window_def)
qed

lemma steps_hold:
  assumes "holding l runs" and "rmap (\<lambda>r. step_run from r (k, w)) runs = Inr runs'"
  shows "\<exists>l'. holding l' runs'"
proof -
  have "next_logical w l (st_logical (run_state r'))" if "r' \<in> set runs'" for r'
    using rmap_eq_Inr_set [OF assms(2) that] assms(1) step_run_logical by (auto simp: holding_def)
  then show ?thesis using next_logical_unique by (metis holding_def)
qed

lemma replay_iff:
  assumes "holding l runs"
  shows "rfold (replay_window from) runs pws = Inr runs' \<longleftrightarrow> rmap (\<lambda>r. rfold (step_run from) r pws) runs = Inr runs'"
  using assms
proof (induction pws arbitrary: l runs)
  case Nil
  then show ?case by (simp add: rmap_pure)
next
  case (Cons pw pws)
  obtain k w where pw: "pw = (k, w)" by (cases pw)
  note iff = replay_window_iff [OF Cons.prems, of "from" k w]
  show ?case
  proof
    assume "rfold (replay_window from) runs (pw # pws) = Inr runs'"
    then obtain mid where mid: "rmap (\<lambda>r. step_run from r pw) runs = Inr mid" "rfold (replay_window from) mid pws = Inr runs'"
      using iff by (auto simp: rbind_eq_Inr pw)
    obtain l' where "holding l' mid" using steps_hold [OF Cons.prems] mid(1) pw by blast
    from mid(2) [unfolded Cons.IH [OF this]] mid(1)
    show "rmap (\<lambda>r. rfold (step_run from) r (pw # pws)) runs = Inr runs'"
      by (auto simp: rmap_all2 list_all2_conv_all_nth)
  next
    assume R: "rmap (\<lambda>r. rfold (step_run from) r (pw # pws)) runs = Inr runs'"
    define mid where "mid = map (\<lambda>r. projr (step_run from r pw)) runs"
    have "rmap (\<lambda>r. step_run from r pw) runs = Inr mid" "rmap (\<lambda>r. rfold (step_run from) r pws) mid = Inr runs'"
      using R by (fastforce simp: rmap_all2 list_all2_conv_all_nth rbind_eq_Inr mid_def)+
    moreover obtain l' where "holding l' mid" using steps_hold [OF Cons.prems] calculation(1) pw by blast
    ultimately show "rfold (replay_window from) runs (pw # pws) = Inr runs'"
      using iff Cons.IH by (simp add: rbind_eq_Inr pw)
  qed
qed

section \<open>Totals of one target\<close>

definition measured_windows :: "int \<Rightarrow> (nat \<times> publication_window) list \<Rightarrow> publication_window list" where
  "measured_windows from pws = map snd (filter (\<lambda>x. from \<le> int (fst x)) pws)"

lemma measured_windows_enumerate:
  assumes "0 \<le> from"
  shows "measured_windows from (enumerate n ws) = drop (nat from - n) ws"
  using assms by (induction ws arbitrary: n) (auto simp: measured_windows_def drop_Cons' nat_le_iff Suc_diff_le)

definition counted :: "publication_window list \<Rightarrow> strategy_metrics \<Rightarrow> strategy_metrics \<Rightarrow> bool" where
  "counted ws m m' \<longleftrightarrow> sm_windows m' = sm_windows m + int (length ws) \<and>
     sm_queries m' = sm_queries m + sum_list (map pw_query_count ws) \<and>
     sm_updates m' = sm_updates m + int (length (window_updates ws)) \<and> sm_strategy m' = sm_strategy m"

lemma step_run_totals:
  assumes "step_run from r (k, w) = Inr r'" and "acc_ok (run_totals r)"
  shows "acc_ok (run_totals r') \<and> run_target r' = run_target r \<and>
    counted (measured_windows from [(k, w)]) (ca_metrics (run_totals r)) (ca_metrics (run_totals r'))"
proof -
  obtain t where t: "advance_owned w (run_state r) = Inr t" "account_run (from \<le> int k) (r, t) = Inr r'"
    using assms(1) by (auto simp: step_run_def rbind_eq_Inr)
  have rep: "reports w t" using t(1) advance_window_reports by (simp add: advance_owned_window)
  have "account_position (from \<le> int k) t (run_totals r) = Inr (run_totals r')" "run_target r' = run_target r"
    using t(2) by (auto simp: account_run_def rbind_eq_Inr)
  with account_position_Inr [OF this(1) assms(2) rep] rep show ?thesis
    by (cases "from \<le> int k") (auto simp: counted_def measured_windows_def accounted_def reports_def add_metrics_def)
qed

lemma run_totals_Inr:
  assumes "rfold (step_run from) r pws = Inr r'" and "acc_ok (run_totals r)"
  shows "acc_ok (run_totals r') \<and> run_target r' = run_target r \<and>
    counted (measured_windows from pws) (ca_metrics (run_totals r)) (ca_metrics (run_totals r'))"
  using assms
proof (induction pws arbitrary: r)
  case Nil
  then show ?case by (simp add: measured_windows_def counted_def)
next
  case (Cons pw pws)
  obtain k w where pw: "pw = (k, w)" by (cases pw)
  obtain mid where mid: "step_run from r (k, w) = Inr mid" "rfold (step_run from) mid pws = Inr r'"
    using Cons.prems(1) by (auto simp: rbind_eq_Inr pw)
  note S = step_run_totals [OF mid(1) Cons.prems(2)]
  with Cons.IH [OF mid(2)] show ?case
    by (auto simp: pw counted_def measured_windows_def window_updates_def)
qed

lemma start_strategy_logical: "start_strategy initial t = Inr st \<Longrightarrow> st_logical st = initial"
  by (auto simp: start_strategy_def initialize_strategy_def Let_def rbind_eq_Inr validate_logical_def split: if_splits)

lemma start_run_Inr:
  "start_run initial t = Inr r \<Longrightarrow> run_target r = t \<and> st_logical (run_state r) = initial \<and>
     run_totals r = accumulator_for (strategy_name (tg_strategy t)) \<and> acc_ok (run_totals r)"
  by (auto simp: start_run_def rbind_eq_Inr accumulator_for_ok start_strategy_logical)

lemma started_hold: "rmap (start_run initial) targets = Inr runs \<Longrightarrow> holding initial runs"
  by (auto simp: holding_def dest!: rmap_eq_Inr_set start_run_Inr)

text \<open>The whole life of one target.\<close>

definition simulate_run ::
  "publication_window list \<Rightarrow> (coord, int) dict \<Rightarrow> int \<Rightarrow> simulation_target \<Rightarrow> (string \<times> simulation_result) res"
where
  "simulate_run windows initial measure_from t =
     rbind (start_run initial t) (\<lambda>r.
     rbind (rfold (step_run measure_from) r (enumerate 0 windows)) (\<lambda>r.
     rbind (assert_strategy_invariants (run_state r)) (\<lambda>_. run_result r)))"

lemma simulate_run_Inr:
  assumes "simulate_run ws initial from t = Inr x" and "0 \<le> from"
  shows "fst x = tg_run_id t \<and>
    counted (drop (nat from) ws) (ca_metrics (accumulator_for (strategy_name (tg_strategy t)))) (sr_metrics (snd x)) \<and>
    count_total (measured_counts_by_exact_index (sr_rotation_inventory (snd x))) = sm_rotations (sr_metrics (snd x)) \<and>
    count_total (sr_overflow_by_row (snd x)) = sm_overflow_updates (sr_metrics (snd x))"
proof -
  obtain r r' where r: "start_run initial t = Inr r" "rfold (step_run from) r (enumerate 0 ws) = Inr r'" "run_result r' = Inr x"
    using assms(1) by (auto simp: simulate_run_def rbind_eq_Inr)
  note S = start_run_Inr [OF r(1)]
  with run_totals_Inr [OF r(2)] have T: "acc_ok (run_totals r')" "run_target r' = t"
      "counted (drop (nat from) ws) (ca_metrics (accumulator_for (strategy_name (tg_strategy t)))) (ca_metrics (run_totals r'))"
    by (simp_all add: measured_windows_enumerate assms(2) accumulator_for_ok)
  obtain result where "acc_result (run_totals r') = Inr result" "x = (tg_run_id (run_target r'), result)"
    using r(3) by (auto simp: run_result_def rbind_eq_Inr)
  with acc_result_ok [OF T(1)] T show ?thesis by auto
qed

text \<open>The loop over all targets is, target by target, that life.\<close>

lemma simulate_runs_iff:
  assumes "targets \<noteq> []" and "0 \<le> from" "from \<le> int (length ws)" and "rfold check_target [] targets = Inr ids"
  shows "simulate_targets ws initial targets from = Inr rs \<longleftrightarrow> rmap (simulate_run ws initial from) targets = Inr rs"
proof -
  have all_hold: "rfold (\<lambda>_ r. assert_strategy_invariants (run_state r)) () rs = Inr u \<longleftrightarrow>
      (\<forall>r \<in> set rs. assert_strategy_invariants (run_state r) = Inr ())" for rs u
    using rfold_unit_iff [of "\<lambda>r. assert_strategy_invariants (run_state r)" rs] by (cases u) simp
  have "simulate_targets ws initial targets from =
      rbind (rmap (start_run initial) targets) (\<lambda>runs.
      rbind (rfold (replay_window from) runs (enumerate 0 ws)) (\<lambda>runs.
      rbind (rfold (\<lambda>_ r. assert_strategy_invariants (run_state r)) () runs) (\<lambda>_. rmap run_result runs)))"
    using assms by (simp add: simulate_targets_def)
  also have "\<dots> = Inr rs \<longleftrightarrow> (\<exists>runs runs'. rmap (start_run initial) targets = Inr runs \<and>
      rmap (\<lambda>r. rfold (step_run from) r (enumerate 0 ws)) runs = Inr runs' \<and>
      (\<forall>r \<in> set runs'. assert_strategy_invariants (run_state r) = Inr ()) \<and> rmap run_result runs' = Inr rs)"
    unfolding rbind_eq_Inr all_hold using replay_iff [OF started_hold] by (simp cong: conj_cong)
  also have "\<dots> \<longleftrightarrow> rmap (simulate_run ws initial from) targets = Inr rs"
  proof
    assume "rmap (simulate_run ws initial from) targets = Inr rs"
    then have all: "length rs = length targets" "\<forall>i < length targets. simulate_run ws initial from (targets ! i) = Inr (rs ! i)"
      by (auto simp: rmap_all2 list_all2_conv_all_nth)
    then have "\<forall>i < length targets. \<exists>r r'. start_run initial (targets ! i) = Inr r \<and>
        rfold (step_run from) r (enumerate 0 ws) = Inr r' \<and> assert_strategy_invariants (run_state r') = Inr () \<and>
        run_result r' = Inr (rs ! i)"
      by (auto simp: simulate_run_def rbind_eq_Inr)
    then obtain f g where fg: "\<forall>i < length targets. start_run initial (targets ! i) = Inr (f i) \<and>
        rfold (step_run from) (f i) (enumerate 0 ws) = Inr (g i) \<and> assert_strategy_invariants (run_state (g i)) = Inr () \<and>
        run_result (g i) = Inr (rs ! i)"
      by metis
    let ?n = "length targets"
    show "\<exists>runs runs'. rmap (start_run initial) targets = Inr runs \<and>
      rmap (\<lambda>r. rfold (step_run from) r (enumerate 0 ws)) runs = Inr runs' \<and>
      (\<forall>r \<in> set runs'. assert_strategy_invariants (run_state r) = Inr ()) \<and> rmap run_result runs' = Inr rs"
      using fg all(1)
      by (intro exI [of _ "map f [0..<?n]"] exI [of _ "map g [0..<?n]"])
        (auto simp: rmap_all2 list_all2_conv_all_nth)
  qed (auto simp: rmap_all2 list_all2_conv_all_nth simulate_run_def rbind_eq_Inr all_set_conv_all_nth)
  finally show ?thesis .
qed

lemma check_targets:
  "distinct (map tg_run_id ts) \<Longrightarrow> \<forall>t \<in> set ts. tg_run_id t \<noteq> [] \<and> tg_run_id t \<notin> set ids \<Longrightarrow>
     \<exists>ids'. rfold check_target ids ts = Inr ids'"
proof (induction ts arbitrary: ids)
  case (Cons t ts)
  from Cons.prems have "\<forall>u \<in> set ts. tg_run_id u \<noteq> [] \<and> tg_run_id u \<notin> set (tg_run_id t # ids)" by (auto simp: image_iff)
  then have "\<exists>ids'. rfold check_target (tg_run_id t # ids) ts = Inr ids'" using Cons.prems(1) by (intro Cons.IH) auto
  moreover have "check_target ids t = Inr (tg_run_id t # ids)" using Cons.prems(2) by (simp add: check_target_def)
  ultimately show ?case by simp
qed simp

lemma simulated_runs:
  assumes "simulate_targets ws initial targets from = Inr rs"
  shows "rmap (simulate_run ws initial from) targets = Inr rs \<and> 0 \<le> from \<and> from \<le> int (length ws)"
proof -
  obtain ids where "targets \<noteq> []" "0 \<le> from" "from \<le> int (length ws)" "rfold check_target [] targets = Inr ids"
    using assms by (auto simp: simulate_targets_def rbind_eq_Inr split: if_splits)
  with simulate_runs_iff [OF this] assms show ?thesis by simp
qed

lemma joint_iff_alone:
  assumes "targets \<noteq> []" and "distinct (map tg_run_id targets)" and "\<forall>t \<in> set targets. tg_run_id t \<noteq> []"
  shows "simulate_targets ws initial targets from = Inr rs \<longleftrightarrow>
    list_all2 (\<lambda>t r. simulate_targets ws initial [t] from = Inr [r] \<and> fst r = tg_run_id t) targets rs"
proof (cases "0 \<le> from \<and> from \<le> int (length ws)")
  case False
  then have "\<not> simulate_targets ws initial ts from = Inr xs" for ts xs using simulated_runs by blast
  then show ?thesis using assms(1) by (cases rs) (auto simp: list_all2_conv_all_nth)
next
  case True
  obtain ids where ids: "rfold check_target [] targets = Inr ids"
    using check_targets [OF assms(2), of "[]"] assms(3) by auto
  have alone: "(simulate_targets ws initial [t] from = Inr [r] \<and> fst r = tg_run_id t) \<longleftrightarrow> simulate_run ws initial from t = Inr r"
    if "t \<in> set targets" for t r
  proof -
    have "rfold check_target [] [t] = Inr [tg_run_id t]" using assms(3) that by (simp add: check_target_def)
    from simulate_runs_iff [OF _ _ _ this, of "from" ws initial "[r]"] True simulate_run_Inr [of ws initial "from" t r]
    show ?thesis by (cases r) (auto simp: rbind_eq_Inr)
  qed
  show ?thesis
    unfolding simulate_runs_iff [OF assms(1) conjunct1 [OF True] conjunct2 [OF True] ids] rmap_all2
    using alone by (simp add: list_all2_conv_all_nth cong: conj_cong)
qed

lemma replay_holds:
  assumes "rfold (replay_window from) runs pws = Inr runs'" and "holding l runs"
  shows "\<exists>l'. holding l' runs'"
  using assms
proof (induction pws arbitrary: l runs)
  case (Cons pw pws)
  obtain k w where pw: "pw = (k, w)" by (cases pw)
  obtain mid where mid: "replay_window from runs (k, w) = Inr mid" "rfold (replay_window from) mid pws = Inr runs'"
    using Cons.prems(1) by (auto simp: rbind_eq_Inr pw)
  obtain l' where "holding l' mid"
    using mid(1) replay_window_iff [OF Cons.prems(2)] steps_hold [OF Cons.prems(2)] by blast
  from Cons.IH [OF mid(2) this] show ?case .
qed auto

lemma run_values:
  "rfold (step_run from) r pws = Inr r' \<Longrightarrow>
     value_at (st_logical (run_state r')) = foldl apply_update (value_at (st_logical (run_state r))) (window_updates (map snd pws))"
proof (induction pws arbitrary: r)
  case (Cons pw pws)
  obtain k w where pw: "pw = (k, w)" by (cases pw)
  obtain mid where mid: "step_run from r (k, w) = Inr mid" "rfold (step_run from) mid pws = Inr r'"
    using Cons.prems by (auto simp: rbind_eq_Inr pw)
  from Cons.IH [OF mid(2)] next_logical_value [OF step_run_logical [OF mid(1)]] show ?case by (simp add: pw)
qed simp

lemma replayed_runs:
  assumes "rfold (replay_window from) runs pws = Inr runs'" and "holding l runs" and "r' \<in> set runs'"
  shows "\<exists>r \<in> set runs. rfold (step_run from) r pws = Inr r'"
  using assms(1) rmap_eq_Inr_set [OF _ assms(3)] unfolding replay_iff [OF assms(2)] by blast

lemma replay_agrees:
  assumes start: "holding l runs0" and run: "rfold (replay_window from) runs0 (enumerate 0 ws) = Inr runs"
    and adv: "rmap (\<lambda>r. advance_owned w (run_state r)) runs = Inr ts"
  shows "check_agreement ts = Inr () \<and>
    (\<forall>t \<in> set ts. value_at (st_logical (tr_state t)) = foldl apply_update (value_at l) (window_updates (ws @ [w])))"
proof
  show "check_agreement ts = Inr ()" using replay_holds [OF run start] agreement_never_fires [OF adv] by blast
  show "\<forall>t \<in> set ts. value_at (st_logical (tr_state t)) = foldl apply_update (value_at l) (window_updates (ws @ [w]))"
  proof
    fix t assume "t \<in> set ts"
    from rmap_eq_Inr_set [OF adv this] obtain r' where r': "r' \<in> set runs" "advance_owned w (run_state r') = Inr t" by blast
    obtain r where r: "r \<in> set runs0" "rfold (step_run from) r (enumerate 0 ws) = Inr r'"
      using replayed_runs [OF run start r'(1)] by blast
    have "st_logical (run_state r) = l" using start r(1) by (simp add: holding_def)
    with run_values [OF r(2)] next_logical_value [OF advance_owned_logical [OF r'(2)]]
    show "value_at (st_logical (tr_state t)) = foldl apply_update (value_at l) (window_updates (ws @ [w]))"
      by (simp add: window_updates_def)
  qed
qed

lemma run_result_Inr:
  assumes "acc_ok (run_totals r)"
  shows "\<exists>x. run_result r = Inr x \<and> fst x = tg_run_id (run_target r)"
  using acc_result_ok [OF assms] by (auto simp: run_result_def)

lemma replayed_results:
  assumes start: "rmap (start_run initial) targets = Inr runs0"
    and run: "rfold (replay_window from) runs0 (enumerate 0 ws) = Inr runs"
  shows "\<exists>rs. rmap run_result runs = Inr rs \<and> map fst rs = map tg_run_id targets"
proof -
  have len: "length runs0 = length targets" "length runs = length runs0"
    and one: "\<And>i. i < length targets \<Longrightarrow> start_run initial (targets ! i) = Inr (runs0 ! i)"
      "\<And>i. i < length targets \<Longrightarrow> rfold (step_run from) (runs0 ! i) (enumerate 0 ws) = Inr (runs ! i)"
    using start run [unfolded replay_iff [OF started_hold [OF start]]]
    by (simp_all add: rmap_all2 list_all2_conv_all_nth)
  have "\<exists>x. run_result (runs ! i) = Inr x \<and> fst x = tg_run_id (targets ! i)" if "i < length targets" for i
    using run_totals_Inr [OF one(2) [OF that]] start_run_Inr [OF one(1) [OF that]] run_result_Inr by metis
  then obtain f where f: "\<And>i. i < length targets \<Longrightarrow> run_result (runs ! i) = Inr (f i) \<and> fst (f i) = tg_run_id (targets ! i)"
    by metis
  have "rmap run_result runs = Inr (map f [0..<length targets])"
    using f len by (simp add: rmap_all2 list_all2_conv_all_nth)
  moreover have "map fst (map f [0..<length targets]) = map tg_run_id targets"
    using f by (intro nth_equalityI) simp_all
  ultimately show ?thesis by blast
qed

end
