(* ===== verification/Simulation_Properties.thy ===== *)
theory Simulation_Properties
  imports Simulation_Facts
begin

text \<open>
  The properties of the replays. Their witnesses replay two windows through two strategies over a
  matrix with one entry.
\<close>

section \<open>A concrete simulation\<close>

definition sample_config :: simulation_config where
  "sample_config = \<lparr>sim_rows = 2, sim_cols = 2, sim_effective_slots = 2, sim_partition_rows = 2,
     sim_matrix_value_bound = 100, sim_max_row_nnz = 2, sim_reserved_slack_beta = (1, 0),
     sim_periodic_repack_windows = 2, sim_packed_coo_segment_capacity = 2\<rparr>"

definition sample_targets :: "simulation_target list" where
  "sample_targets = [\<lparr>tg_run_id = ''coo'', tg_strategy = PackedCOO, tg_config = sample_config\<rparr>,
     \<lparr>tg_run_id = ''repack'', tg_strategy = StrictLocalRepack, tg_config = sample_config\<rparr>]"

definition sample_initial :: "(coord, int) dict" where
  "sample_initial = [((0, 0), 3)]"

definition sample_replay_windows :: "publication_window list" where
  "sample_replay_windows = [
     \<lparr>pw_index = 0, pw_start_time = Finite 0, pw_end_time = Finite 1,
      pw_updates = [\<lparr>nu_row = 0, nu_col = 0, nu_before = 3, nu_after = 5\<rparr>], pw_query_count = 0, pw_reason = ''version''\<rparr>,
     \<lparr>pw_index = 1, pw_start_time = Finite 1, pw_end_time = Finite 2,
      pw_updates = [\<lparr>nu_row = 1, nu_col = 1, nu_before = 0, nu_after = 7\<rparr>], pw_query_count = 0, pw_reason = ''version''\<rparr>]"

definition sample_started :: "target_run list" where
  "sample_started = projr (rmap (start_run sample_initial) sample_targets)"

definition sample_replayed :: "target_run list" where
  "sample_replayed = projr (rfold (replay_window 1) sample_started (enumerate 0 [hd sample_replay_windows]))"

lemma sample_starts: "rmap (start_run sample_initial) sample_targets = Inr sample_started"
proof -
  have "\<not> isl (rmap (start_run sample_initial) sample_targets)" by code_simp
  then show ?thesis by (simp add: sample_started_def)
qed

lemma sample_replays: "rfold (replay_window 1) sample_started (enumerate 0 [hd sample_replay_windows]) = Inr sample_replayed"
proof -
  have "\<not> isl (rfold (replay_window 1) sample_started (enumerate 0 [hd sample_replay_windows]))" by code_simp
  then show ?thesis by (simp add: sample_replayed_def)
qed

lemma sample_simulates: "\<exists>rs. simulate_targets sample_replay_windows sample_initial sample_targets 1 = Inr rs"
proof -
  have "\<not> isl (simulate_targets sample_replay_windows sample_initial sample_targets 1)" by code_simp
  then show ?thesis by (simp add: isl_def) (metis sum.exhaust_sel isl_def)
qed

section \<open>The targets agree\<close>

text \<open>
  C22. The check that all targets publish the same matrix never fires. After any windows replayed
  over targets that were started on one matrix, if the advance of every target by the next window
  returns, the check passes, and each new state holds the initial matrix with all the windows'
  updates applied.
\<close>

theorem targets_agree:
  assumes "rmap (start_run initial) targets = Inr runs0"
    and "rfold (replay_window measure_from) runs0 (enumerate 0 ws) = Inr runs"
    and "rmap (\<lambda>r. advance_owned w (run_state r)) runs = Inr ts"
  shows "check_agreement ts = Inr () \<and>
    (\<forall>t \<in> set ts. value_at (st_logical (tr_state t)) = foldl apply_update (value_at initial) (window_updates (ws @ [w])))"
  using replay_agrees [OF started_hold [OF assms(1)] assms(2,3)] by simp

theorem targets_agree_witness:
  "\<exists>ts. rmap (\<lambda>r. advance_owned (sample_replay_windows ! 1) (run_state r)) sample_replayed = Inr ts \<and>
     length ts = 2 \<and> check_agreement ts = Inr () \<and>
     (\<forall>t \<in> set ts. value_at (st_logical (tr_state t)) (1, 1) = 7)"
proof -
  have "\<not> isl (rmap (\<lambda>r. advance_owned (sample_replay_windows ! 1) (run_state r)) sample_replayed)" by code_simp
  then obtain ts where ts: "rmap (\<lambda>r. advance_owned (sample_replay_windows ! 1) (run_state r)) sample_replayed = Inr ts"
    by (metis isl_def sum.exhaust_sel)
  moreover have "length sample_replayed = 2" by code_simp
  ultimately have "length ts = 2" using rmap_eq_Inr_length by metis
  moreover have "foldl apply_update (value_at sample_initial) (window_updates ([hd sample_replay_windows] @ [sample_replay_windows ! 1])) (1, 1) = 7"
    by (simp add: sample_replay_windows_def apply_update_def)
  ultimately show ?thesis using ts targets_agree [OF sample_starts sample_replays ts] by auto
qed

text \<open>
  C23. Simulating several targets together is simulating each alone. For targets with distinct
  nonempty names, the joint replay returns exactly when the replay of every target by itself does,
  and then it returns those results under the targets' names, in the targets' order.
\<close>

theorem targets_replay_alone:
  assumes "targets \<noteq> []" and "distinct (map tg_run_id targets)" and "\<forall>t \<in> set targets. tg_run_id t \<noteq> []"
  shows "simulate_targets ws initial targets measure_from = Inr rs \<longleftrightarrow>
    list_all2 (\<lambda>t r. simulate_targets ws initial [t] measure_from = Inr [r] \<and> fst r = tg_run_id t) targets rs"
  using joint_iff_alone [OF assms] .

theorem targets_replay_alone_witness:
  "\<exists>r1 r2. simulate_targets sample_replay_windows sample_initial sample_targets 1 = Inr [r1, r2] \<and>
     simulate_targets sample_replay_windows sample_initial [sample_targets ! 1] 1 = Inr [r2] \<and> fst r2 = ''repack''"
proof -
  obtain rs where rs: "simulate_targets sample_replay_windows sample_initial sample_targets 1 = Inr rs"
    using sample_simulates by blast
  have ok: "sample_targets \<noteq> []" "distinct (map tg_run_id sample_targets)" "\<forall>t \<in> set sample_targets. tg_run_id t \<noteq> []"
    by (simp_all add: sample_targets_def)
  show ?thesis using targets_replay_alone [OF ok, THEN iffD1, OF rs] rs
    by (auto simp: sample_targets_def list_all2_Cons1)
qed

section \<open>The totals\<close>

text \<open>
  C24. What a simulation reports. Each result's counters are those of the measured suffix of the
  windows: its number of windows, of queries and of updates; the rotations by index sum to the
  rotations of the counters, and the overflows by row to the overflows.
\<close>

theorem simulation_totals:
  assumes "simulate_targets ws initial targets measure_from = Inr rs" and "(run_id, r) \<in> set rs"
  shows "sm_windows (sr_metrics r) = int (length ws) - measure_from \<and>
    sm_queries (sr_metrics r) = sum_list (map pw_query_count (drop (nat measure_from) ws)) \<and>
    sm_updates (sr_metrics r) = int (length (window_updates (drop (nat measure_from) ws))) \<and>
    sum_list (map snd (measured_counts_by_exact_index (sr_rotation_inventory r))) = sm_rotations (sr_metrics r) \<and>
    sum_list (map snd (sr_overflow_by_row r)) = sm_overflow_updates (sr_metrics r)"
proof -
  obtain t where "simulate_run ws initial measure_from t = Inr (run_id, r)" and range: "0 \<le> measure_from" "measure_from \<le> int (length ws)"
    using simulated_runs [OF assms(1)] rmap_eq_Inr_set assms(2) by metis
  from simulate_run_Inr [OF this(1,2)] range show ?thesis
    by (simp add: counted_def accumulator_for_def zero_metrics_def)
qed

theorem simulation_totals_witness:
  "\<exists>rs r. simulate_targets sample_replay_windows sample_initial sample_targets 1 = Inr rs \<and> (''coo'', r) \<in> set rs \<and>
     sm_windows (sr_metrics r) = 1 \<and> sm_updates (sr_metrics r) = 1"
proof -
  obtain rs where rs: "simulate_targets sample_replay_windows sample_initial sample_targets 1 = Inr rs"
    using sample_simulates by blast
  have "map fst (projr (simulate_targets sample_replay_windows sample_initial sample_targets 1)) = [''coo'', ''repack'']"
    by code_simp
  then obtain r where r: "(''coo'', r) \<in> set rs" using rs by auto
  from simulation_totals [OF rs r] rs r show ?thesis by (auto simp: sample_replay_windows_def)
qed

text \<open>
  C25. The reconciliation at the end never refuses. After any windows replayed over targets started
  on one matrix, the inventory of every target reconciles with its counters and is canonical, so that
  a result is built for each.
\<close>

theorem results_reconcile:
  assumes "rmap (start_run initial) targets = Inr runs0"
    and "rfold (replay_window measure_from) runs0 (enumerate 0 ws) = Inr runs"
  shows "\<exists>rs. rmap run_result runs = Inr rs \<and> map fst rs = map tg_run_id targets"
  using replayed_results [OF assms] .

theorem results_reconcile_witness:
  "\<exists>rs. rmap run_result sample_replayed = Inr rs \<and> map fst rs = [''coo'', ''repack'']"
  using results_reconcile [OF sample_starts sample_replays] by (simp add: sample_targets_def)

end
