(* ===== verification/Causal_Properties.thy ===== *)
theory Causal_Properties
  imports Simulation_Properties
begin

text \<open>
  The causal replay: a template made from one query-bearing accounting keeps the counters and the
  rotations of every accounting that reuses it reconciled, so that the tuning and the held-out
  accumulator are complete on their own windows.
\<close>

section \<open>Templates\<close>

lemma set_metric_simps [simp]:
  "set_metric ''query_ciphertexts'' v m = m\<lparr>sm_query_ciphertexts := v\<rparr>"
  "set_metric ''result_ciphertexts'' v m = m\<lparr>sm_result_ciphertexts := v\<rparr>"
  "set_metric ''cc_multiplications'' v m = m\<lparr>sm_cc_multiplications := v\<rparr>"
  "set_metric ''relinearizations'' v m = m\<lparr>sm_relinearizations := v\<rparr>"
  "set_metric ''rotations'' v m = m\<lparr>sm_rotations := v\<rparr>"
  "set_metric ''additions'' v m = m\<lparr>sm_additions := v\<rparr>"
  "set_metric ''plaintext_masks'' v m = m\<lparr>sm_plaintext_masks := v\<rparr>"
  "set_metric ''blinding_mask_ciphertexts'' v m = m\<lparr>sm_blinding_mask_ciphertexts := v\<rparr>"
  "set_metric ''blinding_dummy_ciphertexts'' v m = m\<lparr>sm_blinding_dummy_ciphertexts := v\<rparr>"
  "set_metric ''blinding_encryptions'' v m = m\<lparr>sm_blinding_encryptions := v\<rparr>"
  "set_metric ''blinding_additions'' v m = m\<lparr>sm_blinding_additions := v\<rparr>"
  "set_metric ''decryptions'' v m = m\<lparr>sm_decryptions := v\<rparr>"
  "set_metric ''client_merges'' v m = m\<lparr>sm_client_merges := v\<rparr>"
  "set_metric ''mask_random_elements'' v m = m\<lparr>sm_mask_random_elements := v\<rparr>"
  "set_metric ''mask_mapped_elements'' v m = m\<lparr>sm_mask_mapped_elements := v\<rparr>"
  "set_metric ''client_reorder_elements'' v m = m\<lparr>sm_client_reorder_elements := v\<rparr>"
  by (simp_all add: set_metric_def query_linear_metric_fields_def)

definition template_ok :: "accounting_template \<Rightarrow> bool" where
  "template_ok tpl \<longleftrightarrow> rotations_ok (at_rotations_per_query tpl) \<and>
     (\<exists>g. at_counts_per_query tpl = map (\<lambda>(field, _). (field, g field)) query_linear_metric_fields \<and>
       g ''rotations'' = count_total (at_rotations_per_query tpl))"

lemma template_counts:
  "rmap (\<lambda>(field, read, _). if read m mod q \<noteq> 0 then Inl e else Inr (field, read m div q)) fs = Inr counts \<Longrightarrow>
     counts = map (\<lambda>(field, read, _). (field, read m div q)) fs"
  by (induction fs arbitrary: counts) (auto simp: rbind_eq_Inr Let_def split: if_splits prod.splits)

lemma query_template_ok:
  assumes tpl: "query_template a = Inr tpl" and a: "accounted f a"
  shows "template_ok tpl"
proof -
  let ?q = "sm_queries (wa_metrics a)"
  have pos: "0 < ?q" and counts: "at_counts_per_query tpl = map (\<lambda>(field, read, _). (field, read (wa_metrics a) div ?q)) query_linear_metric_fields"
      and rot: "at_rotations_per_query tpl = wa_rotations_per_query a"
    using tpl by (auto simp: query_template_def rbind_eq_Inr Let_def split: if_splits dest!: template_counts)
  define g where "g field = (case map_of query_linear_metric_fields field of None \<Rightarrow> 0
    | Some (read, _) \<Rightarrow> read (wa_metrics a) div ?q)" for field
  have "at_counts_per_query tpl = map (\<lambda>(field, _). (field, g field)) query_linear_metric_fields"
    unfolding counts by (simp add: query_linear_metric_fields_def g_def)
  moreover have "g ''rotations'' = count_total (wa_rotations_per_query a)"
    using a pos by (simp add: g_def query_linear_metric_fields_def accounted_def)
  ultimately show ?thesis using a rot unfolding template_ok_def by (auto simp: accounted_def)
qed

lemma apply_template_accounted:
  assumes "template_ok tpl" and "accounted (f\<lparr>tf_query_count := 0\<rparr>) z"
  shows "accounted f (apply_query_template z tpl (tf_query_count f))"
proof -
  obtain g where g: "at_counts_per_query tpl = map (\<lambda>(field, _). (field, g field)) query_linear_metric_fields"
      "g ''rotations'' = count_total (at_rotations_per_query tpl)"
    using assms(1) by (auto simp: template_ok_def)
  have z: "sm_windows (wa_metrics z) = 1" "sm_updates (wa_metrics z) = tf_updates f"
      "sm_overflow_updates (wa_metrics z) = tf_overflow f"
      "sm_metadata_units (wa_metrics z) = sm_ci_patch_entries (wa_metrics z) + sm_ci_full_sync_entries (wa_metrics z)"
      "rotations_ok (at_rotations_per_query tpl)"
    using assms by (simp_all add: accounted_def template_ok_def)
  show ?thesis unfolding accounted_def apply_query_template_def g(1)
    using z by (simp add: query_linear_metric_fields_def g(2) mult.commute)
qed

definition cache_ok :: "template_cache \<Rightarrow> bool" where
  "cache_ok cache \<longleftrightarrow> (\<forall>x \<in> set cache. template_ok (snd x))"

lemma cache_ok_update:
  assumes "cache_ok cache" and "template_ok tpl"
  shows "cache_ok (AList.update shape tpl cache)"
  using assms unfolding cache_ok_def by (induction cache) auto

lemma cached_ordinary_Inr:
  assumes run: "cached_ordinary_accounting t cache = Inr (a, cache')" and ok: "cache_ok cache"
  shows "accounted (tr_facts t) a \<and> cache_ok cache'"
proof (cases "tf_query_count (tr_facts t) = 0")
  case True
  then show ?thesis using run ok by (auto simp: cached_ordinary_accounting_def rbind_eq_Inr dest: account_transition_Inr)
next
  case False
  obtain shape where shape: "query_shape t = Inr shape"
    using run False by (auto simp: cached_ordinary_accounting_def rbind_eq_Inr)
  show ?thesis
  proof (cases "map_of cache shape")
    case None
    then show ?thesis using run False shape ok
      by (auto simp: cached_ordinary_accounting_def rbind_eq_Inr
          dest!: account_transition_Inr intro: cache_ok_update query_template_ok)
  next
    case (Some tpl)
    then obtain t0 z where z: "without_queries t = Inr t0" "account_transition t0 = Inr z"
        "a = apply_query_template z tpl (tf_query_count (tr_facts t))" "cache' = cache"
      using run False shape by (auto simp: cached_ordinary_accounting_def rbind_eq_Inr)
    have "tr_facts t0 = (tr_facts t)\<lparr>tf_query_count := 0\<rparr>"
      using z(1) by (auto simp: without_queries_def rbind_eq_Inr dest!: checked_facts_Inr checked_transition_facts)
    moreover have "template_ok tpl" using ok map_of_SomeD [OF Some] by (auto simp: cache_ok_def)
    ultimately show ?thesis using apply_template_accounted account_transition_Inr [OF z(2)] z(3,4) ok by simp
  qed
qed

section \<open>Accumulators\<close>

lemma acc_require_ok:
  assumes "acc_ok acc" and "accounted f a"
  shows "acc_ok (acc_require a acc) \<and> ca_metrics (acc_require a acc) = ca_metrics acc \<and>
    (sm_queries (wa_metrics a) \<noteq> 0 \<longrightarrow> fst ` set (wa_rotations_per_query a) \<subseteq> set (ca_required_indices (acc_require a acc)))"
proof -
  have rs: "rotations_ok (wa_rotations_per_query a)" "dict_of (wa_rotations_per_query a) = wa_rotations_per_query a"
    using assms(2) by (auto simp: accounted_def rotations_ok_def dict_of_dict)
  show ?thesis using require_ok [OF assms(1) rs(1)] assms(1)
    by (auto simp: acc_require_def rs(2) require_indices_def)
qed

lemma acc_measure_Inr:
  assumes run: "acc_measure a rows acc = Inr acc'" and ok: "acc_ok acc" and a: "accounted f a"
    and q: "0 \<le> tf_query_count f" and rows: "tf_overflow f = int (length rows)"
    and req: "sm_queries (wa_metrics a) \<noteq> 0 \<longrightarrow> fst ` set (wa_rotations_per_query a) \<subseteq> set (ca_required_indices acc)"
  shows "acc_ok acc' \<and> ca_metrics acc' = add_metrics (ca_metrics acc) (wa_metrics a)"
proof -
  let ?rs = "wa_rotations_per_query a"
  have "dict_ok (map (\<lambda>(k, c). (k, c * sm_queries (wa_metrics a))) ?rs)"
    using a by (simp add: accounted_def rotations_ok_def scaled_dict_ok)
  then have "adds a rows acc acc'"
    using run merge_ok [OF ok a]
    by (auto simp: acc_measure_def measure_counts_def measure_rotations_def adds_def dict_of_dict)
  with adds_ok [OF ok a q rows req] show ?thesis by (simp add: adds_def)
qed

text \<open>One position counts in the accumulator of its phase, and leaves the other's counters alone.\<close>

lemma causal_account_Inr:
  assumes run: "causal_account w e k a rows (tun, held) = Inr (tun', held')"
    and ok: "acc_ok tun" "acc_ok held" and a: "accounted f a"
    and q: "0 \<le> tf_query_count f" and rows: "tf_overflow f = int (length rows)"
  shows "acc_ok tun' \<and> acc_ok held' \<and>
    ca_metrics tun' = (if w \<le> k \<and> k < e then add_metrics (ca_metrics tun) (wa_metrics a) else ca_metrics tun) \<and>
    ca_metrics held' = (if e \<le> k then add_metrics (ca_metrics held) (wa_metrics a) else ca_metrics held)"
  using run ok acc_require_ok [OF ok(1) a] acc_require_ok [OF ok(2) a] acc_measure_Inr [OF _ _ a q rows]
  by (auto simp: causal_account_def Let_def rbind_eq_Inr split: if_splits)

section \<open>Replays\<close>

definition tuning_windows :: "int \<Rightarrow> int \<Rightarrow> (nat \<times> publication_window) list \<Rightarrow> publication_window list" where
  "tuning_windows w e pws = map snd (filter (\<lambda>x. w \<le> int (fst x) \<and> int (fst x) < e) pws)"

lemma tuning_windows_enumerate:
  assumes "0 \<le> w" and "0 \<le> e"
  shows "tuning_windows w e (enumerate n ws) = drop (nat w - n) (take (nat e - n) ws)"
  using assms
  by (induction ws arbitrary: n) (auto simp: tuning_windows_def take_Cons' drop_Cons' nat_le_iff Suc_diff_le split: nat_diff_split)

definition causal_ok :: "int \<Rightarrow> int \<Rightarrow> (nat \<times> publication_window) list \<Rightarrow> causal_run \<Rightarrow> bool" where
  "causal_ok w e pws r \<longleftrightarrow> acc_ok (cr_tuning r) \<and> acc_ok (cr_held_out r) \<and> cache_ok (cr_templates r) \<and>
     (let zero = ca_metrics (accumulator_for (strategy_name (tg_strategy (cr_target r)))) in
      counted (tuning_windows w e pws) zero (ca_metrics (cr_tuning r)) \<and>
      counted (measured_windows e pws) zero (ca_metrics (cr_held_out r)))"

lemma start_causal_ok: "start_causal_run initial t = Inr r \<Longrightarrow> causal_ok w e [] r"
  by (auto simp: start_causal_run_def rbind_eq_Inr causal_ok_def accumulator_for_ok cache_ok_def counted_def
      tuning_windows_def measured_windows_def)

lemma counted_snoc:
  assumes "counted ws m m'" and "accounted (tr_facts t) a" and "reports w t"
  shows "counted (ws @ [w]) m (add_metrics m' (wa_metrics a))"
  using assms by (simp add: counted_def accounted_def reports_def add_metrics_def window_updates_def)

lemma account_causal_ok:
  assumes run: "account_causal_run w e (int k) (r, t) = Inr r'" and ok: "causal_ok w e pws r" and rep: "reports win t"
  shows "causal_ok w e (pws @ [(k, win)]) r'"
proof -
  obtain a templates tun held where a: "cached_ordinary_accounting t (cr_templates r) = Inr (a, templates)"
    and acc: "causal_account w e (int k) a (overflow_rows (tr_facts t)) (cr_tuning r, cr_held_out r) = Inr (tun, held)"
    and r': "r' = r\<lparr>cr_state := tr_state t, cr_tuning := tun, cr_held_out := held, cr_templates := templates\<rparr>"
    using run by (auto simp: account_causal_run_def rbind_eq_Inr)
  have A: "accounted (tr_facts t) a" "cache_ok templates" using cached_ordinary_Inr [OF a] ok by (simp_all add: causal_ok_def)
  have C: "acc_ok tun" "acc_ok held"
      "ca_metrics tun = (if w \<le> int k \<and> int k < e then add_metrics (ca_metrics (cr_tuning r)) (wa_metrics a) else ca_metrics (cr_tuning r))"
      "ca_metrics held = (if e \<le> int k then add_metrics (ca_metrics (cr_held_out r)) (wa_metrics a) else ca_metrics (cr_held_out r))"
    using causal_account_Inr [OF acc _ _ A(1)] ok rep by (simp_all add: causal_ok_def reports_def)
  show ?thesis
    using ok A C counted_snoc [OF _ A(1) rep]
    by (simp add: causal_ok_def Let_def r' tuning_windows_def measured_windows_def)
qed

lemma replay_causal_ok:
  assumes "rmap (start_causal_run initial) targets = Inr runs0"
    and "rfold (replay_causal_window w e) runs0 pws = Inr runs"
  shows "\<forall>r \<in> set runs. causal_ok w e pws r"
proof (rule rfold_prefix_invariant [OF assms(2), where P = "\<lambda>pws runs. \<forall>r \<in> set runs. causal_ok w e pws r"])
  show "\<forall>r \<in> set runs0. causal_ok w e [] r" using rmap_eq_Inr_set [OF assms(1)] start_causal_ok by blast
next
  fix ys pw zs runs runs'
  assume ok: "\<forall>r \<in> set runs. causal_ok w e ys r" and step: "replay_causal_window w e runs pw = Inr runs'"
  obtain k win where pw: "pw = (k, win)" by (cases pw)
  obtain ts where ts: "rmap (\<lambda>r. advance_owned win (cr_state r)) runs = Inr ts"
      "rmap (account_causal_run w e (int k)) (zip runs ts) = Inr runs'"
    using step by (auto simp: replay_causal_window_def rbind_eq_Inr pw)
  show "\<forall>r \<in> set runs'. causal_ok w e (ys @ [pw]) r"
  proof
    fix r' assume "r' \<in> set runs'"
    from rmap_eq_Inr_set [OF ts(2) this] obtain r t where rt: "(r, t) \<in> set (zip runs ts)"
        "account_causal_run w e (int k) (r, t) = Inr r'" by auto
    obtain r0 :: causal_run where "advance_owned win (cr_state r0) = Inr t"
      using rmap_eq_Inr_set [OF ts(1) set_zip_rightD [OF rt(1)]] by blast
    then have "reports win t" using advance_window_reports by (simp add: advance_owned_window)
    then show "causal_ok w e (ys @ [pw]) r'"
      using account_causal_ok [OF rt(2)] ok set_zip_leftD [OF rt(1)] by (simp add: pw)
  qed
qed

text \<open>What a result says of the windows it accounts for.\<close>

definition accounts_for :: "publication_window list \<Rightarrow> simulation_result \<Rightarrow> bool" where
  "accounts_for ws r \<longleftrightarrow> sm_windows (sr_metrics r) = int (length ws) \<and>
     sm_queries (sr_metrics r) = sum_list (map pw_query_count ws) \<and>
     sm_updates (sr_metrics r) = int (length (window_updates ws)) \<and>
     sum_list (map snd (measured_counts_by_exact_index (sr_rotation_inventory r))) = sm_rotations (sr_metrics r) \<and>
     sum_list (map snd (sr_overflow_by_row r)) = sm_overflow_updates (sr_metrics r)"

lemma acc_result_accounts:
  assumes "acc_result acc = Inr r" and "acc_ok acc" and "counted ws (ca_metrics (accumulator_for s)) (ca_metrics acc)"
  shows "accounts_for ws r"
  using acc_result_ok [OF assms(2)] assms(1,3)
  by (auto simp: accounts_for_def counted_def accumulator_for_def zero_metrics_def)

lemma causal_results:
  assumes "simulate_targets_causal ws initial targets w e = Inr (tuning, held)"
  shows "(\<forall>x \<in> set tuning. accounts_for (drop (nat w) (take (nat e) ws)) (snd x)) \<and>
    (\<forall>x \<in> set held. accounts_for (drop (nat e) ws) (snd x))"
proof -
  obtain runs0 runs where bounds: "0 \<le> w" "w < e"
    and runs: "rmap (start_causal_run initial) targets = Inr runs0"
      "rfold (replay_causal_window w e) runs0 (enumerate 0 ws) = Inr runs"
    and res: "rmap (\<lambda>r. rbind (acc_result (cr_tuning r)) (\<lambda>s. Inr (tg_run_id (cr_target r), s))) runs = Inr tuning"
      "rmap (\<lambda>r. rbind (acc_result (cr_held_out r)) (\<lambda>s. Inr (tg_run_id (cr_target r), s))) runs = Inr held"
    using assms by (auto simp: simulate_targets_causal_def rbind_eq_Inr causal_boundaries_ok_def split: if_splits)
  have ok: "causal_ok w e (enumerate 0 ws) r" if "r \<in> set runs" for r using replay_causal_ok [OF runs] that by blast
  have ws: "tuning_windows w e (enumerate 0 ws) = drop (nat w) (take (nat e) ws)" "measured_windows e (enumerate 0 ws) = drop (nat e) ws"
    using bounds by (simp_all add: tuning_windows_enumerate measured_windows_enumerate)
  have "accounts_for (drop (nat w) (take (nat e) ws)) (snd x)" if "x \<in> set tuning" for x
    using rmap_eq_Inr_set [OF res(1) that] ok acc_result_accounts
    by (fastforce simp: rbind_eq_Inr causal_ok_def Let_def ws)
  moreover have "accounts_for (drop (nat e) ws) (snd x)" if "x \<in> set held" for x
    using rmap_eq_Inr_set [OF res(2) that] ok acc_result_accounts
    by (fastforce simp: rbind_eq_Inr causal_ok_def Let_def ws)
  ultimately show ?thesis by blast
qed

section \<open>The totals of both phases\<close>

lemma sample_causal: "\<exists>x. simulate_targets_causal sample_replay_windows sample_initial sample_targets 0 1 = Inr x"
proof -
  have "\<not> isl (simulate_targets_causal sample_replay_windows sample_initial sample_targets 0 1)" by code_simp
  then show ?thesis by (metis isl_def sum.exhaust_sel)
qed

text \<open>
  C26. The causal replay separates its phases. Although queries of a shape seen before are accounted
  from a template, every tuning result accounts for exactly the windows from the end of the warm-up
  to the end of the tuning phase, every held-out result for exactly the windows after it, and in both
  the inventories of rotations and overflows sum to the counters.
\<close>

theorem causal_totals:
  assumes "simulate_targets_causal ws initial targets warmup_end tuning_end = Inr (tuning, held_out)"
  shows "(\<forall>x \<in> set tuning. accounts_for (drop (nat warmup_end) (take (nat tuning_end) ws)) (snd x)) \<and>
    (\<forall>x \<in> set held_out. accounts_for (drop (nat tuning_end) ws) (snd x))"
  using causal_results [OF assms] .

theorem causal_totals_witness:
  "\<exists>tuning held_out. simulate_targets_causal sample_replay_windows sample_initial sample_targets 0 1 = Inr (tuning, held_out) \<and>
     (\<forall>x \<in> set tuning. sm_windows (sr_metrics (snd x)) = 1) \<and> (\<forall>x \<in> set held_out. sm_updates (sr_metrics (snd x)) = 1)"
proof -
  obtain tuning held_out where run: "simulate_targets_causal sample_replay_windows sample_initial sample_targets 0 1 = Inr (tuning, held_out)"
    using sample_causal by auto
  show ?thesis using causal_totals [OF run] run by (auto simp: accounts_for_def sample_replay_windows_def)
qed

end
