(* ===== verification/Strong_Replay_Properties.thy ===== *)
theory Strong_Replay_Properties
  imports Causal_Properties Strong_Correct
begin

text \<open>
  The replays of the strong reference: its totals reconcile as those of the ordinary strategies do,
  on the measured suffix and in both phases of the causal replay.
\<close>

section \<open>Strong transitions\<close>

definition strong_reports :: "publication_window \<Rightarrow> strong_transition \<Rightarrow> bool" where
  "strong_reports w t \<longleftrightarrow> tf_query_count (stt_facts t) = pw_query_count w \<and>
     tf_updates (stt_facts t) = int (length (pw_updates w)) \<and> 0 \<le> pw_query_count w \<and>
     tf_overflow (stt_facts t) = int (length (overflow_rows (stt_facts t))) \<and>
     (\<forall>b. stt_execution_bundle t = Some b \<longrightarrow> rotations_ok (rotation_counts_for_program (program (sb_cloud_plan b))))"

lemma checked_strong_facts:
  "checked_strong_transition st f bundle = Inr t \<Longrightarrow> stt_facts t = f \<and> 0 \<le> tf_query_count f \<and> stt_execution_bundle t = bundle"
  by (auto simp: checked_strong_transition_def split: if_splits)

lemma compiled_bundle_rotations:
  assumes "compile_bundle_if n base delta = Inr bundle" and "bundle = Some b"
  shows "rotations_ok (rotation_counts_for_program (program (sb_cloud_plan b)))"
proof -
  have "compile_strong_execution base delta = Inr b"
    using assms by (auto simp: compile_bundle_if_def rbind_eq_Inr split: if_splits)
  then obtain q where "strong_of b q" using compile_strong_execution_Inr by blast
  then show ?thesis using compiled_rotation_counts by (auto simp: strong_of_def)
qed

lemma advance_owned_strong_reports:
  assumes "advance_owned_strong w st = Inr t"
  shows "strong_reports w t"
proof -
  have "advance_strong_window False st w = Inr t"
    using assms by (simp add: advance_owned_strong_def advance_strong_publication_def sbind_def
        consume_or_check_strong_def slift_def consume_predecessor_def fresh_predecessor_def split: sum.splits)
  then show ?thesis unfolding advance_strong_window_def Let_def
    by (cases "pw_updates w = []")
      (auto simp: rbind_eq_Inr strong_reports_def patch_facts_def no_facts_def case_prod_unfold
        dest!: checked_strong_facts checked_facts_Inr dest: compiled_bundle_rotations)
qed

lemma account_strong_Inr:
  assumes run: "account_strong_transition t = Inr a" and rep: "strong_reports w t"
  shows "accounted (stt_facts t) a"
proof -
  obtain c where run: "account_strong_transition_with_bundle t = Inr (a, c)"
    using run by (auto simp: account_strong_transition_def rbind_eq_Inr split: prod.splits)
  obtain m where m: "transition_metrics strong_reference_strategy (stt_facts t) 0 = Inr m"
    using run unfolding account_strong_transition_with_bundle_def Let_def
    by (auto simp only: rbind_eq_Inr split: if_splits)
  note M = transition_metrics_Inr [OF m]
  show ?thesis
  proof (cases "tf_query_count (stt_facts t) = 0")
    case True
    then show ?thesis using run m M
      by (simp add: account_strong_transition_with_bundle_def Let_def split: if_splits) (auto simp: accounted_def)
  next
    case False
    then show ?thesis using run m M rep unfolding account_strong_transition_with_bundle_def Let_def
      by (auto simp: rbind_eq_Inr accounted_def query_metrics_def rotations_ok_sort strong_reports_def
          split: option.splits if_splits)
  qed
qed

lemma cached_strong_Inr:
  assumes run: "cached_strong_accounting t cache = Inr (a, cache')" and ok: "cache_ok cache" and rep: "strong_reports w t"
  shows "accounted (stt_facts t) a \<and> cache_ok cache'"
proof (cases "tf_query_count (stt_facts t) = 0")
  case True
  then show ?thesis using run ok account_strong_Inr [OF _ rep] by (auto simp: cached_strong_accounting_def rbind_eq_Inr)
next
  case False
  obtain shape where shape: "strong_query_shape t = Inr shape"
    using run False by (auto simp: cached_strong_accounting_def rbind_eq_Inr)
  show ?thesis
  proof (cases "map_of cache shape")
    case None
    then show ?thesis using run False shape ok account_strong_Inr [OF _ rep]
      by (auto simp: cached_strong_accounting_def rbind_eq_Inr intro: cache_ok_update query_template_ok)
  next
    case (Some tpl)
    then obtain t0 z where z: "strong_without_queries t = Inr t0" "account_strong_transition t0 = Inr z"
        "a = apply_query_template z tpl (tf_query_count (stt_facts t))" "cache' = cache"
      using run False shape by (auto simp: cached_strong_accounting_def rbind_eq_Inr)
    have t0: "stt_facts t0 = (stt_facts t)\<lparr>tf_query_count := 0\<rparr>" "stt_execution_bundle t0 = None"
      using z(1) by (auto simp: strong_without_queries_def rbind_eq_Inr dest!: checked_facts_Inr checked_strong_facts)
    have "strong_reports (w\<lparr>pw_query_count := 0\<rparr>) t0" using rep t0 by (simp add: strong_reports_def)
    moreover have "template_ok tpl" using ok map_of_SomeD [OF Some] by (auto simp: cache_ok_def)
    ultimately show ?thesis using apply_template_accounted account_strong_Inr [OF z(2)] z(3,4) ok t0 by simp
  qed
qed

section \<open>The replay\<close>

lemma strong_counted:
  assumes "counted ws m m'" and "accounted (stt_facts t) a" and "strong_reports w t"
  shows "counted (ws @ [w]) m (add_metrics m' (wa_metrics a))"
  using assms by (simp add: counted_def accounted_def strong_reports_def add_metrics_def window_updates_def)

abbreviation strong_zero :: strategy_metrics where
  "strong_zero \<equiv> ca_metrics (accumulator_for strong_reference_strategy)"

lemma replay_strong_ok:
  assumes "rfold (replay_strong_window from) (st, accumulator_for strong_reference_strategy) pws = Inr (st', acc')"
  shows "acc_ok acc' \<and> counted (measured_windows from pws) strong_zero (ca_metrics acc')"
proof -
  define P where "P pws = (\<lambda>(st :: strong_strategy_state, acc). acc_ok acc \<and>
    counted (measured_windows from pws) strong_zero (ca_metrics acc))" for pws
  have "P pws (st', acc')"
  proof (rule rfold_prefix_invariant [OF assms, where P = P])
    show "P [] (st, accumulator_for strong_reference_strategy)"
      by (simp add: P_def accumulator_for_ok counted_def measured_windows_def)
  next
    fix ys pw zs s s' assume P: "P ys s" and step: "replay_strong_window from s pw = Inr s'"
    obtain k w where pw: "pw = (k, w)" by (cases pw)
    obtain st acc where s: "s = (st, acc)" by (cases s)
    obtain t a acc' where t: "advance_owned_strong w st = Inr t" and a: "account_strong_transition t = Inr a"
      and up: "update_position (from \<le> int k) (pw_query_count w) a (overflow_rows (stt_facts t)) acc = Inr acc'"
      and s': "s' = (stt_state t, acc')"
      using step by (auto simp: replay_strong_window_def update_position_def s pw rbind_eq_Inr Let_def)
    note rep = advance_owned_strong_reports [OF t]
    note A = account_strong_Inr [OF a rep]
    have "update_position (from \<le> int k) (tf_query_count (stt_facts t)) a (overflow_rows (stt_facts t)) acc = Inr acc'"
      using up rep by (simp add: strong_reports_def)
    from update_position_Inr [OF this _ A] P rep strong_counted [OF _ A rep]
    show "P (ys @ [pw]) s'" by (simp add: P_def s s' pw measured_windows_def strong_reports_def)
  qed
  then show ?thesis by (simp add: P_def)
qed

lemma replay_strong_causal_ok:
  assumes "rfold (replay_strong_causal_window w e)
      (st, (accumulator_for strong_reference_strategy, accumulator_for strong_reference_strategy), []) pws = Inr (st', (tun', held'), cache')"
  shows "acc_ok tun' \<and> acc_ok held' \<and> counted (tuning_windows w e pws) strong_zero (ca_metrics tun') \<and>
    counted (measured_windows e pws) strong_zero (ca_metrics held')"
proof -
  define P where "P pws = (\<lambda>(st :: strong_strategy_state, (tun, held), cache). acc_ok tun \<and> acc_ok held \<and> cache_ok cache \<and>
    counted (tuning_windows w e pws) strong_zero (ca_metrics tun) \<and>
    counted (measured_windows e pws) strong_zero (ca_metrics held))" for pws
  have "P pws (st', (tun', held'), cache')"
  proof (rule rfold_prefix_invariant [OF assms, where P = P])
    show "P [] (st, (accumulator_for strong_reference_strategy, accumulator_for strong_reference_strategy), [])"
      by (simp add: P_def accumulator_for_ok cache_ok_def counted_def tuning_windows_def measured_windows_def)
  next
    fix ys pw zs s s' assume P: "P ys s" and step: "replay_strong_causal_window w e s pw = Inr s'"
    obtain k win where pw: "pw = (k, win)" by (cases pw)
    obtain st tun held cache where s: "s = (st, (tun, held), cache)" by (metis prod.collapse)
    obtain t a cache' tun' held' where t: "advance_owned_strong win st = Inr t"
      and a: "cached_strong_accounting t cache = Inr (a, cache')"
      and acc: "causal_account w e (int k) a (overflow_rows (stt_facts t)) (tun, held) = Inr (tun', held')"
      and s': "s' = (stt_state t, (tun', held'), cache')"
      using step by (auto simp: replay_strong_causal_window_def s pw rbind_eq_Inr)
    note rep = advance_owned_strong_reports [OF t]
    have ok: "acc_ok tun" "acc_ok held" "cache_ok cache" using P by (simp_all add: P_def s)
    note A = cached_strong_Inr [OF a ok(3) rep]
    have "0 \<le> tf_query_count (stt_facts t)" "tf_overflow (stt_facts t) = int (length (overflow_rows (stt_facts t)))"
      using rep by (simp_all add: strong_reports_def)
    from causal_account_Inr [OF acc ok(1,2) conjunct1 [OF A] this] P A strong_counted [OF _ conjunct1 [OF A] rep]
    show "P (ys @ [pw]) s'" by (simp add: P_def s s' pw measured_windows_def tuning_windows_def)
  qed
  then show ?thesis by (simp add: P_def)
qed

section \<open>The totals of the strong reference\<close>

definition strong_sample_config :: simulation_config where
  "strong_sample_config = sample_config\<lparr>sim_effective_slots := 128\<rparr>"

definition strong_sample_windows :: "publication_window list" where
  "strong_sample_windows = [
     \<lparr>pw_index = 0, pw_start_time = Finite 0, pw_end_time = Finite 1,
      pw_updates = [\<lparr>nu_row = 0, nu_col = 0, nu_before = 3, nu_after = 5\<rparr>], pw_query_count = 0, pw_reason = ''version''\<rparr>,
     \<lparr>pw_index = 1, pw_start_time = Finite 1, pw_end_time = Finite 2,
      pw_updates = [\<lparr>nu_row = 0, nu_col = 0, nu_before = 5, nu_after = 7\<rparr>], pw_query_count = 0, pw_reason = ''version''\<rparr>]"

text \<open>
  C27. The strong reference reports its measured suffix: the counters of the result are those of the
  windows from \<open>measure_from\<close> on, and its rotations and overflows sum to them.
\<close>

theorem strong_reference_totals:
  assumes "simulate_strong_reference ws initial config measure_from = Inr r"
  shows "accounts_for (drop (nat measure_from) ws) r"
proof -
  obtain st st' acc where bound: "0 \<le> measure_from"
    and run: "rfold (replay_strong_window measure_from) (st, accumulator_for strong_reference_strategy)
      (enumerate 0 ws) = Inr (st', acc)" and res: "acc_result acc = Inr r"
    using assms by (auto simp: simulate_strong_reference_def rbind_eq_Inr split: if_splits)
  show ?thesis using replay_strong_ok [OF run] acc_result_accounts [OF res] measured_windows_enumerate [OF bound, of 0 ws]
    by auto
qed

theorem strong_reference_totals_witness:
  "\<exists>r. simulate_strong_reference strong_sample_windows sample_initial strong_sample_config 1 = Inr r \<and>
     sm_windows (sr_metrics r) = 1 \<and> sm_updates (sr_metrics r) = 1"
proof -
  have "\<not> isl (simulate_strong_reference strong_sample_windows sample_initial strong_sample_config 1)" by code_simp
  then obtain r where run: "simulate_strong_reference strong_sample_windows sample_initial strong_sample_config 1 = Inr r"
    by (metis isl_def sum.exhaust_sel)
  show ?thesis using strong_reference_totals [OF run] run by (auto simp: accounts_for_def strong_sample_windows_def)
qed

text \<open>
  C28. So does its causal replay, whose queries of a shape seen before are accounted from a template:
  the tuning result accounts for the windows of the tuning phase, the held-out result for those after it.
\<close>

theorem strong_causal_totals:
  assumes "simulate_strong_reference_causal ws initial config warmup_end tuning_end = Inr (tuning, held_out)"
  shows "accounts_for (drop (nat warmup_end) (take (nat tuning_end) ws)) tuning \<and>
    accounts_for (drop (nat tuning_end) ws) held_out"
proof -
  obtain st st' tun held cache where bounds: "0 \<le> warmup_end" "0 \<le> tuning_end"
    and run: "rfold (replay_strong_causal_window warmup_end tuning_end)
      (st, (accumulator_for strong_reference_strategy, accumulator_for strong_reference_strategy), [])
      (enumerate 0 ws) = Inr (st', (tun, held), cache)"
    and res: "acc_result tun = Inr tuning" "acc_result held = Inr held_out"
    using assms by (auto simp: simulate_strong_reference_causal_def rbind_eq_Inr causal_boundaries_ok_def split: if_splits)
  note R = replay_strong_causal_ok [OF run]
  then show ?thesis
    using acc_result_accounts [OF res(1)] acc_result_accounts [OF res(2)]
      tuning_windows_enumerate [OF bounds, of 0 ws] measured_windows_enumerate [OF bounds(2), of 0 ws] by auto
qed

theorem strong_causal_totals_witness:
  "\<exists>tuning held_out. simulate_strong_reference_causal strong_sample_windows sample_initial strong_sample_config 0 1 =
     Inr (tuning, held_out) \<and> sm_windows (sr_metrics tuning) = 1 \<and> sm_updates (sr_metrics held_out) = 1"
proof -
  have "\<not> isl (simulate_strong_reference_causal strong_sample_windows sample_initial strong_sample_config 0 1)" by code_simp
  then obtain tuning held_out where
      run: "simulate_strong_reference_causal strong_sample_windows sample_initial strong_sample_config 0 1 = Inr (tuning, held_out)"
    by (metis isl_def sum.exhaust_sel prod.collapse)
  show ?thesis using strong_causal_totals [OF run] run by (auto simp: accounts_for_def strong_sample_windows_def)
qed

end
