(* ===== verification/Spec2Isabelle.thy ===== *)
theory Spec2Isabelle
  imports Lifecycle_Properties Strong_Properties Publish_Properties Strong_Strategy Event_Properties Delta_Advance
    Strategy_Properties Bisect_Facts Strong_Replay_Properties
begin

text \<open>
  A model of \<open>dynamic_cssc\<close>, the query path of dynamic sparse matrix-vector products over
  packed ciphertexts, with its correctness theorems. All source names below are those of
  \<open>src/src/dynamic_cssc\<close>.

  The program. A client owns a sparse integer matrix that changes in windows of point updates
  (\<open>events.py\<close>). A strategy (\<open>strategy_state.py\<close>) keeps it published as chunked CSSC components
  (\<open>cssc.py\<close>), packed-COO segments or a segmented delta (\<open>strong_packed_coo.py\<close>). A query
  compiles these sources into a Cloud program over ciphertext slots (\<open>query_compiler.py\<close>,
  \<open>cloud_execution_plan.py\<close>), prepares one-time masks for the shares the Cloud returns
  (\<open>output_plan.py\<close>), reserves and commits them in a persistent ledger (\<open>mask_ledger.py\<close>), and
  executes against the plaintext oracle (\<open>plaintext_oracle.py\<close>); the ordinary and the strong
  lifecycle (\<open>ordinary_query_lifecycle.py\<close>, \<open>strong_execution.py\<close>) run these steps in order. The
  simulator (\<open>simulator.py\<close>) replays windows through several strategies and adds up what each
  transition and its queries cost (\<open>metrics.py\<close>).

  Definitions, one group per source file, in the order of the code.
  \<open>Prelude\<close>: raised exceptions as a sum (\<open>res\<close>), loops that may raise (\<open>rfold\<close>, \<open>rmap\<close>), actions
  on an external state that stays changed when the action raises, Python's \<open>range\<close>, dictionaries
  and number formats. \<open>Double\<close>: the doubles that times are, with their rounding, infinities and NaN.
  \<open>Canonical\<close>: canonical JSON and SHA-256 on 32-bit words.
  \<open>Output_Plan\<close>: \<open>output_plan.py\<close>. \<open>Cssc_Layout\<close>: \<open>cssc.py\<close>. \<open>Cloud_Plan\<close>:
  \<open>cloud_execution_plan.py\<close>. \<open>Plaintext_Oracle\<close>: \<open>plaintext_oracle.py\<close>. \<open>Events\<close>: \<open>events.py\<close>.
  \<open>Strong_Coo\<close>: \<open>strong_packed_coo.py\<close>. \<open>Query_Compiler\<close>: \<open>query_compiler.py\<close>. \<open>Mask_Ledger\<close>:
  \<open>mask_ledger.py\<close>. \<open>Ordinary_Lifecycle\<close>: \<open>ordinary_query_lifecycle.py\<close>. \<open>Strategy_State\<close>,
  \<open>Strategy_Advance\<close> and \<open>Strong_Strategy\<close>: \<open>strategy_state.py\<close>. \<open>Strong_Execution\<close>:
  \<open>strong_execution.py\<close>. \<open>Metrics\<close>: \<open>metrics.py\<close>. \<open>Simulator\<close> and \<open>Simulation\<close>: \<open>simulator.py\<close>, the
  accounting of one transition, and the templates, accumulators and replays.

  A frozen dataclass is a record, an optional field an option, a dictionary an association list
  in insertion order with distinct keys, an object that a method marks as used (a capability, a
  validated predecessor) or a database the state of an action. A private capability argument is
  a datatype of its possible origins. Random samples are a stream parameter.

  Lemmas. \<open>Output_Plan_Facts\<close>, \<open>Oracle_Facts\<close>: the analysis of plans, the product and the
  reconstruction. \<open>Cloud_Facts\<close>: validated programs execute once their
  rotation indices fit the slots, which validation leaves to the evaluator.
  \<open>Ledger_Facts\<close>: the uniqueness of
  reservations and of consumption, proved in two locales that the ledger interprets.
  \<open>Reduction_Facts\<close>: the rotate-and-add reductions. \<open>Component_Facts\<close>, \<open>Delta_Facts\<close>,
  \<open>Coverage_Facts\<close>, \<open>Source_Facts\<close>: what the validated sources of a query hold. \<open>Compiler_Facts\<close>,
  \<open>Compiler_Ids\<close>, \<open>Compiler_Shape\<close>, \<open>Query_Correct\<close>: what the compiler emits. \<open>Lifecycle_Correct\<close>,
  \<open>Lifecycle_Total\<close>, \<open>Lifecycle_Checks\<close>, \<open>Sample_Query\<close>, \<open>Lifecycle_Properties\<close>: the lifecycle
  computes the product, returns, agrees with its checked form, replays, and runs once; the same of
  the strong lifecycle in \<open>Strong_Correct\<close>, \<open>Strong_Total\<close>, \<open>Strong_Checks\<close>, \<open>Sample_Strong\<close> and
  \<open>Strong_Properties\<close>.
  \<open>Fill_Facts\<close>, \<open>Layout_Facts\<close>, \<open>Publish_Facts\<close>, \<open>Publish_Entries\<close>, \<open>Publish_Correct\<close>,
  \<open>Publish_Properties\<close>: what publication produces is well formed, is accepted by the compiler
  and holds exactly the published matrix. \<open>Event_Facts\<close>, \<open>Event_Times\<close>, \<open>Event_Properties\<close>: windows
  refine the stream of events, are accounted, and are fresh up to the rounding of doubles.
  \<open>Delta_Advance\<close>: advancing the packed delta refines updating a matrix. \<open>Strategy_Facts\<close>, \<open>Strategy_Properties\<close>: so does every strategy,
  on its checked and on its trusted path. \<open>Bisect_Facts\<close>: the sorted index of free lanes.
  \<open>Simulation_Facts\<close>, \<open>Simulation_Properties\<close>: targets replayed together publish one matrix and get
  the results they get alone, and the totals reconcile; \<open>Causal_Properties\<close>,
  \<open>Strong_Replay_Properties\<close>: so do those of the causal replays, with their query templates, and of
  the strong reference.

  Bounds. Python integers are \<open>int\<close>. Event and window times are doubles, as multiples of the smallest
  positive one; the theorem on freshness asks for finite timestamps. Every loop is structural or has a measure; where the
  measure needs a guard the source does not have, a lemma shows that the guard always holds
  (\<open>publish_chunk_width_pos\<close>, \<open>reduction_powers_run\<close>). No definition uses fuel.

  Not modelled: argument checks that only reject values of another type (a definition's type
  excludes them), the JSON decoders of retained preparation bytes, opening and migrating the
  SQLite file, floating-point reporting, and everything around the query protocol - the C++
  runner and its OpenFHE processes, the publication and performance campaigns (artifacts,
  subprocesses, statistics over files, GitHub workflows), the command line and the tests. Of the
  query templates it is shown that an accounting made from one is complete and consistent, not that
  two queries of one shape cost the same.
\<close>

end
